(* ===== verification/CsPrelude.thy ===== *)
theory CsPrelude
  imports Main "HOL-Library.AList" "HOL-Library.Char_ord" "HOL-Library.List_Lexorder"
    "HOL-Library.Product_Lexorder" "HOL-Library.State_Monad" "HOL-Library.Word"
begin

text \<open>
  The prelude of the library. It holds what every component shares and what no component
  owns: the collections of rewrite and composition rules, facts on association lists (the
  representation of a Go map whose keys the code enumerates), a small Hoare logic for
  \<open>State_Monad\<close> programs, and Go's arithmetic on \<^verbatim>\<open>time.Time\<close> and \<^verbatim>\<open>time.Duration\<close>.

  \<open>ensures P m Q\<close> says that running \<open>m\<close> from a state with \<open>P\<close> ends, on every path, in a state with \<open>P\<close>, and that \<open>Q\<close>
  holds of what it returns. The rules of the collection \<open>ensures_rules\<close> follow the shape of a program.
\<close>

named_theorems ensures_rules "composition rules for invariants and postconditions of monadic programs"
named_theorems wf_intros "introduction rules for well-formedness of states"

section \<open>Association lists\<close>

text \<open>A Go map as a list of entries with distinct keys: lookup, store and delete.\<close>

abbreviation alookup :: "('k \<times> 'v) list \<Rightarrow> 'k \<Rightarrow> 'v option" where
  "alookup \<equiv> map_of"

abbreviation aput :: "'k \<Rightarrow> 'v \<Rightarrow> ('k \<times> 'v) list \<Rightarrow> ('k \<times> 'v) list" where
  "aput \<equiv> AList.update"

abbreviation adel :: "'k \<Rightarrow> ('k \<times> 'v) list \<Rightarrow> ('k \<times> 'v) list" where
  "adel \<equiv> AList.delete"

lemma alookup_aput [simp]: "alookup (aput k v m) j = (if j = k then Some v else alookup m j)"
  by (simp add: update_conv')

lemma alookup_adel [simp]: "alookup (adel k m) j = (if j = k then None else alookup m j)"
  by (simp add: delete_conv')

lemma aput_set_subset: "set (aput k v m) \<subseteq> insert (k, v) (set m)"
  by (induction m) auto

lemma adel_set_subset: "set (adel k m) \<subseteq> set m"
  by (auto simp: AList.delete_eq)

lemma alookup_in_set: "alookup m k = Some v \<Longrightarrow> (k, v) \<in> set m"
  by (rule map_of_SomeD)

lemma alookup_SomeI:
  "distinct (map fst m) \<Longrightarrow> (k, v) \<in> set m \<Longrightarrow> alookup m k = Some v"
  by simp

lemma distinct_keys_aput [simp, intro]:
  "distinct (map fst m) \<Longrightarrow> distinct (map fst (aput k v m))"
  by (rule distinct_update)

lemma distinct_keys_adel [simp, intro]:
  "distinct (map fst m) \<Longrightarrow> distinct (map fst (adel k m))"
  by (rule distinct_delete)

lemma aput_new: "k \<notin> set (map fst m) \<Longrightarrow> aput k v m = m @ [(k, v)]"
  by (induction m) auto

section \<open>Lists\<close>

lemma take_eq_prefix: "take n xs @ drop n xs = xs"
  by simp

lemma list_all_take: "list_all P xs \<Longrightarrow> list_all P (take n xs)"
  by (auto simp: list_all_iff dest: in_set_takeD)

lemma list_all_drop: "list_all P xs \<Longrightarrow> list_all P (drop n xs)"
  by (auto simp: list_all_iff dest: in_set_dropD)

lemma distinct_map_take: "distinct (map f xs) \<Longrightarrow> distinct (map f (take n xs))"
  by (simp add: take_map [symmetric])

section \<open>Programs with an invariant and a postcondition\<close>

definition ensures :: "('s \<Rightarrow> bool) \<Rightarrow> ('s, 'a) state \<Rightarrow> ('a \<Rightarrow> bool) \<Rightarrow> bool" where
  "ensures P m Q \<longleftrightarrow> (\<forall>s. P s \<longrightarrow> P (snd (run_state m s)) \<and> Q (fst (run_state m s)))"

abbreviation keeps :: "('s \<Rightarrow> bool) \<Rightarrow> ('s, 'a) state \<Rightarrow> bool" where
  "keeps P m \<equiv> ensures P m (\<lambda>_. True)"

lemma run_state_simps [simp]:
  "run_state (State_Monad.return x) s = (x, s)"
  "run_state State_Monad.get s = (s, s)"
  "run_state (State_Monad.set t) s = ((), t)"
  "run_state (State_Monad.update f) s = ((), f s)"
  by (simp_all add: State_Monad.return_def State_Monad.get_def State_Monad.set_def
      State_Monad.update_def State_Monad.bind_def)

lemma run_state_bind [simp]:
  "run_state (State_Monad.bind m f) s = (case run_state m s of (a, t) \<Rightarrow> run_state (f a) t)"
  by (simp add: State_Monad.bind_def split: prod.splits)

lemma ensuresI: "(\<And>s. P s \<Longrightarrow> P (snd (run_state m s)) \<and> Q (fst (run_state m s))) \<Longrightarrow> ensures P m Q"
  by (simp add: ensures_def)

lemma ensuresD: "ensures P m Q \<Longrightarrow> P s \<Longrightarrow> run_state m s = (a, t) \<Longrightarrow> P t \<and> Q a"
  by (auto simp: ensures_def)

lemma keepsD: "keeps P m \<Longrightarrow> P s \<Longrightarrow> P (snd (run_state m s))"
  by (simp add: ensures_def)

lemma keeps_True: "keeps (\<lambda>_. True) m"
  by (simp add: ensures_def)

lemma ensures_bind:
  "ensures P m R \<Longrightarrow> (\<And>x. R x \<Longrightarrow> ensures P (f x) Q) \<Longrightarrow> ensures P (State_Monad.bind m f) Q"
  by (fastforce simp: ensures_def split: prod.splits)

lemma ensures_weaken: "ensures P m R \<Longrightarrow> (\<And>x. R x \<Longrightarrow> Q x) \<Longrightarrow> ensures P m Q"
  by (auto simp: ensures_def)

lemma ensures_get_bind:
  "(\<And>s. P s \<Longrightarrow> ensures P (f s) Q) \<Longrightarrow> ensures P (State_Monad.bind State_Monad.get f) Q"
  by (simp add: ensures_def)

lemma ensures_return [ensures_rules]: "Q x \<Longrightarrow> ensures P (State_Monad.return x) Q"
  by (simp add: ensures_def)

lemma ensures_if [ensures_rules]:
  "(b \<Longrightarrow> ensures P m Q) \<Longrightarrow> (\<not> b \<Longrightarrow> ensures P n Q) \<Longrightarrow> ensures P (if b then m else n) Q"
  by simp

lemma ensures_let [ensures_rules]: "ensures P (f x) Q \<Longrightarrow> ensures P (Let x f) Q"
  by (simp add: Let_def)

lemma ensures_case_sum [ensures_rules]:
  "(\<And>e. r = Inl e \<Longrightarrow> ensures P (f e) Q) \<Longrightarrow> (\<And>x. r = Inr x \<Longrightarrow> ensures P (g x) Q)
   \<Longrightarrow> ensures P (case r of Inl e \<Rightarrow> f e | Inr x \<Rightarrow> g x) Q"
  by (simp split: sum.splits)

lemma ensures_case_option [ensures_rules]:
  "(r = None \<Longrightarrow> ensures P n Q) \<Longrightarrow> (\<And>x. r = Some x \<Longrightarrow> ensures P (f x) Q)
   \<Longrightarrow> ensures P (case r of None \<Rightarrow> n | Some x \<Rightarrow> f x) Q"
  by (simp split: option.splits)

lemma ensures_case_prod [ensures_rules]:
  "(\<And>x y. p = (x, y) \<Longrightarrow> ensures P (f x y) Q) \<Longrightarrow> ensures P (case p of (x, y) \<Rightarrow> f x y) Q"
  by (simp split: prod.splits)

lemma ensures_case_list [ensures_rules]:
  "(r = [] \<Longrightarrow> ensures P n Q) \<Longrightarrow> (\<And>x xs. r = x # xs \<Longrightarrow> ensures P (f x xs) Q)
   \<Longrightarrow> ensures P (case r of [] \<Rightarrow> n | x # xs \<Rightarrow> f x xs) Q"
  by (simp split: list.splits)

lemma ensures_update: "(\<And>s. P s \<Longrightarrow> P (f s)) \<Longrightarrow> Q () \<Longrightarrow> ensures P (State_Monad.update f) Q"
  by (simp add: ensures_def)

primrec fold_prog :: "('b \<Rightarrow> 'a \<Rightarrow> ('s, 'b) state) \<Rightarrow> 'b \<Rightarrow> 'a list \<Rightarrow> ('s, 'b) state" where
  "fold_prog f acc [] = State_Monad.return acc"
| "fold_prog f acc (x # xs) = State_Monad.bind (f acc x) (\<lambda>acc'. fold_prog f acc' xs)"

lemma ensures_fold_prog:
  "Q acc \<Longrightarrow> (\<And>a x. Q a \<Longrightarrow> x \<in> set xs \<Longrightarrow> ensures P (f a x) Q) \<Longrightarrow> ensures P (fold_prog f acc xs) Q"
proof (induction xs arbitrary: acc)
  case Nil
  then show ?case by (simp add: ensures_return)
next
  case (Cons x xs)
  then show ?case by (auto intro!: ensures_bind [where R = Q])
qed

primrec map_prog :: "('a \<Rightarrow> ('s, 'b) state) \<Rightarrow> 'a list \<Rightarrow> ('s, 'b list) state" where
  "map_prog f [] = State_Monad.return []"
| "map_prog f (x # xs) =
     State_Monad.bind (f x) (\<lambda>y. State_Monad.bind (map_prog f xs) (\<lambda>ys. State_Monad.return (y # ys)))"

lemma ensures_map_prog:
  "(\<And>x. x \<in> set xs \<Longrightarrow> ensures P (f x) (R x)) \<Longrightarrow> ensures P (map_prog f xs) (list_all2 R xs)"
proof (induction xs)
  case Nil
  then show ?case by (simp add: ensures_return)
next
  case (Cons x xs)
  then show ?case
    by (auto intro!: ensures_bind [where R = "R x"] ensures_bind [where R = "list_all2 R xs"] ensures_return)
qed

section \<open>Go's time and duration arithmetic\<close>

text \<open>
  A \<^verbatim>\<open>time.Time\<close> is a count of nanoseconds since Go's zero time, so \<open>IsZero\<close> is equality with 0.
  A \<^verbatim>\<open>time.Duration\<close> is an \<open>int64\<close> of nanoseconds: products wrap around, and \<open>Time.Sub\<close> saturates.
\<close>

type_synonym time = int
type_synonym duration = int

definition wrap64 :: "int \<Rightarrow> int" where
  "wrap64 i = (i + 2 ^ 63) mod 2 ^ 64 - 2 ^ 63"

definition dur_mul :: "int \<Rightarrow> duration \<Rightarrow> duration" where
  "dur_mul n d = wrap64 (n * d)"

definition dur_add :: "duration \<Rightarrow> duration \<Rightarrow> duration" where
  "dur_add a b = wrap64 (a + b)"

definition time_sub :: "time \<Rightarrow> time \<Rightarrow> duration" where
  "time_sub a b = max (- (2 ^ 63)) (min (2 ^ 63 - 1) (a - b))"

definition second :: duration where "second = 1000000000"
definition minute :: duration where "minute = 60000000000"
definition hour :: duration where "hour = 3600000000000"

lemmas dur_unit_defs = second_def minute_def hour_def

lemma wrap64_id: "- (2 ^ 63) \<le> i \<Longrightarrow> i < 2 ^ 63 \<Longrightarrow> wrap64 i = i"
  by (simp add: wrap64_def)

lemma wrap64_range: "- (2 ^ 63) \<le> wrap64 i \<and> wrap64 i < 2 ^ 63"
proof -
  have "0 \<le> (i + 2 ^ 63) mod 2 ^ 64" and "(i + 2 ^ 63) mod 2 ^ 64 < (2 :: int) ^ 64"
    by simp_all
  then show ?thesis by (simp add: wrap64_def)
qed

lemma dur_mul_minute:
  "0 \<le> n \<Longrightarrow> n \<le> 525600 \<Longrightarrow> dur_mul n minute = n * minute"
  by (auto simp: dur_mul_def minute_def intro!: wrap64_id)

lemma time_sub_eq: "\<bar>a - b\<bar> < 2 ^ 63 \<Longrightarrow> time_sub a b = a - b"
  by (auto simp: time_sub_def)

section \<open>Keyed stores\<close>

text \<open>
  The contract of a keyed store: what is read after a write and after a removal, for the keys the store admits.
\<close>

locale keyed_store =
  fixes admits :: "'k \<Rightarrow> bool"
    and find_at :: "'s \<Rightarrow> 'k \<Rightarrow> 'v option"
    and store_at :: "'k \<Rightarrow> 'v \<Rightarrow> 's \<Rightarrow> 's"
    and remove_at :: "'k \<Rightarrow> 's \<Rightarrow> 's"
  assumes find_store: "admits j \<Longrightarrow> admits k \<Longrightarrow> find_at (store_at k v m) j = (if j = k then Some v else find_at m j)"
    and find_remove: "admits j \<Longrightarrow> admits k \<Longrightarrow> find_at (remove_at k m) j = (if j = k then None else find_at m j)"
begin

lemma find_last: "admits k \<Longrightarrow> find_at (store_at k v (store_at k u m)) k = Some v"
  by (simp add: find_store)

lemma find_frame:
  "admits j \<Longrightarrow> admits k \<Longrightarrow> j \<noteq> k \<Longrightarrow> find_at (store_at k v m) j = find_at m j \<and> find_at (remove_at k m) j = find_at m j"
  by (simp add: find_store find_remove)

lemma remove_store: "admits j \<Longrightarrow> admits k \<Longrightarrow> find_at (remove_at k (store_at k v m)) j = find_at (remove_at k m) j"
  by (simp add: find_store find_remove)

end

interpretation go_map: keyed_store "\<lambda>_. True" alookup aput adel
  by unfold_locales simp_all

end
