(* ===== verification/GoStrings.thy ===== *)
theory GoStrings
  imports CsPrelude
begin

text \<open>
  The parts of Go's \<^verbatim>\<open>strings\<close>, \<^verbatim>\<open>strconv\<close>, \<^verbatim>\<open>unicode/utf8\<close> and \<^verbatim>\<open>path\<close> packages that cs-plane calls. A Go
  string is a byte sequence and so is a \<open>string\<close> here (a \<open>char\<close> is a byte). Operations that
  Go defines on code points are written on the UTF-8 encodings of those code points, so they
  agree with Go on every byte sequence, valid UTF-8 or not.

  Case mapping is the one exception: \<open>to_lower\<close>, \<open>to_upper\<close> and \<open>equal_fold\<close> give the ASCII image
  of Go's mapping (with the code points outside ASCII whose image is ASCII) and leave the other code points alone.
  Every caller compares the result with an ASCII constant, where the two agree.
\<close>

abbreviation nl :: char where "nl \<equiv> CHR 0x0A"
abbreviation cr :: char where "cr \<equiv> CHR 0x0D"
abbreviation nul :: char where "nul \<equiv> CHR 0x00"

section \<open>Prefixes, suffixes, substrings\<close>

definition has_prefix :: "string \<Rightarrow> string \<Rightarrow> bool" where
  "has_prefix s p \<longleftrightarrow> take (length p) s = p"

definition has_suffix :: "string \<Rightarrow> string \<Rightarrow> bool" where
  "has_suffix s p \<longleftrightarrow> length p \<le> length s \<and> drop (length s - length p) s = p"

definition trim_prefix :: "string \<Rightarrow> string \<Rightarrow> string" where
  "trim_prefix s p = (if has_prefix s p then drop (length p) s else s)"

definition cut_prefix :: "string \<Rightarrow> string \<Rightarrow> string \<times> bool" where
  "cut_prefix s p = (if has_prefix s p then (drop (length p) s, True) else (s, False))"

definition trim_suffix :: "string \<Rightarrow> string \<Rightarrow> string" where
  "trim_suffix s p = (if has_suffix s p then take (length s - length p) s else s)"

fun contains :: "string \<Rightarrow> string \<Rightarrow> bool" where
  "contains [] p = (p = [])"
| "contains (c # s) p = (has_prefix (c # s) p \<or> contains s p)"

definition contains_any :: "string \<Rightarrow> string \<Rightarrow> bool" where
  "contains_any s chars \<longleftrightarrow> list_ex (\<lambda>c. c \<in> set chars) s"

text \<open>\<open>cut s sep\<close> is \<^verbatim>\<open>strings.Cut\<close>: around the first occurrence, \<open>None\<close> when there is none.\<close>

fun cut :: "string \<Rightarrow> string \<Rightarrow> (string \<times> string) option" where
  "cut [] sep = (if sep = [] then Some ([], []) else None)"
| "cut (c # s) sep =
     (if has_prefix (c # s) sep then Some ([], drop (length sep) (c # s))
      else map_option (\<lambda>(a, b). (c # a, b)) (cut s sep))"

text \<open>\<^verbatim>\<open>strings.Split\<close> at a one-byte separator; the result is never empty.\<close>

fun split_on :: "char \<Rightarrow> string \<Rightarrow> string list" where
  "split_on c [] = [[]]"
| "split_on c (x # s) =
     (if x = c then [] # split_on c s
      else (case split_on c s of [] \<Rightarrow> [[x]] | y # ys \<Rightarrow> (x # y) # ys))"

fun join :: "string \<Rightarrow> string list \<Rightarrow> string" where
  "join sep [] = []"
| "join sep [x] = x"
| "join sep (x # y # zs) = x @ sep @ join sep (y # zs)"

text \<open>
  \<^verbatim>\<open>strings.ReplaceAll\<close> for a non-empty \<open>old\<close>; the code never passes an empty one, and the model
  leaves the string alone there.
\<close>

function replace_all :: "string \<Rightarrow> string \<Rightarrow> string \<Rightarrow> string" where
  "replace_all s old new =
     (case s of
        [] \<Rightarrow> []
      | c # t \<Rightarrow>
          (if old \<noteq> [] \<and> has_prefix s old then new @ replace_all (drop (length old) s) old new
           else c # replace_all t old new))"
  by pat_completeness auto
termination
  by (relation "measure (\<lambda>(s, old, new). length s)") auto

declare replace_all.simps [simp del]

section \<open>White space\<close>

text \<open>The UTF-8 encodings of the code points for which \<^verbatim>\<open>unicode.IsSpace\<close> holds.\<close>

definition space_encodings :: "string list" where
  "space_encodings =
     [[CHR 0x09], [CHR 0x0A], [CHR 0x0B], [CHR 0x0C], [CHR 0x0D], [CHR 0x20],
      [CHR 0xC2, CHR 0x85], [CHR 0xC2, CHR 0xA0], [CHR 0xE1, CHR 0x9A, CHR 0x80],
      [CHR 0xE2, CHR 0x80, CHR 0x80], [CHR 0xE2, CHR 0x80, CHR 0x81], [CHR 0xE2, CHR 0x80, CHR 0x82],
      [CHR 0xE2, CHR 0x80, CHR 0x83], [CHR 0xE2, CHR 0x80, CHR 0x84], [CHR 0xE2, CHR 0x80, CHR 0x85],
      [CHR 0xE2, CHR 0x80, CHR 0x86], [CHR 0xE2, CHR 0x80, CHR 0x87], [CHR 0xE2, CHR 0x80, CHR 0x88],
      [CHR 0xE2, CHR 0x80, CHR 0x89], [CHR 0xE2, CHR 0x80, CHR 0x8A], [CHR 0xE2, CHR 0x80, CHR 0xA8],
      [CHR 0xE2, CHR 0x80, CHR 0xA9], [CHR 0xE2, CHR 0x80, CHR 0xAF], [CHR 0xE2, CHR 0x81, CHR 0x9F],
      [CHR 0xE3, CHR 0x80, CHR 0x80]]"

text \<open>The width of the white-space code point the string starts with, 0 when it starts with another.\<close>

definition space_width :: "string \<Rightarrow> nat" where
  "space_width s = (case find (has_prefix s) space_encodings of None \<Rightarrow> 0 | Some e \<Rightarrow> length e)"

definition space_width_end :: "string \<Rightarrow> nat" where
  "space_width_end s = (case find (has_suffix s) space_encodings of None \<Rightarrow> 0 | Some e \<Rightarrow> length e)"

function trim_left :: "string \<Rightarrow> string" where
  "trim_left s = (if space_width s = 0 \<or> s = [] then s else trim_left (drop (space_width s) s))"
  by pat_completeness auto
termination
  by (relation "measure length") auto

function trim_right :: "string \<Rightarrow> string" where
  "trim_right s =
     (if space_width_end s = 0 \<or> s = [] then s else trim_right (take (length s - space_width_end s) s))"
  by pat_completeness auto
termination
  by (relation "measure length") auto

declare trim_left.simps [simp del] trim_right.simps [simp del]

definition trim_space :: "string \<Rightarrow> string" where
  "trim_space s = trim_right (trim_left s)"

text \<open>
  \<^verbatim>\<open>strings.Fields\<close>: the maximal runs without white space. No encoding of a white-space code point
  starts inside another code point, so a byte-wise scan finds the same separators.
\<close>

function fields_from :: "string \<Rightarrow> string \<Rightarrow> string list" where
  "fields_from acc s =
     (case s of
        [] \<Rightarrow> (if acc = [] then [] else [rev acc])
      | c # t \<Rightarrow>
          (if space_width s = 0 then fields_from (c # acc) t
           else (if acc = [] then [] else [rev acc]) @ fields_from [] (drop (space_width s) s)))"
  by pat_completeness auto
termination
  by (relation "measure (\<lambda>(acc, s). length s)") auto

declare fields_from.simps [simp del]

definition str_fields :: "string \<Rightarrow> string list" where
  "str_fields s = fields_from [] s"

section \<open>Case\<close>

definition lower_char :: "char \<Rightarrow> char" where
  "lower_char c = (if CHR ''A'' \<le> c \<and> c \<le> CHR ''Z'' then char_of ((of_char c :: nat) + 32) else c)"

definition upper_char :: "char \<Rightarrow> char" where
  "upper_char c = (if CHR ''a'' \<le> c \<and> c \<le> CHR ''z'' then char_of ((of_char c :: nat) - 32) else c)"

text \<open>
  Go's tables map \<open>U+0130\<close> and the Kelvin sign \<open>U+212A\<close> to \<open>i\<close> and \<open>k\<close> in lower case, and \<open>U+0131\<close> and
  \<open>U+017F\<close> to \<open>I\<close> and \<open>S\<close> in upper case. Folding identifies the Kelvin sign with \<open>k\<close> and \<open>U+017F\<close> with \<open>s\<close>.
\<close>

definition to_lower :: "string \<Rightarrow> string" where
  "to_lower s =
     map lower_char
       (replace_all (replace_all s [CHR 0xE2, CHR 0x84, CHR 0xAA] ''k'') [CHR 0xC4, CHR 0xB0] ''i'')"

definition to_upper :: "string \<Rightarrow> string" where
  "to_upper s =
     map upper_char (replace_all (replace_all s [CHR 0xC4, CHR 0xB1] ''I'') [CHR 0xC5, CHR 0xBF] ''S'')"

definition fold_case :: "string \<Rightarrow> string" where
  "fold_case s =
     map lower_char
       (replace_all (replace_all s [CHR 0xE2, CHR 0x84, CHR 0xAA] ''k'') [CHR 0xC5, CHR 0xBF] ''s'')"

definition equal_fold :: "string \<Rightarrow> string \<Rightarrow> bool" where
  "equal_fold s t \<longleftrightarrow> fold_case s = fold_case t"

section \<open>Numbers\<close>

definition digit_char :: "nat \<Rightarrow> char" where
  "digit_char d = char_of (48 + d)"

definition is_digit :: "char \<Rightarrow> bool" where
  "is_digit c \<longleftrightarrow> CHR ''0'' \<le> c \<and> c \<le> CHR ''9''"

definition digit_val :: "char \<Rightarrow> nat" where
  "digit_val c = of_char c - 48"

fun nat_str :: "nat \<Rightarrow> string" where
  "nat_str n = (if n < 10 then [digit_char n] else nat_str (n div 10) @ [digit_char (n mod 10)])"

declare nat_str.simps [simp del]

text \<open>\<^verbatim>\<open>strconv.Itoa\<close> and \<^verbatim>\<open>strconv.FormatInt(_, 10)\<close>.\<close>

definition itoa :: "int \<Rightarrow> string" where
  "itoa i = (if i < 0 then CHR ''-'' # nat_str (nat (- i)) else nat_str (nat i))"

text \<open>\<^verbatim>\<open>%02d\<close>.\<close>

definition pad2 :: "int \<Rightarrow> string" where
  "pad2 i = (if 0 \<le> i \<and> i < 10 then CHR ''0'' # itoa i else itoa i)"

definition digits_val :: "string \<Rightarrow> nat" where
  "digits_val s = foldl (\<lambda>n c. 10 * n + digit_val c) 0 s"

definition all_digits :: "string \<Rightarrow> bool" where
  "all_digits s \<longleftrightarrow> s \<noteq> [] \<and> list_all is_digit s"

text \<open>\<^verbatim>\<open>strconv.Atoi\<close> and \<^verbatim>\<open>ParseInt(_, 10, 64)\<close>: an optional sign, digits, and the range of \<open>int64\<close>.\<close>

definition atoi :: "string \<Rightarrow> int option" where
  "atoi s =
     (let (neg, ds) =
        (case s of
           c # t \<Rightarrow> if c = CHR ''-'' then (True, t) else if c = CHR ''+'' then (False, t) else (False, s)
         | [] \<Rightarrow> (False, []));
        v = (if neg then - int (digits_val ds) else int (digits_val ds))
      in if all_digits ds \<and> - (2 ^ 63) \<le> v \<and> v < 2 ^ 63 then Some v else None)"

text \<open>\<^verbatim>\<open>strconv.ParseUint(_, 10, 16)\<close>: digits only, below 65536.\<close>

definition parse_uint16 :: "string \<Rightarrow> nat option" where
  "parse_uint16 s = (if all_digits s \<and> digits_val s < 65536 then Some (digits_val s) else None)"

section \<open>UTF-8 validity\<close>

definition byte_in :: "nat \<Rightarrow> nat \<Rightarrow> char \<Rightarrow> bool" where
  "byte_in lo hi c \<longleftrightarrow> lo \<le> of_char c \<and> of_char c \<le> hi"

text \<open>
  \<open>rune_width s\<close>: the number of bytes of the valid encoding the string starts with, 0 when it
  starts with none. The ranges of the second byte are those of \<^verbatim>\<open>unicode/utf8\<close>'s \<^verbatim>\<open>acceptRanges\<close>.
\<close>

fun rune_width :: "string \<Rightarrow> nat" where
  "rune_width [] = 0"
| "rune_width (a # s) =
     (if byte_in 0 0x7F a then 1
      else (case s of
          [] \<Rightarrow> 0
        | b # t \<Rightarrow>
            (if byte_in 0xC2 0xDF a then (if byte_in 0x80 0xBF b then 2 else 0)
             else (case t of
                 [] \<Rightarrow> 0
               | c # u \<Rightarrow>
                   (if byte_in 0xE0 0xEF a then
                      (if byte_in (if byte_in 0xE0 0xE0 a then 0xA0 else 0x80)
                            (if byte_in 0xED 0xED a then 0x9F else 0xBF) b
                          \<and> byte_in 0x80 0xBF c then 3 else 0)
                    else (case u of
                        [] \<Rightarrow> 0
                      | d # _ \<Rightarrow>
                          (if byte_in 0xF0 0xF4 a
                             \<and> byte_in (if byte_in 0xF0 0xF0 a then 0x90 else 0x80)
                                  (if byte_in 0xF4 0xF4 a then 0x8F else 0xBF) b
                             \<and> byte_in 0x80 0xBF c \<and> byte_in 0x80 0xBF d
                           then 4 else 0)))))))"

function utf8_valid :: "string \<Rightarrow> bool" where
  "utf8_valid s =
     (if s = [] then True else if rune_width s = 0 then False else utf8_valid (drop (rune_width s) s))"
  by pat_completeness auto
termination
  by (relation "measure length") auto

declare utf8_valid.simps [simp del]

text \<open>
  \<^verbatim>\<open>strconv.Quote\<close>, which \<^verbatim>\<open>fmt\<close> uses for \<^verbatim>\<open>%q\<close>: exact on ASCII; a valid multi-byte rune is kept as it is,
  which is what the function does with every printable one, and a stray byte is written in hexadecimal.
\<close>

definition hex_nibble :: "nat \<Rightarrow> char" where
  "hex_nibble n = (if n < 10 then char_of (48 + n) else char_of (87 + n))"

definition quote_byte :: "char \<Rightarrow> string" where
  "quote_byte c =
     (if c = CHR 0x22 \<or> c = CHR 0x5C then [CHR 0x5C, c]
      else if byte_in 0x20 0x7E c then [c]
      else (case map_of (zip [CHR 0x07, CHR 0x08, CHR 0x0C, CHR 0x0A, CHR 0x0D, CHR 0x09, CHR 0x0B] ''abfnrtv'') c of
              Some letter \<Rightarrow> [CHR 0x5C, letter]
            | None \<Rightarrow> [CHR 0x5C, CHR ''x'', hex_nibble (of_char c div 16), hex_nibble (of_char c mod 16)]))"

function quote_runes :: "string \<Rightarrow> string" where
  "quote_runes s =
     (if s = [] then []
      else if rune_width s \<le> 1 then quote_byte (hd s) @ quote_runes (tl s)
      else take (rune_width s) s @ quote_runes (drop (rune_width s) s))"
  by pat_completeness auto
termination
  by (relation "measure length") auto

declare quote_runes.simps [simp del]

definition go_quote :: "string \<Rightarrow> string" where
  "go_quote s = [CHR 0x22] @ quote_runes s @ [CHR 0x22]"

section \<open>Slash-separated paths\<close>

text \<open>
  \<^verbatim>\<open>path.Clean\<close>: the segments are read left to right onto a stack; empty and \<open>.\<close> segments vanish,
  \<open>..\<close> removes the last real segment, is dropped at the root and is kept when a relative path
  has nothing left to remove.
\<close>

fun clean_push :: "bool \<Rightarrow> string list \<Rightarrow> string \<Rightarrow> string list" where
  "clean_push rooted stack seg =
     (if seg = [] \<or> seg = ''.'' then stack
      else if seg = ''..'' then
        (case stack of
           [] \<Rightarrow> if rooted then [] else [''..'']
         | seg' # rest \<Rightarrow> if seg' = ''..'' then ''..'' # stack else rest)
      else seg # stack)"

definition clean_segments :: "bool \<Rightarrow> string \<Rightarrow> string list" where
  "clean_segments rooted p = rev (foldl (clean_push rooted) [] (split_on CHR ''/'' p))"

definition path_clean :: "string \<Rightarrow> string" where
  "path_clean p =
     (let rooted = has_prefix p ''/''; out = join ''/'' (clean_segments rooted p)
      in if rooted then CHR ''/'' # out else if out = [] then ''.'' else out)"

definition path_join :: "string list \<Rightarrow> string" where
  "path_join elems =
     (let kept = filter (\<lambda>e. e \<noteq> []) elems
      in if kept = [] then [] else path_clean (join ''/'' kept))"

section \<open>Facts on prefixes and separators\<close>

lemma has_prefix_iff: "has_prefix s p \<longleftrightarrow> (\<exists>t. s = p @ t)"
  by (auto simp: has_prefix_def) (metis append_take_drop_id)

lemma has_prefix_append [simp]: "has_prefix (p @ t) p"
  by (simp add: has_prefix_def)

lemma has_prefix_Nil [simp]: "has_prefix s []"
  by (simp add: has_prefix_def)

lemma has_prefix_Cons [simp]: "has_prefix (c # s) (d # p) \<longleftrightarrow> c = d \<and> has_prefix s p"
  by (auto simp: has_prefix_def)

lemma has_prefix_of_Nil [simp]: "has_prefix [] p \<longleftrightarrow> p = []"
  by (auto simp: has_prefix_def)

lemma has_suffix_iff: "has_suffix s p \<longleftrightarrow> (\<exists>t. s = t @ p)"
proof
  assume "has_suffix s p"
  then have "s = take (length s - length p) s @ p"
    by (metis append_take_drop_id has_suffix_def)
  then show "\<exists>t. s = t @ p" by blast
next
  assume "\<exists>t. s = t @ p"
  then show "has_suffix s p" by (auto simp: has_suffix_def)
qed

lemma has_suffix_append [simp]: "has_suffix (t @ p) p"
  by (auto simp: has_suffix_iff)

lemma trim_prefix_append [simp]: "trim_prefix (p @ t) p = t"
  by (simp add: trim_prefix_def)

lemma trim_suffix_append [simp]: "trim_suffix (t @ p) p = t"
  by (simp add: trim_suffix_def)

lemma trim_suffix_fresh: "s = [] \<or> last s \<noteq> c \<Longrightarrow> trim_suffix s [c] = s"
  by (auto simp: trim_suffix_def has_suffix_iff)

lemma set_trim_suffix: "set (trim_suffix s p) \<subseteq> set s"
  by (auto simp: trim_suffix_def dest: in_set_takeD)

lemma length_trim_suffix: "length (trim_suffix s p) \<le> length s"
  by (auto simp: trim_suffix_def)

lemma contains_iff: "contains s p \<longleftrightarrow> (\<exists>a b. s = a @ p @ b)"
proof (induction s)
  case Nil
  then show ?case by auto
next
  case (Cons c s)
  show ?case
  proof
    assume "contains (c # s) p"
    then consider "has_prefix (c # s) p" | "contains s p" by auto
    then show "\<exists>a b. c # s = a @ p @ b"
    proof cases
      case 1
      then show ?thesis by (metis append_Nil has_prefix_iff)
    next
      case 2
      with Cons.IH obtain a b where "s = a @ p @ b" by auto
      then have "c # s = (c # a) @ p @ b" by simp
      then show ?thesis by blast
    qed
  next
    assume "\<exists>a b. c # s = a @ p @ b"
    then obtain a b where eq: "c # s = a @ p @ b" by blast
    show "contains (c # s) p"
    proof (cases a)
      case Nil
      with eq have "has_prefix (c # s) p" by (auto simp: has_prefix_iff)
      then show ?thesis by simp
    next
      case (Cons d a')
      with eq have "s = a' @ p @ b" by simp
      with Cons.IH show ?thesis by auto
    qed
  qed
qed

lemma replace_all_Nil [simp]: "replace_all [] old new = []"
  by (simp add: replace_all.simps)

lemma replace_all_char [simp]:
  "replace_all (c # s) [q] new = (if c = q then new @ replace_all s [q] new else c # replace_all s [q] new)"
  by (simp add: replace_all.simps [of "c # s"])

lemma cut_Some: "cut s sep = Some (a, b) \<Longrightarrow> s = a @ sep @ b"
proof (induction s arbitrary: a)
  case Nil
  then show ?case by (auto split: if_splits)
next
  case (Cons c s)
  show ?case
  proof (cases "has_prefix (c # s) sep")
    case True
    with Cons.prems have ab: "a = []" "b = drop (length sep) (c # s)" by auto
    from True obtain t where t: "c # s = sep @ t" by (auto simp: has_prefix_iff)
    with ab show ?thesis by simp
  next
    case False
    with Cons.prems obtain a' where "cut s sep = Some (a', b)" and "a = c # a'" by auto
    with Cons.IH show ?thesis by auto
  qed
qed

lemma cut_char_fresh: "cut s [c] = Some (a, b) \<Longrightarrow> c \<notin> set a"
proof (induction s arbitrary: a)
  case (Cons x s)
  then show ?case by (cases "x = c") (auto split: if_splits)
qed simp

lemma cut_char_append: "c \<notin> set a \<Longrightarrow> cut (a @ c # b) [c] = Some (a, b)"
  by (induction a) auto

lemma cut_char_None: "cut s [c] = None \<longleftrightarrow> c \<notin> set s"
  by (induction s) auto

lemma split_on_nonempty [simp]: "split_on c s \<noteq> []"
  by (induction s) (auto split: list.splits)

lemma join_Cons: "zs \<noteq> [] \<Longrightarrow> join sep (x # zs) = x @ sep @ join sep zs"
  by (cases zs) auto

lemma join_split_on: "join [c] (split_on c s) = s"
proof (induction s)
  case Nil
  then show ?case by simp
next
  case (Cons x s)
  show ?case
  proof (cases "x = c")
    case True
    with Cons.IH show ?thesis by (simp add: join_Cons)
  next
    case False
    obtain y ys where ys: "split_on c s = y # ys" by (meson list.exhaust split_on_nonempty)
    with False have "join [c] (split_on c (x # s)) = x # join [c] (y # ys)"
      by (cases ys) auto
    with Cons.IH ys show ?thesis by simp
  qed
qed

lemma split_on_fresh: "c \<notin> set s \<Longrightarrow> split_on c s = [s]"
  by (induction s) auto

lemma split_on_append: "c \<notin> set a \<Longrightarrow> split_on c (a @ c # b) = a # split_on c b"
  by (induction a) auto

lemma split_on_join:
  "xs \<noteq> [] \<Longrightarrow> list_all (\<lambda>x. c \<notin> set x) xs \<Longrightarrow> split_on c (join [c] xs) = xs"
proof (induction xs)
  case (Cons x xs)
  show ?case
  proof (cases "xs = []")
    case True
    with Cons.prems show ?thesis by (simp add: split_on_fresh)
  next
    case False
    with Cons show ?thesis by (simp add: join_Cons split_on_append)
  qed
qed simp

lemma split_on_segments: "x \<in> set (split_on c s) \<Longrightarrow> c \<notin> set x"
proof (induction s arbitrary: x)
  case (Cons y s)
  then show ?case by (auto split: if_splits list.splits)
qed simp

lemma split_on_subset: "x \<in> set (split_on c s) \<Longrightarrow> set x \<subseteq> set s"
proof (induction s arbitrary: x)
  case (Cons y s)
  obtain z zs where zs: "split_on c s = z # zs" by (meson list.exhaust split_on_nonempty)
  with Cons have "set z \<subseteq> set s" and "\<forall>x \<in> set zs. set x \<subseteq> set s" by auto
  with Cons.prems zs show ?case by (auto split: if_splits)
qed simp

section \<open>Facts on white space\<close>

lemma find_has_prefix: "find (has_prefix s) es = Some e \<Longrightarrow> e \<in> set es \<and> has_prefix s e"
  by (auto simp: find_Some_iff)

lemma trim_left_suffix: "\<exists>p. s = p @ trim_left s"
proof (induction s rule: trim_left.induct)
  case (1 s)
  show ?case
  proof (cases "space_width s = 0 \<or> s = []")
    case True
    then show ?thesis by (simp add: trim_left.simps)
  next
    case False
    with 1 obtain p where "drop (space_width s) s = p @ trim_left (drop (space_width s) s)" by auto
    with False have "s = (take (space_width s) s @ p) @ trim_left s"
      by (simp add: trim_left.simps [of s])
    then show ?thesis by blast
  qed
qed

lemma trim_right_prefix: "\<exists>q. s = trim_right s @ q"
proof (induction s rule: trim_right.induct)
  case (1 s)
  show ?case
  proof (cases "space_width_end s = 0 \<or> s = []")
    case True
    then show ?thesis by (simp add: trim_right.simps)
  next
    case False
    let ?t = "take (length s - space_width_end s) s"
    from False 1 obtain q where "?t = trim_right ?t @ q" by auto
    with False have "s = trim_right s @ (q @ drop (length s - space_width_end s) s)"
      by (simp add: trim_right.simps [of s]) (metis append_assoc append_take_drop_id)
    then show ?thesis by blast
  qed
qed

lemma trim_space_infix: "\<exists>p q. s = p @ trim_space s @ q"
  by (metis trim_left_suffix trim_right_prefix trim_space_def)

lemma set_trim_space: "set (trim_space s) \<subseteq> set s"
  using trim_space_infix [of s] by (metis UnCI set_append subsetI)

lemma length_trim_space: "length (trim_space s) \<le> length s"
  using trim_space_infix [of s] by (metis le_add1 le_add2 le_trans length_append)

lemma trim_space_Nil [simp]: "trim_space [] = []"
  by (simp add: trim_space_def trim_left.simps trim_right.simps)

text \<open>A string without bytes that can belong to white space is left alone.\<close>

definition space_byte :: "char \<Rightarrow> bool" where
  "space_byte c \<longleftrightarrow> c \<in> set (concat space_encodings)"

lemma space_width_fresh: "\<not> space_byte (hd s) \<Longrightarrow> s \<noteq> [] \<Longrightarrow> space_width s = 0"
  by (cases s)
    (auto simp: space_width_def space_byte_def space_encodings_def split: option.splits)

lemma has_suffix_snoc [simp]: "has_suffix (s @ [c]) (p @ [d]) \<longleftrightarrow> c = d \<and> has_suffix s p"
  by (auto simp: has_suffix_iff)

lemma space_encodings_nonempty: "e \<in> set space_encodings \<Longrightarrow> e \<noteq> []"
  by (auto simp: space_encodings_def)

lemma space_width_end_fresh:
  assumes "s \<noteq> []" and "\<not> space_byte (last s)"
  shows "space_width_end s = 0"
proof -
  have "\<not> has_suffix s e" if "e \<in> set space_encodings" for e
  proof
    assume "has_suffix s e"
    moreover from that have "e \<noteq> []" by (rule space_encodings_nonempty)
    ultimately have "last s = last e" by (auto simp: has_suffix_iff)
    with that \<open>e \<noteq> []\<close> have "space_byte (last s)" by (auto simp: space_byte_def intro: bexI [of _ e])
    with assms(2) show False by simp
  qed
  then have "find (has_suffix s) space_encodings = None" by (auto simp: find_None_iff)
  then show ?thesis by (simp add: space_width_end_def)
qed

lemma trim_space_fresh:
  "s \<noteq> [] \<Longrightarrow> \<not> space_byte (hd s) \<Longrightarrow> \<not> space_byte (last s) \<Longrightarrow> trim_space s = s"
  by (simp add: trim_space_def trim_left.simps [of s] trim_right.simps [of s]
      space_width_fresh space_width_end_fresh)

section \<open>Facts on decimal numbers\<close>

lemma of_char_digit_char: "d < 10 \<Longrightarrow> of_char (digit_char d) = (48 + d :: nat)"
  by (simp add: digit_char_def)

lemma digit_val_digit_char [simp]: "d < 10 \<Longrightarrow> digit_val (digit_char d) = d"
  by (simp add: digit_val_def of_char_digit_char)

lemma is_digit_iff: "is_digit c \<longleftrightarrow> 48 \<le> (of_char c :: nat) \<and> (of_char c :: nat) \<le> 57"
  by (simp add: is_digit_def less_eq_char_def)

lemma is_digit_digit_char [simp]: "d < 10 \<Longrightarrow> is_digit (digit_char d)"
  by (simp add: is_digit_iff of_char_digit_char)

lemma digit_char_eval:
  "digit_char 0 = CHR ''0''"
  "digit_char (Suc 0) = CHR ''1''"
  "digit_char 1 = CHR ''1''"
  "digit_char 2 = CHR ''2''"
  "digit_char 3 = CHR ''3''"
  "digit_char 4 = CHR ''4''"
  "digit_char 5 = CHR ''5''"
  "digit_char 6 = CHR ''6''"
  "digit_char 7 = CHR ''7''"
  "digit_char 8 = CHR ''8''"
  "digit_char 9 = CHR ''9''"
  by code_simp+

lemma nat_str_eval:
  "n < 10 \<Longrightarrow> nat_str n = [digit_char n]"
  "\<not> n < 10 \<Longrightarrow> nat_str n = nat_str (n div 10) @ [digit_char (n mod 10)]"
  by (simp_all add: nat_str.simps)

lemma nat_str_all_digits: "all_digits (nat_str n)"
proof (induction n rule: nat_str.induct)
  case (1 n)
  then show ?case
    by (cases "n < 10") (auto simp: nat_str.simps [of n] all_digits_def)
qed

lemma digits_val_snoc: "digits_val (s @ [c]) = 10 * digits_val s + digit_val c"
  by (simp add: digits_val_def)

lemma digits_val_nat_str [simp]: "digits_val (nat_str n) = n"
proof (induction n rule: nat_str.induct)
  case (1 n)
  show ?case
  proof (cases "n < 10")
    case True
    then show ?thesis by (simp add: nat_str.simps [of n] digits_val_def)
  next
    case False
    with 1 show ?thesis by (simp add: nat_str.simps [of n] digits_val_snoc)
  qed
qed

lemma nat_str_inject [simp]: "nat_str m = nat_str n \<longleftrightarrow> m = n"
  by (metis digits_val_nat_str)

lemma nat_str_nonempty [simp]: "nat_str n \<noteq> []"
  using nat_str_all_digits [of n] by (simp add: all_digits_def)

lemma nat_str_digits: "c \<in> set (nat_str n) \<Longrightarrow> is_digit c"
  using nat_str_all_digits [of n] by (auto simp: all_digits_def list_all_iff)

lemma hd_nat_str_no_sign: "hd (nat_str n) \<noteq> CHR ''-''" "hd (nat_str n) \<noteq> CHR ''+''"
  using nat_str_digits [of "hd (nat_str n)" n] by (auto simp: is_digit_iff)

lemma atoi_itoa:
  assumes "- (2 ^ 63) \<le> i" and "i < 2 ^ 63"
  shows "atoi (itoa i) = Some i"
proof (cases "i < 0")
  case True
  with assms show ?thesis by (simp add: itoa_def atoi_def nat_str_all_digits)
next
  case False
  obtain c t where ct: "nat_str (nat i) = c # t" by (meson list.exhaust nat_str_nonempty)
  with hd_nat_str_no_sign [of "nat i"] have "c \<noteq> CHR ''-''" "c \<noteq> CHR ''+''" by auto
  moreover have "all_digits (c # t)" "digits_val (c # t) = nat i"
    using nat_str_all_digits [of "nat i"] digits_val_nat_str [of "nat i"] by (simp_all add: ct)
  ultimately show ?thesis using False assms by (simp add: itoa_def atoi_def ct)
qed

lemma itoa_inject: "0 \<le> i \<Longrightarrow> 0 \<le> j \<Longrightarrow> itoa i = itoa j \<longleftrightarrow> i = j"
  by (auto simp: itoa_def)

lemma itoa_digits: "0 \<le> i \<Longrightarrow> c \<in> set (itoa i) \<Longrightarrow> is_digit c"
  by (auto simp: itoa_def dest: nat_str_digits)

lemma itoa_nonempty [simp]: "itoa i \<noteq> []"
  by (simp add: itoa_def)

section \<open>Facts on paths\<close>

lemma split_on_concat: "split_on c (a @ c # b) = split_on c a @ split_on c b"
  by (induction a) (auto split: list.splits)

lemma join_snoc: "xs \<noteq> [] \<Longrightarrow> join sep (xs @ [x]) = join sep xs @ sep @ x"
  by (induction xs rule: induct_list012) (auto simp: join_Cons)

lemma path_join_leaf:
  assumes "has_prefix dir ''/''" and "CHR ''/'' \<notin> set n" and "n \<notin> {[], ''.'', ''..''}"
  shows "path_join [dir, n] = CHR ''/'' # join ''/'' (clean_segments True dir @ [n])"
proof -
  from assms(1) obtain d where dir: "dir = CHR ''/'' # d" by (auto simp: has_prefix_iff)
  have "clean_segments True (dir @ CHR ''/'' # n) = clean_segments True dir @ [n]"
    using assms(2,3) by (simp add: clean_segments_def split_on_concat split_on_fresh)
  then show ?thesis using assms(3) by (simp add: path_join_def path_clean_def dir)
qed

lemma path_join_leaf_inject:
  assumes "has_prefix dir ''/''" and "CHR ''/'' \<notin> set m" and "m \<notin> {[], ''.'', ''..''}"
    and "CHR ''/'' \<notin> set n" and "n \<notin> {[], ''.'', ''..''}"
  shows "path_join [dir, m] = path_join [dir, n] \<longleftrightarrow> m = n"
proof -
  have "join ''/'' (xs @ [m]) = join ''/'' (xs @ [n]) \<longleftrightarrow> m = n" for xs
    by (cases "xs = []") (simp_all add: join_snoc)
  then show ?thesis using assms by (simp add: path_join_leaf)
qed

lemma set_join: "set (join sep xs) \<subseteq> set sep \<union> (\<Union>x \<in> set xs. set x)"
  by (induction sep xs rule: join.induct) auto

lemma clean_push_subset: "set (clean_push rooted stack seg) \<subseteq> insert seg (insert ''..'' (set stack))"
  by (auto split: list.splits if_splits)

lemma clean_segments_subset: "set (clean_segments rooted p) \<subseteq> insert ''..'' (set (split_on CHR ''/'' p))"
proof -
  have "set (foldl (clean_push rooted) stack segs) \<subseteq> insert ''..'' (set stack \<union> set segs)" for stack segs
  proof (induction segs arbitrary: stack)
    case (Cons seg segs)
    show ?case using Cons [of "clean_push rooted stack seg"] clean_push_subset [of rooted stack seg]
      by (simp del: clean_push.simps) blast
  qed auto
  from this [of "[]" "split_on CHR ''/'' p"] show ?thesis by (simp add: clean_segments_def)
qed

lemma set_path_clean: "set (path_clean p) \<subseteq> set p \<union> {CHR ''/'', CHR ''.''}"
proof -
  have "set (join ''/'' (clean_segments rooted p)) \<subseteq> set p \<union> {CHR ''/'', CHR ''.''}" for rooted
  proof -
    have "set x \<subseteq> set p \<union> {CHR ''/'', CHR ''.''}" if "x \<in> set (clean_segments rooted p)" for x
    proof -
      from that clean_segments_subset [of rooted p] consider "x = ''..''" | "x \<in> set (split_on CHR ''/'' p)" by blast
      then show ?thesis by cases (auto dest: split_on_subset)
    qed
    then show ?thesis using set_join [of "''/''" "clean_segments rooted p"] by fastforce
  qed
  then show ?thesis by (auto simp: path_clean_def Let_def)
qed

lemma set_path_join: "set (path_join xs) \<subseteq> (\<Union>x \<in> set xs. set x) \<union> {CHR ''/'', CHR ''.''}"
proof (cases "filter (\<lambda>e. e \<noteq> []) xs = []")
  case False
  have "set (join ''/'' (filter (\<lambda>e. e \<noteq> []) xs)) \<subseteq> {CHR ''/''} \<union> (\<Union>x \<in> set xs. set x)"
    using set_join [of "''/''" "filter (\<lambda>e. e \<noteq> []) xs"] by auto
  with False show ?thesis using set_path_clean [of "join ''/'' (filter (\<lambda>e. e \<noteq> []) xs)"]
    by (auto simp: path_join_def Let_def)
qed (simp add: path_join_def)

lemma itoa_fresh: "nl \<notin> set (itoa n)"
  using nat_str_digits [of nl "nat n"] nat_str_digits [of nl "nat (- n)"]
  by (auto simp: itoa_def is_digit_def less_eq_char_def)

lemma pad2_line: "nl \<notin> set (pad2 n)"
  by (simp add: pad2_def itoa_fresh)

text \<open>Evaluation of trimming on concrete strings.\<close>

lemmas fresh_eval = trim_space_fresh space_byte_def space_encodings_def

lemma replace_all_fresh: "hd old \<notin> set s \<Longrightarrow> replace_all s old new = s"
proof (induction s)
  case (Cons c s)
  then show ?case by (subst replace_all.simps) (cases old; auto simp: has_prefix_def)
qed simp

section \<open>Fields\<close>

lemma fields_from_word:
  "\<forall>c \<in> set w. \<not> space_byte c \<Longrightarrow> fields_from acc (w @ s) = fields_from (rev w @ acc) s"
proof (induction w arbitrary: acc)
  case (Cons c w)
  then have "space_width ((c # w) @ s) = 0" by (intro space_width_fresh) auto
  with Cons show ?case by (subst fields_from.simps) simp
qed simp

lemma space_width_blank: "space_width (CHR '' '' # s) = 1"
  by (simp add: space_width_def space_encodings_def)

lemma fields_blank [simp]: "str_fields (CHR '' '' # s) = str_fields s"
  by (simp add: str_fields_def, subst fields_from.simps) (simp add: space_width_blank)

lemma fields_Nil [simp]: "str_fields [] = []"
  by (simp add: str_fields_def, subst fields_from.simps) simp

lemma fields_word_blank: "\<forall>c \<in> set w. \<not> space_byte c \<Longrightarrow> w \<noteq> [] \<Longrightarrow> str_fields (w @ CHR '' '' # s) = w # str_fields s"
  by (simp add: str_fields_def fields_from_word, subst fields_from.simps) (simp add: space_width_blank)

lemma fields_word: "\<forall>c \<in> set w. \<not> space_byte c \<Longrightarrow> w \<noteq> [] \<Longrightarrow> str_fields w = [w]"
  using fields_from_word [of w "[]" "[]"] by (simp add: str_fields_def, subst fields_from.simps) simp

lemma fields_join:
  "\<forall>w \<in> set ws. w \<noteq> [] \<and> (\<forall>c \<in> set w. \<not> space_byte c) \<Longrightarrow> str_fields (join '' '' ws) = ws"
proof (induction ws)
  case (Cons w ws)
  then show ?case by (cases ws) (simp_all add: fields_word fields_word_blank)
qed simp

end
