(* ===== verification/GoCrypto.thy ===== *)
theory GoCrypto
  imports GoStrings
begin

unbundle bit_operations_syntax

text \<open>
  The standard-library codecs and the digest cs-plane derives names from: \<^verbatim>\<open>crypto/sha256\<close>, \<^verbatim>\<open>encoding/hex\<close>
  and \<^verbatim>\<open>encoding/base64\<close> (\<^verbatim>\<open>RawURLEncoding\<close>, strict). Bytes are \<open>char\<close>s. The digest is FIPS 180-4's, so
  ports, session identifiers and directory names are computed, not assumed.
\<close>

section \<open>SHA-256\<close>

type_synonym w32 = "32 word"

definition sha_k :: "w32 list" where
  "sha_k =
    [1116352408, 1899447441, 3049323471, 3921009573, 961987163, 1508970993, 2453635748, 2870763221,
     3624381080, 310598401, 607225278, 1426881987, 1925078388, 2162078206, 2614888103, 3248222580,
     3835390401, 4022224774, 264347078, 604807628, 770255983, 1249150122, 1555081692, 1996064986,
     2554220882, 2821834349, 2952996808, 3210313671, 3336571891, 3584528711, 113926993, 338241895,
     666307205, 773529912, 1294757372, 1396182291, 1695183700, 1986661051, 2177026350, 2456956037,
     2730485921, 2820302411, 3259730800, 3345764771, 3516065817, 3600352804, 4094571909, 275423344,
     430227734, 506948616, 659060556, 883997877, 958139571, 1322822218, 1537002063, 1747873779,
     1955562222, 2024104815, 2227730452, 2361852424, 2428436474, 2756734187, 3204031479, 3329325298]"

datatype sha_state = ShaState w32 w32 w32 w32 w32 w32 w32 w32

definition sha_init :: sha_state where
  "sha_init = ShaState 1779033703 3144134277 1013904242 2773480762 1359893119 2600822924 528734635 1541459225"

definition rotr :: "nat \<Rightarrow> w32 \<Rightarrow> w32" where
  "rotr n x = drop_bit n x OR push_bit (32 - n) x"

definition sha_small0 :: "w32 \<Rightarrow> w32" where
  "sha_small0 x = rotr 7 x XOR rotr 18 x XOR drop_bit 3 x"

definition sha_small1 :: "w32 \<Rightarrow> w32" where
  "sha_small1 x = rotr 17 x XOR rotr 19 x XOR drop_bit 10 x"

fun sha_round :: "sha_state \<Rightarrow> w32 \<times> w32 \<Rightarrow> sha_state" where
  "sha_round (ShaState a b c d e f g h) (k, w) =
     (let t1 = h + (rotr 6 e XOR rotr 11 e XOR rotr 25 e) + ((e AND f) XOR (NOT e AND g)) + k + w;
          t2 = (rotr 2 a XOR rotr 13 a XOR rotr 22 a) + ((a AND b) XOR (a AND c) XOR (b AND c))
      in ShaState (t1 + t2) a b c (d + t1) e f g)"

text \<open>The message schedule, newest word first.\<close>

fun sha_schedule :: "nat \<Rightarrow> w32 list \<Rightarrow> w32 list" where
  "sha_schedule 0 ws = ws"
| "sha_schedule (Suc n) ws =
     sha_schedule n ((sha_small1 (ws ! 1) + ws ! 6 + sha_small0 (ws ! 14) + ws ! 15) # ws)"

fun sha_add :: "sha_state \<Rightarrow> sha_state \<Rightarrow> sha_state" where
  "sha_add (ShaState a b c d e f g h) (ShaState a' b' c' d' e' f' g' h') =
     ShaState (a + a') (b + b') (c + c') (d + d') (e + e') (f + f') (g + g') (h + h')"

definition be_word :: "nat list \<Rightarrow> w32" where
  "be_word bs = of_nat (foldl (\<lambda>n b. 256 * n + b) 0 bs)"

fun chunks :: "nat \<Rightarrow> nat list \<Rightarrow> nat list list" where
  "chunks n xs = (if n = 0 \<or> xs = [] then [] else take n xs # chunks n (drop n xs))"

declare chunks.simps [simp del]

definition sha_block :: "sha_state \<Rightarrow> nat list \<Rightarrow> sha_state" where
  "sha_block st bs =
     sha_add st (foldl sha_round st (zip sha_k (rev (sha_schedule 48 (rev (map be_word (chunks 4 bs)))))))"

definition be_bytes :: "nat \<Rightarrow> nat \<Rightarrow> nat list" where
  "be_bytes n v = map (\<lambda>i. (v div 256 ^ i) mod 256) (rev [0..<n])"

definition sha_pad :: "nat list \<Rightarrow> nat list" where
  "sha_pad bs = bs @ [128] @ replicate ((119 - length bs mod 64) mod 64) 0 @ be_bytes 8 (8 * length bs)"

fun sha_out :: "sha_state \<Rightarrow> nat list" where
  "sha_out (ShaState a b c d e f g h) = concat (map (\<lambda>w. be_bytes 4 (unat w)) [a, b, c, d, e, f, g, h])"

text \<open>\<^verbatim>\<open>sha256.Sum256\<close> on bytes.\<close>

definition sha256 :: "string \<Rightarrow> nat list" where
  "sha256 s = sha_out (foldl sha_block sha_init (chunks 64 (sha_pad (map of_char s))))"

section \<open>Hexadecimal\<close>

definition hex_digit :: "nat \<Rightarrow> char" where
  "hex_digit d = (if d < 10 then char_of (48 + d) else char_of (87 + d))"

definition hex_encode :: "nat list \<Rightarrow> string" where
  "hex_encode bs = concat (map (\<lambda>b. [hex_digit (b div 16), hex_digit (b mod 16)]) bs)"

definition hex_val :: "char \<Rightarrow> nat option" where
  "hex_val c =
     (let n = of_char c
      in if 48 \<le> n \<and> n \<le> 57 then Some (n - 48)
         else if 97 \<le> n \<and> n \<le> 102 then Some (n - 87)
         else if 65 \<le> n \<and> n \<le> 70 then Some (n - 55)
         else None)"

fun hex_decode :: "string \<Rightarrow> nat list option" where
  "hex_decode [] = Some []"
| "hex_decode [_] = None"
| "hex_decode (a # b # s) =
     (case (hex_val a, hex_val b, hex_decode s) of
        (Some x, Some y, Some r) \<Rightarrow> Some ((16 * x + y) # r)
      | _ \<Rightarrow> None)"

definition is_lower_hex :: "char \<Rightarrow> bool" where
  "is_lower_hex c \<longleftrightarrow> is_digit c \<or> (CHR ''a'' \<le> c \<and> c \<le> CHR ''f'')"

section \<open>Base64, URL alphabet, unpadded\<close>

definition b64_char :: "nat \<Rightarrow> char" where
  "b64_char v =
     (if v < 26 then char_of (65 + v) else if v < 52 then char_of (71 + v)
      else if v < 62 then char_of (v - 4) else if v = 62 then CHR ''-'' else CHR ''_'')"

definition b64_val :: "char \<Rightarrow> nat option" where
  "b64_val c =
     (let n = of_char c
      in if 65 \<le> n \<and> n \<le> 90 then Some (n - 65)
         else if 97 \<le> n \<and> n \<le> 122 then Some (n - 71)
         else if 48 \<le> n \<and> n \<le> 57 then Some (n + 4)
         else if n = 45 then Some 62
         else if n = 95 then Some 63
         else None)"

fun b64_sextets :: "nat list \<Rightarrow> nat list" where
  "b64_sextets [] = []"
| "b64_sextets [a] = [a div 4, a mod 4 * 16]"
| "b64_sextets [a, b] = [a div 4, a mod 4 * 16 + b div 16, b mod 16 * 4]"
| "b64_sextets (a # b # c # r) =
     (a div 4) # (a mod 4 * 16 + b div 16) # (b mod 16 * 4 + c div 64) # (c mod 64) # b64_sextets r"

definition b64_encode :: "nat list \<Rightarrow> string" where
  "b64_encode bs = map b64_char (b64_sextets bs)"

text \<open>\<^verbatim>\<open>base64.StdEncoding\<close>: the standard alphabet, padded.\<close>

definition b64_std_char :: "nat \<Rightarrow> char" where
  "b64_std_char v = (if v = 62 then CHR ''+'' else if v = 63 then CHR ''/'' else b64_char v)"

definition b64_std_encode :: "nat list \<Rightarrow> string" where
  "b64_std_encode bs =
     (let body = map b64_std_char (b64_sextets bs)
      in body @ replicate ((4 - length body mod 4) mod 4) (CHR ''=''))"

text \<open>The strict decoder refuses trailing bits that are not zero, and, as Go's does, skips line breaks.\<close>

fun b64_unsextets :: "nat list \<Rightarrow> nat list option" where
  "b64_unsextets [] = Some []"
| "b64_unsextets [w] = None"
| "b64_unsextets [w, x] = (if x mod 16 = 0 then Some [w * 4 + x div 16] else None)"
| "b64_unsextets [w, x, y] =
     (if y mod 4 = 0 then Some [w * 4 + x div 16, x mod 16 * 16 + y div 4] else None)"
| "b64_unsextets (w # x # y # z # r) =
     map_option (\<lambda>t. (w * 4 + x div 16) # (x mod 16 * 16 + y div 4) # (y mod 4 * 64 + z) # t)
       (b64_unsextets r)"

definition b64_decode :: "string \<Rightarrow> nat list option" where
  "b64_decode s =
     (let vs = map b64_val (filter (\<lambda>c. c \<noteq> nl \<and> c \<noteq> cr) s)
      in if None \<in> set vs then None else b64_unsextets (map the vs))"

section \<open>Facts\<close>

lemma length_be_bytes [simp]: "length (be_bytes n v) = n"
  by (simp add: be_bytes_def)

lemma be_bytes_lt: "b \<in> set (be_bytes n v) \<Longrightarrow> b < 256"
  by (auto simp: be_bytes_def)

lemma length_sha_out [simp]: "length (sha_out st) = 32"
  by (cases st) simp

lemma sha_out_lt: "b \<in> set (sha_out st) \<Longrightarrow> b < 256"
  by (cases st) (auto dest: be_bytes_lt)

lemma length_sha256 [simp]: "length (sha256 s) = 32"
  by (simp add: sha256_def)

lemma sha256_lt: "b \<in> set (sha256 s) \<Longrightarrow> b < 256"
  unfolding sha256_def by (rule sha_out_lt)

lemma length_hex_encode [simp]: "length (hex_encode bs) = 2 * length bs"
  by (induction bs) (simp_all add: hex_encode_def)

lemma is_lower_hex_digit: "d < 16 \<Longrightarrow> is_lower_hex (hex_digit d)"
  by (auto simp: is_lower_hex_def hex_digit_def is_digit_iff less_eq_char_def)

lemma hex_encode_lower:
  assumes "\<forall>b \<in> set bs. b < 256" and "c \<in> set (hex_encode bs)"
  shows "is_lower_hex c"
proof -
  from assms(2) obtain b where "b \<in> set bs" and c: "c = hex_digit (b div 16) \<or> c = hex_digit (b mod 16)"
    by (auto simp: hex_encode_def)
  with assms(1) have "b div 16 < 16" by auto
  with c show ?thesis by (auto intro: is_lower_hex_digit)
qed

lemma hex_val_digit: "d < 16 \<Longrightarrow> hex_val (hex_digit d) = Some d"
  by (simp add: hex_val_def hex_digit_def)

lemma hex_decode_encode: "\<forall>b \<in> set bs. b < 256 \<Longrightarrow> hex_decode (hex_encode bs) = Some bs"
proof (induction bs)
  case (Cons b bs)
  then have "hex_decode (hex_encode bs) = Some bs" and "b div 16 < 16" by auto
  then show ?case by (simp add: hex_encode_def hex_val_digit)
qed (simp add: hex_encode_def)

lemma b64_val_char: "v < 64 \<Longrightarrow> b64_val (b64_char v) = Some v"
  by (auto simp: b64_val_def b64_char_def Let_def)

lemma b64_char_no_break: "v < 64 \<Longrightarrow> b64_char v \<noteq> nl \<and> b64_char v \<noteq> cr"
  using b64_val_char [of v] by (auto simp: b64_val_def)

lemma b64_sextets_lt:
  "\<forall>b \<in> set bs. b < 256 \<Longrightarrow> v \<in> set (b64_sextets bs) \<Longrightarrow> v < 64"
proof (induction bs arbitrary: v rule: b64_sextets.induct)
  case (4 a b c r)
  then show ?case by auto
qed auto

lemma div_mod_parts:
  fixes k x m :: nat
  assumes "x < m"
  shows "(k * m + x) div m = k" and "(k * m + x) mod m = x"
  using assms by simp_all

lemma b64_unsextets_sextets:
  "\<forall>b \<in> set bs. b < 256 \<Longrightarrow> b64_unsextets (b64_sextets bs) = Some bs"
proof (induction bs rule: b64_sextets.induct)
  case (3 a b)
  then have "b div 16 < 16" by auto
  from div_mod_parts [OF this, of "a mod 4"] show ?case by simp
next
  case (4 a b c r)
  then have "b64_unsextets (b64_sextets r) = Some r" and "b div 16 < 16" and "c div 64 < 4" by auto
  with div_mod_parts [OF this(2), of "a mod 4"] div_mod_parts [OF this(3), of "b mod 16"]
  show ?case by simp
qed auto

lemma map_b64_val: "\<forall>v \<in> set vs. v < 64 \<Longrightarrow> map b64_val (map b64_char vs) = map Some vs"
  by (simp add: b64_val_char)

lemma filter_b64_chars:
  "\<forall>v \<in> set vs. v < 64 \<Longrightarrow> filter (\<lambda>c. c \<noteq> nl \<and> c \<noteq> cr) (map b64_char vs) = map b64_char vs"
  by (induction vs) (simp_all add: b64_char_no_break)

lemma b64_decode_encode:
  assumes "\<forall>b \<in> set bs. b < 256"
  shows "b64_decode (b64_encode bs) = Some bs"
proof -
  have lt: "\<forall>v \<in> set (b64_sextets bs). v < 64" using b64_sextets_lt [OF assms] by blast
  have "map b64_val (filter (\<lambda>c. c \<noteq> nl \<and> c \<noteq> cr) (b64_encode bs)) = map Some (b64_sextets bs)"
    using filter_b64_chars [OF lt] map_b64_val [OF lt] by (simp add: b64_encode_def)
  moreover have "map the (map Some (b64_sextets bs)) = b64_sextets bs" by (simp add: map_idI)
  moreover have "None \<notin> set (map Some (b64_sextets bs))" by auto
  ultimately show ?thesis
    using b64_unsextets_sextets [OF assms] by (simp add: b64_decode_def Let_def)
qed

end
