(* ===== verification/Security.thy ===== *)
theory Security
  imports GoCrypto
begin

text \<open>
  \<^verbatim>\<open>internal/security\<close>: classified errors and how they are found in a wrapped error
  (\<^verbatim>\<open>api.go\<close>), the bounded and redacting helpers, credential and name predicates, the principal and
  its directory name (\<^verbatim>\<open>principal.go\<close>), the origin allowlist (\<^verbatim>\<open>origin.go\<close>) and the same-origin redirect rule
  (\<^verbatim>\<open>client.go\<close>). The file primitives of \<^verbatim>\<open>files.go\<close> appear as effects of the components that call them.
\<close>

section \<open>Errors\<close>

text \<open>
  A Go error value. \<open>Wrapf texts es\<close> is \<^verbatim>\<open>fmt.Errorf\<close> with one \<^verbatim>\<open>%w\<close> per element of \<open>es\<close> and the literal
  texts around them; \<open>Joined\<close> is \<^verbatim>\<open>errors.Join\<close> of at least one error. The remaining constructors are
  the concrete error types the code tests for.
\<close>

datatype go_error =
    APIError string string nat
  | Plain string
  | Wrapf "string list" "go_error list"
  | Joined "go_error list"
  | SubmissionError go_error bool
  | DiscoveryError string
  | ExitError int string
  | DeadlineExceeded
  | Canceled
  | NotExist string

type_synonym 'a res = "go_error + 'a"

fun interleave :: "string list \<Rightarrow> string list \<Rightarrow> string" where
  "interleave (t # ts) (m # ms) = t @ m @ interleave ts ms"
| "interleave ts [] = concat ts"
| "interleave [] ms = concat ms"

fun error_text :: "go_error \<Rightarrow> string" where
  "error_text (APIError code message status) = message"
| "error_text (Plain m) = m"
| "error_text (Wrapf ts es) = interleave ts (map error_text es)"
| "error_text (Joined es) = join [nl] (map error_text es)"
| "error_text (SubmissionError e ambiguous) = error_text e"
| "error_text (DiscoveryError operation) = ''remote discovery failed to '' @ operation"
| "error_text (ExitError code m) = m"
| "error_text DeadlineExceeded = ''context deadline exceeded''"
| "error_text Canceled = ''context canceled''"
| "error_text (NotExist m) = m"

fun first_some :: "'a option list \<Rightarrow> 'a option" where
  "first_some [] = None"
| "first_some (x # xs) = (case x of None \<Rightarrow> first_some xs | Some v \<Rightarrow> Some v)"

text \<open>\<^verbatim>\<open>errors.AsType[*APIError]\<close>: the first one in a depth-first walk of what the error wraps.\<close>

fun as_api :: "go_error \<Rightarrow> go_error option" where
  "as_api (APIError code message status) = Some (APIError code message status)"
| "as_api (Wrapf ts es) = first_some (map as_api es)"
| "as_api (Joined es) = first_some (map as_api es)"
| "as_api (SubmissionError e ambiguous) = as_api e"
| "as_api _ = None"

fun is_deadline :: "go_error \<Rightarrow> bool" where
  "is_deadline DeadlineExceeded = True"
| "is_deadline (Wrapf ts es) = list_ex id (map is_deadline es)"
| "is_deadline (Joined es) = list_ex id (map is_deadline es)"
| "is_deadline (SubmissionError e ambiguous) = is_deadline e"
| "is_deadline _ = False"

definition join_errors :: "go_error option list \<Rightarrow> go_error option" where
  "join_errors es = (case List.map_filter id es of [] \<Rightarrow> None | xs \<Rightarrow> Some (Joined xs))"

text \<open>\<^verbatim>\<open>security.For\<close>: an unclassified error answers as an opaque internal error.\<close>

definition For :: "go_error \<Rightarrow> go_error" where
  "For e = (case as_api e of Some a \<Rightarrow> a | None \<Rightarrow> APIError ''internal_error'' ''internal error'' 500)"

fun error_code :: "go_error \<Rightarrow> string" where
  "error_code (APIError code message status) = code"
| "error_code _ = []"

fun error_status :: "go_error \<Rightarrow> nat" where
  "error_status (APIError code message status) = status"
| "error_status _ = 0"

section \<open>Bounded and redacted text\<close>

definition MaxCredentialBytes :: nat where "MaxCredentialBytes = 16384"
definition maxRedactedError :: nat where "maxRedactedError = 2048"

text \<open>The loop of \<^verbatim>\<open>TruncateUTF8\<close>: drop bytes from the end until what is left is valid UTF-8.\<close>

function drop_until_valid :: "string \<Rightarrow> string" where
  "drop_until_valid s = (if utf8_valid s then s else drop_until_valid (butlast s))"
  by pat_completeness auto
termination
proof (relation "measure length")
  fix s :: string
  assume "\<not> utf8_valid s"
  then have "s \<noteq> []" by (auto simp: utf8_valid.simps)
  then show "(butlast s, s) \<in> measure length" by simp
qed simp

declare drop_until_valid.simps [simp del]

definition TruncateUTF8 :: "string \<Rightarrow> nat \<Rightarrow> string" where
  "TruncateUTF8 value limit =
     (if length value \<le> limit then value else drop_until_valid (take limit value))"

text \<open>\<^verbatim>\<open>strings.ToValidUTF8\<close> with the replacement character: one per run of invalid bytes.\<close>

definition replacement_char :: string where
  "replacement_char = [CHR 0xEF, CHR 0xBF, CHR 0xBD]"

function to_valid_utf8 :: "bool \<Rightarrow> string \<Rightarrow> string" where
  "to_valid_utf8 invalid s =
     (if s = [] then []
      else if rune_width s = 0 then (if invalid then [] else replacement_char) @ to_valid_utf8 True (tl s)
      else take (rune_width s) s @ to_valid_utf8 False (drop (rune_width s) s))"
  by pat_completeness auto
termination
  by (relation "measure (\<lambda>(b, s). length s)") auto

declare to_valid_utf8.simps [simp del]

definition Redact :: "string \<Rightarrow> go_error \<Rightarrow> string list \<Rightarrow> go_error" where
  "Redact operation e secrets =
     Plain (TruncateUTF8
       (foldl (\<lambda>m secret. if secret \<noteq> [] then replace_all m secret ''[redacted]'' else m)
          (operation @ '': '' @ error_text e) secrets)
       maxRedactedError)"

section \<open>Credentials, names, principals\<close>

definition DecodeBase64URL :: "string \<Rightarrow> nat list option" where
  "DecodeBase64URL encoded =
     (case b64_decode encoded of
        None \<Rightarrow> None
      | Some decoded \<Rightarrow> if b64_encode decoded = encoded then Some decoded else None)"

text \<open>A control or white-space code point starts here; \<^verbatim>\<open>unicode.IsControl\<close> is \<open>U+0000\<close> to \<open>U+001F\<close> and \<open>U+007F\<close> to \<open>U+009F\<close>.\<close>

definition control_or_space_at :: "string \<Rightarrow> bool" where
  "control_or_space_at s \<longleftrightarrow>
     (case s of
        [] \<Rightarrow> False
      | a # t \<Rightarrow>
          byte_in 0 0x1F a \<or> byte_in 0x7F 0x7F a
          \<or> (byte_in 0xC2 0xC2 a \<and> (case t of [] \<Rightarrow> False | b # _ \<Rightarrow> byte_in 0x80 0x9F b))
          \<or> space_width s \<noteq> 0)"

fun any_control_or_space :: "string \<Rightarrow> bool" where
  "any_control_or_space [] = False"
| "any_control_or_space (c # s) = (control_or_space_at (c # s) \<or> any_control_or_space s)"

definition ValidCredential :: "string \<Rightarrow> bool" where
  "ValidCredential value \<longleftrightarrow>
     value \<noteq> [] \<and> length value \<le> MaxCredentialBytes \<and> utf8_valid value \<and> \<not> any_control_or_space value"

definition is_alpha :: "char \<Rightarrow> bool" where
  "is_alpha c \<longleftrightarrow> (CHR ''A'' \<le> c \<and> c \<le> CHR ''Z'') \<or> (CHR ''a'' \<le> c \<and> c \<le> CHR ''z'')"

definition is_alnum :: "char \<Rightarrow> bool" where
  "is_alnum c \<longleftrightarrow> is_alpha c \<or> is_digit c"

text \<open>\<^verbatim>\<open>^[A-Za-z0-9][A-Za-z0-9_.-]*$\<close>\<close>

definition safeNamePattern :: "string \<Rightarrow> bool" where
  "safeNamePattern s \<longleftrightarrow>
     (case s of [] \<Rightarrow> False | c # t \<Rightarrow> is_alnum c \<and> list_all (\<lambda>x. is_alnum x \<or> x \<in> set ''_.-'') t)"

definition SafeName :: "string \<Rightarrow> nat \<Rightarrow> bool" where
  "SafeName value bound \<longleftrightarrow> 0 < length value \<and> length value \<le> bound \<and> safeNamePattern value"

text \<open>\<^verbatim>\<open>^[A-Za-z0-9._:@/,-]{1,256}$\<close>\<close>

definition ValidIdentityValue :: "string \<Rightarrow> bool" where
  "ValidIdentityValue s \<longleftrightarrow>
     1 \<le> length s \<and> length s \<le> 256 \<and> list_all (\<lambda>x. is_alnum x \<or> x \<in> set ''._:@/,-'') s"

record Principal =
  Subject :: string
  Tenant :: string

definition PrincipalDirName :: "Principal \<Rightarrow> string" where
  "PrincipalDirName pr =
     hex_encode (take 16 (sha256 (Subject pr @ [nul] @ Tenant pr)))"

text \<open>The context holds a principal only behind the authentication boundary.\<close>

definition PrincipalFromContext :: "Principal option \<Rightarrow> Principal res" where
  "PrincipalFromContext ctx =
     (case ctx of
        Some pr \<Rightarrow>
          if ValidIdentityValue (Subject pr) \<and> ValidIdentityValue (Tenant pr) then Inr pr
          else Inl (APIError ''unauthorized'' ''an authenticated principal is required'' 401)
      | None \<Rightarrow> Inl (APIError ''unauthorized'' ''an authenticated principal is required'' 401))"

section \<open>Origins and redirects\<close>

type_synonym Origins = "string list"

definition Allowed :: "Origins \<Rightarrow> string \<Rightarrow> bool" where
  "Allowed origins origin \<longleftrightarrow> origin \<in> set origins"

text \<open>The value of the request's \<^verbatim>\<open>Origin\<close> header, empty when it has none.\<close>

definition Admits :: "Origins \<Rightarrow> string \<Rightarrow> bool" where
  "Admits origins origin \<longleftrightarrow> origin = [] \<or> Allowed origins origin"

record parsed_url =
  Scheme :: string
  UserInfo :: "string option"
  Host :: string

definition SameOriginRedirect :: "parsed_url option \<Rightarrow> parsed_url option \<Rightarrow> bool" where
  "SameOriginRedirect from to \<longleftrightarrow>
     (case (from, to) of
        (Some f, Some t) \<Rightarrow> UserInfo t = None \<and> Scheme f = Scheme t \<and> Host f = Host t
      | _ \<Rightarrow> False)"

section \<open>Facts on bounded text\<close>

lemma utf8_valid_Nil [simp]: "utf8_valid []"
  by (simp add: utf8_valid.simps)

lemma drop_until_valid_valid: "utf8_valid (drop_until_valid s)"
proof (induction s rule: drop_until_valid.induct)
  case (1 s)
  then show ?case by (cases "utf8_valid s") (simp_all add: drop_until_valid.simps [of s])
qed

lemma drop_until_valid_prefix: "\<exists>t. s = drop_until_valid s @ t"
proof (induction s rule: drop_until_valid.induct)
  case (1 s)
  show ?case
  proof (cases "utf8_valid s")
    case True
    then show ?thesis by (simp add: drop_until_valid.simps)
  next
    case False
    then have "s \<noteq> []" by auto
    from 1 [OF False] obtain t where "butlast s = drop_until_valid (butlast s) @ t" by blast
    with False \<open>s \<noteq> []\<close> have "s = drop_until_valid s @ (t @ [last s])"
      by (simp add: drop_until_valid.simps [of s]) (metis append_assoc append_butlast_last_id)
    then show ?thesis by blast
  qed
qed

lemma length_drop_until_valid: "length (drop_until_valid s) \<le> length s"
  using drop_until_valid_prefix [of s] by (metis le_add1 length_append)

lemma length_TruncateUTF8: "length (TruncateUTF8 s n) \<le> n"
  using length_drop_until_valid [of "take n s"] by (auto simp: TruncateUTF8_def)

lemma TruncateUTF8_prefix: "\<exists>t. s = TruncateUTF8 s n @ t"
proof (cases "length s \<le> n")
  case False
  obtain t where "take n s = drop_until_valid (take n s) @ t" using drop_until_valid_prefix by blast
  then have "s = drop_until_valid (take n s) @ (t @ drop n s)"
    by (metis append_assoc append_take_drop_id)
  with False show ?thesis by (auto simp: TruncateUTF8_def)
qed (simp add: TruncateUTF8_def)

lemma TruncateUTF8_valid: "utf8_valid s \<Longrightarrow> utf8_valid (TruncateUTF8 s n)"
  by (simp add: TruncateUTF8_def drop_until_valid_valid)

section \<open>Facts on names\<close>

lemma SafeName_chars: "SafeName s n \<Longrightarrow> c \<in> set s \<Longrightarrow> is_alnum c \<or> c \<in> set ''_.-''"
  by (cases s) (auto simp: SafeName_def safeNamePattern_def list_all_iff)

lemma SafeName_nonempty: "SafeName s n \<Longrightarrow> s \<noteq> []"
  by (auto simp: SafeName_def)

lemma is_alnum_iff:
  "is_alnum c \<longleftrightarrow>
     (65 \<le> (of_char c :: nat) \<and> (of_char c :: nat) \<le> 90) \<or> (97 \<le> (of_char c :: nat) \<and> (of_char c :: nat) \<le> 122)
     \<or> (48 \<le> (of_char c :: nat) \<and> (of_char c :: nat) \<le> 57)"
  by (auto simp: is_alnum_def is_alpha_def is_digit_def less_eq_char_def)

text \<open>No byte with a meaning to a shell, a path or a line protocol is in a safe name.\<close>

lemma SafeName_no_special:
  assumes "SafeName s n" and "c \<in> set s"
  shows "c \<notin> {CHR ''/'', nl, cr, nul, CHR '' '', CHR 0x27, CHR ''|'', CHR '','', CHR ''$''}"
  using SafeName_chars [OF assms] by (auto simp: is_alnum_iff)

lemma PrincipalDirName_length [simp]: "length (PrincipalDirName p) = 32"
  by (simp add: PrincipalDirName_def)

lemma PrincipalDirName_hex: "c \<in> set (PrincipalDirName p) \<Longrightarrow> is_lower_hex c"
  unfolding PrincipalDirName_def
  by (rule hex_encode_lower) (auto dest: in_set_takeD sha256_lt)

lemma is_lower_hex_alnum: "is_lower_hex c \<Longrightarrow> is_alnum c"
  by (auto simp: is_lower_hex_def is_alnum_def is_alpha_def is_digit_def less_eq_char_def)

lemma PrincipalDirName_safe: "SafeName (PrincipalDirName p) 128"
proof -
  have "list_all is_alnum (PrincipalDirName p)"
    by (auto simp: list_all_iff intro: is_lower_hex_alnum PrincipalDirName_hex)
  then show ?thesis
    by (cases "PrincipalDirName p")
      (auto simp: SafeName_def safeNamePattern_def list_all_iff dest: arg_cong [of _ _ length])
qed

lemma DecodeBase64URL_iff:
  "\<forall>b \<in> set d. b < 256 \<Longrightarrow> DecodeBase64URL s = Some d \<longleftrightarrow> s = b64_encode d"
  by (auto simp: DecodeBase64URL_def b64_decode_encode split: option.splits if_splits)

lemma For_api: "\<exists>code message status. For e = APIError code message status"
proof -
  have first: "first_some xs = Some v \<Longrightarrow> Some v \<in> set xs" for xs and v :: go_error
    by (induction xs) (auto split: option.splits)
  have "as_api e = Some a \<Longrightarrow> \<exists>code message status. a = APIError code message status" for a
    by (induction e arbitrary: a rule: as_api.induct) (auto dest!: first)
  then show ?thesis by (auto simp: For_def split: option.splits)
qed

text \<open>Evaluation of character classes on concrete strings.\<close>

lemmas char_eval = less_eq_char_def is_digit_def is_alnum_def is_alpha_def

end
