(* ===== verification/SshExec.thy ===== *)
theory SshExec
  imports Security
begin

text \<open>
  \<^verbatim>\<open>internal/ssh\<close> without the interactive login: the framed-output reader (\<^verbatim>\<open>framed.go\<close>), and from \<^verbatim>\<open>exec.go\<close> shell
  quoting, failure classification, the arguments \<^verbatim>\<open>ssh\<close> is run with, and one bounded remote command.
  The operating system is the record \<open>ssh_io\<close>: reading a configuration file, \<^verbatim>\<open>ssh -G\<close>, a place for the
  control socket and running \<^verbatim>\<open>ssh\<close> itself. Nothing here keeps state.
\<close>

section \<open>Framed output\<close>

definition flush_section ::
  "string list \<Rightarrow> nat \<Rightarrow> string list \<Rightarrow> (string \<times> string) list \<Rightarrow> (string \<times> string) list" where
  "flush_section names next content sections =
     (if 0 < next then aput (names ! (next - 1)) (join [nl] content) sections else sections)"

fun sections_loop ::
  "string \<Rightarrow> string list \<Rightarrow> string list \<Rightarrow> nat \<Rightarrow> string list \<Rightarrow> (string \<times> string) list
   \<Rightarrow> (string \<times> string) list res" where
  "sections_loop prefix names [] next content sections =
     (let flushed = flush_section names next content sections
      in if next < length names then Inl (Plain ''framed output ended before all sections completed'')
         else Inr flushed)"
| "sections_loop prefix names (raw # lines) next content sections =
     (let line = trim_suffix raw [cr]
      in if \<not> has_prefix line prefix then
           (if next = 0 then sections_loop prefix names lines next content sections
            else sections_loop prefix names lines next (content @ [line]) sections)
         else if next = length names \<or> line \<noteq> names ! next then
           Inl (Plain ''malformed, duplicate, or out-of-order framed marker'')
         else sections_loop prefix names lines (Suc next) []
                (flush_section names next content sections))"

definition Sections :: "string \<Rightarrow> string \<Rightarrow> string list \<Rightarrow> (string \<times> string) list res" where
  "Sections output prefix names =
     sections_loop prefix names (split_on nl (trim_suffix output [nl])) 0 [] []"

section \<open>Shell quoting\<close>

definition ShellQuote :: "string \<Rightarrow> string" where
  "ShellQuote value =
     [CHR 0x27] @ replace_all value [CHR 0x27] [CHR 0x27, CHR 0x22, CHR 0x27, CHR 0x22, CHR 0x27] @ [CHR 0x27]"

section \<open>Failure classification\<close>

definition ValidAlias :: "string \<Rightarrow> bool" where
  "ValidAlias value = SafeName value 128"

definition ErrInvalidAlias :: go_error where
  "ErrInvalidAlias = APIError ''invalid_ssh_alias'' ''invalid SSH alias'' 400"

definition errHostNotConfigured :: go_error where
  "errHostNotConfigured = APIError ''ssh_host_not_found'' ''SSH host alias is not configured'' 404"

definition authenticationMarkers :: "string list" where
  "authenticationMarkers =
     [''permission denied'', ''host key verification failed'', ''no supported authentication methods'',
      ''authentication failed'', ''keyboard-interactive'', ''too many authentication failures'']"

definition FailureMessage :: "string \<Rightarrow> go_error option \<Rightarrow> string" where
  "FailureMessage stderr err =
     (let message = trim_space stderr
      in if message \<noteq> [] then message
         else (case err of None \<Rightarrow> [] | Some e \<Rightarrow> error_text e))"

definition AuthenticationFailure :: "string \<Rightarrow> bool" where
  "AuthenticationFailure message \<longleftrightarrow>
     list_ex (\<lambda>marker. contains (to_lower message) marker) authenticationMarkers"

text \<open>\<^verbatim>\<open>errors.AsType[*exec.ExitError]\<close>, again the first in depth-first order.\<close>

fun as_exit :: "go_error \<Rightarrow> int option" where
  "as_exit (ExitError code m) = Some code"
| "as_exit (Wrapf ts es) = first_some (map as_exit es)"
| "as_exit (Joined es) = first_some (map as_exit es)"
| "as_exit (SubmissionError e ambiguous) = as_exit e"
| "as_exit _ = None"

definition AmbiguousExit :: "go_error option \<Rightarrow> bool" where
  "AmbiguousExit err =
     (case err of
        None \<Rightarrow> False
      | Some e \<Rightarrow> (case as_exit e of None \<Rightarrow> True | Some code \<Rightarrow> code = 255))"

definition ClassifyFailure :: "string \<Rightarrow> string \<Rightarrow> go_error option \<Rightarrow> go_error option" where
  "ClassifyFailure alias stderr err =
     (case err of
        None \<Rightarrow> None
      | Some e \<Rightarrow>
          if is_deadline e then Some (Wrapf [''ssh command timed out: ''] [e])
          else (let message = FailureMessage stderr err
                in if AuthenticationFailure message then
                     Some (APIError ''ssh_authentication_required''
                       (''SSH authentication is required for '' @ alias) 409)
                   else Some (Plain (''ssh command failed: '' @ message))))"

section \<open>Running a remote command\<close>

record Runner =
  SSHBin :: string
  Timeout :: duration
  ControlNamespace :: string
  ConfigPath :: string

record Configurations =
  ConfDir :: string
  Template :: Runner

text \<open>\<^verbatim>\<open>os.DevNull\<close> stands for a configuration that names no host.\<close>

definition DevNull :: string where "DevNull = ''/dev/null''"

definition ConfigPathOf :: "Configurations \<Rightarrow> Principal \<Rightarrow> string" where
  "ConfigPathOf c pr =
     (if ConfDir c = [] then DevNull else path_join [ConfDir c, PrincipalDirName pr, ''config''])"

definition RunnerOf :: "Configurations \<Rightarrow> Principal \<Rightarrow> Runner" where
  "RunnerOf c pr = (Template c)\<lparr>ConfigPath := ConfigPathOf c pr\<rparr>"

definition EffectiveTimeout :: "Runner \<Rightarrow> duration" where
  "EffectiveTimeout r = (if Timeout r \<noteq> 0 then Timeout r else dur_mul 20 second)"

definition runner_bin :: "Runner \<Rightarrow> string" where
  "runner_bin r = (if SSHBin r \<noteq> [] then SSHBin r else ''ssh'')"

definition configArgs :: "Runner \<Rightarrow> string list \<Rightarrow> string list" where
  "configArgs r args = (if ConfigPath r = [] then args else args @ [''-F'', ConfigPath r])"

record ssh_io =
  io_read_config :: "string \<Rightarrow> string res"
  io_resolve :: "string list \<Rightarrow> string res"
  io_private_path :: "string \<Rightarrow> string res"
  io_exec :: "string list \<Rightarrow> string \<Rightarrow> string \<times> string \<times> go_error option"

definition hostLine :: "string \<Rightarrow> string \<Rightarrow> bool" where
  "hostLine alias line \<longleftrightarrow>
     (let fs = str_fields line
      in 2 \<le> length fs \<and> equal_fold (hd fs) ''Host'' \<and> alias \<in> set (tl fs))"

definition resolve :: "ssh_io \<Rightarrow> Runner \<Rightarrow> string \<Rightarrow> string res" where
  "resolve io r destination = io_resolve io (configArgs r [''-G''] @ [destination])"

text \<open>
  \<^verbatim>\<open>Runner.identity\<close>: an alias is resolved only when a literal \<^verbatim>\<open>Host\<close> line of the caller's own configuration
  names it. A missing configuration file holds no line.
\<close>

definition identity :: "ssh_io \<Rightarrow> Runner \<Rightarrow> string \<Rightarrow> string res" where
  "identity io r alias =
     (if \<not> ValidAlias alias then Inl ErrInvalidAlias
      else if ConfigPath r = [] then resolve io r alias
      else if ConfigPath r = DevNull then Inl errHostNotConfigured
      else (let data = (case io_read_config io (ConfigPath r) of
                          Inl (NotExist m) \<Rightarrow> Inr []
                        | other \<Rightarrow> other)
            in (case data of
                  Inl e \<Rightarrow> Inl e
                | Inr text \<Rightarrow>
                    if list_ex (hostLine alias) (split_on nl text) then resolve io r alias
                    else Inl errHostNotConfigured)))"

definition controlPath :: "ssh_io \<Rightarrow> Runner \<Rightarrow> string \<Rightarrow> string \<Rightarrow> string res" where
  "controlPath io r alias ident =
     (if ControlNamespace r = [] then Inl (Plain ''SSH control namespace is not configured'')
      else if \<not> has_prefix (ControlNamespace r) ''/'' then
        Inl (Plain ''SSH control namespace must be absolute'')
      else io_private_path io
             (''m-'' @ hex_encode (take 10 (sha256
               (alias @ [nul] @ ident @ [nul] @ ControlNamespace r @ [nul] @ runner_bin r @ [nul] @ ConfigPath r)))))"

definition sshArgs :: "ssh_io \<Rightarrow> Runner \<Rightarrow> string \<Rightarrow> bool \<Rightarrow> string \<Rightarrow> string list res" where
  "sshArgs io r alias interactive ident =
     (let batchMode = (if interactive then ''no'' else ''yes'');
          persist = (if interactive then ''no'' else ''600'');
          args = configArgs r
            [''-o'', ''BatchMode='' @ batchMode, ''-o'', ''ConnectTimeout=10'',
             ''-o'', ''ServerAliveInterval=15'', ''-o'', ''ServerAliveCountMax=3'']
      in if ControlNamespace r = [] then Inr (args @ [alias])
         else (case controlPath io r alias ident of
                 Inl e \<Rightarrow> Inl e
               | Inr path \<Rightarrow>
                   Inr (args @ [''-o'', ''ControlMaster=auto'', ''-o'', ''ControlPersist='' @ persist,
                                ''-o'', ''ControlPath='' @ path] @ [alias])))"

definition RunOutput ::
  "ssh_io \<Rightarrow> Runner \<Rightarrow> string \<Rightarrow> string \<Rightarrow> string list \<Rightarrow> string \<times> string \<times> go_error option" where
  "RunOutput io r alias stdin remoteArgs =
     (if remoteArgs = [] then ([], [], Some (Plain ''remote command is required''))
      else (case identity io r alias of
              Inl e \<Rightarrow> ([], [], Some e)
            | Inr ident \<Rightarrow>
                (case sshArgs io r alias False ident of
                   Inl e \<Rightarrow> ([], [], Some e)
                 | Inr args \<Rightarrow> io_exec io (args @ [join '' '' (map ShellQuote remoteArgs)]) stdin)))"

definition Run ::
  "ssh_io \<Rightarrow> Runner \<Rightarrow> string \<Rightarrow> string \<Rightarrow> string list \<Rightarrow> string \<times> go_error option" where
  "Run io r alias stdin remoteArgs =
     (case RunOutput io r alias stdin remoteArgs of
        (stdout, stderr, err) \<Rightarrow> (stdout, ClassifyFailure alias stderr err))"

text \<open>The options of \<^verbatim>\<open>ssh -G\<close> output, last one winning, and the first hop they lead to.\<close>

definition parse_options :: "string \<Rightarrow> (string \<times> string) list" where
  "parse_options ident =
     foldl (\<lambda>m line. case cut line '' '' of None \<Rightarrow> aput line [] m | Some (k, v) \<Rightarrow> aput k v m)
       [] (split_on nl ident)"

definition option_value :: "(string \<times> string) list \<Rightarrow> string \<Rightarrow> string" where
  "option_value m k = (case alookup m k of None \<Rightarrow> [] | Some v \<Rightarrow> v)"

definition join_host_port :: "string \<Rightarrow> string \<Rightarrow> string" where
  "join_host_port host port =
     (if CHR '':'' \<in> set host then [CHR ''[''] @ host @ [CHR '']'', CHR '':''] @ port
      else host @ [CHR '':''] @ port)"

fun first_hop_loop :: "ssh_io \<Rightarrow> Runner \<Rightarrow> nat \<Rightarrow> string res \<Rightarrow> string res" where
  "first_hop_loop io r 0 ident = Inl (Plain ''the ProxyJump chain is too long'')"
| "first_hop_loop io r (Suc n) ident =
     (case ident of
        Inl e \<Rightarrow> Inl e
      | Inr text \<Rightarrow>
          (let opts = parse_options text;
               jumps = option_value opts ''proxyjump'';
               jump = (case cut jumps '','' of None \<Rightarrow> jumps | Some (j, _) \<Rightarrow> j)
           in if jump = [] \<or> jump = ''none'' then
                Inr (join_host_port (option_value opts ''hostname'') (option_value opts ''port''))
              else first_hop_loop io r n (resolve io r (''ssh://'' @ trim_prefix jump ''ssh://''))))"

definition FirstHop :: "ssh_io \<Rightarrow> Runner \<Rightarrow> string \<Rightarrow> string res" where
  "FirstHop io r alias = first_hop_loop io r 8 (identity io r alias)"

section \<open>How a POSIX shell reads quoted words\<close>

text \<open>
  A specification to measure \<open>ShellQuote\<close> against, not a model of code: the words a shell makes of a
  command line built from blanks, single quotes, double quotes around single quotes, and
  letters and digits. Anything else has a meaning to the shell and is refused.
\<close>

fun sh_words :: "string option \<Rightarrow> char option \<Rightarrow> string \<Rightarrow> string list option" where
  "sh_words cur (Some q) [] = None"
| "sh_words None None [] = Some []"
| "sh_words (Some w) None [] = Some [w]"
| "sh_words cur (Some q) (c # s) =
     (if c = q then sh_words cur None s
      else if q = CHR 0x22 \<and> c \<in> set [CHR ''$'', CHR 0x60, CHR 0x5C] then None
      else sh_words (Some ((case cur of None \<Rightarrow> [] | Some w \<Rightarrow> w) @ [c])) (Some q) s)"
| "sh_words cur None (c # s) =
     (if c = CHR '' '' then
        (case cur of None \<Rightarrow> sh_words None None s | Some w \<Rightarrow> map_option (\<lambda>ws. w # ws) (sh_words None None s))
      else if c = CHR 0x27 \<or> c = CHR 0x22 then
        sh_words (Some (case cur of None \<Rightarrow> [] | Some w \<Rightarrow> w)) (Some c) s
      else if is_alnum c then sh_words (Some ((case cur of None \<Rightarrow> [] | Some w \<Rightarrow> w) @ [c])) None s
      else None)"

section \<open>Facts on framed output\<close>

definition marker_lines :: "string \<Rightarrow> string list \<Rightarrow> string list" where
  "marker_lines prefix lines = filter (\<lambda>l. has_prefix l prefix) (map (\<lambda>l. trim_suffix l [cr]) lines)"

lemma sections_loop_accepts:
  assumes "next \<le> length names"
  shows "(\<exists>secs. sections_loop prefix names lines next content sections = Inr secs)
     \<longleftrightarrow> marker_lines prefix lines = drop next names"
  using assms
proof (induction lines arbitrary: "next" content sections)
  case Nil
  then show ?case by (auto simp: marker_lines_def)
next
  case (Cons raw lines)
  let ?line = "trim_suffix raw [cr]"
  show ?case
  proof (cases "has_prefix ?line prefix")
    case False
    then have "marker_lines prefix (raw # lines) = marker_lines prefix lines"
      by (simp add: marker_lines_def)
    with False Cons show ?thesis by simp
  next
    case True
    then have m: "marker_lines prefix (raw # lines) = ?line # marker_lines prefix lines"
      by (simp add: marker_lines_def)
    show ?thesis
    proof (cases "next = length names")
      case True
      with m \<open>has_prefix ?line prefix\<close> show ?thesis by simp
    next
      case False
      with Cons.prems have lt: "next < length names" by simp
      then have "drop next names = names ! next # drop (Suc next) names" by (simp add: Cons_nth_drop_Suc)
      with m lt \<open>has_prefix ?line prefix\<close> Cons.IH [of "Suc next"] show ?thesis by auto
    qed
  qed
qed

lemma flush_append:
  assumes "distinct names" and "k < length names" and "map fst sections = take k names"
  shows "flush_section names (Suc k) content sections = sections @ [(names ! k, join [nl] content)]"
proof -
  from assms(1,2) have "names ! k \<notin> set (take k names)"
    by (auto simp: in_set_conv_nth nth_eq_iff_index_eq)
  with assms(3) have "names ! k \<notin> set (map fst sections)" by simp
  then show ?thesis by (simp add: flush_section_def aput_new del: set_map)
qed

lemma flush_keys:
  assumes "distinct names" and "next \<le> length names" and "map fst sections = take (next - 1) names"
  shows "map fst (flush_section names next content sections) = take next names"
proof (cases "next")
  case 0
  with assms(3) show ?thesis by (simp add: flush_section_def)
next
  case (Suc k)
  with assms flush_append [of names k sections content] show ?thesis
    by (simp add: take_Suc_conv_app_nth)
qed

lemma sections_loop_keys:
  "distinct names \<Longrightarrow> next \<le> length names \<Longrightarrow> map fst sections = take (next - 1) names
   \<Longrightarrow> sections_loop prefix names lines next content sections = Inr secs \<Longrightarrow> map fst secs = names"
proof (induction lines arbitrary: "next" content sections)
  case Nil
  with flush_keys [of names "next" sections content] show ?case by (auto simp: Let_def split: if_splits)
next
  case (Cons raw lines)
  show ?case
  proof (cases "has_prefix (trim_suffix raw [cr]) prefix")
    case False
    with Cons.prems obtain content' where
      "sections_loop prefix names lines next content' sections = Inr secs" by (auto split: if_splits)
    with Cons.IH Cons.prems(1-3) show ?thesis by blast
  next
    case True
    with Cons.prems have lt: "next < length names"
      and rest: "sections_loop prefix names lines (Suc next) []
            (flush_section names next content sections) = Inr secs"
      by (auto split: if_splits)
    from Cons.prems lt have "map fst (flush_section names next content sections) = take (Suc next - 1) names"
      by (simp add: flush_keys)
    with Cons.IH [OF Cons.prems(1) _ _ rest] lt show ?thesis by simp
  qed
qed

text \<open>Lines that are content: no line break, no carriage return at the end, no marker.\<close>

definition content_line :: "string \<Rightarrow> string \<Rightarrow> bool" where
  "content_line prefix l \<longleftrightarrow> nl \<notin> set l \<and> trim_suffix l [cr] = l \<and> \<not> has_prefix l prefix"

lemma sections_loop_content:
  "list_all (content_line prefix) c
   \<Longrightarrow> sections_loop prefix names (c @ rest) (Suc k) content s
     = sections_loop prefix names rest (Suc k) (content @ c) s"
  by (induction c arbitrary: content) (auto simp: content_line_def)

lemma sections_loop_banner:
  "list_all (content_line prefix) c
   \<Longrightarrow> sections_loop prefix names (c @ rest) 0 content s = sections_loop prefix names rest 0 content s"
  by (induction c) (auto simp: content_line_def)

text \<open>
  The interface of a framed protocol: distinct one-line markers that all start with the
  protocol's prefix. Every client of \<^verbatim>\<open>Sections\<close> instantiates it with its own markers.
\<close>

locale frame_protocol =
  fixes prefix :: string and names :: "string list"
  assumes names_distinct: "distinct names"
    and names_nonempty: "names \<noteq> []"
    and names_marked: "n \<in> set names \<Longrightarrow> has_prefix n prefix"
    and names_plain: "n \<in> set names \<Longrightarrow> nl \<notin> set n \<and> trim_suffix n [cr] = n"
begin

lemma accepts_iff:
  "(\<exists>secs. Sections output prefix names = Inr secs)
   \<longleftrightarrow> marker_lines prefix (split_on nl (trim_suffix output [nl])) = names"
  using sections_loop_accepts [of 0 names prefix] by (simp add: Sections_def)

lemma section_keys: "Sections output prefix names = Inr secs \<Longrightarrow> map fst secs = names"
  unfolding Sections_def by (rule sections_loop_keys [OF names_distinct, of 0 "[]"]) simp_all

lemma loop_frame:
  assumes "k \<le> length names" and "length cs = length names - k"
    and "map fst sections = take (k - 1) names"
    and "list_all (list_all (content_line prefix)) cs"
  shows "sections_loop prefix names (concat (map (\<lambda>(n, c). n # c) (zip (drop k names) cs))) k content sections
     = Inr (flush_section names k content sections @ zip (drop k names) (map (join [nl]) cs))"
  using assms
proof (induction cs arbitrary: k content sections)
  case Nil
  then show ?case by simp
next
  case (Cons c cs)
  then have lt: "k < length names" and cl: "list_all (content_line prefix) c" by auto
  then have d: "drop k names = names ! k # drop (Suc k) names" by (simp add: Cons_nth_drop_Suc)
  have nk: "has_prefix (names ! k) prefix" "trim_suffix (names ! k) [cr] = names ! k"
    using names_marked [of "names ! k"] names_plain [of "names ! k"] lt by auto
  let ?S = "flush_section names k content sections"
  let ?rest = "concat (map (\<lambda>(n, c). n # c) (zip (drop (Suc k) names) cs))"
  have keys: "map fst ?S = take k names"
    using flush_keys [OF names_distinct Cons.prems(1,3)] .
  have "sections_loop prefix names (concat (map (\<lambda>(n, c). n # c) (zip (drop k names) (c # cs)))) k content sections
      = sections_loop prefix names (c @ ?rest) (Suc k) [] ?S"
    using lt nk d by simp
  also have "\<dots> = sections_loop prefix names ?rest (Suc k) c ?S"
    using sections_loop_content [OF cl] by simp
  also have "\<dots> = Inr (flush_section names (Suc k) c ?S @ zip (drop (Suc k) names) (map (join [nl]) cs))"
    using Cons.IH [of "Suc k" ?S c] Cons.prems lt keys by simp
  also have "flush_section names (Suc k) c ?S = ?S @ [(names ! k, join [nl] c)]"
    using flush_append [OF names_distinct lt keys] .
  finally show ?case using d by simp
qed

text \<open>What a host prints for the protocol: noise, then each marker with its lines, newline-terminated.\<close>

lemma roundtrip:
  assumes banner: "list_all (content_line prefix) banner"
    and len: "length contents = length names"
    and plain: "list_all (list_all (content_line prefix)) contents"
  shows "Sections (join [nl] (banner @ concat (map (\<lambda>(n, c). n # c) (zip names contents))) @ [nl]) prefix names
     = Inr (zip names (map (join [nl]) contents))"
proof -
  let ?frame = "concat (map (\<lambda>(n, c). n # c) (zip names contents))"
  have "?frame \<noteq> []" using names_nonempty len by (cases names; cases contents) auto
  moreover have "list_all (\<lambda>l. nl \<notin> set l) banner"
    using banner by (auto simp: list_all_iff content_line_def)
  moreover have "list_all (\<lambda>l. nl \<notin> set l) ?frame"
    using plain names_plain by (fastforce simp: list_all_iff content_line_def dest: set_zip_leftD set_zip_rightD)
  ultimately have split: "split_on nl (join [nl] (banner @ ?frame)) = banner @ ?frame"
    by (intro split_on_join) auto
  have "sections_loop prefix names (banner @ ?frame) 0 [] [] = sections_loop prefix names ?frame 0 [] []"
    using sections_loop_banner [OF banner] .
  also have "\<dots> = Inr (zip names (map (join [nl]) contents))"
    using loop_frame [of 0 contents "[]" "[]"] len plain by (simp add: flush_section_def)
  finally show ?thesis by (simp add: Sections_def split)
qed

end

section \<open>Facts on quoting\<close>

text \<open>Inside single quotes the shell takes bytes literally until the closing quote.\<close>

lemma sh_words_quoted:
  "sh_words (Some w) (Some CHR 0x27)
     (replace_all v [CHR 0x27] [CHR 0x27, CHR 0x22, CHR 0x27, CHR 0x22, CHR 0x27] @ CHR 0x27 # rest)
   = sh_words (Some (w @ v)) None rest"
proof (induction v arbitrary: w)
  case (Cons c v)
  then show ?case by (cases "c = CHR 0x27") auto
qed simp

lemma sh_words_ShellQuote: "sh_words None None (ShellQuote v @ rest) = sh_words (Some v) None rest"
  using sh_words_quoted [of "[]" v rest] by (simp add: ShellQuote_def)

text \<open>A command line of quoted arguments reaches the remote program as exactly those arguments.\<close>

lemma sh_words_command: "sh_words None None (join '' '' (map ShellQuote args)) = Some args"
proof (induction args)
  case Nil
  then show ?case by simp
next
  case (Cons v args)
  show ?case
  proof (cases args)
    case Nil
    then show ?thesis using sh_words_ShellQuote [of v "[]"] by simp
  next
    case (Cons v' args')
    then have "join '' '' (map ShellQuote (v # args)) = ShellQuote v @ CHR '' '' # join '' '' (map ShellQuote args)"
      by simp
    then show ?thesis using Cons.IH sh_words_ShellQuote by simp
  qed
qed

section \<open>What a remote command runs\<close>

definition passes_config :: "Runner \<Rightarrow> string list \<Rightarrow> bool" where
  "passes_config r args \<longleftrightarrow> (\<exists>before rest. args = before @ configArgs r [] @ rest)"

lemma configArgs_passes: "passes_config r (before @ configArgs r args @ rest)"
  by (auto simp: passes_config_def configArgs_def) (metis append.assoc append_Cons append_Nil)

lemma sshArgs_shape:
  assumes "sshArgs io r alias interactive ident = Inr args"
  shows "\<exists>pre. args = pre @ [alias] \<and> passes_config r pre"
proof -
  have shape: "\<exists>pre. configArgs r base @ opts @ [alias] = pre @ [alias] \<and> passes_config r pre" for base opts
    using configArgs_passes [of r "[]" base opts] by (intro exI [of _ "configArgs r base @ opts"]) simp
  show ?thesis
  proof (cases "ControlNamespace r = []")
    case True
    with assms shape [of _ "[]"] show ?thesis by (auto simp: sshArgs_def Let_def)
  next
    case False
    with assms obtain path where "controlPath io r alias ident = Inr path"
      by (auto simp: sshArgs_def Let_def split: sum.splits)
    with assms False show ?thesis
      by (clarsimp simp: sshArgs_def Let_def simp del: append_assoc) (use shape in auto)
  qed
qed

lemma hostLine_Nil [simp]: "\<not> hostLine alias []"
proof -
  have "str_fields [] = []" by (simp add: str_fields_def fields_from.simps [of "[]"])
  then show ?thesis by (simp add: hostLine_def)
qed

lemma identity_configured:
  assumes "identity io r alias = Inr ident" and "ConfigPath r \<noteq> []"
  shows "\<exists>text. io_read_config io (ConfigPath r) = Inr text \<and> list_ex (hostLine alias) (split_on nl text)"
proof (cases "io_read_config io (ConfigPath r)")
  case (Inl e)
  with assms show ?thesis by (cases e) (auto simp: identity_def split: if_splits)
next
  case (Inr content)
  with assms show ?thesis by (auto simp: identity_def split: if_splits)
qed

lemma identity_alias: "identity io r alias = Inr ident \<Longrightarrow> ValidAlias alias"
  by (auto simp: identity_def split: if_splits)


end
