(* ===== verification/Slurm.thy ===== *)
theory Slurm
  imports SshExec
begin

text \<open>
  \<^verbatim>\<open>internal/slurm/slurm.go\<close>: the programs cs-plane runs on a login node and the readers of their output:
  discovery, \<^verbatim>\<open>sbatch --test-only\<close>, submission, and status with cancellation. Remote execution is
  \<open>SshExec.RunOutput\<close> over an \<open>ssh_io\<close>. The accounting reader (\<^verbatim>\<open>parseUsage\<close>, floating point) is not modelled;
  its result is an input of the components that store it.
\<close>

section \<open>Markers and constants\<close>

definition unlines :: "string list \<Rightarrow> string" where
  "unlines ls = concat (map (\<lambda>l. l @ [nl]) ls)"

definition discoveryMarkerPrefix :: string where "discoveryMarkerPrefix = ''__CS_DSC_6f1c9a7e4b2d8053_''"
definition markerUser :: string where "markerUser = discoveryMarkerPrefix @ ''USER__''"
definition markerAccounts :: string where "markerAccounts = discoveryMarkerPrefix @ ''ACCOUNTS__''"
definition markerPartitions :: string where "markerPartitions = discoveryMarkerPrefix @ ''PARTITIONS__''"
definition markerHome :: string where "markerHome = discoveryMarkerPrefix @ ''HOME__''"
definition markerDone :: string where "markerDone = discoveryMarkerPrefix @ ''DONE__''"
definition markerErrorUser :: string where "markerErrorUser = discoveryMarkerPrefix @ ''ERROR_USER__''"
definition markerErrorAccounts :: string where "markerErrorAccounts = discoveryMarkerPrefix @ ''ERROR_ACCOUNTS__''"
definition markerErrorPartitions :: string where "markerErrorPartitions = discoveryMarkerPrefix @ ''ERROR_PARTITIONS__''"
definition markerErrorHome :: string where "markerErrorHome = discoveryMarkerPrefix @ ''ERROR_HOME__''"
definition submitScriptEnd :: string where "submitScriptEnd = ''CS_JOB_SCRIPT_END''"

definition statusMarkerPrefix :: string where "statusMarkerPrefix = ''__CS_S''"
definition statusMarkerCancel :: string where "statusMarkerCancel = statusMarkerPrefix @ ''CANCEL__''"
definition statusMarkerQueue :: string where "statusMarkerQueue = statusMarkerPrefix @ ''QUEUE__''"
definition statusMarkerAccounting :: string where "statusMarkerAccounting = statusMarkerPrefix @ ''ACCT__''"

definition discoveryMarkers :: "string list" where
  "discoveryMarkers = [markerUser, markerAccounts, markerPartitions, markerHome, markerDone]"

definition statusMarkers :: "string list" where
  "statusMarkers = [statusMarkerCancel, statusMarkerQueue, statusMarkerAccounting]"

lemmas discovery_marker_defs =
  discoveryMarkerPrefix_def markerUser_def markerAccounts_def markerPartitions_def markerHome_def markerDone_def
  markerErrorUser_def markerErrorAccounts_def markerErrorPartitions_def markerErrorHome_def discoveryMarkers_def

lemmas status_marker_defs =
  statusMarkerPrefix_def statusMarkerCancel_def statusMarkerQueue_def statusMarkerAccounting_def statusMarkers_def

text \<open>The discovery program, a constant: it takes no argument and nothing is spliced into it.\<close>

definition discoveryScript :: string where
  "discoveryScript = unlines
     [''set -u'',
      ''LC_ALL=C'',
      ''LANG=C'',
      ''export LC_ALL LANG'',
      ''printf '' @ [CHR 0x27] @ ''%s'' @ [CHR 0x5C] @ ''n'' @ [CHR 0x27] @ '' '' @ [CHR 0x27] @ markerUser @ [CHR 0x27],
      ''if cs_user=$(id -un); then :; else'',
      ''  printf '' @ [CHR 0x27] @ ''%s'' @ [CHR 0x5C] @ ''n'' @ [CHR 0x27] @ '' '' @ [CHR 0x27] @ markerErrorUser @ [CHR 0x27],
      ''  exit 71'',
      ''fi'',
      ''case '' @ [CHR 0x22] @ ''$cs_user'' @ [CHR 0x22] @ '' in'',
      ''  '' @ [CHR 0x27, CHR 0x27] @ ''|*[!A-Za-z0-9_.-]*) printf '' @ [CHR 0x27] @ ''%s'' @ [CHR 0x5C] @ ''n'' @ [CHR 0x27] @ '' '' @ [CHR 0x27] @ markerErrorUser @ [CHR 0x27] @ ''; exit 72 ;;'',
      ''esac'',
      ''[ '' @ [CHR 0x22] @ ''${#cs_user}'' @ [CHR 0x22] @ '' -le 64 ] || { printf '' @ [CHR 0x27] @ ''%s'' @ [CHR 0x5C] @ ''n'' @ [CHR 0x27] @ '' '' @ [CHR 0x27] @ markerErrorUser @ [CHR 0x27] @ ''; exit 72; }'',
      ''printf '' @ [CHR 0x27] @ ''%s'' @ [CHR 0x5C] @ ''n'' @ [CHR 0x27] @ '' '' @ [CHR 0x22] @ ''$cs_user'' @ [CHR 0x22],
      ''printf '' @ [CHR 0x27] @ ''%s'' @ [CHR 0x5C] @ ''n'' @ [CHR 0x27] @ '' '' @ [CHR 0x27] @ markerAccounts @ [CHR 0x27],
      ''sacctmgr show associations where '' @ [CHR 0x22] @ ''user=$cs_user'' @ [CHR 0x22] @ '' format=Account -p || {'',
      ''  printf '' @ [CHR 0x27] @ ''%s'' @ [CHR 0x5C] @ ''n'' @ [CHR 0x27] @ '' '' @ [CHR 0x27] @ markerErrorAccounts @ [CHR 0x27],
      ''  exit 73'',
      ''}'',
      ''printf '' @ [CHR 0x27] @ ''%s'' @ [CHR 0x5C] @ ''n'' @ [CHR 0x27] @ '' '' @ [CHR 0x27] @ markerPartitions @ [CHR 0x27],
      ''sinfo -h -o '' @ [CHR 0x27] @ ''%P|%c|%m|%G'' @ [CHR 0x27] @ '' || {'',
      ''  printf '' @ [CHR 0x27] @ ''%s'' @ [CHR 0x5C] @ ''n'' @ [CHR 0x27] @ '' '' @ [CHR 0x27] @ markerErrorPartitions @ [CHR 0x27],
      ''  exit 74'',
      ''}'',
      ''printf '' @ [CHR 0x27] @ ''%s'' @ [CHR 0x5C] @ ''n'' @ [CHR 0x27] @ '' '' @ [CHR 0x27] @ markerHome @ [CHR 0x27],
      ''printenv HOME || {'',
      ''  printf '' @ [CHR 0x27] @ ''%s'' @ [CHR 0x5C] @ ''n'' @ [CHR 0x27] @ '' '' @ [CHR 0x27] @ markerErrorHome @ [CHR 0x27],
      ''  exit 75'',
      ''}'',
      ''printf '' @ [CHR 0x27] @ ''%s'' @ [CHR 0x5C] @ ''n'' @ [CHR 0x27] @ '' '' @ [CHR 0x27] @ markerDone @ [CHR 0x27]]"

section \<open>Data\<close>

record GRES =
  gresName :: string
  gresCount :: int

record slurm_Partition =
  spName :: string
  spCPUCount :: int
  spMemoryMB :: int
  spGRES :: "GRES list"

record Discovery =
  dUser :: string
  dAccounts :: "string list"
  dPartitions :: "slurm_Partition list"
  dHome :: string

record CheckResult =
  crStdout :: string
  crStderr :: string
  Passed :: bool

record SubmitRequest =
  srJobName :: string
  srScript :: string
  srEnvironment :: "(string \<times> string) list"

datatype slurm_state = Unknown | Pending | Active | Stopped | Expired | Failed

record Job =
  jobID :: string
  jobNameOf :: string
  Cancel :: bool
  jobCreatedAt :: time

record Observation =
  obsJobID :: string
  obsState :: slurm_state
  obsNode :: string
  ElapsedSeconds :: int

record JobStatus =
  Found :: bool
  statusObservation :: Observation
  CancelError :: string

definition zero_Observation :: Observation where
  "zero_Observation = \<lparr>obsJobID = [], obsState = Unknown, obsNode = [], ElapsedSeconds = 0\<rparr>"

section \<open>Discovery\<close>

text \<open>\<^verbatim>\<open>slices.Compact\<close>: adjacent duplicates are dropped.\<close>

fun compact :: "'a list \<Rightarrow> 'a list" where
  "compact [] = []"
| "compact [x] = [x]"
| "compact (x # y # zs) = (if x = y then compact (y # zs) else x # compact (y # zs))"

definition account_of_line :: "string \<Rightarrow> string" where
  "account_of_line line = trim_space (case cut line ''|'' of None \<Rightarrow> line | Some (a, _) \<Rightarrow> a)"

definition parseAccounts :: "string \<Rightarrow> string list" where
  "parseAccounts output =
     compact (sort (filter (\<lambda>a. \<not> equal_fold a ''Account'' \<and> SafeName a 64)
       (map account_of_line (split_on nl (trim_space output)))))"

text \<open>Entries end at commas outside parentheses; the depth is a signed count, as in the source.\<close>

fun gres_split :: "int \<Rightarrow> string \<Rightarrow> string \<Rightarrow> string list" where
  "gres_split depth cur [] = [trim_space cur]"
| "gres_split depth cur (c # s) =
     (if c = CHR ''('' then gres_split (depth + 1) (cur @ [c]) s
      else if c = CHR '')'' then gres_split (depth - 1) (cur @ [c]) s
      else if c = CHR '','' \<and> depth = 0 then trim_space cur # gres_split 0 [] s
      else gres_split depth (cur @ [c]) s)"

text \<open>
  \<^verbatim>\<open>^(.+):([0-9]+)(?:\([^)]*\))?$\<close>: the name is as long as it can be, so the separating colon is the
  last one whose rest is a count with an optional parenthesised suffix.
\<close>

definition gres_count_tail :: "string \<Rightarrow> string option" where
  "gres_count_tail s =
     (let ds = takeWhile is_digit s; rest = dropWhile is_digit s
      in if ds = [] then None
         else if rest = [] \<or> (2 \<le> length rest \<and> hd rest = CHR ''('' \<and> last rest = CHR '')''
                              \<and> CHR '')'' \<notin> set (butlast rest)) then Some ds
         else None)"

fun gres_match :: "string \<Rightarrow> string \<Rightarrow> (string \<times> string) option" where
  "gres_match name [] = None"
| "gres_match name (c # s) =
     (case gres_match (name @ [c]) s of
        Some r \<Rightarrow> Some r
      | None \<Rightarrow>
          if c = CHR '':'' \<and> name \<noteq> [] \<and> nl \<notin> set name then
            map_option (\<lambda>ds. (name, ds)) (gres_count_tail s)
          else None)"

text \<open>\<^verbatim>\<open>strconv.Atoi\<close> of digits, its range error ignored: the value it returns is the nearest \<open>int64\<close>.\<close>

definition clamped_count :: "string \<Rightarrow> int" where
  "clamped_count ds = min (int (digits_val ds)) (2 ^ 63 - 1)"

fun gres_entries :: "string list \<Rightarrow> GRES list res" where
  "gres_entries [] = Inr []"
| "gres_entries (e # es) =
     (case gres_match [] e of
        None \<Rightarrow> Inl (Plain (''invalid GRES entry: '' @ go_quote e))
      | Some (name, ds) \<Rightarrow>
          (case gres_entries es of
             Inl err \<Rightarrow> Inl err
           | Inr gs \<Rightarrow> Inr (\<lparr>gresName = name, gresCount = clamped_count ds\<rparr> # gs)))"

definition parseGRES :: "string \<Rightarrow> GRES list res" where
  "parseGRES value = (if value = [] \<or> value = ''(null)'' then Inr [] else gres_entries (gres_split 0 [] value))"

definition leadingDigits :: "string \<Rightarrow> string" where
  "leadingDigits s = takeWhile is_digit (dropWhile (\<lambda>c. \<not> is_digit c) s)"

definition parsePartitionLine :: "string \<Rightarrow> slurm_Partition res" where
  "parsePartitionLine line =
     (case split_on CHR ''|'' line of
        [name, cpus, memory, gres] \<Rightarrow>
          (case (atoi (leadingDigits cpus), atoi (leadingDigits memory)) of
             (Some c, Some m) \<Rightarrow>
               (case parseGRES (trim_space gres) of
                  Inl e \<Rightarrow> Inl e
                | Inr gs \<Rightarrow>
                    Inr \<lparr>spName = trim_suffix (trim_space name) ''*'', spCPUCount = c, spMemoryMB = m, spGRES = gs\<rparr>)
           | _ \<Rightarrow> Inl (Plain (''invalid capacity in sinfo line: '' @ go_quote line)))
      | _ \<Rightarrow> Inl (Plain (''invalid sinfo line: '' @ go_quote line)))"

fun partition_lines :: "string list \<Rightarrow> slurm_Partition list res" where
  "partition_lines [] = Inr []"
| "partition_lines (line # lines) =
     (if trim_space line = [] then partition_lines lines
      else (case parsePartitionLine line of
              Inl e \<Rightarrow> Inl e
            | Inr p \<Rightarrow> map_sum id (\<lambda>ps. p # ps) (partition_lines lines)))"

definition parsePartitions :: "string \<Rightarrow> slurm_Partition list res" where
  "parsePartitions output = partition_lines (split_on nl (trim_space output))"

text \<open>\<^verbatim>\<open>^/[A-Za-z0-9._/-]+$\<close>, shared by discovery and by remote paths.\<close>

definition absolutePath :: "string \<Rightarrow> bool" where
  "absolutePath s \<longleftrightarrow>
     (case s of
        [] \<Rightarrow> False
      | c # t \<Rightarrow> c = CHR ''/'' \<and> t \<noteq> [] \<and> list_all (\<lambda>x. is_alnum x \<or> x \<in> set ''._/-'') t)"

definition section_of :: "(string \<times> string) list \<Rightarrow> string \<Rightarrow> string" where
  "section_of secs name = (case alookup secs name of None \<Rightarrow> [] | Some t \<Rightarrow> t)"

definition discoveryFailures :: "(string \<times> string) list" where
  "discoveryFailures =
     [(markerErrorUser, ''identify remote user''),
      (markerErrorAccounts, ''query the accounts the remote user is associated with''),
      (markerErrorPartitions, ''query Slurm partitions''),
      (markerErrorHome, ''read remote home directory'')]"

definition parseDiscovery :: "string \<Rightarrow> Discovery res" where
  "parseDiscovery output =
     (case find (\<lambda>(marker, operation). contains output (marker @ [nl])) discoveryFailures of
        Some (marker, operation) \<Rightarrow> Inl (DiscoveryError operation)
      | None \<Rightarrow>
          (case Sections output discoveryMarkerPrefix discoveryMarkers of
             Inl e \<Rightarrow> Inl e
           | Inr parsed \<Rightarrow>
               (let user = trim_space (section_of parsed markerUser);
                    home = trim_space (section_of parsed markerHome)
                in if trim_space (section_of parsed markerDone) \<noteq> [] then
                     Inl (Plain ''discovery output continued past its final marker'')
                   else if \<not> SafeName user 64 then Inl (Plain ''remote username is unsafe'')
                   else if \<not> absolutePath home \<or> path_clean home \<noteq> home \<or> home = ''/'' then
                     Inl (Plain ''remote HOME is unsafe'')
                   else (case parsePartitions (section_of parsed markerPartitions) of
                           Inl e \<Rightarrow> Inl e
                         | Inr ps \<Rightarrow>
                             Inr \<lparr>dUser = user, dAccounts = parseAccounts (section_of parsed markerAccounts),
                                  dPartitions = ps, dHome = home\<rparr>))))"

definition Discover :: "ssh_io \<Rightarrow> Runner \<Rightarrow> string \<Rightarrow> Discovery res" where
  "Discover io r host =
     (case RunOutput io r host discoveryScript [''sh'', ''-s''] of
        (stdout, stderr, runErr) \<Rightarrow>
          (case runErr of
             Some e \<Rightarrow>
               if is_deadline e \<or> AuthenticationFailure stderr then
                 Inl (the (ClassifyFailure host stderr runErr))
               else (case parseDiscovery stdout of
                       Inl parseErr \<Rightarrow>
                         if error_code (For e) \<noteq> ''internal_error'' then Inl e
                         else Inl (Wrapf [[], '': '' @ FailureMessage stderr runErr] [parseErr])
                     | Inr d \<Rightarrow> Inl (the (ClassifyFailure host stderr runErr)))
           | None \<Rightarrow> parseDiscovery stdout))"

section \<open>Validation and submission\<close>

definition Check :: "ssh_io \<Rightarrow> Runner \<Rightarrow> string \<Rightarrow> string \<Rightarrow> CheckResult res" where
  "Check io r host script =
     (case RunOutput io r host script [''sbatch'', ''--test-only''] of
        (stdout, stderr, err) \<Rightarrow>
          if \<not> AmbiguousExit err then Inr \<lparr>crStdout = stdout, crStderr = stderr, Passed = (err = None)\<rparr>
          else Inl (the (ClassifyFailure host stderr err)))"

definition export_line :: "(string \<times> string) \<Rightarrow> string" where
  "export_line = (\<lambda>(key, value). ''export '' @ key @ ''='' @ ShellQuote value @ [nl])"

definition heredoc_open :: string where
  "heredoc_open =
     ''exec sbatch --job-name='' @ [CHR 0x22] @ ''$2'' @ [CHR 0x22] @ '' --export=ALL --parsable <<''
     @ [CHR 0x27] @ submitScriptEnd @ [CHR 0x27] @ [nl]"

definition submitProgram :: "SubmitRequest \<Rightarrow> string res" where
  "submitProgram req =
     (if \<not> has_suffix (srScript req) [nl] \<or> contains (srScript req) ([nl] @ submitScriptEnd @ [nl]) then
        Inl (Plain ''submission script is not newline-terminated or contains its terminator'')
      else Inr (concat (map export_line (sort_key fst (srEnvironment req)))
                @ heredoc_open @ srScript req @ submitScriptEnd @ [nl]))"

text \<open>\<^verbatim>\<open>errors.AsType[*submissionError]\<close>\<close>

fun as_submission :: "go_error \<Rightarrow> bool option" where
  "as_submission (SubmissionError cause ambiguous) = Some ambiguous"
| "as_submission (Wrapf ts es) = first_some (map as_submission es)"
| "as_submission (Joined es) = first_some (map as_submission es)"
| "as_submission _ = None"

definition AmbiguousSubmission :: "go_error \<Rightarrow> bool" where
  "AmbiguousSubmission e = (as_submission e = Some True)"

definition Submit :: "ssh_io \<Rightarrow> Runner \<Rightarrow> string \<Rightarrow> SubmitRequest \<Rightarrow> string res" where
  "Submit io r host req =
     (case submitProgram req of
        Inl e \<Rightarrow> Inl e
      | Inr program \<Rightarrow>
          (case RunOutput io r host program [''sh'', ''-s'', ''--'', ''cs-submit'', srJobName req] of
             (stdout, stderr, Some e) \<Rightarrow>
               Inl (SubmissionError
                 (Redact (''submit '' @ srJobName req @ '' failed'') (Plain (FailureMessage stderr (Some e)))
                    (map snd (srEnvironment req)))
                 (AmbiguousExit (Some e)))
           | (stdout, stderr, None) \<Rightarrow>
               (let out = trim_space stdout;
                    job = (case cut out '';'' of None \<Rightarrow> out | Some (a, _) \<Rightarrow> a)
                in if all_digits job then Inr job
                   else Inl (SubmissionError
                     (Plain (''submit outcome pending reconciliation for '' @ srJobName req @ '': invalid job ID''))
                     True))))"

section \<open>Status\<close>

definition normalizeState :: "string \<Rightarrow> slurm_state" where
  "normalizeState raw =
     (case str_fields raw of
        [] \<Rightarrow> Unknown
      | w # _ \<Rightarrow>
          (let word = trim_suffix (to_upper w) ''+''
           in if word \<in> set [''PENDING'', ''REQUEUED'', ''REQUEUE_FED'', ''REQUEUE_HOLD'', ''SUSPENDED''] then Pending
              else if word \<in> set [''RUNNING'', ''CONFIGURING'', ''COMPLETING'', ''RESIZING'', ''SIGNALING'', ''STAGE_OUT'']
                then Active
              else if word \<in> set [''COMPLETED'', ''CANCELLED'', ''STOPPED''] then Stopped
              else if word = ''TIMEOUT'' then Expired
              else if word \<in> set [''BOOT_FAIL'', ''DEADLINE'', ''FAILED'', ''NODE_FAIL'', ''OUT_OF_MEMORY'', ''PREEMPTED'',
                                  ''REVOKED'', ''SPECIAL_EXIT''] then Failed
              else Unknown))"

text \<open>\<^verbatim>\<open>int64(window.Seconds())\<close> rounds towards zero; the window is compared as a duration first.\<close>

definition go_quot :: "int \<Rightarrow> int \<Rightarrow> int" where
  "go_quot n d = sgn n * sgn d * (\<bar>n\<bar> div \<bar>d\<bar>)"

definition lookback_seconds :: "time \<Rightarrow> time \<Rightarrow> int" where
  "lookback_seconds oldest now =
     go_quot (min (dur_add (time_sub now oldest) hour) (dur_mul (30 * 24) hour)) second"

definition lookback :: "time \<Rightarrow> time \<Rightarrow> string" where
  "lookback oldest now = ''now-'' @ itoa (lookback_seconds oldest now) @ ''seconds''"

definition marker_line :: "string \<Rightarrow> string" where
  "marker_line name =
     ''printf '' @ [CHR 0x27] @ ''%s'' @ [CHR 0x5C] @ ''n'' @ [CHR 0x27] @ '' '' @ ShellQuote name @ [nl]"

definition cancel_line :: "Job \<Rightarrow> string" where
  "cancel_line job =
     (let (key, flag, value) =
        (if jobID job = [] then (''name:'' @ jobNameOf job, ''--name='', jobNameOf job)
         else (''id:'' @ jobID job, [], jobID job))
      in ''cs_cancel=$(scancel '' @ flag @ ShellQuote value @ '' 2>&1) || printf '' @ [CHR 0x27] @ ''%s|%s'' @ [CHR 0x5C]
         @ ''n'' @ [CHR 0x27] @ '' '' @ ShellQuote key @ '' '' @ [CHR 0x22] @ ''$(printf '' @ [CHR 0x27] @ ''%s'' @ [CHR 0x27]
         @ '' '' @ [CHR 0x22] @ ''$cs_cancel'' @ [CHR 0x22] @ '' | tr '' @ [CHR 0x27, CHR 0x5C] @ ''n|'' @ [CHR 0x27] @ '' ''
         @ [CHR 0x27] @ ''  '' @ [CHR 0x27] @ '')'' @ [CHR 0x22] @ [nl])"

definition oldest_created :: "Job list \<Rightarrow> time \<Rightarrow> time" where
  "oldest_created jobs now =
     foldl (\<lambda>oldest job. if jobCreatedAt job \<noteq> 0 \<and> jobCreatedAt job < oldest then jobCreatedAt job else oldest) now jobs"

definition statusScript :: "Job list \<Rightarrow> time \<Rightarrow> string" where
  "statusScript jobs now =
     ''set -u'' @ [nl]
     @ marker_line statusMarkerCancel
     @ concat (map cancel_line (filter Cancel jobs))
     @ marker_line statusMarkerQueue
     @ ''squeue --me --noheader --format='' @ [CHR 0x27] @ ''%i|%T|%N|%j'' @ [CHR 0x27] @ [nl]
     @ marker_line statusMarkerAccounting
     @ ''sacct --noheader -X --starttime='' @ ShellQuote (lookback (oldest_created jobs now) now)
     @ '' --name='' @ ShellQuote (join '','' (sort (map jobNameOf jobs)))
     @ '' --format=JobIDRaw,State,NodeList,JobName,ElapsedRaw --parsable2'' @ [nl]"

definition parseCancels :: "string \<Rightarrow> (string \<times> string) list" where
  "parseCancels text =
     foldl (\<lambda>m line. case cut line ''|'' of None \<Rightarrow> m | Some (key, message) \<Rightarrow> aput key (trim_space message) m)
       [] (split_on nl text)"

type_synonym job_index = "(string \<times> Observation) list \<times> (string \<times> Observation) list"

definition obs_at :: "(string \<times> Observation) list \<Rightarrow> string \<Rightarrow> Observation" where
  "obs_at m k = (case alookup m k of None \<Rightarrow> zero_Observation | Some ob \<Rightarrow> ob)"

text \<open>One row of \<^verbatim>\<open>squeue\<close> or \<^verbatim>\<open>sacct\<close>: the first accounting row of a job counts, a queue row always does.\<close>

definition status_row :: "bool \<Rightarrow> job_index \<Rightarrow> string \<Rightarrow> job_index" where
  "status_row queue idx line =
     (case idx of (byID, byName) \<Rightarrow>
       (case split_on CHR ''|'' (trim_space line) of
          p0 # p1 # p2 # p3 # extra \<Rightarrow>
            (let ident = trim_space p0;
                 seconds = (case extra of
                     [] \<Rightarrow> 0
                   | p4 # _ \<Rightarrow> (case atoi (trim_space p4) of Some n \<Rightarrow> (if 0 \<le> n then n else 0) | None \<Rightarrow> 0));
                 seconds' = (if seconds = 0 then ElapsedSeconds (obs_at byID ident) else seconds);
                 ob = \<lparr>obsJobID = ident, obsState = normalizeState p1, obsNode = trim_space p2,
                       ElapsedSeconds = seconds'\<rparr>
             in if \<not> all_digits ident then idx
                else if queue \<or> obsJobID (obs_at byID ident) = [] then
                  (aput ident ob byID, aput (trim_space p3) ob byName)
                else idx)
        | _ \<Rightarrow> idx))"

definition status_index :: "(string \<times> string) list \<Rightarrow> job_index" where
  "status_index parsed =
     foldl (status_row True)
       (foldl (status_row False) ([], []) (split_on nl (section_of parsed statusMarkerAccounting)))
       (split_on nl (section_of parsed statusMarkerQueue))"

definition job_status :: "(string \<times> string) list \<Rightarrow> job_index \<Rightarrow> Job \<Rightarrow> JobStatus" where
  "job_status cancelByKey idx job =
     (case idx of (byID, byName) \<Rightarrow>
       (let key = (if jobID job \<noteq> [] then ''id:'' @ jobID job else ''name:'' @ jobNameOf job);
            found = (if jobID job \<noteq> [] then alookup byID (jobID job) else alookup byName (jobNameOf job))
        in \<lparr>Found = (found \<noteq> None),
            statusObservation = (case found of None \<Rightarrow> zero_Observation | Some ob \<Rightarrow> ob),
            CancelError = (if Cancel job then section_of cancelByKey key else [])\<rparr>))"

definition parseStatuses :: "string \<Rightarrow> Job list \<Rightarrow> JobStatus list res" where
  "parseStatuses output jobs =
     (case Sections output statusMarkerPrefix statusMarkers of
        Inl e \<Rightarrow> Inl e
      | Inr parsed \<Rightarrow>
          Inr (map (job_status (parseCancels (section_of parsed statusMarkerCancel)) (status_index parsed)) jobs))"

definition Observe :: "ssh_io \<Rightarrow> Runner \<Rightarrow> string \<Rightarrow> Job list \<Rightarrow> time \<Rightarrow> JobStatus list res" where
  "Observe io r host jobs now =
     (case Run io r host (statusScript jobs now) [''sh'', ''-s'', ''--'', ''cs-session-status''] of
        (output, Some e) \<Rightarrow> Inl e
      | (output, None) \<Rightarrow> parseStatuses output jobs)"

section \<open>The two framed protocols\<close>

interpretation discovery_frame: frame_protocol discoveryMarkerPrefix discoveryMarkers
  by unfold_locales (auto simp: discovery_marker_defs trim_suffix_def has_suffix_def)

interpretation status_frame: frame_protocol statusMarkerPrefix statusMarkers
  by unfold_locales (auto simp: status_marker_defs trim_suffix_def has_suffix_def)

text \<open>
  The status reader accepts an output exactly when the marker lines in it are the three status markers, once
  each and in order, whatever else the remote shell printed before, between and after them.
\<close>

theorem parseStatuses_accepts:
  "(\<exists>statuses. parseStatuses output jobs = Inr statuses)
   \<longleftrightarrow> marker_lines statusMarkerPrefix (split_on nl (trim_suffix output [nl])) = statusMarkers"
  by (simp add: parseStatuses_def status_frame.accepts_iff [symmetric] split: sum.splits)

section \<open>Facts on discovery\<close>

lemma set_compact [simp]: "set (compact xs) = set xs"
  by (induction xs rule: compact.induct) auto

lemma sorted_compact: "sorted xs \<Longrightarrow> sorted (compact xs) \<and> distinct (compact xs)"
  by (induction xs rule: compact.induct) auto

text \<open>
  The accounts read from \<^verbatim>\<open>sacctmgr\<close> are the safe names its lines give in their first column, other than its
  column heading, in ascending order and without repetition.
\<close>

theorem parseAccounts_spec:
  "sorted (parseAccounts output) \<and> distinct (parseAccounts output)
   \<and> set (parseAccounts output) =
       {a \<in> account_of_line ` set (split_on nl (trim_space output)). SafeName a 64 \<and> \<not> equal_fold a ''Account''}"
  unfolding parseAccounts_def using sorted_compact [OF sorted_sort] by auto

lemma parseDiscovery_home:
  "parseDiscovery output = Inr d
   \<Longrightarrow> SafeName (dUser d) 64 \<and> absolutePath (dHome d) \<and> path_clean (dHome d) = dHome d \<and> dHome d \<noteq> ''/''"
  by (auto simp: parseDiscovery_def Let_def split: option.splits sum.splits if_splits)

lemma Discover_home:
  "Discover io r host = Inr d
   \<Longrightarrow> SafeName (dUser d) 64 \<and> absolutePath (dHome d) \<and> path_clean (dHome d) = dHome d \<and> dHome d \<noteq> ''/''"
  by (auto simp: Discover_def dest: parseDiscovery_home split: prod.splits option.splits sum.splits if_splits)

section \<open>Facts on submission\<close>

text \<open>
  A specification to measure \<open>submitProgram\<close> against: what a POSIX shell takes as the body of a
  here-document with a quoted delimiter, the lines before the first line equal to it.
\<close>

fun here_lines :: "string \<Rightarrow> string list \<Rightarrow> string list option" where
  "here_lines delim [] = None"
| "here_lines delim (l # ls) = (if l = delim then Some [] else map_option (\<lambda>r. l # r) (here_lines delim ls))"

definition here_document :: "string \<Rightarrow> string \<Rightarrow> string option" where
  "here_document delim text = map_option unlines (here_lines delim (split_on nl text))"

lemma here_lines_append:
  "here_lines delim (ls @ delim # rest) = Some (takeWhile (\<lambda>l. l \<noteq> delim) ls)"
  by (induction ls) auto

lemma split_on_newline_end: "split_on nl (s @ nl # t) = butlast (split_on nl s) @ [last (split_on nl s)] @ split_on nl t"
proof (induction s)
  case (Cons c s)
  then show ?case by (cases "split_on nl s") (auto simp: neq_Nil_conv)
qed simp

lemma unlines_split_on: "unlines (split_on nl s) = s @ [nl]"
proof (induction s)
  case (Cons c s)
  then show ?case by (cases "split_on nl s") (auto simp: unlines_def)
qed (simp add: unlines_def)

lemma split_on_member_iff:
  assumes "nl \<notin> set l"
  shows "l \<in> set (split_on nl s) \<longleftrightarrow> has_prefix (s @ [nl]) (l @ [nl]) \<or> contains (s @ [nl]) ([nl] @ l @ [nl])"
proof -
  have rest: "split_on nl (a @ [nl] @ b) = split_on nl a @ split_on nl b" for a b
    using split_on_newline_end [of a b] by (metis append.assoc append_Cons append_Nil append_butlast_last_id split_on_nonempty)
  have one: "l \<in> set (split_on nl (l @ [nl] @ b))" "l \<in> set (split_on nl l)" for b
    using rest [of l b] split_on_fresh [OF assms] by simp_all
  show ?thesis
  proof
    assume "l \<in> set (split_on nl s)"
    then obtain before after where eq: "split_on nl s = before @ l # after" by (meson split_list)
    then have full: "s @ [nl] = unlines before @ l @ [nl] @ unlines after"
      using unlines_split_on [of s] by (simp add: unlines_def)
    show "has_prefix (s @ [nl]) (l @ [nl]) \<or> contains (s @ [nl]) ([nl] @ l @ [nl])"
    proof (cases "before = []")
      case True
      with full show ?thesis by (auto simp: has_prefix_iff unlines_def)
    next
      case False
      then obtain b x where "before = b @ [x]" by (metis append_butlast_last_id)
      then have "unlines before = (unlines b @ x) @ [nl]" by (simp add: unlines_def)
      with full show ?thesis unfolding contains_iff by (metis append.assoc)
    qed
  next
    assume "has_prefix (s @ [nl]) (l @ [nl]) \<or> contains (s @ [nl]) ([nl] @ l @ [nl])"
    then consider b where "s @ [nl] = l @ [nl] @ b" | a b where "s @ [nl] = a @ [nl] @ l @ [nl] @ b"
      by (auto simp: has_prefix_iff contains_iff)
    then show "l \<in> set (split_on nl s)"
    proof cases
      case 1
      then show ?thesis using one by (cases b rule: rev_cases) auto
    next
      case 2
      then have "s = a @ [nl] @ l \<or> (\<exists>b'. s = a @ [nl] @ l @ [nl] @ b')" by (cases b rule: rev_cases) auto
      then show ?thesis using one rest by (metis Un_iff set_append)
    qed
  qed
qed

lemma submit_heredoc:
  assumes "submitProgram req = Inr program"
  shows "\<exists>exports rest. program = exports @ heredoc_open @ rest
     \<and> (here_document submitScriptEnd rest = Some (srScript req)
          \<longleftrightarrow> \<not> has_prefix (srScript req) (submitScriptEnd @ [nl]))"
proof -
  let ?d = submitScriptEnd
  from assms have suffix: "has_suffix (srScript req) [nl]"
    and inner: "\<not> contains (srScript req) ([nl] @ ?d @ [nl])"
    and prog: "program = concat (map export_line (sort_key fst (srEnvironment req)))
        @ heredoc_open @ srScript req @ ?d @ [nl]"
    by (auto simp: submitProgram_def split: if_splits)
  from suffix obtain s where s: "srScript req = s @ [nl]" by (auto simp: has_suffix_iff)
  have fresh: "nl \<notin> set ?d" by (simp add: submitScriptEnd_def)
  have "split_on nl (s @ nl # ?d @ [nl]) = split_on nl s @ ?d # [[]]"
    using split_on_newline_end [of s "?d @ [nl]"] split_on_append [OF fresh, of "[]"]
    by (metis append.assoc append_butlast_last_id split_on.simps(1) split_on_nonempty)
  then have body: "here_document ?d (srScript req @ ?d @ [nl])
      = Some (unlines (takeWhile (\<lambda>l. l \<noteq> ?d) (split_on nl s)))"
    by (simp add: here_document_def s here_lines_append)
  have member: "?d \<in> set (split_on nl s) \<longleftrightarrow> has_prefix (srScript req) (?d @ [nl])"
    using split_on_member_iff [OF fresh, of s] inner by (simp add: s)
  have "unlines (takeWhile (\<lambda>l. l \<noteq> ?d) ls) = unlines ls \<longleftrightarrow> ?d \<notin> set ls" for ls
    by (induction ls) (auto simp: unlines_def)
  with body member have "here_document ?d (srScript req @ ?d @ [nl]) = Some (srScript req)
      \<longleftrightarrow> \<not> has_prefix (srScript req) (?d @ [nl])"
    by (simp add: s unlines_split_on [symmetric])
  with prog show ?thesis by blast
qed

text \<open>
  C33: The program piped to the login node's shell hands \<^verbatim>\<open>sbatch\<close> a here-document, and its body is the whole job
  script, to the byte, unless the script's very first line is the delimiter, the one place the guard does not look.
\<close>

theorem submitProgram_body:
  assumes "submitProgram req = Inr program"
  shows "\<exists>exports rest. program = exports @ heredoc_open @ rest
     \<and> (here_document submitScriptEnd rest = Some (srScript req)
          \<longleftrightarrow> \<not> has_prefix (srScript req) (submitScriptEnd @ [nl]))"
  using assms by (rule submit_heredoc)

text \<open>A request of the shape the session component makes.\<close>

definition sample_request :: SubmitRequest where
  "sample_request = \<lparr>srJobName = ''cs-s-0123456789ab-1'', srScript = ''exec linkspan'' @ [nl],
     srEnvironment = [(''B'', ''two''), (''A'', ''one'')]\<rparr>"

theorem submitProgram_body_witness:
  "\<exists>exports rest. concat (map export_line [(''A'', ''one''), (''B'', ''two'')]) @ heredoc_open
        @ ''exec linkspan'' @ [nl] @ submitScriptEnd @ [nl] = exports @ heredoc_open @ rest
     \<and> (here_document submitScriptEnd rest = Some (srScript sample_request)
          \<longleftrightarrow> \<not> has_prefix (srScript sample_request) (submitScriptEnd @ [nl]))"
proof (rule submitProgram_body)
  show "submitProgram sample_request
      = Inr (concat (map export_line [(''A'', ''one''), (''B'', ''two'')]) @ heredoc_open
        @ ''exec linkspan'' @ [nl] @ submitScriptEnd @ [nl])"
    by (simp add: submitProgram_def sample_request_def has_suffix_def submitScriptEnd_def)
qed

section \<open>Facts on status\<close>

lemma obs_at_put: "obs_at (aput k v m) j = (if j = k then v else obs_at m j)"
  by (simp add: obs_at_def)

text \<open>What a line of \<^verbatim>\<open>squeue\<close> or \<^verbatim>\<open>sacct\<close> says of a job: its identifier, its state and its node.\<close>

definition row_facts :: "string \<Rightarrow> (string \<times> slurm_state \<times> string) option" where
  "row_facts line =
     (case split_on CHR ''|'' (trim_space line) of
        p0 # p1 # p2 # p3 # _ \<Rightarrow>
          if all_digits (trim_space p0) then Some (trim_space p0, normalizeState p1, trim_space p2) else None
      | _ \<Rightarrow> None)"

definition rows_for :: "string list \<Rightarrow> string \<Rightarrow> (slurm_state \<times> string) list" where
  "rows_for lines ident = List.map_filter
     (\<lambda>line. case row_facts line of Some (i, st, node) \<Rightarrow> if i = ident then Some (st, node) else None | None \<Rightarrow> None) lines"

text \<open>The reference reading: the last queue row of a job, or its first accounting row when it is not queued.\<close>

definition authoritative :: "(string \<times> string) list \<Rightarrow> string \<Rightarrow> (slurm_state \<times> string) option" where
  "authoritative parsed ident =
     (let queued = rows_for (split_on nl (section_of parsed statusMarkerQueue)) ident;
          accounted = rows_for (split_on nl (section_of parsed statusMarkerAccounting)) ident
      in if queued \<noteq> [] then Some (last queued)
         else if accounted \<noteq> [] then Some (hd accounted) else None)"

definition index_ok :: "job_index \<Rightarrow> bool" where
  "index_ok idx \<longleftrightarrow>
     (\<forall>k ob. alookup (fst idx) k = Some ob \<longrightarrow> obsJobID ob = k \<and> all_digits k \<and> 0 \<le> ElapsedSeconds ob)
     \<and> (\<forall>n ob. alookup (snd idx) n = Some ob \<longrightarrow> all_digits (obsJobID ob) \<and> 0 \<le> ElapsedSeconds ob)"

definition id_facts :: "job_index \<Rightarrow> string \<Rightarrow> (slurm_state \<times> string) option" where
  "id_facts idx k = map_option (\<lambda>ob. (obsState ob, obsNode ob)) (alookup (fst idx) k)"

lemma status_row_cases:
  "(status_row queue idx line = idx \<and>
      (row_facts line = None
       \<or> (\<not> queue \<and> (\<exists>i st node. row_facts line = Some (i, st, node) \<and> obsJobID (obs_at (fst idx) i) \<noteq> []))))
   \<or> (\<exists>i st node name secs. row_facts line = Some (i, st, node) \<and> all_digits i
        \<and> (queue \<or> obsJobID (obs_at (fst idx) i) = [])
        \<and> (secs \<ge> 0 \<or> secs = ElapsedSeconds (obs_at (fst idx) i))
        \<and> (let ob = \<lparr>obsJobID = i, obsState = st, obsNode = node, ElapsedSeconds = secs\<rparr>
           in status_row queue idx line = (aput i ob (fst idx), aput name ob (snd idx))))"
proof (cases "\<exists>p0 p1 p2 p3 extra. split_on CHR ''|'' (trim_space line) = p0 # p1 # p2 # p3 # extra")
  case False
  then have "status_row queue idx line = idx \<and> row_facts line = None"
    by (auto simp: status_row_def row_facts_def split: prod.splits list.splits)
  then show ?thesis by blast
next
  case True
  then obtain p0 p1 p2 p3 extra where split: "split_on CHR ''|'' (trim_space line) = p0 # p1 # p2 # p3 # extra"
    by blast
  obtain byID byName where idx: "idx = (byID, byName)" by (cases idx)
  define raw where "raw = (case extra of [] \<Rightarrow> 0
      | p4 # _ \<Rightarrow> (case atoi (trim_space p4) of Some n \<Rightarrow> (if 0 \<le> n then n else 0) | None \<Rightarrow> 0))"
  define secs where "secs = (if raw = 0 then ElapsedSeconds (obs_at byID (trim_space p0)) else raw)"
  have "0 \<le> raw" by (auto simp: raw_def split: list.splits option.splits)
  then have secs: "secs \<ge> 0 \<or> secs = ElapsedSeconds (obs_at byID (trim_space p0))" by (auto simp: secs_def)
  have row: "status_row queue idx line =
     (let ob = \<lparr>obsJobID = trim_space p0, obsState = normalizeState p1, obsNode = trim_space p2, ElapsedSeconds = secs\<rparr>
      in if \<not> all_digits (trim_space p0) then idx
         else if queue \<or> obsJobID (obs_at byID (trim_space p0)) = [] then
           (aput (trim_space p0) ob byID, aput (trim_space p3) ob byName) else idx)"
    unfolding status_row_def idx by (simp add: split raw_def secs_def Let_def)
  have facts: "row_facts line = (if all_digits (trim_space p0)
      then Some (trim_space p0, normalizeState p1, trim_space p2) else None)"
    by (simp add: row_facts_def split)
  consider "\<not> all_digits (trim_space p0)"
    | "all_digits (trim_space p0)" "queue \<or> obsJobID (obs_at byID (trim_space p0)) = []"
    | "all_digits (trim_space p0)" "\<not> queue" "obsJobID (obs_at byID (trim_space p0)) \<noteq> []"
    by blast
  then show ?thesis
  proof cases
    case 2
    with secs show ?thesis
      by (intro disjI2 exI [of _ "trim_space p0"] exI [of _ "normalizeState p1"] exI [of _ "trim_space p2"]
            exI [of _ "trim_space p3"] exI [of _ secs]) (simp only: row facts Let_def, simp add: idx)
  next
    case 1
    with row have "status_row queue idx line = idx" by (simp add: Let_def)
    with 1 show ?thesis by (simp add: facts)
  next
    case 3
    with row have "status_row queue idx line = idx" by (simp add: Let_def)
    with 3 show ?thesis by (simp add: facts idx)
  qed
qed

lemma obs_at_elapsed: "index_ok idx \<Longrightarrow> 0 \<le> ElapsedSeconds (obs_at (fst idx) i)"
  by (auto simp: index_ok_def obs_at_def zero_Observation_def split: option.splits)

lemma index_ok_row: "index_ok idx \<Longrightarrow> index_ok (status_row queue idx line)"
  using status_row_cases [of queue idx line] obs_at_elapsed [of idx]
  by (fastforce simp: Let_def index_ok_def)

lemma index_ok_fold: "index_ok idx \<Longrightarrow> index_ok (foldl (status_row queue) idx lines)"
  by (induction lines arbitrary: idx) (simp_all add: index_ok_row)

lemma index_ok_status: "index_ok (status_index parsed)"
  unfolding status_index_def by (intro index_ok_fold) (simp add: index_ok_def)

lemma rows_for_snoc: "rows_for (ls @ [l]) k = rows_for ls k @ rows_for [l] k"
  by (simp add: rows_for_def map_filter_def)

lemma id_facts_queue_row:
  "id_facts (status_row True idx l) k = (if rows_for [l] k \<noteq> [] then Some (last (rows_for [l] k)) else id_facts idx k)"
  using status_row_cases [of True idx l]
  by (auto simp: Let_def id_facts_def rows_for_def map_filter_def)

lemma id_facts_queue:
  "id_facts (foldl (status_row True) idx ls) k
   = (if rows_for ls k \<noteq> [] then Some (last (rows_for ls k)) else id_facts idx k)"
proof (induction ls rule: rev_induct)
  case Nil
  then show ?case by (simp add: rows_for_def map_filter_def)
next
  case (snoc l ls)
  then show ?case by (simp add: id_facts_queue_row rows_for_snoc)
qed

lemma known_iff: "index_ok idx \<Longrightarrow> obsJobID (obs_at (fst idx) i) = [] \<longleftrightarrow> id_facts idx i = None"
  by (auto simp: index_ok_def obs_at_def id_facts_def zero_Observation_def all_digits_def split: option.splits)

lemma id_facts_accounting_row:
  assumes "index_ok idx"
  shows "id_facts (status_row False idx l) k
    = (case id_facts idx k of None \<Rightarrow> (if rows_for [l] k \<noteq> [] then Some (hd (rows_for [l] k)) else None) | Some f \<Rightarrow> Some f)"
proof (cases "row_facts l")
  case None
  with status_row_cases [of False idx l] show ?thesis
    by (auto simp: rows_for_def map_filter_def split: option.splits)
next
  case (Some f)
  obtain i st node where f: "f = (i, st, node)" by (cases f)
  show ?thesis
  proof (cases "id_facts idx i")
    case None
    with status_row_cases [of False idx l] Some f known_iff [OF assms, of i] show ?thesis
      by (auto simp: Let_def id_facts_def rows_for_def map_filter_def split: option.splits)
  next
    case known: (Some g)
    with status_row_cases [of False idx l] Some f known_iff [OF assms, of i] have "status_row False idx l = idx"
      by (auto simp: Let_def)
    with Some f known show ?thesis by (auto simp: rows_for_def map_filter_def split: option.splits)
  qed
qed

lemma id_facts_accounting:
  "index_ok idx \<Longrightarrow> id_facts (foldl (status_row False) idx ls) k
   = (case id_facts idx k of None \<Rightarrow> (if rows_for ls k \<noteq> [] then Some (hd (rows_for ls k)) else None) | Some f \<Rightarrow> Some f)"
proof (induction ls rule: rev_induct)
  case Nil
  then show ?case by (simp add: rows_for_def map_filter_def split: option.splits)
next
  case (snoc l ls)
  then show ?case
    by (simp add: id_facts_accounting_row index_ok_fold rows_for_snoc split: option.splits)
qed

lemma status_index_authoritative: "id_facts (status_index parsed) k = authoritative parsed k"
proof -
  have "id_facts (foldl (status_row False) ([], []) ls) k
      = (if rows_for ls k \<noteq> [] then Some (hd (rows_for ls k)) else None)" for ls
    by (subst id_facts_accounting) (simp_all add: index_ok_def id_facts_def)
  then show ?thesis
    by (simp add: status_index_def authoritative_def id_facts_queue Let_def)
qed


definition sample_status_output :: string where
  "sample_status_output = unlines
     [''welcome'', statusMarkerCancel, statusMarkerQueue, ''7|RUNNING|n1|cs-a'', statusMarkerAccounting,
      ''7|PENDING||cs-a|0'', ''7|FAILED|n2|cs-a|60'']"

definition sample_job :: Job where
  "sample_job = \<lparr>jobID = ''7'', jobNameOf = ''cs-a'', Cancel = False, jobCreatedAt = 0\<rparr>"

lemma sample_status_sections:
  "Sections sample_status_output statusMarkerPrefix statusMarkers
   = Inr [(statusMarkerCancel, []), (statusMarkerQueue, ''7|RUNNING|n1|cs-a''),
          (statusMarkerAccounting, ''7|PENDING||cs-a|0'' @ [nl] @ ''7|FAILED|n2|cs-a|60'')]"
  by (simp add: Sections_def sample_status_output_def unlines_def status_marker_defs trim_suffix_def has_suffix_def
      flush_section_def)


section \<open>The accounting window\<close>

lemma go_quot_pos: "0 \<le> a \<Longrightarrow> 0 < b \<Longrightarrow> go_quot a b = a div b"
  by (cases "a = 0") (simp_all add: go_quot_def)

text \<open>
  For a run that started at most 292 years ago and not in the future, the accounting window is a whole number of
  seconds between one hour and thirty days, and reaches back at least to the start unless that is thirty days ago.
\<close>

theorem lookback_window:
  assumes "oldest \<le> now" and "now - oldest < 2 ^ 63 - hour"
  shows "3600 \<le> lookback_seconds oldest now \<and> lookback_seconds oldest now \<le> 2592000
    \<and> (now - oldest \<le> lookback_seconds oldest now * second \<or> lookback_seconds oldest now = 2592000)"
proof -
  have "time_sub now oldest = now - oldest" using assms by (intro time_sub_eq) (simp add: hour_def)
  moreover have "dur_add (now - oldest) hour = now - oldest + hour"
    unfolding dur_add_def using assms by (intro wrap64_id) (simp_all add: hour_def)
  moreover have "dur_mul (30 * 24) hour = 2592000 * second"
    by (simp add: dur_mul_def wrap64_def hour_def second_def)
  ultimately have eq: "lookback_seconds oldest now = min (now - oldest + hour) (2592000 * second) div second"
    using assms by (simp add: lookback_seconds_def go_quot_pos hour_def second_def)
  show ?thesis
  proof (cases "now - oldest + hour \<le> 2592000 * second")
    case True
    then have "lookback_seconds oldest now = (now - oldest + 3600 * second) div second"
      by (simp add: eq hour_def second_def min_absorb1)
    then have "lookback_seconds oldest now = (now - oldest) div second + 3600" by (simp add: second_def)
    moreover have "now - oldest < ((now - oldest) div second + 1) * second"
      using mult_div_mod_eq [of second "now - oldest"] pos_mod_bound [of second "now - oldest"]
      by (simp add: second_def algebra_simps)
    moreover have "0 \<le> (now - oldest) div second" using assms(1) by (simp add: second_def pos_imp_zdiv_nonneg_iff)
    moreover have "(now - oldest) div second \<le> 2588400" using True by (simp add: hour_def second_def)
    ultimately show ?thesis by (simp add: second_def)
  next
    case False
    then have "min (now - oldest + hour) (2592000 * second) = 2592000 * second" by (simp add: min_def)
    then show ?thesis by (simp add: eq second_def)
  qed
qed

theorem lookback_window_witness:
  "3600 \<le> lookback_seconds 0 second \<and> lookback_seconds 0 second \<le> 2592000
    \<and> (second - 0 \<le> lookback_seconds 0 second * second \<or> lookback_seconds 0 second = 2592000)"
  by (rule lookback_window) (simp_all add: second_def hour_def)

text \<open>
  C39: A run with no recorded start makes the window negative: the difference to Go's zero time saturates, adding the
  hour wraps around, and \<^verbatim>\<open>sacct\<close> is asked for records since \<^verbatim>\<open>now--9223368436seconds\<close>.
\<close>

theorem lookback_unstarted:
  assumes "2 ^ 63 - 1 \<le> now"
  shows "lookback 0 now = ''now--9223368436seconds''"
proof -
  have "time_sub now 0 = 2 ^ 63 - 1" using assms by (simp add: time_sub_def)
  then have "lookback_seconds 0 now = - 9223368436"
    by (simp add: lookback_seconds_def dur_add_def dur_mul_def wrap64_def hour_def second_def go_quot_def)
  moreover have "itoa (- 9223368436) = ''-9223368436''"
    by (simp add: itoa_def nat_str_eval digit_char_eval)
  ultimately show ?thesis by (simp add: lookback_def)
qed

text \<open>63902995200000000000 is the first of January 2026.\<close>

theorem lookback_unstarted_witness: "lookback 0 63902995200000000000 = ''now--9223368436seconds''"
  by (rule lookback_unstarted) simp

section \<open>Submission outcomes\<close>


definition sample_runner :: Runner where
  "sample_runner = \<lparr>SSHBin = [], Timeout = 0, ControlNamespace = [], ConfigPath = []\<rparr>"

definition sample_io :: "string \<Rightarrow> ssh_io" where
  "sample_io answer = \<lparr>io_read_config = (\<lambda>_. Inr []), io_resolve = (\<lambda>_. Inr []), io_private_path = (\<lambda>_. Inr []),
     io_exec = (\<lambda>_ _. (answer, [], None))\<rparr>"

lemma sample_RunOutput:
  "remoteArgs \<noteq> [] \<Longrightarrow> RunOutput (sample_io answer) sample_runner ''hpc'' stdin remoteArgs = (answer, [], None)"
  by (simp add: RunOutput_def identity_def sample_runner_def sample_io_def ValidAlias_def SafeName_def
      safeNamePattern_def is_alnum_def is_alpha_def less_eq_char_def resolve_def sshArgs_def)

lemma sample_submitProgram: "\<exists>program. submitProgram sample_request = Inr program"
  by (simp add: submitProgram_def sample_request_def has_suffix_def submitScriptEnd_def)


end
