(* ===== verification/SessionTypes.thy ===== *)
theory SessionTypes
  imports Slurm
begin

text \<open>
  The data of \<^verbatim>\<open>subsystems/session\<close>: the JSON shapes of \<^verbatim>\<open>wire.go\<close>, the stored records of \<^verbatim>\<open>service.go\<close> and
  \<^verbatim>\<open>telemetry.go\<close>, the package's constants, classified errors and state predicates. A session's state is kept as the
  string the code keeps. A \<^verbatim>\<open>float64\<close> is its bit pattern; a Go \<^verbatim>\<open>int\<close> is an \<open>int\<close>. A nil slice that the code tells apart
  from an empty one is \<open>None\<close>.
\<close>

section \<open>Wire shapes\<close>

record Gres =
  gName :: string
  gCount :: int

record Partition =
  pName :: string
  pCPUCount :: int
  pMemoryMB :: int
  pGRES :: "Gres list"

record Resource =
  resHost :: string
  resAccounts :: "string list"
  resPartitions :: "Partition list"
  resHomeDir :: string

record Resources =
  Cores :: int
  MemoryMB :: int
  WallMinutes :: int
  GPUType :: string
  GPUCount :: int

record CreateRequest =
  crID :: string
  crIdempotencyKey :: string
  crSSHHost :: string
  crAccount :: string
  crPartition :: string
  crRootFolder :: string
  crResources :: Resources
  crTunnelModes :: "string list option"

record SessionResponse =
  sID :: string
  sSeq :: int
  sState :: string
  sLauncher :: string
  sSSHHost :: string
  sAccount :: string
  sPartition :: string
  sRootFolder :: string
  sResources :: Resources
  sTunnelModes :: "string list"
  sError :: string
  sCreatedAt :: time
  sStartedAt :: time
  sUpdatedAt :: time

record LinkAccess =
  laURL :: string
  laToken :: string

record DevtunnelAccess =
  daID :: string
  daCluster :: string
  daHostToken :: string

record SessionJupyterAccess =
  jaURI :: string
  jaToken :: string

record SessionAccessResponse =
  saSessionID :: string
  saSeq :: int
  saExpiresAt :: time
  saJupyter :: SessionJupyterAccess

record ValidationResult =
  vrSessionID :: string
  vrScript :: string
  vrStatus :: string
  vrMessage :: string
  vrStdout :: string
  vrStderr :: string

record SessionLogLine =
  llStream :: string
  llText :: string
  llAt :: time

record SessionLogTail =
  ltSessionID :: string
  ltLines :: "SessionLogLine list"

record GPUSample =
  gpuIndex :: int
  gpuUtilPct :: int
  gpuMemUsedMiB :: int
  gpuMemTotalMiB :: int

record MetricSample =
  msAt :: time
  msMemBytes :: "int option"
  msCPUUsageUsec :: "int option"
  msGPUs :: "GPUSample list"

record RunStats =
  rsCores :: int
  rsRequestedMemory :: string
  rsElapsedSeconds :: int
  rsMaxRSS :: string
  rsCPUEfficiencyPct :: "64 word"
  rsMemoryEfficiencyPct :: "64 word"

record FinishedRun =
  frFinalState :: string
  frError :: string
  frStartedAt :: time
  frEndedAt :: time
  frStats :: "RunStats option"
  frSamples :: "MetricSample list"

record SessionHistory =
  shCreatedAt :: time
  shRuns :: "FinishedRun list"

record Run =
  rSessionID :: string
  rSeq :: int
  rSSHHost :: string
  rAccount :: string
  rPartition :: string
  rRootFolder :: string
  rResources :: Resources
  rTunnelModes :: "string list"
  rFinalState :: string
  rError :: string
  rStartedAt :: time
  rEndedAt :: time
  rStats :: "RunStats option"
  rSamples :: "MetricSample list"
  rLogs :: "SessionLogLine list"

section \<open>Stored records\<close>

record tunnelMetadata =
  tmID :: string
  tmClusterID :: string
  tmExpiresAt :: time

definition no_tunnel :: tunnelMetadata where
  "no_tunnel = \<lparr>tmID = [], tmClusterID = [], tmExpiresAt = 0\<rparr>"

record Session = SessionResponse +
  sOwner :: Principal
  sTunnel :: tunnelMetadata
  sJobID :: string
  sJobName :: string
  sNode :: string
  sPrivateRoot :: string
  sWorkspaceRoot :: string

record runRecord = Run +
  rOwner :: Principal
  rLauncher :: string

text \<open>The state one locked cycle works on: the sessions by identifier, and the runs, newest first.\<close>

record store_state =
  Sessions :: "(string \<times> Session) list"
  Runs :: "runRecord list"

record sessionCapability =
  capConnectToken :: string
  capJupyterToken :: string
  capLinkToken :: string

record AttachResponse =
  arSession :: Session
  arLink :: "LinkAccess option"
  arDevtunnel :: "DevtunnelAccess option"

section \<open>Constants and errors\<close>

definition maxSessionError :: nat where "maxSessionError = 4096"
definition maxRunRecords :: nat where "maxRunRecords = 200"
definition maxSessionMetricSamples :: nat where "maxSessionMetricSamples = 20"
definition launcherPlane :: string where "launcherPlane = ''cs-plane''"
definition launcherClient :: string where "launcherClient = ''client''"
definition DefaultLinkspanPath :: string where "DefaultLinkspanPath = ''$HOME/.cybershuttle/bin/linkspan''"
definition defaultSessionBase :: string where "defaultSessionBase = ''.cybershuttle/sessions''"
definition minCores :: int where "minCores = 2"
definition minMemoryMB :: int where "minMemoryMB = 4096"

definition errSessionNotFound :: go_error where
  "errSessionNotFound = APIError ''session_not_found'' ''session not found'' 404"
definition errOwnerMismatch :: go_error where
  "errOwnerMismatch = APIError ''session_owner_mismatch'' ''session is owned by another principal'' 403"
definition errSessionRunning :: go_error where
  "errSessionRunning = APIError ''session_running'' ''session is still running; stop it before running it again'' 409"
definition errIdempotencyConflict :: go_error where
  "errIdempotencyConflict =
     APIError ''idempotency_conflict'' ''idempotency key was already used for another request'' 409"
definition errServiceStopping :: go_error where
  "errServiceStopping = APIError ''service_stopping'' ''The session service is stopping.'' 503"
definition errSessionHasHistory :: go_error where
  "errSessionHasHistory = APIError ''session_has_history'' ''session already has a run history'' 409"
definition errTunnelLinkRequired :: go_error where
  "errTunnelLinkRequired =
     APIError ''tunnel_link_required'' ''the devtunnel mode requires a linked Dev Tunnels account'' 409"
definition errSessionNotStopped :: go_error where
  "errSessionNotStopped = APIError ''session_not_stopped'' ''stop the session before deleting it'' 409"

lemmas session_errors =
  errSessionNotFound_def errOwnerMismatch_def errSessionRunning_def errIdempotencyConflict_def errServiceStopping_def
  errSessionHasHistory_def errTunnelLinkRequired_def errSessionNotStopped_def

section \<open>Identity and states\<close>

text \<open>\<^verbatim>\<open>^s-[a-f0-9]{12}$\<close>\<close>

definition idPattern :: "string \<Rightarrow> bool" where
  "idPattern s \<longleftrightarrow> has_prefix s ''s-'' \<and> length s = 14 \<and> list_all is_lower_hex (drop 2 s)"

definition terminalSession :: "string \<Rightarrow> bool" where
  "terminalSession st \<longleftrightarrow> st = ''STOPPED'' \<or> st = ''FAILED''"

definition reconcilable :: "string \<Rightarrow> bool" where
  "reconcilable st \<longleftrightarrow>
     st = ''SUBMITTING'' \<or> st = ''QUEUED'' \<or> st = ''STARTING'' \<or> st = ''READY'' \<or> st = ''STOPPING''"

definition jobName :: "string \<Rightarrow> int \<Rightarrow> string" where
  "jobName ident seq = ''cs-'' @ ident @ ''-'' @ itoa seq"

definition boundedSessionError :: "go_error \<Rightarrow> string" where
  "boundedSessionError e = TruncateUTF8 (to_valid_utf8 False (error_text e)) maxSessionError"

text \<open>The vocabulary of the state field; every state is terminal or reconcilable, and none is both.\<close>

definition session_states :: "string list" where
  "session_states = [''SUBMITTING'', ''QUEUED'', ''STARTING'', ''READY'', ''STOPPING'', ''STOPPED'', ''FAILED'']"

definition valid_state :: "string \<Rightarrow> bool" where
  "valid_state st \<longleftrightarrow> st \<in> set session_states"

lemma valid_state_cases:
  "valid_state st \<longleftrightarrow> terminalSession st \<or> reconcilable st"
  by (auto simp: valid_state_def session_states_def terminalSession_def reconcilable_def)

lemma terminal_not_reconcilable: "terminalSession st \<Longrightarrow> \<not> reconcilable st"
  by (auto simp: terminalSession_def reconcilable_def)

lemma idPattern_char: "idPattern s \<Longrightarrow> c \<in> set s \<Longrightarrow> c = CHR ''-'' \<or> is_alnum c"
proof -
  assume "idPattern s" and c: "c \<in> set s"
  then obtain t where s: "s = ''s-'' @ t" and t: "list_all is_lower_hex t"
    by (auto simp: idPattern_def has_prefix_iff)
  have "is_alnum CHR ''s''" by (simp add: is_alnum_iff)
  with c s t show ?thesis by (auto simp: list_all_iff is_lower_hex_alnum)
qed

text \<open>
  The name a run's job carries in the scheduler determines the session and the run: two sessions, or two runs of
  one session, never share a job name.
\<close>

theorem jobName_inject:
  assumes "idPattern a" and "idPattern b" and "0 \<le> m" and "0 \<le> n"
  shows "jobName a m = jobName b n \<longleftrightarrow> a = b \<and> m = n"
proof -
  have "length a = 14" "length b = 14" using assms by (auto simp: idPattern_def)
  then show ?thesis using itoa_inject [OF assms(3,4)] by (auto simp: jobName_def)
qed

lemma sample_id: "idPattern ''s-0123456789ab''"
  by (simp add: idPattern_def is_lower_hex_def is_digit_def less_eq_char_def)

theorem jobName_inject_witness:
  "jobName ''s-0123456789ab'' 1 = jobName ''s-0123456789ab'' 2
   \<longleftrightarrow> ''s-0123456789ab'' = ''s-0123456789ab'' \<and> (1 :: int) = 2"
  by (rule jobName_inject) (simp_all add: sample_id)

end
