(* ===== verification/SessionLogs.thy ===== *)
theory SessionLogs
  imports SessionTypes
begin

text \<open>
  The process-local buffers of \<^verbatim>\<open>subsystems/session/telemetry.go\<close>: log lines sanitised before they are stored, the
  bounded status and remote tails, the metric samples, and the bounded list of finished runs. The regular
  expressions of the sanitiser run on a small matcher with the preference order of Go's \<^verbatim>\<open>regexp\<close> (leftmost, first
  alternative), over the runes of valid UTF-8 text.
\<close>

section \<open>Runes and regular expressions\<close>

function runes :: "string \<Rightarrow> string list" where
  "runes s =
     (if s = [] then []
      else take (max 1 (rune_width s)) s # runes (drop (max 1 (rune_width s)) s))"
  by pat_completeness auto
termination
  by (relation "measure length") auto

declare runes.simps [simp del]

definition cont_bits :: "char \<Rightarrow> nat" where
  "cont_bits c = of_char c mod 64"

fun rune_code :: "string \<Rightarrow> nat" where
  "rune_code [a] = of_char a"
| "rune_code [a, b] = (of_char a mod 32) * 64 + cont_bits b"
| "rune_code [a, b, c] = ((of_char a mod 16) * 64 + cont_bits b) * 64 + cont_bits c"
| "rune_code [a, b, c, d] = (((of_char a mod 8) * 64 + cont_bits b) * 64 + cont_bits c) * 64 + cont_bits d"
| "rune_code _ = 0xFFFD"

datatype re =
    RuneIn "nat \<Rightarrow> bool"
  | Eps
  | WordB
  | Seq re re
  | Alt re re
  | Star re
  | LazyStar re

definition word_code :: "nat \<Rightarrow> bool" where
  "word_code n \<longleftrightarrow> (48 \<le> n \<and> n \<le> 57) \<or> (65 \<le> n \<and> n \<le> 90) \<or> n = 95 \<or> (97 \<le> n \<and> n \<le> 122)"

definition word_opt :: "nat option \<Rightarrow> bool" where
  "word_opt o' = (case o' of None \<Rightarrow> False | Some n \<Rightarrow> word_code n)"

definition prev_at :: "nat option \<Rightarrow> nat list \<Rightarrow> nat \<Rightarrow> nat option" where
  "prev_at prev xs k = (if k = 0 then prev else if k \<le> length xs then Some (xs ! (k - 1)) else prev)"

text \<open>The lengths at which a match that starts here may end, in order of preference.\<close>

function ends :: "re \<Rightarrow> nat option \<Rightarrow> nat list \<Rightarrow> nat list" where
  "ends (RuneIn p) prev xs = (case xs of [] \<Rightarrow> [] | x # _ \<Rightarrow> if p x then [1] else [])"
| "ends Eps prev xs = [0]"
| "ends WordB prev xs =
     (if word_opt prev \<noteq> (case xs of [] \<Rightarrow> False | x # _ \<Rightarrow> word_code x) then [0] else [])"
| "ends (Seq a b) prev xs =
     concat (map (\<lambda>k. map (\<lambda>j. k + j) (ends b (prev_at prev xs k) (drop k xs))) (ends a prev xs))"
| "ends (Alt a b) prev xs = ends a prev xs @ ends b prev xs"
| "ends (Star a) prev xs =
     concat (map (\<lambda>k. if k = 0 \<or> xs = [] then []
                      else map (\<lambda>j. k + j) (ends (Star a) (prev_at prev xs k) (drop k xs)))
               (ends a prev xs)) @ [0]"
| "ends (LazyStar a) prev xs =
     0 # concat (map (\<lambda>k. if k = 0 \<or> xs = [] then []
                          else map (\<lambda>j. k + j) (ends (LazyStar a) (prev_at prev xs k) (drop k xs)))
                   (ends a prev xs))"
  by pat_completeness auto
termination
  by (relation "measures [\<lambda>(r, b, xs). size r, \<lambda>(r, b, xs). length xs]") auto

text \<open>\<^verbatim>\<open>Regexp.ReplaceAllString\<close> for an expression that matches no empty text.\<close>

function replace_matches :: "re \<Rightarrow> string \<Rightarrow> nat option \<Rightarrow> string list \<Rightarrow> string" where
  "replace_matches r new prev rs =
     (if rs = [] then []
      else (case ends r prev (map rune_code rs) of
              [] \<Rightarrow> hd rs @ replace_matches r new (Some (rune_code (hd rs))) (tl rs)
            | k # _ \<Rightarrow>
                if k = 0 then hd rs @ replace_matches r new (Some (rune_code (hd rs))) (tl rs)
                else new @ replace_matches r new (prev_at prev (map rune_code rs) k) (drop k rs)))"
  by pat_completeness auto
termination
  by (relation "measure (\<lambda>(r, new, b, rs). length rs)") auto

declare replace_matches.simps [simp del]

definition re_replace :: "re \<Rightarrow> string \<Rightarrow> string \<Rightarrow> string" where
  "re_replace r new s = replace_matches r new None (runes s)"

fun re_rep :: "nat \<Rightarrow> re \<Rightarrow> re" where
  "re_rep 0 r = Eps"
| "re_rep (Suc n) r = Seq r (re_rep n r)"

definition re_plus :: "re \<Rightarrow> re" where "re_plus r = Seq r (Star r)"
definition re_opt :: "re \<Rightarrow> re" where "re_opt r = Alt r Eps"

fun re_alts :: "re list \<Rightarrow> re" where
  "re_alts [] = RuneIn (\<lambda>_. False)"
| "re_alts [r] = r"
| "re_alts (r # rs) = Alt r (re_alts rs)"

fun re_seqs :: "re list \<Rightarrow> re" where
  "re_seqs [] = Eps"
| "re_seqs (r # rs) = Seq r (re_seqs rs)"

definition re_range :: "nat \<Rightarrow> nat \<Rightarrow> re" where "re_range lo hi = RuneIn (\<lambda>n. lo \<le> n \<and> n \<le> hi)"
definition re_code :: "nat \<Rightarrow> re" where "re_code c = RuneIn (\<lambda>n. n = c)"

definition re_lit :: "string \<Rightarrow> re" where
  "re_lit s = re_seqs (map (\<lambda>c. re_code (of_char c)) s)"

text \<open>Case-insensitive letters: \<^verbatim>\<open>k\<close> also folds to the Kelvin sign and \<^verbatim>\<open>s\<close> to the long s.\<close>

definition fold_codes :: "char \<Rightarrow> nat list" where
  "fold_codes c =
     [of_char (lower_char c), of_char (upper_char c)]
     @ (if lower_char c = CHR ''k'' then [0x212A] else []) @ (if lower_char c = CHR ''s'' then [0x17F] else [])"

definition re_ci :: "string \<Rightarrow> re" where
  "re_ci s = re_seqs (map (\<lambda>c. RuneIn (\<lambda>n. n \<in> set (fold_codes c))) s)"

definition alnum_code :: "nat \<Rightarrow> bool" where
  "alnum_code n \<longleftrightarrow> (48 \<le> n \<and> n \<le> 57) \<or> (65 \<le> n \<and> n \<le> 90) \<or> (97 \<le> n \<and> n \<le> 122)"

definition code_in :: "string \<Rightarrow> nat \<Rightarrow> bool" where
  "code_in s n \<longleftrightarrow> n \<in> set (map of_char s)"

definition space_code :: "nat \<Rightarrow> bool" where
  "space_code n \<longleftrightarrow> n = 9 \<or> n = 10 \<or> n = 12 \<or> n = 13 \<or> n = 32"

definition lower_hex_code :: "nat \<Rightarrow> bool" where
  "lower_hex_code n \<longleftrightarrow> (48 \<le> n \<and> n \<le> 57) \<or> (97 \<le> n \<and> n \<le> 102)"

abbreviation re_space :: re where "re_space \<equiv> RuneIn space_code"
abbreviation re_b64 :: re where "re_b64 \<equiv> RuneIn (\<lambda>n. alnum_code n \<or> code_in ''_-'' n)"
abbreviation re_pathrune :: re where
  "re_pathrune \<equiv> RuneIn (\<lambda>n. \<not> space_code n \<and> \<not> code_in [CHR 0x27, CHR 0x22] n)"

section \<open>The sanitiser\<close>

definition bearerPattern :: re where
  "bearerPattern =
     (let cls = RuneIn (\<lambda>n. alnum_code n \<or> code_in ''._~+/=-'' n \<or> n = 0x212A \<or> n = 0x17F)
      in re_seqs [WordB, re_ci ''Bearer'', re_plus re_space, re_rep 8 cls, Star cls])"

definition assignmentPattern :: re where
  "assignmentPattern =
     re_seqs [WordB,
       re_alts [re_ci ''token'', re_ci ''secret'', re_ci ''password'',
                re_seqs [re_ci ''api'', re_opt (RuneIn (code_in ''_-'')), re_ci ''key'']],
       Star re_space, RuneIn (code_in '':=''), Star re_space,
       re_plus (RuneIn (\<lambda>n. \<not> space_code n \<and> \<not> code_in '',;'' n))]"

definition jwtPattern :: re where
  "jwtPattern =
     re_seqs [WordB, re_lit ''eyJ'', Star re_b64, re_lit ''.'', re_plus re_b64, re_lit ''.'', re_plus re_b64, WordB]"

definition hexPattern :: re where
  "hexPattern =
     re_seqs [WordB, Alt (re_rep 64 (RuneIn lower_hex_code)) (re_rep 32 (RuneIn lower_hex_code)), WordB]"

definition privatePathPattern :: re where
  "privatePathPattern =
     re_seqs [re_lit ''/'', Star re_pathrune, re_lit ''.cybershuttle/sessions/s-'', re_rep 12 (RuneIn lower_hex_code),
       re_opt (Seq (re_lit ''/'') (Star re_pathrune))]"

definition sessionCredentialPatterns :: "re list" where
  "sessionCredentialPatterns =
     [bearerPattern, assignmentPattern, jwtPattern, hexPattern, privatePathPattern]"

definition terminalSequences :: re where
  "terminalSequences =
     (let anyRune = RuneIn (\<lambda>_. True);
          csi = Alt (Seq (re_code 0x1B) (re_lit ''['')) (re_code 0x9B);
          osc = Alt (Seq (re_code 0x1B) (re_lit '']'')) (re_code 0x9D);
          str = Alt (Seq (re_code 0x1B) (RuneIn (code_in ''PX^_'')))
                  (RuneIn (\<lambda>n. n = 0x90 \<or> n = 0x98 \<or> n = 0x9E \<or> n = 0x9F));
          st = Alt (Seq (re_code 0x1B) (re_code 0x5C)) (re_code 0x9C);
          intermediates = Star (re_range 0x20 0x2F)
      in re_alts
        [re_seqs [csi, Star (re_range 0x30 0x3F), intermediates, re_range 0x40 0x7E],
         Seq csi (Star anyRune),
         re_seqs [osc, LazyStar anyRune, Alt (re_code 0x07) st],
         Seq osc (Star anyRune),
         re_seqs [str, LazyStar anyRune, st],
         Seq str (Star anyRune),
         re_seqs [re_code 0x1B, intermediates, re_range 0x30 0x7E],
         Seq (re_code 0x1B) intermediates])"

definition control_code :: "nat \<Rightarrow> bool" where
  "control_code n \<longleftrightarrow> n \<le> 9 \<or> n = 0x0B \<or> n = 0x0C \<or> (0x0E \<le> n \<and> n \<le> 0x1F) \<or> (0x7F \<le> n \<and> n \<le> 0x9F)"

definition terminalControls :: re where
  "terminalControls = RuneIn control_code"

definition redacted_mark :: string where "redacted_mark = ''[redacted]''"

definition redactSessionLogLine :: "string \<Rightarrow> string list \<Rightarrow> string" where
  "redactSessionLogLine value sensitive =
     (let trimmed = trim_space value
      in if has_prefix trimmed ''#!'' \<or> has_prefix trimmed ''#SBATCH'' then redacted_mark
         else foldl (\<lambda>v r. re_replace r redacted_mark v)
                (foldl (\<lambda>v secret. replace_all v secret redacted_mark) value sensitive)
                sessionCredentialPatterns)"

definition maxSessionLogLines :: nat where "maxSessionLogLines = 100"
definition maxSessionLogBytes :: nat where "maxSessionLogBytes = 65536"
definition maxSessionLogLineBytes :: nat where "maxSessionLogLineBytes = 4096"

definition strip_terminal :: "string \<Rightarrow> string" where
  "strip_terminal value =
     (let valid = to_valid_utf8 False value;
          stripped = re_replace terminalControls [] (re_replace terminalSequences [] valid)
      in replace_all (replace_all stripped [cr, nl] [nl]) [cr] [nl])"

definition sanitizedSessionLogLines :: "string \<Rightarrow> string list \<Rightarrow> string list" where
  "sanitizedSessionLogLines value sensitive =
     (if value = [] then []
      else map (\<lambda>part. TruncateUTF8 (redactSessionLogLine part sensitive) maxSessionLogLineBytes)
             (split_on nl (trim_suffix (strip_terminal value) [nl])))"

section \<open>Log buffers\<close>

record sessionLogBuffer =
  statusBytes :: int
  bufStatus :: "SessionLogLine list"
  bufRemote :: "SessionLogLine list"

record sessionLogs =
  tails :: "(string \<times> sessionLogBuffer) list"
  sensitiveOf :: "(string \<times> string list) list"

definition newSessionLogs :: sessionLogs where
  "newSessionLogs = \<lparr>tails = [], sensitiveOf = []\<rparr>"

definition empty_buffer :: sessionLogBuffer where
  "empty_buffer = \<lparr>statusBytes = 0, bufStatus = [], bufRemote = []\<rparr>"

definition bufferLocked :: "sessionLogs \<Rightarrow> string \<Rightarrow> sessionLogBuffer" where
  "bufferLocked l ident = (case alookup (tails l) ident of None \<Rightarrow> empty_buffer | Some b \<Rightarrow> b)"

definition sensitiveFor :: "sessionLogs \<Rightarrow> string \<Rightarrow> string list" where
  "sensitiveFor l ident = (case alookup (sensitiveOf l) ident of None \<Rightarrow> [] | Some v \<Rightarrow> v)"

definition logs_forget :: "string \<Rightarrow> sessionLogs \<Rightarrow> sessionLogs" where
  "logs_forget ident l = l\<lparr>tails := adel ident (tails l), sensitiveOf := adel ident (sensitiveOf l)\<rparr>"

text \<open>The eviction loop: the oldest line goes while there are too many lines or too many bytes.\<close>

fun evict :: "int \<Rightarrow> SessionLogLine list \<Rightarrow> int \<times> SessionLogLine list" where
  "evict bytes [] = (bytes, [])"
| "evict bytes (l # ls) =
     (if maxSessionLogLines < length (l # ls) \<or> int maxSessionLogBytes < bytes
      then evict (bytes - int (length (llText l))) ls
      else (bytes, l # ls))"

definition append_status :: "time \<Rightarrow> sessionLogBuffer \<Rightarrow> string \<Rightarrow> sessionLogBuffer" where
  "append_status now b line =
     (let entry = \<lparr>llStream = ''status'', llText = line, llAt = now\<rparr>
      in if bufStatus b \<noteq> [] \<and> llStream (last (bufStatus b)) = llStream entry \<and> llText (last (bufStatus b)) = line
         then b
         else (case evict (statusBytes b + int (length line)) (bufStatus b @ [entry]) of
                 (bytes, kept) \<Rightarrow> b\<lparr>statusBytes := bytes, bufStatus := kept\<rparr>))"

definition logs_append :: "string \<Rightarrow> string \<Rightarrow> time \<Rightarrow> sessionLogs \<Rightarrow> sessionLogs" where
  "logs_append ident text now l =
     (if \<not> idPattern ident then l
      else (case sanitizedSessionLogLines text (sensitiveFor l ident) of
              [] \<Rightarrow> l
            | lines \<Rightarrow>
                l\<lparr>tails := aput ident (foldl (append_status now) (bufferLocked l ident) lines) (tails l)\<rparr>))"

definition keep_last :: "nat \<Rightarrow> 'a list \<Rightarrow> 'a list" where
  "keep_last n xs = drop (length xs - n) xs"

fun stamp_remote :: "time \<Rightarrow> SessionLogLine list \<Rightarrow> SessionLogLine list \<Rightarrow> SessionLogLine list" where
  "stamp_remote now old [] = []"
| "stamp_remote now [] (n # ns) = n\<lparr>llAt := now\<rparr> # stamp_remote now [] ns"
| "stamp_remote now (p # ps) (n # ns) =
     n\<lparr>llAt := (if llStream p = llStream n \<and> llText p = llText n then llAt p else now)\<rparr> # stamp_remote now ps ns"

definition mergeRemote :: "string \<Rightarrow> string \<Rightarrow> string \<Rightarrow> time \<Rightarrow> sessionLogs \<Rightarrow> bool \<times> sessionLogs" where
  "mergeRemote ident stdout stderr now l =
     (if \<not> idPattern ident then (False, l)
      else (let sensitive = sensitiveFor l ident;
                gathered =
                  map (\<lambda>t. \<lparr>llStream = ''stdout'', llText = t, llAt = 0\<rparr>) (sanitizedSessionLogLines stdout sensitive)
                  @ map (\<lambda>t. \<lparr>llStream = ''stderr'', llText = t, llAt = 0\<rparr>) (sanitizedSessionLogLines stderr sensitive);
                b = bufferLocked l ident;
                remote = stamp_remote now (bufRemote b) (keep_last maxSessionLogLines gathered)
            in (remote \<noteq> [], l\<lparr>tails := aput ident (b\<lparr>bufRemote := remote\<rparr>) (tails l)\<rparr>)))"

definition logs_tail :: "sessionLogs \<Rightarrow> string \<Rightarrow> SessionLogTail option" where
  "logs_tail l ident =
     (case alookup (tails l) ident of
        None \<Rightarrow> None
      | Some b \<Rightarrow>
          if bufStatus b @ bufRemote b = [] then None
          else Some \<lparr>ltSessionID = ident, ltLines = bufStatus b @ bufRemote b\<rparr>)"

text \<open>Longest first; the order of values of one length is left open by \<^verbatim>\<open>slices.SortFunc\<close> and is ascending here.\<close>

definition setSessionSensitive :: "string \<Rightarrow> string list \<Rightarrow> sessionLogs \<Rightarrow> sessionLogs" where
  "setSessionSensitive ident values l =
     (if \<not> idPattern ident then l
      else l\<lparr>sensitiveOf := aput ident
        (sort_key (\<lambda>v. - int (length v)) (compact (sort (filter (\<lambda>v. \<not> length v < 3) values)))) (sensitiveOf l)\<rparr>)"

section \<open>Metrics and runs\<close>

type_synonym sessionMetrics = "(string \<times> MetricSample list) list"

definition metrics_samples :: "sessionMetrics \<Rightarrow> string \<Rightarrow> MetricSample list" where
  "metrics_samples m ident = (case alookup m ident of None \<Rightarrow> [] | Some s \<Rightarrow> s)"

definition push_sample :: "MetricSample \<Rightarrow> MetricSample list \<Rightarrow> MetricSample list" where
  "push_sample x xs = keep_last maxSessionMetricSamples (xs @ [x])"

definition metrics_append :: "string \<Rightarrow> MetricSample \<Rightarrow> sessionMetrics \<Rightarrow> sessionMetrics" where
  "metrics_append ident sample m = aput ident (push_sample sample (metrics_samples m ident)) m"

definition metrics_forget :: "string \<Rightarrow> sessionMetrics \<Rightarrow> sessionMetrics" where
  "metrics_forget ident m = adel ident m"

definition push_run :: "runRecord \<Rightarrow> runRecord list \<Rightarrow> runRecord list" where
  "push_run x xs = take maxRunRecords (x # xs)"

definition recordRun :: "store_state \<Rightarrow> runRecord \<Rightarrow> bool \<times> store_state" where
  "recordRun current rec =
     (if rSeq rec = 0 \<or> list_ex (\<lambda>e. rSessionID e = rSessionID rec \<and> rSeq e = rSeq rec) (Runs current)
      then (False, current)
      else (True, current\<lparr>Runs := push_run rec (Runs current)\<rparr>))"

definition runOf :: "sessionLogs \<Rightarrow> sessionMetrics \<Rightarrow> Session \<Rightarrow> runRecord" where
  "runOf l m s =
     \<lparr>rSessionID = sID s, rSeq = sSeq s, rSSHHost = sSSHHost s, rAccount = sAccount s, rPartition = sPartition s,
      rRootFolder = sRootFolder s, rResources = sResources s, rTunnelModes = sTunnelModes s, rFinalState = sState s,
      rError = sError s, rStartedAt = sStartedAt s, rEndedAt = sUpdatedAt s, rStats = None,
      rSamples = metrics_samples m (sID s),
      rLogs = (case logs_tail l (sID s) of None \<Rightarrow> [] | Some t \<Rightarrow> ltLines t),
      rOwner = sOwner s, rLauncher = sLauncher s\<rparr>"

section \<open>Windows onto the most recent items\<close>

text \<open>
  The contract of a bounded history: \<open>recent\<close> lists what is kept, newest first, and adding an item puts it
  in front and keeps the first \<open>cap\<close>.
\<close>

locale recent_window =
  fixes cap :: nat and add :: "'a \<Rightarrow> 'a list \<Rightarrow> 'a list" and recent :: "'a list \<Rightarrow> 'a list"
  assumes recent_Nil: "recent [] = []"
    and recent_add: "recent (add x xs) = take cap (x # recent xs)"
    and recent_set: "set (recent xs) = set xs"
    and recent_length: "length (recent xs) = length xs"
begin

lemma recent_fold: "recent (foldl (\<lambda>xs x. add x xs) [] ys) = take cap (rev ys)"
proof (induction ys rule: rev_induct)
  case Nil
  then show ?case by (simp add: recent_Nil)
next
  case (snoc y ys)
  then show ?case by (cases cap) (simp_all add: recent_add take_Cons')
qed

lemma add_length: "length (add x xs) \<le> cap"
  by (metis recent_add recent_length length_take min.cobounded2)

lemma add_subset: "set (add x xs) \<subseteq> insert x (set xs)"
  by (metis recent_add recent_set list.simps(15) set_take_subset)

lemma add_newest: "0 < cap \<Longrightarrow> x \<in> set (add x xs)"
proof -
  assume "0 < cap"
  then have "x \<in> set (recent (add x xs))" by (cases cap) (simp_all add: recent_add)
  then show ?thesis by (simp only: recent_set)
qed

end

lemma rev_keep_last: "rev (keep_last n xs) = take n (rev xs)"
  by (cases "n \<le> length xs") (simp_all add: keep_last_def rev_drop del: rev_append)

lemma length_keep_last [simp]: "length (keep_last n xs) = min n (length xs)"
  by (auto simp: keep_last_def)

interpretation sample_window: recent_window maxSessionMetricSamples push_sample rev
  by unfold_locales (simp_all add: push_sample_def rev_keep_last)

interpretation run_window: recent_window maxRunRecords push_run id
  by unfold_locales (simp_all add: push_run_def)

section \<open>Facts on sanitised text\<close>

text \<open>A byte no line may hold: the C0 controls and \<^verbatim>\<open>DEL\<close>, among them the escape that starts a terminal sequence.\<close>

definition control_byte :: "char \<Rightarrow> bool" where
  "control_byte c \<longleftrightarrow> byte_in 0 0x1F c \<or> byte_in 0x7F 0x7F c"

lemma runes_Nil [simp]: "runes [] = []"
  by (simp add: runes.simps)

lemma concat_runes: "concat (runes s) = s"
proof (induction s rule: runes.induct)
  case (1 s)
  then show ?case by (cases "s = []") (simp_all add: runes.simps [of s])
qed

lemma rune_nonempty: "r \<in> set (runes s) \<Longrightarrow> r \<noteq> []"
proof (induction s rule: runes.induct)
  case (1 s)
  then show ?case by (cases "s = []") (auto simp: runes.simps [of s])
qed

lemma replace_matches_bytes:
  "set (replace_matches r new prev rs) \<subseteq> set new \<union> \<Union> (set ` set rs)"
proof (induction r new prev rs rule: replace_matches.induct)
  case (1 r new prev rs)
  show ?case
  proof (cases rs)
    case Nil
    then show ?thesis by (simp add: replace_matches.simps)
  next
    case (Cons x xs)
    let ?e = "ends r prev (map rune_code rs)"
    show ?thesis
    proof (cases ?e)
      case Nil
      with 1(1) Cons show ?thesis by (subst replace_matches.simps) auto
    next
      case (Cons k ks)
      show ?thesis
      proof (cases "k = 0")
        case True
        with 1(2) Cons \<open>rs = x # xs\<close> show ?thesis by (subst replace_matches.simps) auto
      next
        case False
        have "\<Union> (set ` set (drop k rs)) \<subseteq> \<Union> (set ` set rs)" by (auto dest: in_set_dropD)
        with 1(3) [OF _ Cons False] False Cons \<open>rs = x # xs\<close> show ?thesis
          by (subst replace_matches.simps) (simp, blast)
      qed
    qed
  qed
qed

lemma re_replace_bytes: "set (re_replace r new s) \<subseteq> set new \<union> set s"
  using replace_matches_bytes [of r new None "runes s"] concat_runes [of s]
  by (simp add: re_replace_def) (metis set_concat)

lemma replace_all_bytes: "set (replace_all s old new) \<subseteq> set s \<union> set new"
proof (induction s old new rule: replace_all.induct)
  case (1 s old new)
  show ?case
  proof (cases s)
    case Nil
    then show ?thesis by simp
  next
    case (Cons c t)
    show ?thesis
    proof (cases "old \<noteq> [] \<and> has_prefix s old")
      case True
      then have "replace_all s old new = new @ replace_all (drop (length old) s) old new"
        using Cons by (subst replace_all.simps) simp
      with 1(1) [OF Cons True] show ?thesis using set_drop_subset [of "length old" s] by auto
    next
      case False
      then have "replace_all s old new = c # replace_all t old new"
        using Cons by (subst replace_all.simps) auto
      with 1(2) [OF Cons False] Cons show ?thesis by auto
    qed
  qed
qed

lemma replace_matches_drop:
  "replace_matches (RuneIn p) [] prev rs = concat (filter (\<lambda>r. \<not> p (rune_code r)) rs)"
  by (induction rs arbitrary: prev) (simp_all add: replace_matches.simps)

lemma high_byte: "byte_in lo hi c \<Longrightarrow> 0x7F < lo \<Longrightarrow> \<not> byte_in 0 0x7F c"
  by (auto simp: byte_in_def)

lemma wide_rune_bytes:
  assumes wide: "1 < rune_width s" and c: "c \<in> set (take (rune_width s) s)"
  shows "\<not> byte_in 0 0x7F c"
proof -
  from wide obtain a b t where s: "s = a # b # t" and a: "\<not> byte_in 0 0x7F a"
    by (cases s; cases "tl s") (auto split: if_splits)
  show ?thesis
  proof (cases "byte_in 0xC2 0xDF a")
    case True
    with wide s a have "rune_width s = 2" "byte_in 0x80 0xBF b" by (auto split: if_splits)
    with c s a high_byte [of "0x80" "0xBF" b] show ?thesis by auto
  next
    case False
    with wide s a obtain d u where t: "t = d # u" by (cases t) (auto split: if_splits)
    show ?thesis
    proof (cases "byte_in 0xE0 0xEF a")
      case True
      let ?lo = "if byte_in 0xE0 0xE0 a then 0xA0 else 0x80 :: nat"
      let ?hi = "if byte_in 0xED 0xED a then 0x9F else 0xBF :: nat"
      from True False wide s a t have "rune_width s = 3" and b: "byte_in ?lo ?hi b" and d: "byte_in 0x80 0xBF d"
        by (simp_all split: if_split_asm)
      moreover have "\<not> byte_in 0 0x7F b" using b by (rule high_byte) simp
      moreover have "\<not> byte_in 0 0x7F d" using d by (rule high_byte) simp
      ultimately show ?thesis using c s a t by (auto simp: numeral_3_eq_3)
    next
      case False4: False
      with False wide s a t obtain e v where u: "u = e # v" by (cases u) (auto split: if_splits)
      let ?lo = "if byte_in 0xF0 0xF0 a then 0x90 else 0x80 :: nat"
      let ?hi = "if byte_in 0xF4 0xF4 a then 0x8F else 0xBF :: nat"
      from False4 False wide s a t u have "rune_width s = 4" and b: "byte_in ?lo ?hi b" and d: "byte_in 0x80 0xBF d"
        and e: "byte_in 0x80 0xBF e"
        by (simp_all split: if_split_asm)
      moreover have "\<not> byte_in 0 0x7F b" using b by (rule high_byte) simp
      moreover have "\<not> byte_in 0 0x7F d" using d by (rule high_byte) simp
      moreover have "\<not> byte_in 0 0x7F e" using e by (rule high_byte) simp
      ultimately show ?thesis using c s a t u by (auto simp: eval_nat_numeral)
    qed
  qed
qed

lemma ascii_rune: "r \<in> set (runes s) \<Longrightarrow> c \<in> set r \<Longrightarrow> byte_in 0 0x7F c \<Longrightarrow> r = [c]"
proof (induction s rule: runes.induct)
  case (1 s)
  then have "s \<noteq> []" by auto
  with 1(2) consider "r = take (max 1 (rune_width s)) s" | "r \<in> set (runes (drop (max 1 (rune_width s)) s))"
    by (subst (asm) runes.simps) auto
  then show ?case
  proof cases
    case 1
    show ?thesis
    proof (cases "1 < rune_width s")
      case True
      with wide_rune_bytes 1 \<open>c \<in> set r\<close> \<open>byte_in 0 0x7F c\<close> show ?thesis by (simp add: max_def)
    next
      case False
      then have "max 1 (rune_width s) = 1" by (simp add: max_def)
      with 1 \<open>c \<in> set r\<close> \<open>s \<noteq> []\<close> show ?thesis by (cases s) auto
    qed
  next
    case 2
    with 1 \<open>s \<noteq> []\<close> show ?thesis by blast
  qed
qed

lemma control_byte_code:
  "control_byte c \<Longrightarrow> c \<noteq> nl \<Longrightarrow> c \<noteq> cr \<Longrightarrow> control_code (of_char c)"
proof -
  assume c: "control_byte c" "c \<noteq> nl" "c \<noteq> cr"
  have "of_char c \<noteq> (of_char nl :: nat)" "of_char c \<noteq> (of_char cr :: nat)"
    using c by (metis of_char_eq_iff)+
  then have "of_char c \<noteq> (10 :: nat)" "of_char c \<noteq> (13 :: nat)" by simp_all
  with c(1) show ?thesis by (auto simp: control_byte_def byte_in_def control_code_def)
qed

lemma controls_removed:
  assumes "c \<in> set (re_replace terminalControls [] s)" and "control_byte c"
  shows "c = nl \<or> c = cr"
proof (rule ccontr)
  assume *: "\<not> (c = nl \<or> c = cr)"
  from assms(1) obtain r where r: "r \<in> set (runes s)" "c \<in> set r" "\<not> control_code (rune_code r)"
    by (auto simp: re_replace_def terminalControls_def replace_matches_drop)
  from assms(2) have "byte_in 0 0x7F c" by (auto simp: control_byte_def byte_in_def)
  from ascii_rune [OF r(1,2) this] r(3) * assms(2) show False by (simp add: control_byte_code)
qed

lemma strip_terminal_controls: "c \<in> set (strip_terminal value) \<Longrightarrow> control_byte c \<Longrightarrow> c = nl"
proof -
  assume c: "c \<in> set (strip_terminal value)" and ctl: "control_byte c"
  let ?s = "re_replace terminalControls [] (re_replace terminalSequences [] (to_valid_utf8 False value))"
  have fresh: "cr \<notin> set (replace_all s [cr] [nl])" for s by (induction s) auto
  have "c \<in> set (replace_all ?s [cr, nl] [nl]) \<union> {nl}"
    using c replace_all_bytes [of "replace_all ?s [cr, nl] [nl]" "[cr]" "[nl]"]
    by (auto simp: strip_terminal_def Let_def)
  then have "c \<in> set ?s \<union> {nl}" using replace_all_bytes [of ?s "[cr, nl]" "[nl]"] by auto
  with controls_removed [OF _ ctl] have "c = nl \<or> c = cr" by auto
  with c fresh show "c = nl" by (auto simp: strip_terminal_def Let_def)
qed

lemma redacted_bytes: "set (redactSessionLogLine v sensitive) \<subseteq> set v \<union> set redacted_mark"
proof -
  have secrets: "set (foldl (\<lambda>v secret. replace_all v secret redacted_mark) w ss) \<subseteq> set w \<union> set redacted_mark" for w ss
  proof (induction ss arbitrary: w)
    case (Cons x ss)
    then show ?case using replace_all_bytes [of w x redacted_mark] by fastforce
  qed simp
  have patterns: "set (foldl (\<lambda>v r. re_replace r redacted_mark v) w rs) \<subseteq> set w \<union> set redacted_mark" for w rs
  proof (induction rs arbitrary: w)
    case (Cons x rs)
    then show ?case using re_replace_bytes [of x redacted_mark w] by fastforce
  qed simp
  show ?thesis
    using secrets [of v sensitive] patterns [of "foldl (\<lambda>v secret. replace_all v secret redacted_mark) v sensitive"]
    unfolding redactSessionLogLine_def Let_def by (auto split: if_splits)
qed

definition clean_text :: "string \<Rightarrow> bool" where
  "clean_text t \<longleftrightarrow> length t \<le> maxSessionLogLineBytes \<and> list_all (\<lambda>c. \<not> control_byte c) t"

lemma sanitized_clean:
  assumes "line \<in> set (sanitizedSessionLogLines value sensitive)"
  shows "clean_text line"
proof -
  from assms obtain part where part: "part \<in> set (split_on nl (trim_suffix (strip_terminal value) [nl]))"
    and line: "line = TruncateUTF8 (redactSessionLogLine part sensitive) maxSessionLogLineBytes"
    by (auto simp: sanitizedSessionLogLines_def split: if_splits)
  have "\<not> control_byte c" if "c \<in> set line" for c
  proof
    assume ctl: "control_byte c"
    from that line TruncateUTF8_prefix [of "redactSessionLogLine part sensitive" maxSessionLogLineBytes]
    have "c \<in> set (redactSessionLogLine part sensitive)" by (metis UnI1 set_append)
    moreover from ctl have "c \<notin> set redacted_mark"
      by (auto simp: redacted_mark_def control_byte_def byte_in_def)
    ultimately have "c \<in> set part" using redacted_bytes by blast
    then have "c \<in> set (strip_terminal value)"
      using split_on_subset [OF part] set_trim_suffix by blast
    from strip_terminal_controls [OF this ctl] \<open>c \<in> set part\<close> split_on_segments [OF part] show False by blast
  qed
  then show ?thesis using line length_TruncateUTF8 by (simp add: clean_text_def list_all_iff)
qed

section \<open>Facts on buffers\<close>

definition buffer_ok :: "sessionLogBuffer \<Rightarrow> bool" where
  "buffer_ok b \<longleftrightarrow>
     statusBytes b = int (sum_list (map (\<lambda>l. length (llText l)) (bufStatus b)))
     \<and> length (bufStatus b) \<le> maxSessionLogLines \<and> statusBytes b \<le> int maxSessionLogBytes
     \<and> length (bufRemote b) \<le> maxSessionLogLines
     \<and> list_all (\<lambda>l. clean_text (llText l)) (bufStatus b @ bufRemote b)"

definition logs_ok :: "sessionLogs \<Rightarrow> bool" where
  "logs_ok l \<longleftrightarrow> (\<forall>ident b. alookup (tails l) ident = Some b \<longrightarrow> buffer_ok b)"

lemma evict_ok:
  assumes "bytes = int (sum_list (map (\<lambda>l. length (llText l)) ls))" and "evict bytes ls = (bytes', ls')"
  shows "bytes' = int (sum_list (map (\<lambda>l. length (llText l)) ls'))
    \<and> length ls' \<le> maxSessionLogLines \<and> bytes' \<le> int maxSessionLogBytes \<and> (\<exists>p. ls = p @ ls')"
  using assms
proof (induction bytes ls arbitrary: bytes' ls' rule: evict.induct)
  case (1 bytes)
  then show ?case by (simp add: maxSessionLogBytes_def)
next
  case (2 bytes l ls)
  show ?case
  proof (cases "maxSessionLogLines < length (l # ls) \<or> int maxSessionLogBytes < bytes")
    case True
    have "bytes - int (length (llText l)) = int (sum_list (map (\<lambda>l. length (llText l)) ls))" using 2(2) by simp
    moreover from True 2(3) have "evict (bytes - int (length (llText l))) ls = (bytes', ls')" by simp
    ultimately show ?thesis using 2(1) [OF True] by (metis append_Cons)
  next
    case False
    with 2(2,3) show ?thesis by auto
  qed
qed

lemma append_status_ok:
  assumes ok: "buffer_ok b" and clean: "clean_text line"
  shows "buffer_ok (append_status now b line)"
proof -
  let ?entry = "\<lparr>llStream = ''status'', llText = line, llAt = now\<rparr>"
  obtain bytes kept where ev: "evict (statusBytes b + int (length line)) (bufStatus b @ [?entry]) = (bytes, kept)"
    by (cases "evict (statusBytes b + int (length line)) (bufStatus b @ [?entry])")
  from ok have "statusBytes b + int (length line)
      = int (sum_list (map (\<lambda>l. length (llText l)) (bufStatus b @ [?entry])))"
    by (simp add: buffer_ok_def)
  note kept = evict_ok [OF this ev]
  then obtain p where "bufStatus b @ [?entry] = p @ kept" by blast
  then have "set kept \<subseteq> insert ?entry (set (bufStatus b))" by (metis Un_insert_right append_Nil2 list.simps(15) set_append sup_ge2)
  then have "list_all (\<lambda>l. clean_text (llText l)) kept" using ok clean by (auto simp: buffer_ok_def list_all_iff)
  with kept ok ev show ?thesis by (simp add: append_status_def buffer_ok_def Let_def)
qed

lemma fold_append_ok:
  "buffer_ok b \<Longrightarrow> list_all clean_text lines \<Longrightarrow> buffer_ok (foldl (append_status now) b lines)"
  by (induction lines arbitrary: b) (simp_all add: append_status_ok)

lemma empty_buffer_ok: "buffer_ok empty_buffer"
  by (simp add: buffer_ok_def empty_buffer_def)

lemma remote_buffer_ok:
  "buffer_ok b \<Longrightarrow> length r \<le> maxSessionLogLines \<Longrightarrow> list_all (\<lambda>l. clean_text (llText l)) r
   \<Longrightarrow> buffer_ok (b\<lparr>bufRemote := r\<rparr>)"
  by (simp add: buffer_ok_def)

lemma bufferLocked_ok: "logs_ok l \<Longrightarrow> buffer_ok (bufferLocked l ident)"
  by (auto simp: logs_ok_def bufferLocked_def empty_buffer_ok split: option.splits)

lemma logs_ok_put: "logs_ok l \<Longrightarrow> buffer_ok b \<Longrightarrow> logs_ok (l\<lparr>tails := aput ident b (tails l)\<rparr>)"
  by (simp add: logs_ok_def)

lemma length_stamp_remote [simp]: "length (stamp_remote now old ns) = length ns"
  by (induction now old ns rule: stamp_remote.induct) auto

lemma stamp_remote_clean: "list_all (\<lambda>l. clean_text (llText l)) (stamp_remote now old ns)
    = list_all (\<lambda>l. clean_text (llText l)) ns"
  by (induction now old ns rule: stamp_remote.induct) auto

lemma keep_last_clean: "list_all P xs \<Longrightarrow> list_all P (keep_last n xs)"
  by (simp add: keep_last_def list_all_drop)

lemma sanitized_all_clean: "list_all clean_text (sanitizedSessionLogLines value sensitive)"
  by (auto simp: list_all_iff intro: sanitized_clean)

lemma fold_append_sanitized:
  "logs_ok l \<Longrightarrow> buffer_ok (foldl (append_status now) (bufferLocked l ident) (sanitizedSessionLogLines txt sensitive))"
  by (intro fold_append_ok bufferLocked_ok sanitized_all_clean)

lemma logs_append_ok [wf_intros]: "logs_ok l \<Longrightarrow> logs_ok (logs_append ident text now l)"
  using fold_append_sanitized [of l now ident "text" "sensitiveFor l ident"] logs_ok_put [of l]
  by (auto simp: logs_append_def split: list.split)

lemma mergeRemote_ok [wf_intros]: "logs_ok l \<Longrightarrow> logs_ok (snd (mergeRemote ident out err now l))"
  using sanitized_all_clean
  by (auto simp: mergeRemote_def Let_def stamp_remote_clean list.pred_map comp_def
      intro!: logs_ok_put remote_buffer_ok bufferLocked_ok keep_last_clean)

lemma logs_forget_ok [wf_intros]: "logs_ok l \<Longrightarrow> logs_ok (logs_forget ident l)"
  by (auto simp: logs_forget_def logs_ok_def)

lemma setSessionSensitive_ok [wf_intros]: "logs_ok l \<Longrightarrow> logs_ok (setSessionSensitive ident vs l)"
  by (auto simp: setSessionSensitive_def logs_ok_def)

lemma newSessionLogs_ok [wf_intros, simp]: "logs_ok newSessionLogs"
  by (simp add: newSessionLogs_def logs_ok_def)

section \<open>What a reader of the logs sees\<close>

text \<open>Every way the code changes the buffers; a handler is a sequence of these.\<close>

inductive logs_reachable :: "sessionLogs \<Rightarrow> bool" where
  start: "logs_reachable newSessionLogs"
| status: "logs_reachable l \<Longrightarrow> logs_reachable (logs_append ident text now l)"
| remote: "logs_reachable l \<Longrightarrow> logs_reachable (snd (mergeRemote ident out err now l))"
| sensitive: "logs_reachable l \<Longrightarrow> logs_reachable (setSessionSensitive ident vs l)"
| forget: "logs_reachable l \<Longrightarrow> logs_reachable (logs_forget ident l)"

lemma logs_reachable_ok: "logs_reachable l \<Longrightarrow> logs_ok l"
  by (induction rule: logs_reachable.induct) (auto intro: wf_intros)


lemma sanitized_nonempty: "value \<noteq> [] \<Longrightarrow> sanitizedSessionLogLines value sensitive \<noteq> []"
  by (simp add: sanitizedSessionLogLines_def)

lemma mergeRemote_tail:
  assumes "idPattern ident" and "out \<noteq> []"
  shows "\<exists>t. logs_tail (snd (mergeRemote ident out err now l)) ident = Some t"
proof -
  have nonempty: "stamp_remote now old ns = [] \<longleftrightarrow> ns = []" for old ns
    using length_stamp_remote [of now old ns] by (metis length_0_conv)
  have "keep_last maxSessionLogLines xs = [] \<longleftrightarrow> xs = []" for xs :: "SessionLogLine list"
    by (cases xs) (auto simp: maxSessionLogLines_def keep_last_def)
  with assms show ?thesis
    by (simp add: mergeRemote_def logs_tail_def Let_def nonempty sanitized_nonempty)
qed


text \<open>
  The metric series of a session is its twenty most recent samples, oldest first, however many were taken.
\<close>

theorem metrics_recent:
  "metrics_samples (foldl (\<lambda>m sample. metrics_append ident sample m) [] samples) ident
   = keep_last maxSessionMetricSamples samples"
proof -
  have "metrics_samples (foldl (\<lambda>m sample. metrics_append ident sample m) m xs) ident
      = foldl (\<lambda>xs x. push_sample x xs) (metrics_samples m ident) xs" for m xs
    by (induction xs arbitrary: m) (simp_all add: metrics_append_def metrics_samples_def)
  then have "rev (metrics_samples (foldl (\<lambda>m sample. metrics_append ident sample m) [] samples) ident)
      = take maxSessionMetricSamples (rev samples)"
    using sample_window.recent_fold [of samples] by (simp add: metrics_samples_def)
  then show ?thesis by (metis rev_keep_last rev_rev_ident)
qed

end
