(* ===== verification/Devtunnel.thy ===== *)
theory Devtunnel
  imports SessionTypes
begin

text \<open>
  The vocabulary of \<^verbatim>\<open>internal/devtunnel/devtunnel.go\<close> that the session component shares with its tunnel manager:
  credentials, requests, records and the identifier patterns. The session component reaches the Dev Tunnels service
  only through the Go interface \<^verbatim>\<open>TunnelManager\<close>, whose three operations are arguments of the model.
\<close>

record Credential =
  credScheme :: string
  credToken :: string

definition no_credential :: Credential where
  "no_credential = \<lparr>credScheme = [], credToken = []\<rparr>"

record PortSpec =
  psPortNumber :: nat
  psDescription :: string

record tunnel_CreateRequest =
  tcScheme :: string
  tcOAuthToken :: string
  tcTunnelID :: string
  tcDurationSeconds :: nat
  tcPorts :: "PortSpec list"

record tunnel_GetRequest =
  tgAccessToken :: string
  tgTunnelID :: string
  tgClusterID :: string

record tunnel_DeleteRequest =
  tdScheme :: string
  tdOAuthToken :: string
  tdTunnelID :: string
  tdClusterID :: string

record PortRecord =
  prPortNumber :: nat
  prProtocol :: string
  prPortForwardingURIs :: "string list"

record tunnel_Record =
  trID :: string
  trClusterID :: string
  trConnectToken :: string
  trHostToken :: string
  trPorts :: "PortRecord list"
  trExpiresAt :: time

definition MinDurationSeconds :: nat where "MinDurationSeconds = 3600"
definition MaxDurationSeconds :: nat where "MaxDurationSeconds = 2592000"

definition lower_alnum :: "char \<Rightarrow> bool" where
  "lower_alnum c \<longleftrightarrow> (CHR ''a'' \<le> c \<and> c \<le> CHR ''z'') \<or> is_digit c"

text \<open>\<^verbatim>\<open>^[a-z0-9][a-z0-9-]{1,58}[a-z0-9]$\<close>\<close>

definition ValidID :: "string \<Rightarrow> bool" where
  "ValidID s \<longleftrightarrow>
     3 \<le> length s \<and> length s \<le> 60 \<and> lower_alnum (hd s) \<and> lower_alnum (last s)
     \<and> list_all (\<lambda>c. lower_alnum c \<or> c = CHR ''-'') s"

text \<open>\<^verbatim>\<open>^[a-z][a-z0-9-]{0,62}$\<close>\<close>

definition ValidClusterID :: "string \<Rightarrow> bool" where
  "ValidClusterID s \<longleftrightarrow>
     s \<noteq> [] \<and> length s \<le> 63 \<and> CHR ''a'' \<le> hd s \<and> hd s \<le> CHR ''z''
     \<and> list_all (\<lambda>c. lower_alnum c \<or> c = CHR ''-'') s"

definition isAPIHost :: "string \<Rightarrow> bool" where
  "isAPIHost raw \<longleftrightarrow>
     (let host = to_lower raw; clusterID = trim_suffix host ''.rel.tunnels.api.visualstudio.com''
      in host = ''global.rel.tunnels.api.visualstudio.com'' \<or> (clusterID \<noteq> host \<and> ValidClusterID clusterID))"

lemma is_lower_hex_lower_alnum: "is_lower_hex c \<Longrightarrow> lower_alnum c"
  by (auto simp: is_lower_hex_def lower_alnum_def is_digit_def less_eq_char_def)

lemma is_digit_lower_alnum: "is_digit c \<Longrightarrow> lower_alnum c"
  by (simp add: lower_alnum_def)

lemma nat_str_length: "n < 10 ^ k \<Longrightarrow> 0 < k \<Longrightarrow> length (nat_str n) \<le> k"
proof (induction k arbitrary: n)
  case (Suc k)
  show ?case
  proof (cases "n < 10")
    case True
    then show ?thesis by (simp add: nat_str_eval)
  next
    case False
    with Suc.prems have "k \<noteq> 0" by (cases k) auto
    moreover have "n div 10 < 10 ^ k" using Suc.prems by (simp add: less_mult_imp_div_less mult.commute)
    ultimately have "length (nat_str (n div 10)) \<le> k" using Suc.IH by simp
    with False show ?thesis by (simp add: nat_str_eval(2))
  qed
qed simp

text \<open>Every run's tunnel identifier is one the service accepts, up to the largest run number Go can hold.\<close>

lemma session_tunnel_id:
  assumes "idPattern ident" and "0 \<le> seq" and "seq < 2 ^ 63"
  shows "ValidID (ident @ ''-'' @ itoa seq)"
proof -
  from assms(1) obtain t where ident: "ident = ''s-'' @ t" "length t = 12" "list_all is_lower_hex t"
    by (auto simp: idPattern_def has_prefix_iff)
  have digits: "list_all is_digit (itoa seq)" using itoa_digits [OF assms(2)] by (simp add: list_all_iff)
  have "nat seq < 10 ^ 19" using assms(3) by simp
  then have "length (itoa seq) \<le> 19" using nat_str_length [of "nat seq" 19] assms(2) by (simp add: itoa_def)
  moreover have "1 \<le> length (itoa seq)" by (simp add: Suc_le_eq)
  moreover have "lower_alnum (last (itoa seq))"
    using digits by (simp add: list_all_iff is_digit_lower_alnum)
  moreover have "lower_alnum CHR ''s''" by (simp add: lower_alnum_def less_eq_char_def)
  ultimately show ?thesis
    using ident digits
    by (auto simp: ValidID_def list_all_iff is_lower_hex_lower_alnum is_digit_lower_alnum)
qed

end
