(* ===== verification/SessionStore.thy ===== *)
theory SessionStore
  imports SessionLogs Devtunnel
begin

text \<open>
  Persistence and effects of the session component. \<^verbatim>\<open>persistence.go\<close> keeps both tables as JSON payloads beside
  identity columns; a state cycle loads them under the process-wide lock and a save replaces them in one
  transaction. Capabilities are private files, one per run (\<^verbatim>\<open>tunnel.go\<close>).

  The component runs in a \<open>world\<close>: the tables, the capability files, the in-memory buffers and links, and a count
  of the interactions so far. Everything outside is an \<open>env\<close>: the clock, faults of the store and of the file system,
  the remote hosts, the tunnel manager and the linked credentials, each a function of the interaction's number, and
  \<open>eOthers\<close>, whatever other requests and processes do to the world before a lock is taken or a table is read.
\<close>

section \<open>Tables\<close>

datatype 'a payload = Json 'a | Malformed string

record tables =
  tSessions :: "(string \<times> string \<times> Session payload) list"
  tRuns :: "(string \<times> int \<times> string \<times> runRecord payload) list"

text \<open>
  \<^verbatim>\<open>encoding/json\<close> writes U+FFFD for each byte that is not valid UTF-8. The only stored text that can hold one is an
  error taken from a remote command's output; every other string is built by validators that admit ASCII only.
  It refuses a time outside the years 0 to 9999.
\<close>

function json_text :: "string \<Rightarrow> string" where
  "json_text s =
     (if s = [] then []
      else if rune_width s = 0 then replacement_char @ json_text (tl s)
      else take (rune_width s) s @ json_text (drop (rune_width s) s))"
  by pat_completeness auto
termination
  by (relation "measure length") auto

declare json_text.simps [simp del]

definition json_time :: "time \<Rightarrow> bool" where
  "json_time t \<longleftrightarrow> - (366 * 86400 * second) \<le> t \<and> t < 315537897600 * second"

definition errTimeRange :: go_error where
  "errTimeRange = Plain ''json: error calling MarshalJSON for type time.Time: Time.MarshalJSON: year outside of range [0,9999]''"

definition marshal_session :: "Session \<Rightarrow> Session payload res" where
  "marshal_session s =
     (if json_time (sCreatedAt s) \<and> json_time (sStartedAt s) \<and> json_time (sUpdatedAt s) \<and> json_time (tmExpiresAt (sTunnel s))
      then Inr (Json (s\<lparr>sError := json_text (sError s)\<rparr>)) else Inl errTimeRange)"

definition marshal_run :: "runRecord \<Rightarrow> runRecord payload res" where
  "marshal_run r =
     (if json_time (rStartedAt r) \<and> json_time (rEndedAt r) \<and> list_all (\<lambda>m. json_time (msAt m)) (rSamples r)
         \<and> list_all (\<lambda>l. json_time (llAt l)) (rLogs r)
      then Inr (Json (r\<lparr>rError := json_text (rError r)\<rparr>)) else Inl errTimeRange)"

definition DecodePayload :: "('a \<Rightarrow> bool) \<Rightarrow> string \<Rightarrow> 'a payload \<Rightarrow> 'a res" where
  "DecodePayload ident what p =
     (case p of
        Malformed m \<Rightarrow> Inl (Wrapf [''read '' @ what @ '': ''] [Plain m])
      | Json v \<Rightarrow>
          if ident v then Inr v else Inl (Plain (''read '' @ what @ '': payload identity does not match'')))"

definition decodeSession :: "string \<times> string \<times> Session payload \<Rightarrow> Session res" where
  "decodeSession = (\<lambda>(ident, owner, p). DecodePayload (\<lambda>s. sID s = ident) (''session '' @ ident) p)"

definition decodeRun :: "string \<times> int \<times> string \<times> runRecord payload \<Rightarrow> runRecord res" where
  "decodeRun = (\<lambda>(ident, seq, owner, p).
     DecodePayload (\<lambda>r. rSessionID r = ident \<and> rSeq r = seq) (''run '' @ ident @ ''/'' @ itoa seq) p)"

fun map_res :: "('a \<Rightarrow> 'b res) \<Rightarrow> 'a list \<Rightarrow> 'b list res" where
  "map_res f [] = Inr []"
| "map_res f (x # xs) =
     (case f x of
        Inl e \<Rightarrow> Inl e
      | Inr y \<Rightarrow> (case map_res f xs of Inl e \<Rightarrow> Inl e | Inr ys \<Rightarrow> Inr (y # ys)))"

text \<open>\<^verbatim>\<open>ORDER BY id\<close> and \<^verbatim>\<open>ORDER BY position\<close>; runs keep the order they were inserted in.\<close>

definition ListSessions :: "tables \<Rightarrow> (string \<times> string \<times> Session payload) list" where
  "ListSessions t = sort_key fst (tSessions t)"

definition index_sessions :: "Session list \<Rightarrow> (string \<times> Session) list" where
  "index_sessions ss = foldl (\<lambda>m s. aput (sID s) s m) [] ss"

definition load_state :: "tables \<Rightarrow> store_state res" where
  "load_state t =
     (case map_res decodeSession (ListSessions t) of
        Inl e \<Rightarrow> Inl e
      | Inr ss \<Rightarrow>
          (case map_res decodeRun (tRuns t) of
             Inl e \<Rightarrow> Inl e
           | Inr rs \<Rightarrow> Inr \<lparr>Sessions = index_sessions ss, Runs = rs\<rparr>))"

definition session_row :: "Session \<Rightarrow> (string \<times> string \<times> Session payload) res" where
  "session_row s =
     (case marshal_session s of Inl e \<Rightarrow> Inl e | Inr p \<Rightarrow> Inr (sID s, PrincipalDirName (sOwner s), p))"

definition run_row :: "runRecord \<Rightarrow> (string \<times> int \<times> string \<times> runRecord payload) res" where
  "run_row r =
     (case marshal_run r of
        Inl e \<Rightarrow> Inl e | Inr p \<Rightarrow> Inr (rSessionID r, rSeq r, PrincipalDirName (rOwner r), p))"

definition errDuplicateKey :: go_error where
  "errDuplicateKey = Plain ''duplicate key value violates unique constraint''"

text \<open>The transaction of \<^verbatim>\<open>Store.save\<close>: both tables are cleared and refilled, or nothing changes.\<close>

definition save_tables :: "store_state \<Rightarrow> tables res" where
  "save_tables current =
     (case map_res session_row (map snd (Sessions current)) of
        Inl e \<Rightarrow> Inl e
      | Inr srows \<Rightarrow>
          if \<not> distinct (map fst srows) then Inl errDuplicateKey
          else (case map_res run_row (Runs current) of
                  Inl e \<Rightarrow> Inl e
                | Inr rrows \<Rightarrow>
                    if \<not> distinct (map (\<lambda>(ident, seq, _). (ident, seq)) rrows) then Inl errDuplicateKey
                    else Inr \<lparr>tSessions = srows, tRuns = rrows\<rparr>))"

section \<open>World and environment\<close>

record sessionLink =
  lkSeq :: int
  lkMux :: nat

datatype effect =
    RemoteRun string string "string list"
  | TunnelCreate tunnel_CreateRequest
  | TunnelDelete tunnel_DeleteRequest

record world =
  wTables :: tables
  wCapabilities :: "(string \<times> sessionCapability payload) list"
  wLogs :: sessionLogs
  wMetrics :: sessionMetrics
  wLinks :: "(string \<times> sessionLink) list"
  wPreparations :: "string list"
  wClosing :: bool
  wTick :: nat
  wTrace :: "effect list"

type_synonym 'a prog = "(world, 'a) state"

record Config =
  cRunners :: Configurations
  cLinkspanPath :: string
  cCapabilityDir :: string
  cPublicURL :: string

text \<open>A file operation may fail before it took effect, or after, when the directory could not be synced.\<close>

datatype file_fault = NoFault | FailBefore go_error | FailAfter go_error

record env =
  eConfig :: Config
  eNow :: "nat \<Rightarrow> time"
  eLoadFault :: "nat \<Rightarrow> go_error option"
  eSaveFault :: "nat \<Rightarrow> go_error option"
  eFileFault :: "nat \<Rightarrow> file_fault"
  eLockFault :: "nat \<Rightarrow> go_error option"
  eCredential :: "nat \<Rightarrow> Principal \<Rightarrow> Credential res"
  eTunnelCreate :: "nat \<Rightarrow> tunnel_CreateRequest \<Rightarrow> tunnel_Record res"
  eTunnelDelete :: "nat \<Rightarrow> tunnel_DeleteRequest \<Rightarrow> go_error option"
  eSecret :: "nat \<Rightarrow> nat list"
  eSsh :: "nat \<Rightarrow> ssh_io"
  eDone :: "nat \<Rightarrow> go_error option"
  eLinkspan :: "nat \<Rightarrow> Session \<Rightarrow> string \<Rightarrow> string \<Rightarrow> (string \<times> int) res"
  eOthers :: "nat \<Rightarrow> world \<Rightarrow> world"

definition tick :: "nat prog" where
  "tick = do {
     w \<leftarrow> State_Monad.get;
     State_Monad.set (w\<lparr>wTick := Suc (wTick w)\<rparr>);
     State_Monad.return (wTick w) }"

definition ask :: "(nat \<Rightarrow> 'a) \<Rightarrow> 'a prog" where
  "ask f = do { n \<leftarrow> tick; State_Monad.return (f n) }"

definition others :: "env \<Rightarrow> unit prog" where
  "others E = do { n \<leftarrow> tick; State_Monad.update (eOthers E n) }"

definition utcNow :: "env \<Rightarrow> time prog" where
  "utcNow E = ask (eNow E)"

definition emit :: "effect \<Rightarrow> unit prog" where
  "emit x = State_Monad.update (\<lambda>w. w\<lparr>wTrace := wTrace w @ [x]\<rparr>)"

text \<open>Sequencing with an early return of the error.\<close>

definition attempt :: "'a res prog \<Rightarrow> ('a \<Rightarrow> 'b res prog) \<Rightarrow> 'b res prog" where
  "attempt m f = do { r \<leftarrow> m; case r of Inl e \<Rightarrow> State_Monad.return (Inl e) | Inr x \<Rightarrow> f x }"

definition fails :: "go_error option prog \<Rightarrow> unit res prog" where
  "fails m = do { r \<leftarrow> m; State_Monad.return (case r of None \<Rightarrow> Inr () | Some e \<Rightarrow> Inl e) }"

section \<open>The store\<close>

definition locked :: "env \<Rightarrow> (store_state \<Rightarrow> 'a res prog) \<Rightarrow> 'a res prog" where
  "locked E fn = do {
     others E;
     fault \<leftarrow> ask (eLoadFault E);
     case fault of
       Some e \<Rightarrow> State_Monad.return (Inl e)
     | None \<Rightarrow> do {
         w \<leftarrow> State_Monad.get;
         (case load_state (wTables w) of
            Inl e \<Rightarrow> State_Monad.return (Inl e)
          | Inr current \<Rightarrow> fn current) } }"

definition save :: "env \<Rightarrow> store_state \<Rightarrow> go_error option prog" where
  "save E current = do {
     fault \<leftarrow> ask (eSaveFault E);
     case fault of
       Some e \<Rightarrow> State_Monad.return (Some e)
     | None \<Rightarrow>
         (case save_tables current of
            Inl e \<Rightarrow> State_Monad.return (Some e)
          | Inr t \<Rightarrow> do { State_Monad.update (\<lambda>w. w\<lparr>wTables := t\<rparr>); State_Monad.return None }) }"

definition read_tables :: "env \<Rightarrow> (tables \<Rightarrow> 'a res) \<Rightarrow> 'a res prog" where
  "read_tables E f = do {
     others E;
     fault \<leftarrow> ask (eLoadFault E);
     case fault of
       Some e \<Rightarrow> State_Monad.return (Inl e)
     | None \<Rightarrow> do { w \<leftarrow> State_Monad.get; State_Monad.return (f (wTables w)) } }"

definition loadSessions :: "env \<Rightarrow> Session list res prog" where
  "loadSessions E = read_tables E (\<lambda>t. map_res decodeSession (ListSessions t))"

definition loadSession :: "env \<Rightarrow> string \<Rightarrow> Session res prog" where
  "loadSession E ident = read_tables E (\<lambda>t.
     case find (\<lambda>(i, _). i = ident) (tSessions t) of
       None \<Rightarrow> Inl errSessionNotFound
     | Some row \<Rightarrow> decodeSession row)"

definition sessionsOf :: "env \<Rightarrow> Principal \<Rightarrow> Session list res prog" where
  "sessionsOf E pr = read_tables E (\<lambda>t.
     case map_res decodeSession (filter (\<lambda>(_, owner, _). owner = PrincipalDirName pr) (ListSessions t)) of
       Inl e \<Rightarrow> Inl e
     | Inr ss \<Rightarrow> Inr (filter (\<lambda>s. sOwner s = pr) ss))"

definition RunsOf :: "env \<Rightarrow> Principal \<Rightarrow> Run list res prog" where
  "RunsOf E pr = read_tables E (\<lambda>t.
     case map_res decodeRun (filter (\<lambda>(_, _, owner, _). owner = PrincipalDirName pr) (tRuns t)) of
       Inl e \<Rightarrow> Inl e
     | Inr rs \<Rightarrow> Inr (map Run.truncate (filter (\<lambda>r. rOwner r = pr) rs)))"

section \<open>Buffers, operations and the linked runs\<close>

definition sessionStatus :: "env \<Rightarrow> string \<Rightarrow> string \<Rightarrow> unit prog" where
  "sessionStatus E ident line = do {
     t \<leftarrow> utcNow E;
     State_Monad.update (\<lambda>w. w\<lparr>wLogs := logs_append ident line t (wLogs w)\<rparr>) }"

definition forgetSessionBuffers :: "string \<Rightarrow> unit prog" where
  "forgetSessionBuffers ident = State_Monad.update
     (\<lambda>w. w\<lparr>wLogs := logs_forget ident (wLogs w), wMetrics := metrics_forget ident (wMetrics w)\<rparr>)"

definition beginOperation :: "env \<Rightarrow> unit res prog" where
  "beginOperation E = do {
     w \<leftarrow> State_Monad.get;
     State_Monad.return (if wClosing w then Inl errServiceStopping else Inr ()) }"

definition link_of :: "world \<Rightarrow> Session \<Rightarrow> sessionLink option" where
  "link_of w s =
     (case alookup (wLinks w) (sID s) of
        None \<Rightarrow> None
      | Some l \<Rightarrow> if lkSeq l = sSeq s then Some l else None)"

text \<open>\<^verbatim>\<open>Service.forPrincipal\<close> and one remote command through the runner it scopes to the principal.\<close>

definition forPrincipal :: "env \<Rightarrow> Principal \<Rightarrow> Runner" where
  "forPrincipal E pr = RunnerOf (cRunners (eConfig E)) pr"

definition remote_run :: "env \<Rightarrow> Runner \<Rightarrow> string \<Rightarrow> string \<Rightarrow> string list \<Rightarrow> (string \<times> go_error option) prog" where
  "remote_run E r host stdin args = do {
     emit (RemoteRun host stdin args);
     ask (\<lambda>n. Run (eSsh E n) r host stdin args) }"

section \<open>Capability files\<close>

definition capabilityPath :: "string \<Rightarrow> string \<Rightarrow> int \<Rightarrow> string res" where
  "capabilityPath dir ident seq =
     (if \<not> has_prefix dir ''/'' \<or> \<not> idPattern ident \<or> seq < 1
      then Inl (Plain ''capability store identity is invalid'')
      else Inr (path_join [dir, ident @ ''-'' @ itoa seq @ ''.token'']))"

definition validSecret :: "string \<Rightarrow> bool" where
  "validSecret value = (case DecodeBase64URL value of None \<Rightarrow> False | Some d \<Rightarrow> length d = 32)"

definition validCapability :: "sessionCapability \<Rightarrow> bool" where
  "validCapability c \<longleftrightarrow>
     (capConnectToken c = [] \<or> ValidCredential (capConnectToken c))
     \<and> validSecret (capJupyterToken c) \<and> validSecret (capLinkToken c)"

definition newSecret :: "env \<Rightarrow> string prog" where
  "newSecret E = ask (\<lambda>n. b64_encode (eSecret E n))"

definition write_file ::
  "env \<Rightarrow> (world \<Rightarrow> world) \<Rightarrow> go_error option prog" where
  "write_file E change = do {
     fault \<leftarrow> ask (eFileFault E);
     case fault of
       FailBefore e \<Rightarrow> State_Monad.return (Some e)
     | FailAfter e \<Rightarrow> do { State_Monad.update change; State_Monad.return (Some e) }
     | NoFault \<Rightarrow> do { State_Monad.update change; State_Monad.return None } }"

definition putCapability :: "env \<Rightarrow> string \<Rightarrow> int \<Rightarrow> sessionCapability \<Rightarrow> go_error option prog" where
  "putCapability E ident seq cap =
     (case capabilityPath (cCapabilityDir (eConfig E)) ident seq of
        Inl e \<Rightarrow> State_Monad.return (Some e)
      | Inr location \<Rightarrow>
          if \<not> validCapability cap then State_Monad.return (Some (Plain ''session capability is invalid''))
          else write_file E (\<lambda>w. w\<lparr>wCapabilities := aput location (Json cap) (wCapabilities w)\<rparr>))"

definition read_capability :: "(string \<times> sessionCapability payload) list \<Rightarrow> string \<Rightarrow> sessionCapability res" where
  "read_capability files location =
     (case alookup files location of
        None \<Rightarrow> Inl (NotExist (''open '' @ location @ '': no such file or directory''))
      | Some (Json cap) \<Rightarrow>
          if validCapability cap then Inr cap else Inl (Plain ''stored session capability is invalid'')
      | Some (Malformed m) \<Rightarrow> Inl (Plain ''stored session capability is invalid''))"

definition getCapability :: "env \<Rightarrow> string \<Rightarrow> int \<Rightarrow> sessionCapability res prog" where
  "getCapability E ident seq =
     (case capabilityPath (cCapabilityDir (eConfig E)) ident seq of
        Inl e \<Rightarrow> State_Monad.return (Inl e)
      | Inr location \<Rightarrow> do {
          fault \<leftarrow> ask (eFileFault E);
          case fault of
            NoFault \<Rightarrow> do { w \<leftarrow> State_Monad.get; State_Monad.return (read_capability (wCapabilities w) location) }
          | FailBefore e \<Rightarrow> State_Monad.return (Inl e)
          | FailAfter e \<Rightarrow> State_Monad.return (Inl e) })"

text \<open>\<^verbatim>\<open>security.RemoveFile\<close>: a file that is not there is no error, and needs no directory sync.\<close>

definition deleteCapability :: "env \<Rightarrow> string \<Rightarrow> int \<Rightarrow> go_error option prog" where
  "deleteCapability E ident seq =
     (if seq = 0 then State_Monad.return None
      else (case capabilityPath (cCapabilityDir (eConfig E)) ident seq of
              Inl e \<Rightarrow> State_Monad.return (Some e)
            | Inr location \<Rightarrow> do {
                w \<leftarrow> State_Monad.get;
                r \<leftarrow> write_file E (\<lambda>w. w\<lparr>wCapabilities := adel location (wCapabilities w)\<rparr>);
                State_Monad.return
                  (case r of
                     None \<Rightarrow> None
                   | Some e \<Rightarrow>
                       if alookup (wCapabilities w) location = None then None
                       else Some (Plain ''delete session capability'')) }))"

section \<open>Facts on capability files\<close>

definition run_admitted :: "string \<times> int \<Rightarrow> bool" where
  "run_admitted k \<longleftrightarrow> idPattern (fst k) \<and> 1 \<le> snd k"

definition capability_file :: "string \<Rightarrow> string \<times> int \<Rightarrow> string" where
  "capability_file dir k = path_join [dir, fst k @ ''-'' @ itoa (snd k) @ ''.token'']"

lemma capabilityPath_admitted:
  "has_prefix dir ''/'' \<Longrightarrow> run_admitted (ident, seq) \<Longrightarrow> capabilityPath dir ident seq = Inr (capability_file dir (ident, seq))"
  by (simp add: capabilityPath_def run_admitted_def capability_file_def)

lemma capabilityPath_Inr:
  "capabilityPath dir ident seq = Inr location
   \<longleftrightarrow> has_prefix dir ''/'' \<and> run_admitted (ident, seq) \<and> location = capability_file dir (ident, seq)"
  by (auto simp: capabilityPath_def run_admitted_def capability_file_def)

lemma capability_leaf:
  assumes "run_admitted k"
  shows "CHR ''/'' \<notin> set (fst k @ ''-'' @ itoa (snd k) @ ''.token'')"
    and "fst k @ ''-'' @ itoa (snd k) @ ''.token'' \<notin> {[], ''.'', ''..''}"
proof -
  have chars: "CHR ''/'' \<notin> set (fst k)" and len: "length (fst k) = 14"
    using assms idPattern_char [of "fst k" "CHR ''/''"] by (auto simp: run_admitted_def idPattern_def is_alnum_iff)
  have "CHR ''/'' \<notin> set (itoa (snd k))"
    using assms itoa_digits [of "snd k" "CHR ''/''"] by (auto simp: run_admitted_def is_digit_def less_eq_char_def)
  with chars show "CHR ''/'' \<notin> set (fst k @ ''-'' @ itoa (snd k) @ ''.token'')" by simp
  show "fst k @ ''-'' @ itoa (snd k) @ ''.token'' \<notin> {[], ''.'', ''..''}"
    using len by (auto dest: arg_cong [where f = length])
qed

lemma capability_file_inject:
  assumes "has_prefix dir ''/''" and "run_admitted j" and "run_admitted k"
  shows "capability_file dir j = capability_file dir k \<longleftrightarrow> j = k"
proof -
  have "length (fst j) = 14" "length (fst k) = 14" using assms by (auto simp: run_admitted_def idPattern_def)
  moreover have "itoa (snd j) = itoa (snd k) \<longleftrightarrow> snd j = snd k"
    using assms by (intro itoa_inject) (auto simp: run_admitted_def)
  ultimately show ?thesis
    unfolding capability_file_def path_join_leaf_inject [OF assms(1) capability_leaf [OF assms(2)] capability_leaf [OF assms(3)]]
    by (auto simp: prod_eq_iff)
qed

interpretation capability_files:
  keyed_store "\<lambda>k. run_admitted k" "\<lambda>files k. alookup files (capability_file (CHR ''/'' # dir) k)"
    "\<lambda>k cap. aput (capability_file (CHR ''/'' # dir) k) cap" "\<lambda>k. adel (capability_file (CHR ''/'' # dir) k)" for dir
  by unfold_locales (simp_all add: capability_file_inject)

definition empty_world :: world where
  "empty_world = \<lparr>wTables = \<lparr>tSessions = [], tRuns = []\<rparr>, wCapabilities = [], wLogs = newSessionLogs, wMetrics = [],
     wLinks = [], wPreparations = [], wClosing = False, wTick = 0, wTrace = []\<rparr>"

text \<open>An environment without faults, for concrete runs: a clock from January 2026 and hosts that answer nothing.\<close>

definition sample_env :: env where
  "sample_env =
     \<lparr>eConfig = \<lparr>cRunners = \<lparr>ConfDir = [], Template = sample_runner\<rparr>, cLinkspanPath = DefaultLinkspanPath,
                 cCapabilityDir = ''/var/lib/cs/capabilities'', cPublicURL = ''https://cs.example.org''\<rparr>,
      eNow = (\<lambda>n. 63902995200000000000 + int n * second), eLoadFault = (\<lambda>_. None), eSaveFault = (\<lambda>_. None),
      eFileFault = (\<lambda>_. NoFault), eLockFault = (\<lambda>_. None), eCredential = (\<lambda>_ _. Inr no_credential),
      eTunnelCreate = (\<lambda>_ _. Inl (Plain ''no tunnels'')), eTunnelDelete = (\<lambda>_ _. None), eSecret = (\<lambda>_. replicate 32 7),
      eSsh = (\<lambda>_. sample_io []), eDone = (\<lambda>_. None), eLinkspan = (\<lambda>_ _ _ _. Inl (Plain ''no route'')),
      eOthers = (\<lambda>_ w. w)\<rparr>"

text \<open>
  C32: A capability file belongs to one run. Storing the capability of a run makes it readable for that run, leaves what
  is read for every other session and run number as it was, and deleting it makes it unreadable again.
\<close>

theorem capability_isolation:
  assumes "has_prefix (cCapabilityDir (eConfig E)) ''/''" and "idPattern ident" and "1 \<le> seq" and "validCapability cap"
    and "\<And>n. eFileFault E n = NoFault"
  shows "case run_state (putCapability E ident seq cap) w of (failed, w1) \<Rightarrow> failed = None
     \<and> fst (run_state (getCapability E ident seq) w1) = Inr cap
     \<and> (\<forall>other n. (other, n) \<noteq> (ident, seq) \<longrightarrow>
          fst (run_state (getCapability E other n) w1) = fst (run_state (getCapability E other n) w))
     \<and> fst (run_state (getCapability E ident seq) (snd (run_state (deleteCapability E ident seq) w1)))
         = Inl (NotExist (''open '' @ capability_file (cCapabilityDir (eConfig E)) (ident, seq) @ '': no such file or directory''))"
proof -
  let ?dir = "cCapabilityDir (eConfig E)"
  from assms(1) obtain d where dir: "?dir = CHR ''/'' # d" by (auto simp: has_prefix_iff)
  have k: "run_admitted (ident, seq)" using assms(2,3) by (simp add: run_admitted_def)
  have path: "capabilityPath ?dir ident seq = Inr (capability_file ?dir (ident, seq))"
    using capabilityPath_admitted [OF assms(1) k] .
  have put: "run_state (putCapability E ident seq cap) w =
      (None, w\<lparr>wTick := Suc (wTick w), wCapabilities := aput (capability_file ?dir (ident, seq)) (Json cap) (wCapabilities w)\<rparr>)"
    using assms(4,5) by (simp add: putCapability_def path write_file_def ask_def tick_def)
  have get: "fst (run_state (getCapability E i n) v) =
      (case capabilityPath ?dir i n of Inl e \<Rightarrow> Inl e | Inr location \<Rightarrow> read_capability (wCapabilities v) location)" for i n v
    using assms(5) by (simp add: getCapability_def ask_def tick_def split: sum.splits)
  have "fst (run_state (getCapability E other n) (snd (run_state (putCapability E ident seq cap) w)))
      = fst (run_state (getCapability E other n) w)" if "(other, n) \<noteq> (ident, seq)" for other n
  proof (cases "capabilityPath ?dir other n")
    case (Inr location)
    then have "run_admitted (other, n)" "location = capability_file ?dir (other, n)" by (simp_all add: capabilityPath_Inr)
    then show ?thesis
      using capability_files.find_frame [OF _ k that, of d "Json cap" "wCapabilities w"] Inr
      by (simp add: get put dir read_capability_def)
  qed (simp add: get)
  moreover have "fst (run_state (getCapability E ident seq) (snd (run_state (putCapability E ident seq cap) w))) = Inr cap"
    using assms(4) by (simp add: get put path read_capability_def)
  moreover have "fst (run_state (getCapability E ident seq) (snd (run_state (deleteCapability E ident seq)
      (snd (run_state (putCapability E ident seq cap) w)))))
    = Inl (NotExist (''open '' @ capability_file ?dir (ident, seq) @ '': no such file or directory''))"
    using assms(3,5) by (simp add: get put path read_capability_def deleteCapability_def write_file_def ask_def tick_def)
  ultimately show ?thesis by (simp add: put)
qed

lemma new_secret_valid: "length bytes = 32 \<Longrightarrow> \<forall>b \<in> set bytes. b < 256 \<Longrightarrow> validSecret (b64_encode bytes)"
  by (simp add: validSecret_def DecodeBase64URL_def b64_decode_encode)

definition sample_capability :: sessionCapability where
  "sample_capability = \<lparr>capConnectToken = [], capJupyterToken = b64_encode (replicate 32 7), capLinkToken = b64_encode (replicate 32 8)\<rparr>"

lemma sample_capability_valid: "validCapability sample_capability"
  by (simp add: validCapability_def sample_capability_def new_secret_valid)

theorem capability_isolation_witness:
  "fst (run_state (getCapability sample_env ''s-0123456789ab'' 1)
     (snd (run_state (putCapability sample_env ''s-0123456789ab'' 1 sample_capability) empty_world))) = Inr sample_capability"
proof -
  have "has_prefix (cCapabilityDir (eConfig sample_env)) ''/''" and "\<And>n. eFileFault sample_env n = NoFault"
    by (simp_all add: sample_env_def)
  from capability_isolation [OF this(1) sample_id _ sample_capability_valid this(2), of 1 empty_world] show ?thesis
    by (simp add: case_prod_unfold)
qed

end
