(* ===== verification/SessionPrep.thy ===== *)
theory SessionPrep
  imports SessionStore
begin

text \<open>
  \<^verbatim>\<open>subsystems/session/preparation.go\<close> and \<^verbatim>\<open>linkspan.go\<close>: what a request must satisfy, how a workspace expression is
  resolved, the job script and workflow a session runs, the program that provisions a host, and the steps that
  prepare, provision and submit a run.
\<close>

section \<open>Paths and expressions\<close>

definition invalidRootFolder :: "string \<Rightarrow> go_error" where
  "invalidRootFolder message = APIError ''invalid_root_folder'' message 400"

definition resourcesFit :: "Resources \<Rightarrow> Partition \<Rightarrow> bool" where
  "resourcesFit r p \<longleftrightarrow> Cores r \<le> pCPUCount p \<and> MemoryMB r \<le> pMemoryMB p"

definition hasGPU :: "Partition \<Rightarrow> bool" where
  "hasGPU p = list_ex (\<lambda>g. gName g = ''gpu'' \<or> has_prefix (gName g) ''gpu:'') (pGRES p)"

definition gpuSupports :: "Partition \<Rightarrow> string \<Rightarrow> int \<Rightarrow> bool" where
  "gpuSupports p gpuType gpuCount =
     list_ex (\<lambda>g. gpuCount \<le> gCount g \<and> (gName g = ''gpu'' \<or> trim_prefix (gName g) ''gpu:'' = gpuType)) (pGRES p)"

definition safeRemotePath :: "string \<Rightarrow> bool" where
  "safeRemotePath value \<longleftrightarrow> absolutePath value \<and> path_clean value = value \<and> value \<noteq> ''/''"

definition homeRootExpression :: "string \<Rightarrow> bool" where
  "homeRootExpression value \<longleftrightarrow>
     value = ''.'' \<or> value = ''~'' \<or> value = ''$HOME'' \<or> value = ''${HOME}''"

definition resolveRemoteExecutable :: "string \<Rightarrow> string \<Rightarrow> string" where
  "resolveRemoteExecutable value home =
     (case cut_prefix value ''$HOME/'' of
        (rest, anchored) \<Rightarrow> if \<not> anchored then value else path_join [home, rest])"

text \<open>\<^verbatim>\<open>^[A-Za-z0-9._-]+$\<close>\<close>

definition workspaceSegment :: "string \<Rightarrow> bool" where
  "workspaceSegment s \<longleftrightarrow> s \<noteq> [] \<and> list_all (\<lambda>c. is_alnum c \<or> c \<in> set ''._-'') s"

definition safeWorkspaceSuffix :: "string \<Rightarrow> bool" where
  "safeWorkspaceSuffix value \<longleftrightarrow>
     value \<noteq> [] \<and> path_clean value = value \<and> \<not> has_prefix value ''/''
     \<and> list_all (\<lambda>part. part \<noteq> [] \<and> part \<noteq> ''.'' \<and> part \<noteq> ''..'' \<and> workspaceSegment part) (split_on CHR ''/'' value)"

definition oneRemotePath :: "string \<Rightarrow> string res" where
  "oneRemotePath output =
     (let value = trim_suffix output [nl]
      in if value = [] \<or> contains_any value [cr, nl] \<or> \<not> safeRemotePath value
         then Inl (Plain ''not one safe absolute path'') else Inr value)"

definition safeRemoteExecutable :: "string \<Rightarrow> bool" where
  "safeRemoteExecutable value =
     (case cut_prefix value ''$HOME/'' of
        (rest, anchored) \<Rightarrow>
          if anchored then safeRemotePath (''/'' @ rest) else safeRemotePath value \<and> has_prefix value ''/'')"

definition var_char :: "char \<Rightarrow> bool" where "var_char c \<longleftrightarrow> is_alnum c \<or> c = CHR ''_''"
definition var_start :: "char \<Rightarrow> bool" where "var_start c \<longleftrightarrow> is_alpha c \<or> c = CHR ''_''"

text \<open>
  \<^verbatim>\<open>^\$(?:([A-Za-z_][A-Za-z0-9_]*)|\{([A-Za-z_][A-Za-z0-9_]*)\})(?:/(.*))?$\<close>: the variable's name and what
  follows the slash, empty when there is none.
\<close>

definition workspace_rest :: "string \<Rightarrow> string option" where
  "workspace_rest s =
     (case s of [] \<Rightarrow> Some [] | c # r \<Rightarrow> if c = CHR ''/'' \<and> nl \<notin> set r then Some r else None)"

definition workspaceVar :: "string \<Rightarrow> (string \<times> string) option" where
  "workspaceVar value =
     (case value of
        c # d # t \<Rightarrow>
          if c \<noteq> CHR ''$'' then None
          else if d = CHR ''{'' then
            (let name = takeWhile var_char t; rest = dropWhile var_char t
             in if name = [] \<or> \<not> var_start (hd name) \<or> rest = [] \<or> hd rest \<noteq> CHR ''}'' then None
                else map_option (\<lambda>r. (name, r)) (workspace_rest (tl rest)))
          else (let name = takeWhile var_char (d # t); rest = dropWhile var_char (d # t)
                in if name = [] \<or> \<not> var_start (hd name) then None
                   else map_option (\<lambda>r. (name, r)) (workspace_rest rest))
      | _ \<Rightarrow> None)"

definition validWorkspaceExpression :: "string \<Rightarrow> bool" where
  "validWorkspaceExpression value =
     (if value = [] \<or> value \<noteq> trim_space value \<or> contains_any value [CHR 0x5C, nul, cr, nl] then False
      else if homeRootExpression value then True
      else if has_prefix value ''/'' then safeRemotePath value
      else if has_prefix value ''~/'' then safeWorkspaceSuffix (trim_prefix value ''~/'')
      else (case workspaceVar value of
              Some (name, rest) \<Rightarrow>
                \<not> has_suffix value ''/'' \<and> length name \<le> 64 \<and> (rest = [] \<or> safeWorkspaceSuffix rest)
            | None \<Rightarrow> safeWorkspaceSuffix value))"

section \<open>Linkspan's launch contract\<close>

definition linkspanFloor :: string where "linkspanFloor = ''0.21.0''"
definition modeDevtunnel :: string where "modeDevtunnel = ''devtunnel''"
definition modeWebsocket :: string where "modeWebsocket = ''websocket''"

definition linkspanModeArgs :: "string \<Rightarrow> string" where
  "linkspanModeArgs mode =
     (if mode = modeDevtunnel then
        ''--tunnel-devtunnel-args '' @ [CHR 0x22] @ ''--id $CS_TUNNEL_ID --cluster $CS_TUNNEL_CLUSTER'' @ [CHR 0x22]
      else if mode = modeWebsocket then
        ''--tunnel-websocket-args '' @ [CHR 0x22] @ ''--url $CS_LINK_URL'' @ [CHR 0x22]
      else [])"

definition linkspanTunnelArgs :: "string list \<Rightarrow> string" where
  "linkspanTunnelArgs modes =
     ''--tunnel-enable --tunnel-mode '' @ join '','' modes @ concat (map (\<lambda>mode. '' '' @ linkspanModeArgs mode) modes)"

definition linkspanEnvironment ::
  "string list \<Rightarrow> string \<Rightarrow> string \<Rightarrow> tunnelMetadata \<Rightarrow> string \<Rightarrow> (string \<times> string) list" where
  "linkspanEnvironment modes linkURL linkToken tunnel hostToken =
     (let env0 = (if modeWebsocket \<in> set modes
                  then aput ''LINKSPAN_LINK_TOKEN'' linkToken (aput ''CS_LINK_URL'' linkURL []) else [])
      in if modeDevtunnel \<in> set modes
         then aput ''LINKSPAN_TUNNEL_HOST_TOKEN'' hostToken
                (aput ''CS_TUNNEL_CLUSTER'' (tmClusterID tunnel) (aput ''CS_TUNNEL_ID'' (tmID tunnel) env0))
         else env0)"

section \<open>Validation\<close>

definition errTunnelModes :: go_error where
  "errTunnelModes = APIError ''invalid_tunnel_modes'' ''tunnelModes must be distinct values from websocket and devtunnel'' 400"

definition canonicalTunnelModes :: "string list \<Rightarrow> string list res" where
  "canonicalTunnelModes modes =
     (let sorted = sort modes
      in if sorted = [] \<or> length (compact sorted) \<noteq> length sorted \<or> list_ex (\<lambda>mode. linkspanModeArgs mode = []) sorted
         then Inl errTunnelModes else Inr sorted)"

definition validatePartitionResources :: "Partition list \<Rightarrow> string \<Rightarrow> Resources \<Rightarrow> unit res" where
  "validatePartitionResources values name r =
     (let matches = filter (\<lambda>p. \<not> pName p \<noteq> name) values;
          gpuRequested = (GPUCount r \<noteq> 0 \<or> GPUType r \<noteq> []);
          supported = filter (\<lambda>p. \<not> \<not> gpuSupports p (GPUType r) (GPUCount r)) matches
      in if matches = [] then
           Inl (APIError ''invalid_partition'' ''Slurm partition was not discovered for this host'' 400)
         else if gpuRequested \<and> (GPUCount r < 1 \<or> \<not> SafeName (GPUType r) 64) then
           Inl (APIError ''invalid_gpu'' ''gpuType and positive gpuCount must be supplied together'' 400)
         else if \<not> gpuRequested then
           (if list_ex (\<lambda>p. \<not> hasGPU p \<and> resourcesFit r p) matches then Inr ()
            else Inl (APIError ''invalid_resource''
                   ''no CPU variant of the selected partition supports the requested resources'' 400))
         else if list_ex (resourcesFit r) supported then Inr ()
         else if supported \<noteq> [] then
           Inl (APIError ''invalid_resource''
             ''requested CPU or memory exceeds the matching GPU partition capacity'' 400)
         else Inl (APIError ''invalid_gpu'' ''requested GPU is not available in the selected partition'' 400))"

definition validateCreate :: "CreateRequest \<Rightarrow> CreateRequest res" where
  "validateCreate req =
     (let r = crResources req
      in if crID req = [] \<and> crIdempotencyKey req = [] then
           Inl (APIError ''invalid_idempotency_key'' ''idempotencyKey is required'' 400)
         else if \<not> ValidAlias (crSSHHost req) then Inl ErrInvalidAlias
         else if \<not> SafeName (crPartition req) 64 then Inl (APIError ''invalid_partition'' ''invalid partition'' 400)
         else if crAccount req \<noteq> [] \<and> \<not> SafeName (crAccount req) 64 then
           Inl (APIError ''invalid_account'' ''invalid account'' 400)
         else if \<not> validWorkspaceExpression (crRootFolder req) then
           Inl (invalidRootFolder
             ''rootFolder must be a safe POSIX path: absolute, relative to the home, or under $HOME or $VAR'')
         else if Cores r < minCores \<or> 4096 < Cores r then
           Inl (APIError ''invalid_resources'' ''cores must be between 2 and 4096'' 400)
         else if MemoryMB r < minMemoryMB \<or> 100000000 < MemoryMB r then
           Inl (APIError ''invalid_resources'' ''memoryMb is out of range'' 400)
         else if WallMinutes r < 1 \<or> 525600 < WallMinutes r then
           Inl (APIError ''invalid_resources'' ''wallMinutes is out of range'' 400)
         else if crIdempotencyKey req \<noteq> []
                 \<and> (128 < length (crIdempotencyKey req) \<or> contains_any (crIdempotencyKey req) [nul, cr, nl]) then
           Inl (APIError ''invalid_idempotency_key'' ''invalid idempotency key'' 400)
         else (case canonicalTunnelModes
                      (case crTunnelModes req of None \<Rightarrow> [modeWebsocket] | Some modes \<Rightarrow> modes) of
                 Inl e \<Rightarrow> Inl e
               | Inr modes \<Rightarrow> Inr (req\<lparr>crTunnelModes := Some modes\<rparr>)))"

definition validateWorkspacePrivateLayout ::
  "string \<Rightarrow> string \<Rightarrow> string \<Rightarrow> string \<Rightarrow> string \<Rightarrow> unit res" where
  "validateWorkspacePrivateLayout home workspace privateRoot sessionID expression =
     (if workspace = privateRoot \<or> has_prefix workspace (privateRoot @ ''/'') then
        Inl (invalidRootFolder ''workspace resolves inside the private session directory'')
      else if \<not> has_prefix privateRoot (workspace @ ''/'') then Inr ()
      else if workspace = home \<and> homeRootExpression expression
              \<and> privateRoot = path_join [home, defaultSessionBase, sessionID] then Inr ()
      else Inl (invalidRootFolder
             ''workspace may contain private session state only at $HOME/.cybershuttle/sessions/{sessionId}''))"

section \<open>What a session runs\<close>

definition provisionTimeout :: duration where "provisionTimeout = dur_mul 5 minute"

definition provisionScript :: string where
  "provisionScript = unlines
     [''set -u'',
      ''LC_ALL=C'',
      ''LANG=C'',
      ''export LC_ALL LANG'',
      ''[ '' @ [CHR 0x22] @ ''$#'' @ [CHR 0x22] @ '' -eq 5 ] && [ '' @ [CHR 0x22] @ ''$1'' @ [CHR 0x22] @ '' = cs-provision ] || { printf '' @ [CHR 0x27] @ ''%s'' @ [CHR 0x5C] @ ''n'' @ [CHR 0x27] @ '' '' @ [CHR 0x27] @ ''error=arguments'' @ [CHR 0x27] @ ''; exit 70; }'',
      ''shift'',
      ''home=$1'',
      ''linkspan=$2'',
      ''workflow=$3'',
      ''document=$4'',
      ''case '' @ [CHR 0x22] @ ''$home'' @ [CHR 0x22] @ '' in /*) ;; *) printf '' @ [CHR 0x27] @ ''%s'' @ [CHR 0x5C] @ ''n'' @ [CHR 0x27] @ '' '' @ [CHR 0x27] @ ''error=arguments'' @ [CHR 0x27] @ ''; exit 70 ;; esac'',
      ''case '' @ [CHR 0x22] @ ''$linkspan'' @ [CHR 0x22] @ '' in /*) ;; *) printf '' @ [CHR 0x27] @ ''%s'' @ [CHR 0x5C] @ ''n'' @ [CHR 0x27] @ '' '' @ [CHR 0x27] @ ''error=arguments'' @ [CHR 0x27] @ ''; exit 70 ;; esac'',
      ''case '' @ [CHR 0x22] @ ''$workflow'' @ [CHR 0x22] @ '' in /*) ;; *) printf '' @ [CHR 0x27] @ ''%s'' @ [CHR 0x5C] @ ''n'' @ [CHR 0x27] @ '' '' @ [CHR 0x27] @ ''error=arguments'' @ [CHR 0x27] @ ''; exit 70 ;; esac'',
      [],
      ''# Newest wins, and a tie goes to the release: a build made by hand carries a'',
      ''# version above the published one and is left alone, while a release that has'',
      ''# caught up (same tag or higher) replaces it. Both installers follow this rule,'',
      ''# so neither can undo the other.'',
      ''installed='' @ [CHR 0x22, CHR 0x22],
      ''[ -x '' @ [CHR 0x22] @ ''$linkspan'' @ [CHR 0x22] @ '' ] && installed=$('' @ [CHR 0x22] @ ''$linkspan'' @ [CHR 0x22] @ '' --version 2>/dev/null | head -1 | tr -d '' @ [CHR 0x27] @ ''v '' @ [CHR 0x5C] @ ''r'' @ [CHR 0x27] @ '')'',
      ''latest=$(curl -fsSLI -o /dev/null -w '' @ [CHR 0x27] @ ''%{url_effective}'' @ [CHR 0x27] @ '' '' @ [CHR 0x5C],
      ''  https://github.com/cyber-shuttle/linkspan/releases/latest 2>/dev/null | sed '' @ [CHR 0x27] @ ''s#.*/##'' @ [CHR 0x27] @ '' | tr -d '' @ [CHR 0x27] @ ''v '' @ [CHR 0x5C] @ ''r'' @ [CHR 0x27] @ '')'',
      ''# What is installed is X.Y.Z for a release or X.Y.Z.<commit> for a build ahead'',
      ''# of one; anything else -- an unversioned build above all else -- sorts above'',
      ''# every release under sort -V, so it does not count as a version at all. What is'',
      ''# published is always a release, so equal numbers mean the release has caught up'',
      ''# and takes over, whether what is installed is a build or the same release.'',
      ''installed=$(printf '' @ [CHR 0x27] @ ''%s'' @ [CHR 0x27] @ '' '' @ [CHR 0x22] @ ''$installed'' @ [CHR 0x22] @ '' | grep -Eo '' @ [CHR 0x27] @ ''^[0-9]+'' @ [CHR 0x5C] @ ''.[0-9]+'' @ [CHR 0x5C] @ ''.[0-9]+('' @ [CHR 0x5C] @ ''.[0-9a-f]{7,40})?$'' @ [CHR 0x27] @ '')'',
      ''numbers=$(printf '' @ [CHR 0x27] @ ''%s'' @ [CHR 0x27] @ '' '' @ [CHR 0x22] @ ''$installed'' @ [CHR 0x22] @ '' | cut -d. -f1-3)'',
      ''latest=$(printf '' @ [CHR 0x27] @ ''%s'' @ [CHR 0x27] @ '' '' @ [CHR 0x22] @ ''$latest'' @ [CHR 0x22] @ '' | grep -Eo '' @ [CHR 0x27] @ ''^[0-9]+'' @ [CHR 0x5C] @ ''.[0-9]+'' @ [CHR 0x5C] @ ''.[0-9]+$'' @ [CHR 0x27] @ '')'',
      ''keep=0'',
      ''if [ -n '' @ [CHR 0x22] @ ''$installed'' @ [CHR 0x22] @ '' ]; then'',
      ''  if [ -z '' @ [CHR 0x22] @ ''$latest'' @ [CHR 0x22] @ '' ]; then'',
      ''    # No published release to compare against; a working binary beats a guess.'',
      ''    keep=1'',
      ''  elif [ '' @ [CHR 0x22] @ ''$numbers'' @ [CHR 0x22] @ '' != '' @ [CHR 0x22] @ ''$latest'' @ [CHR 0x22] @ '' ]; then'',
      ''    [ '' @ [CHR 0x22] @ ''$(printf '' @ [CHR 0x27] @ ''%s'' @ [CHR 0x5C] @ ''n%s'' @ [CHR 0x5C] @ ''n'' @ [CHR 0x27] @ '' '' @ [CHR 0x22] @ ''$numbers'' @ [CHR 0x22] @ '' '' @ [CHR 0x22] @ ''$latest'' @ [CHR 0x22] @ '' | sort -V | tail -1)'' @ [CHR 0x22] @ '' = '' @ [CHR 0x22] @ ''$numbers'' @ [CHR 0x22] @ '' ] && keep=1'',
      ''  elif [ '' @ [CHR 0x22] @ ''$installed'' @ [CHR 0x22] @ '' = '' @ [CHR 0x22] @ ''$numbers'' @ [CHR 0x22] @ '' ]; then'',
      ''    # The published release is already the one installed: nothing to fetch. A'',
      ''    # build ahead of it carries the commit that says so, and yields to it.'',
      ''    keep=1'',
      ''  fi'',
      ''fi'',
      ''if [ '' @ [CHR 0x22] @ ''$keep'' @ [CHR 0x22] @ '' = 1 ]; then'',
      ''  printf '' @ [CHR 0x27] @ ''%s'' @ [CHR 0x5C] @ ''n'' @ [CHR 0x27] @ '' '' @ [CHR 0x27] @ ''linkspan=present'' @ [CHR 0x27],
      ''else'',
      ''  bin_dir=$(dirname '' @ [CHR 0x22] @ ''$linkspan'' @ [CHR 0x22] @ '')'',
      ''  install -d -m 700 '' @ [CHR 0x22] @ ''$bin_dir'' @ [CHR 0x22] @ '' 2>/dev/null || { printf '' @ [CHR 0x27] @ ''%s'' @ [CHR 0x5C] @ ''n'' @ [CHR 0x27] @ '' '' @ [CHR 0x27] @ ''error=linkspan-directory'' @ [CHR 0x27] @ ''; exit 77; }'',
      ''  arch=$(uname -m)'',
      ''  case '' @ [CHR 0x22] @ ''$arch'' @ [CHR 0x22] @ '' in'',
      ''    x86_64) arch=x86_64 ;;'',
      ''    aarch64|arm64) arch=arm64 ;;'',
      ''    *) printf '' @ [CHR 0x27] @ ''%s'' @ [CHR 0x5C] @ ''n'' @ [CHR 0x27] @ '' '' @ [CHR 0x27] @ ''error=architecture'' @ [CHR 0x27] @ ''; exit 78 ;;'',
      ''  esac'',
      ''  staged='' @ [CHR 0x22] @ ''$bin_dir/.linkspan.$$'' @ [CHR 0x22],
      ''  # Staged and moved, so a partial download never becomes the binary a job execs.'',
      ''  curl -fsSL '' @ [CHR 0x22] @ ''https://github.com/cyber-shuttle/linkspan/releases/latest/download/linkspan_Linux_${arch}.tar.gz'' @ [CHR 0x22] @ '' 2>/dev/null |'',
      ''    tar -xzO linkspan > '' @ [CHR 0x22] @ ''$staged'' @ [CHR 0x22] @ '' 2>/dev/null || {'',
      ''      rm -f '' @ [CHR 0x22] @ ''$staged'' @ [CHR 0x22] @ ''; printf '' @ [CHR 0x27] @ ''%s'' @ [CHR 0x5C] @ ''n'' @ [CHR 0x27] @ '' '' @ [CHR 0x27] @ ''error=linkspan-download'' @ [CHR 0x27] @ ''; exit 79; }'',
      ''  [ -s '' @ [CHR 0x22] @ ''$staged'' @ [CHR 0x22] @ '' ] || { rm -f '' @ [CHR 0x22] @ ''$staged'' @ [CHR 0x22] @ ''; printf '' @ [CHR 0x27] @ ''%s'' @ [CHR 0x5C] @ ''n'' @ [CHR 0x27] @ '' '' @ [CHR 0x27] @ ''error=linkspan-download'' @ [CHR 0x27] @ ''; exit 79; }'',
      ''  chmod 700 '' @ [CHR 0x22] @ ''$staged'' @ [CHR 0x22] @ '' && mv -f '' @ [CHR 0x22] @ ''$staged'' @ [CHR 0x22] @ '' '' @ [CHR 0x22] @ ''$linkspan'' @ [CHR 0x22] @ '' || {'',
      ''    rm -f '' @ [CHR 0x22] @ ''$staged'' @ [CHR 0x22] @ ''; printf '' @ [CHR 0x27] @ ''%s'' @ [CHR 0x5C] @ ''n'' @ [CHR 0x27] @ '' '' @ [CHR 0x27] @ ''error=linkspan-install'' @ [CHR 0x27] @ ''; exit 80; }'',
      ''  printf '' @ [CHR 0x27] @ ''%s'' @ [CHR 0x5C] @ ''n'' @ [CHR 0x27] @ '' '' @ [CHR 0x27] @ ''linkspan=installed'' @ [CHR 0x27],
      ''fi'',
      ''# A Linkspan below the floor refuses the session'' @ [CHR 0x27] @ ''s flags or document and takes'',
      ''# the session with it, so it is refused here instead.'',
      ''floor='' @ linkspanFloor,
      ''version=$('' @ [CHR 0x22] @ ''$linkspan'' @ [CHR 0x22] @ '' --version 2>/dev/null | head -1 | tr -d '' @ [CHR 0x27] @ ''v '' @ [CHR 0x5C] @ ''r'' @ [CHR 0x27] @ '')'',
      ''[ '' @ [CHR 0x22] @ ''$(printf '' @ [CHR 0x27] @ ''%s'' @ [CHR 0x5C] @ ''n%s'' @ [CHR 0x5C] @ ''n'' @ [CHR 0x27] @ '' '' @ [CHR 0x22] @ ''$floor'' @ [CHR 0x22] @ '' '' @ [CHR 0x22] @ ''$version'' @ [CHR 0x22] @ '' | sort -V | head -1)'' @ [CHR 0x22] @ '' = '' @ [CHR 0x22] @ ''$floor'' @ [CHR 0x22] @ '' ] || {'',
      ''  printf '' @ [CHR 0x27] @ ''%s'' @ [CHR 0x5C] @ ''n'' @ [CHR 0x27] @ '' '' @ [CHR 0x27] @ ''error=linkspan-unsupported'' @ [CHR 0x27] @ ''; exit 81; }'',
      [],
      ''# What the session is for travels with it, staged and moved so a partial'',
      ''# write never becomes the document Linkspan reads.'',
      ''umask 077'',
      ''staged='' @ [CHR 0x22] @ ''$workflow.staged'' @ [CHR 0x22],
      ''install -d -m 700 '' @ [CHR 0x22] @ ''$(dirname '' @ [CHR 0x22] @ ''$workflow'' @ [CHR 0x22] @ '')'' @ [CHR 0x22] @ '' 2>/dev/null &&'',
      ''  printf '' @ [CHR 0x27] @ ''%s'' @ [CHR 0x27] @ '' '' @ [CHR 0x22] @ ''$document'' @ [CHR 0x22] @ '' | base64 -d > '' @ [CHR 0x22] @ ''$staged'' @ [CHR 0x22] @ '' 2>/dev/null &&'',
      ''  [ -s '' @ [CHR 0x22] @ ''$staged'' @ [CHR 0x22] @ '' ] && mv -f '' @ [CHR 0x22] @ ''$staged'' @ [CHR 0x22] @ '' '' @ [CHR 0x22] @ ''$workflow'' @ [CHR 0x22] @ '' || {'',
      ''    rm -f '' @ [CHR 0x22] @ ''$staged'' @ [CHR 0x22] @ ''; printf '' @ [CHR 0x27] @ ''%s'' @ [CHR 0x5C] @ ''n'' @ [CHR 0x27] @ '' '' @ [CHR 0x27] @ ''error=workflow'' @ [CHR 0x27] @ ''; exit 82; }'',
      ''printf '' @ [CHR 0x27] @ ''%s'' @ [CHR 0x5C] @ ''n'' @ [CHR 0x27] @ '' '' @ [CHR 0x27] @ ''provision=complete'' @ [CHR 0x27]]"

definition provisionFailures :: "(string \<times> string) list" where
  "provisionFailures =
     [(''arguments'', ''the host was given paths it could not use''),
      (''linkspan-directory'', ''could not create the directory the Linkspan binary belongs in''),
      (''architecture'', ''the host reports an architecture Linkspan is not released for''),
      (''linkspan-download'', ''could not download the Linkspan release''),
      (''linkspan-install'', ''could not install the downloaded Linkspan binary''),
      (''linkspan-unsupported'', ''the Linkspan on this host is older than '' @ linkspanFloor @ '', so it cannot link this session to cs-plane''),
      (''workflow'', ''could not write the workflow the session runs'')]"

definition sessionWorkflowPath :: "Session \<Rightarrow> string" where
  "sessionWorkflowPath s = trim_suffix (sPrivateRoot s) ''/'' @ ''/workflow.yaml''"

definition go_rem :: "int \<Rightarrow> int \<Rightarrow> int" where
  "go_rem a b = a - b * go_quot a b"

definition minutesToWalltime :: "int \<Rightarrow> string" where
  "minutesToWalltime minutes =
     (let days = go_quot minutes (24 * 60); rest = go_rem minutes (24 * 60);
          hours = go_quot rest 60; mins = go_rem rest 60
      in if 0 < days then itoa days @ ''-'' @ pad2 hours @ '':'' @ pad2 mins @ '':00''
         else pad2 hours @ '':'' @ pad2 mins @ '':00'')"

definition validationMessage :: "CheckResult \<Rightarrow> string" where
  "validationMessage result =
     (let out = trim_space (crStdout result); err = trim_space (crStderr result)
      in if Passed result then (if out \<noteq> [] then out else ''Slurm accepted the job script.'')
         else if err \<noteq> [] then err
         else if out \<noteq> [] then out
         else ''Slurm rejected the job script.'')"

definition script_lines :: "Session \<Rightarrow> string \<Rightarrow> string list" where
  "script_lines s linkspan =
     (let r = sResources s; logBase = sID s @ ''-'' @ itoa (sSeq s)
      in [''#!/bin/bash'', ''#SBATCH --nodes=1'', ''#SBATCH --ntasks=1'',
          ''#SBATCH --cpus-per-task='' @ itoa (Cores r), ''#SBATCH --mem='' @ itoa (MemoryMB r) @ ''M'',
          ''#SBATCH --time='' @ minutesToWalltime (WallMinutes r), ''#SBATCH --partition='' @ sPartition s]
         @ (if sAccount s \<noteq> [] then [''#SBATCH --account='' @ sAccount s] else [])
         @ (if 0 < GPUCount r
            then [''#SBATCH --gres=gpu:'' @ (if GPUType r \<noteq> ''gpu'' then GPUType r @ '':'' else []) @ itoa (GPUCount r)]
            else [])
         @ [''set -eu'', ''umask 077'', ''LOG_DIR='' @ [CHR 0x22] @ ''$HOME/.cybershuttle/logs'' @ [CHR 0x22], ''install -d -m 700 '' @ [CHR 0x22] @ ''$LOG_DIR'' @ [CHR 0x22],
            ''exec >'' @ [CHR 0x22] @ ''$LOG_DIR/'' @ logBase @ ''.out'' @ [CHR 0x22] @ '' 2>'' @ [CHR 0x22] @ ''$LOG_DIR/'' @ logBase @ ''.err'' @ [CHR 0x22],
            ''unset XDG_RUNTIME_DIR TMPDIR'', ''LINKSPAN_BIN='' @ ShellQuote linkspan,
            ''exec '' @ [CHR 0x22] @ ''$LINKSPAN_BIN'' @ [CHR 0x22] @ '' --port '' @ [CHR 0x22] @ ''$CS_CONTROL_PORT'' @ [CHR 0x22] @ '' '' @ linkspanTunnelArgs (sTunnelModes s) @ '' --workflow '' @ ShellQuote (sessionWorkflowPath s)])"

definition buildScript :: "Session \<Rightarrow> string \<Rightarrow> string" where
  "buildScript s linkspan = join [nl] (script_lines s linkspan @ [[]])"

record sessionPorts =
  portControl :: nat
  portJupyter :: nat

definition ports :: "string \<Rightarrow> int \<Rightarrow> sessionPorts" where
  "ports sessionID seq =
     (let sum = sha256 (sessionID @ ''/'' @ itoa seq);
          base = 20000 + (sum ! 0 * 256 + sum ! 1) mod 20000
      in \<lparr>portControl = base mod 2 ^ 16, portJupyter = (base + 1) mod 2 ^ 16\<rparr>)"

definition sessionWorkflow :: "Session \<Rightarrow> string" where
  "sessionWorkflow s =
     join [nl]
       [''name: cs-session'',
        ''tasks:'',
        ''  - on: start'',
        ''    steps:'',
        ''      - name: Start Jupyter Server'',
        ''        action: jupyter.sessions.start'',
        ''        params:'',
        ''          root_dir: '' @ go_quote (sWorkspaceRoot s),
        ''          addr: '' @ go_quote (''127.0.0.1:'' @ itoa (int (portJupyter (ports (sID s) (sSeq s))))),
        []]"

definition provisionOutcome :: "string \<Rightarrow> (string \<times> string) list" where
  "provisionOutcome output =
     foldl (\<lambda>m line. case cut (trim_space line) ''='' of None \<Rightarrow> m | Some (key, value) \<Rightarrow> aput key value m)
       [] (split_on nl (trim_space output))"

definition provisionMessage :: "string \<Rightarrow> string \<Rightarrow> string \<Rightarrow> string" where
  "provisionMessage alias failure stderr =
     (case alookup provisionFailures failure of
        Some reason \<Rightarrow> ''Preparing the session environment on '' @ alias @ '' failed: '' @ reason @ ''.''
      | None \<Rightarrow>
          (let detail = trim_space stderr
           in if detail \<noteq> [] then ''Preparing the session environment on '' @ alias @ '' failed: '' @ detail
              else ''Preparing the session environment on '' @ alias @ '' failed.''))"

definition linkURL :: "env \<Rightarrow> string \<Rightarrow> string" where
  "linkURL E ident = ''ws'' @ trim_prefix (cPublicURL (eConfig E)) ''http'' @ ''/api/v1/sessions/'' @ ident @ ''/link''"

section \<open>Preparing, checking, provisioning and submitting\<close>

record preparedSession =
  prepSession :: Session
  prepScript :: string
  prepHome :: string
  prepLinkspan :: string

text \<open>\<^verbatim>\<open>errors.AsType[*slurm.DiscoveryError]\<close>\<close>

fun as_discovery :: "go_error \<Rightarrow> string option" where
  "as_discovery (DiscoveryError operation) = Some operation"
| "as_discovery (Wrapf ts es) = first_some (map as_discovery es)"
| "as_discovery (Joined es) = first_some (map as_discovery es)"
| "as_discovery (SubmissionError e ambiguous) = as_discovery e"
| "as_discovery _ = None"

definition discover :: "ssh_io \<Rightarrow> Runner \<Rightarrow> string \<Rightarrow> Resource res" where
  "discover io r alias =
     (case Discover io r alias of
        Inl e \<Rightarrow>
          (case as_discovery e of
             Some operation \<Rightarrow> Inl (APIError ''slurm_discovery_failed'' (error_text (DiscoveryError operation)) 502)
           | None \<Rightarrow> Inl e)
      | Inr d \<Rightarrow>
          Inr \<lparr>resHost = alias, resAccounts = dAccounts d,
               resPartitions = map (\<lambda>p. \<lparr>pName = spName p, pCPUCount = spCPUCount p, pMemoryMB = spMemoryMB p,
                   pGRES = map (\<lambda>g. \<lparr>gName = gresName g, gCount = gresCount g\<rparr>) (spGRES p)\<rparr>) (dPartitions d),
               resHomeDir = dHome d\<rparr>)"

definition resolveWorkspaceRoot :: "env \<Rightarrow> Runner \<Rightarrow> string \<Rightarrow> string \<Rightarrow> string \<Rightarrow> string res prog" where
  "resolveWorkspaceRoot E r alias home expression =
     (let finish = (\<lambda>base suffix.
            let resolved = (if suffix \<noteq> [] then path_join [base, suffix] else base)
            in if \<not> safeRemotePath resolved then Inl (invalidRootFolder ''workspace resolves to an unsafe path'')
               else Inr resolved)
      in if \<not> validWorkspaceExpression expression \<or> \<not> safeRemotePath home then
           State_Monad.return (Inl (invalidRootFolder ''workspace expression is invalid''))
         else if homeRootExpression expression then State_Monad.return (finish home [])
         else if has_prefix expression ''/'' then State_Monad.return (finish expression [])
         else if has_prefix expression ''~/'' then State_Monad.return (finish home (trim_prefix expression ''~/''))
         else (case workspaceVar expression of
                 None \<Rightarrow> State_Monad.return (finish home expression)
               | Some (name, suffix) \<Rightarrow>
                   if name = ''HOME'' then State_Monad.return (finish home suffix)
                   else do {
                     answer \<leftarrow> remote_run E r alias [] [''printenv'', name];
                     State_Monad.return
                       (case answer of
                          (output, Some e) \<Rightarrow>
                            Inl (invalidRootFolder (''workspace environment variable '' @ name @ '' is unavailable''))
                        | (output, None) \<Rightarrow>
                            (case oneRemotePath output of
                               Inl e \<Rightarrow>
                                 Inl (invalidRootFolder (''workspace environment variable '' @ name
                                        @ '' must contain one absolute safe path''))
                             | Inr base \<Rightarrow> finish base suffix)) }))"

definition session_of_request :: "CreateRequest \<Rightarrow> string \<Rightarrow> string \<Rightarrow> Session" where
  "session_of_request req privateRoot workspaceRoot =
     \<lparr>sID = crID req, sSeq = 0, sState = [], sLauncher = [], sSSHHost = crSSHHost req, sAccount = crAccount req,
      sPartition = crPartition req, sRootFolder = crRootFolder req, sResources = crResources req,
      sTunnelModes = (case crTunnelModes req of None \<Rightarrow> [] | Some modes \<Rightarrow> modes), sError = [], sCreatedAt = 0,
      sStartedAt = 0, sUpdatedAt = 0, sOwner = \<lparr>Subject = [], Tenant = []\<rparr>, sTunnel = no_tunnel, sJobID = [],
      sJobName = [], sNode = [], sPrivateRoot = privateRoot, sWorkspaceRoot = workspaceRoot\<rparr>"

definition discover_prog :: "env \<Rightarrow> Runner \<Rightarrow> string \<Rightarrow> Resource res prog" where
  "discover_prog E r alias = do {
     emit (RemoteRun alias discoveryScript [''sh'', ''-s'']);
     ask (\<lambda>n. discover (eSsh E n) r alias) }"

definition prepare_steps ::
  "env \<Rightarrow> Runner \<Rightarrow> (string \<Rightarrow> unit prog) \<Rightarrow> CreateRequest \<Rightarrow> preparedSession res prog" where
  "prepare_steps E r say req = do {
     discovered \<leftarrow> discover_prog E r (crSSHHost req);
     (case discovered of
        Inl e \<Rightarrow> State_Monad.return (Inl (Wrapf [''discover session resource: ''] [e]))
      | Inr resource \<Rightarrow>
          if crAccount req \<noteq> [] \<and> crAccount req \<notin> set (resAccounts resource) then
            State_Monad.return
              (Inl (APIError ''invalid_account'' ''Slurm account was not discovered for this host'' 400))
          else
            attempt (State_Monad.return
              (validatePartitionResources (resPartitions resource) (crPartition req) (crResources req))) (\<lambda>_.
            (let home = resHomeDir resource; privateRoot = path_join [home, defaultSessionBase, crID req]
             in if \<not> safeRemotePath privateRoot then
                  State_Monad.return (Inl (Plain ''resolved private session path is unsafe''))
                else
                  attempt (resolveWorkspaceRoot E r (crSSHHost req) home (crRootFolder req)) (\<lambda>workspaceRoot.
                  attempt (State_Monad.return (validateWorkspacePrivateLayout home workspaceRoot privateRoot
                    (crID req) (crRootFolder req))) (\<lambda>_.
                  (let s = session_of_request req privateRoot workspaceRoot;
                       linkspan = resolveRemoteExecutable (cLinkspanPath (eConfig E)) home
                   in do {
                     say ''Session preparation complete'';
                     State_Monad.return (Inr \<lparr>prepSession = s, prepScript = buildScript s linkspan,
                       prepHome = home, prepLinkspan = linkspan\<rparr>) })))))) }"

text \<open>\<open>say\<close> narrates into the session's log; a dry run passes a narration that goes nowhere.\<close>

definition prepareSession ::
  "env \<Rightarrow> Runner \<Rightarrow> (string \<Rightarrow> unit prog) \<Rightarrow> CreateRequest \<Rightarrow> preparedSession res prog" where
  "prepareSession E r say req = do {
     say ''Preparing session'';
     result \<leftarrow> prepare_steps E r say req;
     (case result of
        Inr p \<Rightarrow> State_Monad.return (Inr p)
      | Inl e \<Rightarrow> do {
          say (if error_code (For e) = ''ssh_authentication_required'' then ''Interactive SSH login required''
               else ''Session preparation failed'');
          State_Monad.return (Inl e) }) }"

definition check_prog :: "env \<Rightarrow> Runner \<Rightarrow> string \<Rightarrow> string \<Rightarrow> CheckResult res prog" where
  "check_prog E r host script = do {
     emit (RemoteRun host script [''sbatch'', ''--test-only'']);
     ask (\<lambda>n. Check (eSsh E n) r host script) }"

definition validateForCreate :: "env \<Rightarrow> Runner \<Rightarrow> CreateRequest \<Rightarrow> string \<Rightarrow> unit res prog" where
  "validateForCreate E r req script = do {
     sessionStatus E (crID req) ''Validating session with Slurm'';
     checked \<leftarrow> check_prog E r (crSSHHost req) script;
     (let outcome = (case checked of
            Inl e \<Rightarrow> Inl e
          | Inr result \<Rightarrow>
              if \<not> Passed result then Inl (APIError ''slurm_validation_failed'' (validationMessage result) 400)
              else Inr ())
      in (case outcome of
            Inl e \<Rightarrow> do {
              sessionStatus E (crID req) ''Slurm validation failed'';
              State_Monad.return (Inl e) }
          | Inr _ \<Rightarrow> do {
              sessionStatus E (crID req) ''Slurm validation passed'';
              State_Monad.return (Inr ()) })) }"

definition submit_environment ::
  "env \<Rightarrow> Session \<Rightarrow> sessionCapability \<Rightarrow> string \<Rightarrow> (string \<times> string) list" where
  "submit_environment E s cap hostToken =
     aput ''CS_CONTROL_PORT'' (itoa (int (portControl (ports (sID s) (sSeq s)))))
       (aput ''JUPYTER_TOKEN'' (capJupyterToken cap)
         (linkspanEnvironment (sTunnelModes s) (linkURL E (sID s)) (capLinkToken cap) (sTunnel s) hostToken))"

definition submitSessionScript ::
  "env \<Rightarrow> Runner \<Rightarrow> string \<Rightarrow> Session \<Rightarrow> string \<Rightarrow> sessionCapability \<Rightarrow> string \<Rightarrow> string res prog" where
  "submitSessionScript E r host s script cap hostToken =
     (let req = \<lparr>srJobName = sJobName s, srScript = script, srEnvironment = submit_environment E s cap hostToken\<rparr>
      in do {
        (case submitProgram req of
           Inl e \<Rightarrow> State_Monad.return ()
         | Inr program \<Rightarrow> emit (RemoteRun host program [''sh'', ''-s'', ''--'', ''cs-submit'', srJobName req]));
        ask (\<lambda>n. Submit (eSsh E n) r host req) })"

definition report_value :: "(string \<times> string) list \<Rightarrow> string \<Rightarrow> string" where
  "report_value report key = (case alookup report key of None \<Rightarrow> [] | Some v \<Rightarrow> v)"

text \<open>The verdict on a provisioning run that was executed; \<open>done\<close> is the context's error after it.\<close>

definition provision_verdict ::
  "string \<Rightarrow> string \<times> string \<times> go_error option \<Rightarrow> go_error option \<Rightarrow> go_error option" where
  "provision_verdict alias answer ended =
     (case answer of (outText, errText, runErr) \<Rightarrow>
       (let report = provisionOutcome outText;
            failed = APIError ''session_provisioning_failed''
              (provisionMessage alias (report_value report ''error'') errText) 502
        in (case runErr of
              Some e \<Rightarrow>
                if ended \<noteq> None then
                  Some (APIError ''session_provisioning_failed''
                    (''Preparing the session environment on '' @ alias @ '' timed out.'') 504)
                else if AuthenticationFailure errText then ClassifyFailure alias errText (Some e)
                else Some failed
            | None \<Rightarrow> if report_value report ''provision'' \<noteq> ''complete'' then Some failed else None)))"

definition provision_run ::
  "env \<Rightarrow> Runner \<Rightarrow> string \<Rightarrow> Session \<Rightarrow> string \<Rightarrow> string \<Rightarrow> go_error option prog" where
  "provision_run E r alias s home linkspan =
     (let document = b64_std_encode (map of_char (sessionWorkflow s));
          args = [''sh'', ''-s'', ''--'', ''cs-provision'', home, linkspan, sessionWorkflowPath s, document]
      in do {
        sessionStatus E (sID s) ''Preparing the session environment'';
        emit (RemoteRun alias provisionScript args);
        answer \<leftarrow> ask (\<lambda>n. RunOutput (eSsh E n) r alias provisionScript args);
        ended \<leftarrow> ask (eDone E);
        (case provision_verdict alias answer ended of
           Some e \<Rightarrow> State_Monad.return (Some e)
         | None \<Rightarrow> do {
             (if report_value (provisionOutcome (fst answer)) ''linkspan'' = ''installed''
              then sessionStatus E (sID s) ''Installed Linkspan'' else State_Monad.return ());
             sessionStatus E (sID s) ''Session environment ready'';
             State_Monad.return None }) })"

text \<open>One preparation per host and configuration at a time; the reservation is dropped on every path.\<close>

definition provisionSession ::
  "env \<Rightarrow> Runner \<Rightarrow> string \<Rightarrow> Session \<Rightarrow> string \<Rightarrow> string \<Rightarrow> go_error option prog" where
  "provisionSession E r alias s home linkspan =
     (let key = ConfigPath r @ [nul] @ alias
      in do {
        w \<leftarrow> State_Monad.get;
        (if key \<in> set (wPreparations w) then
           State_Monad.return (Some (APIError ''session_provisioning_in_progress''
             (''The session environment on '' @ alias @ '' is still being prepared. Try again in a moment.'') 409))
         else do {
           State_Monad.set (w\<lparr>wPreparations := key # wPreparations w\<rparr>);
           started \<leftarrow> beginOperation E;
           result \<leftarrow> (case started of
             Inl e \<Rightarrow> State_Monad.return (Some e)
           | Inr _ \<Rightarrow> provision_run E r alias s home linkspan);
           State_Monad.update (\<lambda>w. w\<lparr>wPreparations := removeAll key (wPreparations w)\<rparr>);
           State_Monad.return result }) })"

section \<open>Facts on time limits, ports and modes\<close>

text \<open>Slurm's reading of a time limit, \<^verbatim>\<open>[days-]hours:minutes:seconds\<close>, in minutes.\<close>

definition clock_minutes :: "string \<Rightarrow> int option" where
  "clock_minutes t =
     (case split_on CHR '':'' t of
        [h, m, s] \<Rightarrow>
          if all_digits h \<and> all_digits m \<and> s = ''00'' then Some (60 * int (digits_val h) + int (digits_val m)) else None
      | _ \<Rightarrow> None)"

definition walltime_minutes :: "string \<Rightarrow> int option" where
  "walltime_minutes s =
     (case cut s ''-'' of
        None \<Rightarrow> clock_minutes s
      | Some (d, t) \<Rightarrow>
          if all_digits d then map_option (\<lambda>m. 1440 * int (digits_val d) + m) (clock_minutes t) else None)"

lemma digits_val_zero: "digits_val (CHR ''0'' # s) = digits_val s"
  by (simp add: digits_val_def digit_val_def)

lemma pad2_digits: "0 \<le> n \<Longrightarrow> all_digits (pad2 n) \<and> digits_val (pad2 n) = nat n"
  using nat_str_all_digits [of "nat n"]
  by (auto simp: pad2_def itoa_def all_digits_def digits_val_zero is_digit_def less_eq_char_def)

lemma pad2_fresh: "0 \<le> n \<Longrightarrow> \<not> is_digit c \<Longrightarrow> c \<notin> set (pad2 n)"
  using pad2_digits [of n] by (auto simp: all_digits_def list_all_iff)

lemma clock_fresh: "\<not> is_digit CHR '':''" "\<not> is_digit CHR ''-''"
  by (simp_all add: is_digit_def less_eq_char_def)

lemma clock_minutes_pad2:
  assumes "0 \<le> h" and "0 \<le> m"
  shows "clock_minutes (pad2 h @ '':'' @ pad2 m @ '':00'') = Some (60 * h + m)"
proof -
  have "split_on CHR '':'' (pad2 h @ CHR '':'' # pad2 m @ CHR '':'' # ''00'') = [pad2 h, pad2 m, ''00'']"
    using pad2_fresh [OF assms(1) clock_fresh(1)] pad2_fresh [OF assms(2) clock_fresh(1)] by (simp add: split_on_append)
  then show ?thesis using pad2_digits [OF assms(1)] pad2_digits [OF assms(2)] assms by (simp add: clock_minutes_def)
qed

text \<open>
  C38: The time limit written into the job script is the requested number of minutes: read the way Slurm reads
  \<^verbatim>\<open>days-hours:minutes:seconds\<close> it gives that number back.
\<close>

theorem walltime_roundtrip:
  assumes "0 \<le> minutes"
  shows "walltime_minutes (minutesToWalltime minutes) = Some minutes"
proof -
  let ?d = "minutes div 1440" and ?r = "minutes mod 1440"
  let ?t = "pad2 (?r div 60) @ '':'' @ pad2 (?r mod 60) @ '':00''"
  have r: "0 \<le> ?r" by simp
  have eq: "minutesToWalltime minutes = (if 0 < ?d then itoa ?d @ ''-'' @ ?t else ?t)"
    using assms by (simp add: minutesToWalltime_def Let_def go_rem_def go_quot_pos minus_mult_div_eq_mod)
  have clock: "clock_minutes ?t = Some ?r"
    using clock_minutes_pad2 [of "?r div 60" "?r mod 60"] by simp
  have fresh: "CHR ''-'' \<notin> set ?t"
    using pad2_fresh [OF _ clock_fresh(2), of "?r div 60"] pad2_fresh [OF _ clock_fresh(2), of "?r mod 60"] by simp
  show ?thesis
  proof (cases "0 < ?d")
    case True
    have "CHR ''-'' \<notin> set (itoa ?d)" using True itoa_digits [of ?d "CHR ''-''"] clock_fresh(2) by auto
    then have "cut (itoa ?d @ ''-'' @ ?t) ''-'' = Some (itoa ?d, ?t)" by (simp add: cut_char_append)
    moreover have "all_digits (itoa ?d)" "digits_val (itoa ?d) = nat ?d"
      using True by (simp_all add: itoa_def nat_str_all_digits)
    ultimately show ?thesis using True clock by (simp add: eq walltime_minutes_def del: append.simps)
  next
    case False
    then have "minutes = ?r" using assms by (simp add: not_less pos_imp_zdiv_neg_iff)
    moreover have "cut ?t ''-'' = None" using fresh by (simp only: cut_char_None not_False_eq_True)
    ultimately show ?thesis using False clock by (simp only: eq walltime_minutes_def if_False option.case)
  qed
qed

theorem walltime_roundtrip_witness: "walltime_minutes (minutesToWalltime 1501) = Some 1501"
  by (rule walltime_roundtrip) simp

text \<open>
  The ports of a run are two consecutive unprivileged ports: Linkspan's control port between 20000 and 39999 and
  Jupyter's port right above it. Neither wraps around in 16 bits.
\<close>

theorem ports_range:
  "20000 \<le> portControl (ports ident seq) \<and> portControl (ports ident seq) < 40000
   \<and> portJupyter (ports ident seq) = portControl (ports ident seq) + 1"
proof -
  let ?v = "(sha256 (ident @ ''/'' @ itoa seq) ! 0 * 256 + sha256 (ident @ ''/'' @ itoa seq) ! 1) mod 20000"
  have "?v < 20000" by simp
  then show ?thesis by (simp add: ports_def Let_def)
qed

lemma linkspanModeArgs_Nil: "linkspanModeArgs mode = [] \<longleftrightarrow> mode \<notin> {modeDevtunnel, modeWebsocket}"
  by (auto simp: linkspanModeArgs_def)

lemma compact_full_iff: "sorted xs \<Longrightarrow> length (compact xs) = length xs \<longleftrightarrow> distinct xs"
  using sorted_compact [of xs] by (metis card_distinct distinct_card set_compact)

lemma canonicalTunnelModes_eq:
  "canonicalTunnelModes modes =
     (if modes \<noteq> [] \<and> distinct modes \<and> set modes \<subseteq> {modeDevtunnel, modeWebsocket}
      then Inr (filter (\<lambda>mode. mode \<in> set modes) [modeDevtunnel, modeWebsocket]) else Inl errTunnelModes)"
proof -
  have empty: "sort modes = [] \<longleftrightarrow> modes = []" by (metis length_0_conv length_sort)
  have ex: "list_ex (\<lambda>mode. linkspanModeArgs mode = []) (sort modes) \<longleftrightarrow> \<not> set modes \<subseteq> {modeDevtunnel, modeWebsocket}"
    by (auto simp: list_ex_iff linkspanModeArgs_Nil)
  have full: "length (compact (sort modes)) = length (sort modes) \<longleftrightarrow> distinct modes"
    using compact_full_iff [OF sorted_sort, of modes] by simp
  have "sort modes = filter (\<lambda>mode. mode \<in> set modes) [modeDevtunnel, modeWebsocket]"
    if "distinct modes" "set modes \<subseteq> {modeDevtunnel, modeWebsocket}"
  proof (rule sorted_distinct_set_unique)
    show "sorted (filter (\<lambda>mode. mode \<in> set modes) [modeDevtunnel, modeWebsocket])"
      by (simp add: modeDevtunnel_def modeWebsocket_def less_eq_char_def)
    show "distinct (filter (\<lambda>mode. mode \<in> set modes) [modeDevtunnel, modeWebsocket])"
      by (simp add: modeDevtunnel_def modeWebsocket_def)
    show "set (sort modes) = set (filter (\<lambda>mode. mode \<in> set modes) [modeDevtunnel, modeWebsocket])"
      using that(2) unfolding set_sort set_filter by (simp only: list.set) blast
  qed (use that(1) in simp_all)
  with empty ex full show ?thesis by (cases "modes = []") (simp_all add: canonicalTunnelModes_def Let_def)
qed

text \<open>
  Tunnel modes are accepted exactly when they are a non-empty choice of distinct known modes, and then they are
  stored in one order, whatever order they came in.
\<close>

theorem canonicalTunnelModes_spec:
  "canonicalTunnelModes modes =
     (if modes \<noteq> [] \<and> distinct modes \<and> set modes \<subseteq> {modeDevtunnel, modeWebsocket}
      then Inr (filter (\<lambda>mode. mode \<in> set modes) [modeDevtunnel, modeWebsocket]) else Inl errTunnelModes)"
  by (rule canonicalTunnelModes_eq)

end
