(* ===== verification/SessionTelemetry.thy ===== *)
theory SessionTelemetry
  imports SessionPrep
begin

text \<open>
  The part of \<^verbatim>\<open>subsystems/session/telemetry.go\<close> that touches the outside: collecting the log tails of starting
  sessions from their hosts, sampling running sessions, and the durable run records. Accounting statistics come
  from \<^verbatim>\<open>slurm.parseUsage\<close>, which computes in floating point and is not modelled; attaching them is.
\<close>

section \<open>Remote log tails\<close>

definition maxSessionLogCollections :: nat where "maxSessionLogCollections = 4"
definition sessionLogMarkerPrefix :: string where "sessionLogMarkerPrefix = ''__CS_SESSION_LOG__''"

definition sessionLogTailScript :: string where
  "sessionLogTailScript = unlines
     [''set -eu'',
      ''[ '' @ [CHR 0x22] @ ''$#'' @ [CHR 0x22] @ '' -ge 3 ]'',
      ''[ '' @ [CHR 0x22] @ ''$1'' @ [CHR 0x22] @ '' = cs-session-log-tail ]'',
      ''shift'',
      ''[ '' @ [CHR 0x22] @ ''$#'' @ [CHR 0x22] @ '' -le 8 ]'',
      ''[ $(( $# % 2 )) -eq 0 ]'',
      ''while [ '' @ [CHR 0x22] @ ''$#'' @ [CHR 0x22] @ '' -gt 0 ]; do'',
      ''  cs_session_id=$1'',
      ''  cs_seq=$2'',
      ''  shift 2'',
      ''  case '' @ [CHR 0x22] @ ''$cs_session_id'' @ [CHR 0x22] @ '' in'',
      ''    s-????????????) ;;'',
      ''    *) exit 64 ;;'',
      ''  esac'',
      ''  case '' @ [CHR 0x22] @ ''${cs_session_id#s-}'' @ [CHR 0x22] @ '' in'',
      ''    *[!a-f0-9]*) exit 64 ;;'',
      ''  esac'',
      ''  case '' @ [CHR 0x22] @ ''$cs_seq'' @ [CHR 0x22] @ '' in'',
      ''    '' @ [CHR 0x27, CHR 0x27] @ ''|*[!0-9]*) exit 64 ;;'',
      ''  esac'',
      ''  [ '' @ [CHR 0x22] @ ''$cs_seq'' @ [CHR 0x22] @ '' -ge 1 ] || exit 64'',
      ''  for cs_stream in stdout stderr; do'',
      ''    case '' @ [CHR 0x22] @ ''$cs_stream'' @ [CHR 0x22] @ '' in'',
      ''      stdout) cs_suffix=out ;;'',
      ''      stderr) cs_suffix=err ;;'',
      ''    esac'',
      ''    cs_log_path=$HOME/.cybershuttle/logs/$cs_session_id-$cs_seq.$cs_suffix'',
      ''    printf '' @ [CHR 0x27] @ sessionLogMarkerPrefix @ ''|%s|%s'' @ [CHR 0x5C] @ ''n'' @ [CHR 0x27] @ '' '' @ [CHR 0x22] @ ''$cs_session_id'' @ [CHR 0x22] @ '' '' @ [CHR 0x22] @ ''$cs_stream'' @ [CHR 0x22],
      ''    if [ -f '' @ [CHR 0x22] @ ''$cs_log_path'' @ [CHR 0x22] @ '' ] && [ ! -L '' @ [CHR 0x22] @ ''$cs_log_path'' @ [CHR 0x22] @ '' ]; then'',
      ''      tail -n 100 -- '' @ [CHR 0x22] @ ''$cs_log_path'' @ [CHR 0x22] @ '' | tail -c 16384 | od -An -v -tx1 | tr -d '' @ [CHR 0x27] @ '' '' @ [CHR 0x5C] @ ''n'' @ [CHR 0x27],
      ''    fi'',
      ''    printf '' @ [CHR 0x27, CHR 0x5C] @ ''n'' @ [CHR 0x27],
      ''  done'',
      ''done'']"

definition sessionLogMarker :: "string \<Rightarrow> string \<Rightarrow> string" where
  "sessionLogMarker sessionID stream = sessionLogMarkerPrefix @ ''|'' @ sessionID @ ''|'' @ stream"

definition decodeSessionLogTail :: "string \<Rightarrow> string res" where
  "decodeSessionLogTail content =
     (case hex_decode (trim_space content) of
        None \<Rightarrow> Inl (Plain ''invalid session log tail encoding'')
      | Some data \<Rightarrow>
          if maxSessionLogBytes < length data then Inl (Plain ''invalid session log tail encoding'')
          else Inr (map char_of data))"

record remoteSessionTail =
  tailStdout :: string
  tailStderr :: string

text \<open>A target is a session's identifier and its run; the arguments refuse a bad or repeated one.\<close>

fun tail_args :: "string list \<Rightarrow> (string \<times> int) list \<Rightarrow> string list res" where
  "tail_args requested [] = Inr []"
| "tail_args requested ((ident, seq) # targets) =
     (if \<not> idPattern ident \<or> seq < 1 \<or> ident \<in> set requested then Inl (Plain ''session log tail ID is invalid'')
      else (case tail_args (ident # requested) targets of
              Inl e \<Rightarrow> Inl e
            | Inr args \<Rightarrow> Inr (ident # itoa seq # args)))"

definition tail_markers :: "(string \<times> int) list \<Rightarrow> string list" where
  "tail_markers targets =
     concat (map (\<lambda>(ident, seq). [sessionLogMarker ident ''stdout'', sessionLogMarker ident ''stderr'']) targets)"

definition parse_tails :: "(string \<times> int) list \<Rightarrow> string \<Rightarrow> (string \<times> remoteSessionTail) list res" where
  "parse_tails targets output =
     (case Sections output sessionLogMarkerPrefix (tail_markers targets) of
        Inl e \<Rightarrow> Inl e
      | Inr parsed \<Rightarrow>
          map_res (\<lambda>(ident, seq).
            case decodeSessionLogTail (section_of parsed (sessionLogMarker ident ''stdout'')) of
              Inl e \<Rightarrow> Inl e
            | Inr out \<Rightarrow>
                (case decodeSessionLogTail (section_of parsed (sessionLogMarker ident ''stderr'')) of
                   Inl e \<Rightarrow> Inl e
                 | Inr err \<Rightarrow> Inr (ident, \<lparr>tailStdout = out, tailStderr = err\<rparr>))) targets)"

definition readRemoteSessionTails ::
  "env \<Rightarrow> Runner \<Rightarrow> string \<Rightarrow> (string \<times> int) list \<Rightarrow> (string \<times> remoteSessionTail) list res prog" where
  "readRemoteSessionTails E r host targets =
     (if targets = [] \<or> maxSessionLogCollections < length targets then
        State_Monad.return (Inl (Plain ''session log tail request must contain one to four IDs''))
      else (case tail_args [] targets of
              Inl e \<Rightarrow> State_Monad.return (Inl e)
            | Inr args \<Rightarrow> do {
                answer \<leftarrow> remote_run E r host sessionLogTailScript ([''sh'', ''-s'', ''--'', ''cs-session-log-tail''] @ args);
                State_Monad.return
                  (case answer of
                     (output, Some e) \<Rightarrow> Inl e
                   | (output, None) \<Rightarrow> parse_tails targets output) }))"

record schedulerScope =
  scopeOwner :: Principal
  scopeHost :: string

definition scope_of :: "Session \<Rightarrow> schedulerScope" where
  "scope_of s = \<lparr>scopeOwner = sOwner s, scopeHost = sSSHHost s\<rparr>"

fun chunk :: "nat \<Rightarrow> 'a list \<Rightarrow> 'a list list" where
  "chunk n [] = []"
| "chunk n (x # xs) = (x # take (n - 1) xs) # chunk n (drop (n - 1) xs)"

definition starting_sessions :: "Session list \<Rightarrow> Session list" where
  "starting_sessions ss =
     sort_key (\<lambda>s. (sSSHHost s, sID s))
       (filter (\<lambda>s. sState s = ''STARTING'' \<and> idPattern (sID s) \<and> 1 \<le> sSeq s \<and> ValidAlias (sSSHHost s)) ss)"

text \<open>The scopes in order of host and subject; the order of scopes that tie on both is left open by the code.\<close>

definition tail_chunks :: "Session list \<Rightarrow> (schedulerScope \<times> (string \<times> int) list) list" where
  "tail_chunks starting =
     (let scopes = sort_key (\<lambda>sc. (scopeHost sc, Subject (scopeOwner sc))) (remdups (map scope_of starting))
      in concat (map (\<lambda>sc. map (\<lambda>c. (sc, c))
           (chunk maxSessionLogCollections
             (map (\<lambda>s. (sID s, sSeq s)) (filter (\<lambda>s. scope_of s = sc) starting)))) scopes))"

definition merge_tail ::
  "env \<Rightarrow> (string \<times> remoteSessionTail) list \<Rightarrow> string list \<Rightarrow> string \<times> int \<Rightarrow> string list prog" where
  "merge_tail E got started target = do {
     t \<leftarrow> utcNow E;
     w \<leftarrow> State_Monad.get;
     (let tail = (case alookup got (fst target) of
            None \<Rightarrow> \<lparr>tailStdout = [], tailStderr = []\<rparr> | Some x \<Rightarrow> x);
          merged = mergeRemote (fst target) (tailStdout tail) (tailStderr tail) t (wLogs w)
      in do {
        State_Monad.set (w\<lparr>wLogs := snd merged\<rparr>);
        State_Monad.return (if fst merged then fst target # started else started) }) }"

primrec collect_chunks ::
  "env \<Rightarrow> string list \<Rightarrow> (schedulerScope \<times> (string \<times> int) list) list \<Rightarrow> string list prog" where
  "collect_chunks E started [] = State_Monad.return started"
| "collect_chunks E started (c # cs) = do {
     ended \<leftarrow> ask (eDone E);
     (if ended \<noteq> None then State_Monad.return started
      else do {
        got \<leftarrow> readRemoteSessionTails E (forPrincipal E (scopeOwner (fst c))) (scopeHost (fst c)) (snd c);
        late \<leftarrow> ask (eDone E);
        started' \<leftarrow> (case got of
          Inl e \<Rightarrow> State_Monad.return started
        | Inr ts \<Rightarrow> if late \<noteq> None then State_Monad.return started else fold_prog (merge_tail E ts) started (snd c));
        collect_chunks E started' cs }) }"

definition collectStartingSessionLogs :: "env \<Rightarrow> Session list \<Rightarrow> string list prog" where
  "collectStartingSessionLogs E ss = do {
     ended \<leftarrow> ask (eDone E);
     (if ended \<noteq> None then State_Monad.return []
      else (let starting = starting_sessions ss
            in do {
              State_Monad.update (\<lambda>w. w\<lparr>wLogs := foldl (\<lambda>l s. setSessionSensitive (sID s)
                [sPrivateRoot s, sWorkspaceRoot s, cLinkspanPath (eConfig E)] l) (wLogs w) starting\<rparr>);
              collect_chunks E [] (tail_chunks starting) })) }"

section \<open>Samples\<close>

text \<open>
  The sample is what \<^verbatim>\<open>json.Unmarshal\<close> makes of the body Linkspan answers; \<open>decode\<close> stands for that reading.
\<close>

definition sampleSession :: "env \<Rightarrow> (string \<Rightarrow> MetricSample option) \<Rightarrow> Session \<Rightarrow> MetricSample res prog" where
  "sampleSession E decode s = do {
     answer \<leftarrow> ask (\<lambda>n. eLinkspan E n s ''GET'' ''/api/v1/metrics'');
     (case answer of
        Inl e \<Rightarrow> State_Monad.return (Inl e)
      | Inr (body, status) \<Rightarrow>
          if status \<noteq> 200 then State_Monad.return (Inl (Plain ''linkspan did not answer with a sample''))
          else (case decode body of
                  None \<Rightarrow> State_Monad.return (Inl (Plain ''linkspan returned no sample''))
                | Some sample \<Rightarrow> do {
                    t \<leftarrow> utcNow E;
                    State_Monad.return (Inr (sample\<lparr>msAt := t\<rparr>)) })) }"

definition sample_into :: "env \<Rightarrow> (string \<Rightarrow> MetricSample option) \<Rightarrow> unit \<Rightarrow> Session \<Rightarrow> unit prog" where
  "sample_into E decode u s =
     (if sState s \<noteq> ''READY'' then State_Monad.return ()
      else do {
        r \<leftarrow> sampleSession E decode s;
        (case r of
           Inl e \<Rightarrow> State_Monad.return ()
         | Inr sample \<Rightarrow> State_Monad.update (\<lambda>w. w\<lparr>wMetrics := metrics_append (sID s) sample (wMetrics w)\<rparr>)) })"

definition sampleOnce :: "env \<Rightarrow> (string \<Rightarrow> MetricSample option) \<Rightarrow> unit prog" where
  "sampleOnce E decode = do {
     loaded \<leftarrow> loadSessions E;
     (case loaded of
        Inl e \<Rightarrow> State_Monad.return ()
      | Inr ss \<Rightarrow> fold_prog (sample_into E decode) () ss) }"

section \<open>Durable runs\<close>

text \<open>
  \<open>freezeIfTerminal\<close> works on the state of a locked cycle and on one session, which may or may not be the one in that
  state; it returns whether something changed, the error, and both as they now are.
\<close>

definition freezeIfTerminal ::
  "env \<Rightarrow> store_state \<Rightarrow> Session \<Rightarrow> (bool \<times> go_error option \<times> store_state \<times> Session) prog" where
  "freezeIfTerminal E current s =
     (if \<not> terminalSession (sState s) then State_Monad.return (False, None, current, s)
      else do {
        failed \<leftarrow> deleteCapability E (sID s) (sSeq s);
        (case failed of
           Some e \<Rightarrow>
             State_Monad.return (True, Some e, current,
               s\<lparr>sState := ''STOPPING'', sError := ''session cleanup pending: '' @ boundedSessionError e\<rparr>)
         | None \<Rightarrow> do {
             w \<leftarrow> State_Monad.get;
             (case recordRun current (runOf (wLogs w) (wMetrics w) s) of
                (False, _) \<Rightarrow> State_Monad.return (False, None, current, s)
              | (True, current') \<Rightarrow> do {
                  forgetSessionBuffers (sID s);
                  State_Monad.return (True, None, current', s) }) }) })"

definition freezeRun :: "env \<Rightarrow> Session \<Rightarrow> unit res prog" where
  "freezeRun E s = locked E (\<lambda>current. do {
     outcome \<leftarrow> freezeIfTerminal E current s;
     (case outcome of (changed, err, current', s') \<Rightarrow>
        if \<not> changed then State_Monad.return (case err of None \<Rightarrow> Inr () | Some e \<Rightarrow> Inl e)
        else do {
          saveErr \<leftarrow> save E current';
          State_Monad.return
            (case saveErr of
               Some e \<Rightarrow> Inl e
             | None \<Rightarrow> (case err of None \<Rightarrow> Inr () | Some e \<Rightarrow> Inl e)) }) })"

fun attach_stats :: "string \<Rightarrow> int \<Rightarrow> RunStats \<Rightarrow> runRecord list \<Rightarrow> runRecord list option" where
  "attach_stats ident seq stats [] = None"
| "attach_stats ident seq stats (r # rs) =
     (if rSessionID r \<noteq> ident \<or> rSeq r \<noteq> seq \<or> rStats r \<noteq> None
      then map_option (\<lambda>rs'. r # rs') (attach_stats ident seq stats rs)
      else Some (r\<lparr>rStats := Some stats\<rparr> # rs))"

definition attachRunStats :: "env \<Rightarrow> string \<Rightarrow> int \<Rightarrow> RunStats \<Rightarrow> unit res prog" where
  "attachRunStats E ident seq stats = locked E (\<lambda>current.
     case attach_stats ident seq stats (Runs current) of
       None \<Rightarrow> State_Monad.return (Inr ())
     | Some rs \<Rightarrow> fails (save E (current\<lparr>Runs := rs\<rparr>)))"

definition runStatsWindow :: duration where "runStatsWindow = dur_mul 10 minute"

definition pendingRunStats :: "env \<Rightarrow> runRecord list res prog" where
  "pendingRunStats E = do {
     t \<leftarrow> utcNow E;
     locked E (\<lambda>current. State_Monad.return (Inr
       (filter (\<lambda>r. rStats r = None \<and> rLauncher r \<noteq> launcherClient \<and> \<not> rEndedAt r < t - runStatsWindow)
          (Runs current)))) }"

end
