(* ===== verification/SessionTunnel.thy ===== *)
theory SessionTunnel
  imports SessionTelemetry
begin

text \<open>
  \<^verbatim>\<open>subsystems/session/tunnel.go\<close> and the admission rules of \<^verbatim>\<open>link.go\<close>: the tunnel and capability a run is issued,
  their release, and who may reach a running session. The relay of bytes after admission is not modelled.
\<close>

section \<open>Lifetime\<close>

definition tunnelCleanupGrace :: duration where "tunnelCleanupGrace = dur_mul 15 minute"

definition sessionTunnelDuration :: "int \<Rightarrow> nat" where
  "sessionTunnelDuration wallMinutes =
     (let duration = dur_add (dur_mul wallMinutes minute) tunnelCleanupGrace;
          clamped = min (max duration (dur_mul (int MinDurationSeconds) second)) (dur_mul (int MaxDurationSeconds) second)
      in nat (go_quot clamped second) mod 2 ^ 32)"

section \<open>Release and issue\<close>

definition tunnel_create :: "env \<Rightarrow> tunnel_CreateRequest \<Rightarrow> tunnel_Record res prog" where
  "tunnel_create E req = do { emit (TunnelCreate req); ask (\<lambda>n. eTunnelCreate E n req) }"

definition tunnel_delete :: "env \<Rightarrow> tunnel_DeleteRequest \<Rightarrow> go_error option prog" where
  "tunnel_delete E req = do { emit (TunnelDelete req); ask (\<lambda>n. eTunnelDelete E n req) }"

text \<open>The tunnel is deleted only when there is one and a credential to delete it with; the capability always goes.\<close>

definition releaseTunnel ::
  "env \<Rightarrow> Credential \<Rightarrow> string \<Rightarrow> int \<Rightarrow> tunnelMetadata \<Rightarrow> go_error option prog" where
  "releaseTunnel E cred sessionID seq tunnel = do {
     deleteErr \<leftarrow> (if tmID tunnel \<noteq> [] \<and> credToken cred \<noteq> [] then do {
         r \<leftarrow> tunnel_delete E \<lparr>tdScheme = credScheme cred, tdOAuthToken = credToken cred, tdTunnelID = tmID tunnel,
             tdClusterID = tmClusterID tunnel\<rparr>;
         State_Monad.return (map_option
           (\<lambda>e. Redact ''compensate session Dev Tunnel'' e [credToken cred]) r) }
       else State_Monad.return None);
     capErr \<leftarrow> deleteCapability E sessionID seq;
     State_Monad.return (join_errors [deleteErr, capErr]) }"

definition created_record_ok :: "string \<Rightarrow> time \<Rightarrow> tunnel_Record \<Rightarrow> bool" where
  "created_record_ok tunnelID requestedAt rec \<longleftrightarrow>
     trID rec = tunnelID \<and> ValidClusterID (trClusterID rec) \<and> ValidCredential (trHostToken rec)
     \<and> ValidCredential (trConnectToken rec) \<and> requestedAt < trExpiresAt rec"

definition join_error_list :: "go_error \<Rightarrow> go_error option \<Rightarrow> go_error" where
  "join_error_list e other = the (join_errors [Some e, other])"

text \<open>The Dev Tunnel of a run: what is created, checked, and released again when the check fails.\<close>

definition create_tunnel ::
  "env \<Rightarrow> Session \<Rightarrow> Credential \<Rightarrow> int \<Rightarrow> (tunnelMetadata \<times> string \<times> string) res prog" where
  "create_tunnel E s cred seq =
     (let tunnelID = sID s @ ''-'' @ itoa seq
      in if credToken cred = [] then State_Monad.return (Inr (no_tunnel, [], []))
         else do {
           requestedAt \<leftarrow> utcNow E;
           created \<leftarrow> tunnel_create E \<lparr>tcScheme = credScheme cred, tcOAuthToken = credToken cred, tcTunnelID = tunnelID,
             tcDurationSeconds = sessionTunnelDuration (WallMinutes (sResources s)),
             tcPorts = [\<lparr>psPortNumber = portControl (ports (sID s) seq), psDescription = ''cybershuttle-control''\<rparr>]\<rparr>;
           (case created of
              Inl e \<Rightarrow> do {
                r \<leftarrow> releaseTunnel E cred (sID s) seq (no_tunnel\<lparr>tmID := tunnelID\<rparr>);
                State_Monad.return (Inl (join_error_list
                  (Redact ''create session Dev Tunnel'' e [credToken cred]) r)) }
            | Inr rec \<Rightarrow>
                (let tunnel = \<lparr>tmID = trID rec, tmClusterID = trClusterID rec, tmExpiresAt = trExpiresAt rec\<rparr>
                 in if \<not> created_record_ok tunnelID requestedAt rec then do {
                      r \<leftarrow> releaseTunnel E cred (sID s) seq tunnel;
                      State_Monad.return (Inl (join_error_list (Plain ''created Dev Tunnel metadata is invalid'') r)) }
                    else State_Monad.return (Inr (tunnel, trConnectToken rec, trHostToken rec)))) })"

definition issueSession ::
  "env \<Rightarrow> Session \<Rightarrow> Principal \<Rightarrow> Credential \<Rightarrow> int \<Rightarrow> (Session \<times> string \<times> sessionCapability) res prog" where
  "issueSession E s pr cred seq =
     (let tunnelID = sID s @ ''-'' @ itoa seq
      in if \<not> idPattern (sID s) \<or> seq < 1 \<or> \<not> ValidID tunnelID then
           State_Monad.return (Inl (Plain ''session tunnel identity is invalid''))
         else do {
           jupyter \<leftarrow> newSecret E;
           linkToken \<leftarrow> newSecret E;
           attempt (create_tunnel E s cred seq) (\<lambda>(tunnel, connect, hostToken). (
             let cap = \<lparr>capConnectToken = connect, capJupyterToken = jupyter, capLinkToken = linkToken\<rparr>
             in do {
               putErr \<leftarrow> putCapability E (sID s) seq cap;
               (case putErr of
                  Some e \<Rightarrow> do {
                    r \<leftarrow> releaseTunnel E cred (sID s) seq tunnel;
                    State_Monad.return (Inl (join_error_list e r)) }
                | None \<Rightarrow>
                    State_Monad.return (Inr (s\<lparr>sSeq := seq, sJobName := jobName (sID s) seq, sOwner := pr,
                      sTunnel := tunnel\<rparr>, hostToken, cap))) })) })"

section \<open>Access\<close>

definition errNoRoute :: go_error where
  "errNoRoute = Plain ''the session has no link to cs-plane and no delegated Dev Tunnel''"

definition errUnauthorized :: go_error where
  "errUnauthorized = APIError ''unauthorized'' ''unauthorized'' 401"

definition access_unavailable :: "string \<Rightarrow> go_error" where
  "access_unavailable reason =
     APIError ''session_access_unavailable'' (''Session access is unavailable: '' @ reason) 409"

definition reachable :: "env \<Rightarrow> Session \<Rightarrow> sessionCapability res prog" where
  "reachable E s = do {
     cap \<leftarrow> getCapability E (sID s) (sSeq s);
     w \<leftarrow> State_Monad.get;
     State_Monad.return
       (if sState s \<noteq> ''READY'' then Inl (access_unavailable (''the session is '' @ to_lower (sState s)))
        else if link_of w s = None \<and> tmID (sTunnel s) = [] then Inl (access_unavailable (error_text errNoRoute))
        else (case cap of
                Inl e \<Rightarrow> Inl (access_unavailable ''this session seq has no stored capability'')
              | Inr c \<Rightarrow> Inr c)) }"

definition Get :: "env \<Rightarrow> Principal \<Rightarrow> string \<Rightarrow> Session res prog" where
  "Get E pr ident = do {
     r \<leftarrow> loadSession E ident;
     State_Monad.return (case r of Inl e \<Rightarrow> Inl e | Inr s \<Rightarrow> if sOwner s \<noteq> pr then Inl errOwnerMismatch else Inr s) }"

definition Access :: "env \<Rightarrow> Principal \<Rightarrow> string \<Rightarrow> SessionAccessResponse res prog" where
  "Access E pr ident =
     attempt (Get E pr ident) (\<lambda>s.
     attempt (reachable E s) (\<lambda>cap. do {
       t \<leftarrow> utcNow E;
       State_Monad.return (Inr
         \<lparr>saSessionID = sID s, saSeq = sSeq s,
          saExpiresAt = (if sStartedAt s \<noteq> 0 then sStartedAt s else t) + dur_mul (WallMinutes (sResources s)) minute,
          saJupyter = \<lparr>jaURI = cPublicURL (eConfig E) @ ''/api/v1/sessions/'' @ sID s @ ''/jupyter/'',
                       jaToken = capJupyterToken cap\<rparr>\<rparr>) }))"

text \<open>The websocket subprotocols a request offers; the second carries the token.\<close>

definition ControlWebSocketProtocol :: string where "ControlWebSocketProtocol = ''cybershuttle.v1''"

definition offered :: "string list \<Rightarrow> string \<Rightarrow> string" where
  "offered protocols prefix =
     (case protocols of
        [p, q] \<Rightarrow> if p \<noteq> ControlWebSocketProtocol \<or> \<not> has_prefix q prefix then [] else trim_prefix q prefix
      | _ \<Rightarrow> [])"

definition linkedSession :: "env \<Rightarrow> string \<Rightarrow> string list \<Rightarrow> Session option prog" where
  "linkedSession E ident protocols = do {
     r \<leftarrow> loadSession E ident;
     (case r of
        Inl e \<Rightarrow> State_Monad.return None
      | Inr s \<Rightarrow>
          if terminalSession (sState s) then State_Monad.return None
          else do {
            cap \<leftarrow> getCapability E (sID s) (sSeq s);
            State_Monad.return
              (case cap of
                 Inl e \<Rightarrow> None
               | Inr c \<Rightarrow> if offered protocols ''link.'' = capLinkToken c then Some s else None) }) }"

definition authorizedSession :: "env \<Rightarrow> string \<Rightarrow> string \<Rightarrow> string \<Rightarrow> Session option prog" where
  "authorizedSession E ident method token = do {
     r \<leftarrow> loadSession E ident;
     (case r of
        Inl e \<Rightarrow> State_Monad.return None
      | Inr s \<Rightarrow> do {
          cap \<leftarrow> reachable E s;
          State_Monad.return
            (case cap of
               Inl e \<Rightarrow> None
             | Inr c \<Rightarrow> if method = ''OPTIONS'' \<or> token = capJupyterToken c then Some s else None) }) }"

text \<open>\<^verbatim>\<open>Forward\<close>: the port the bytes go to, once the request is admitted.\<close>

definition Forward :: "env \<Rightarrow> string \<Rightarrow> string list \<Rightarrow> string \<Rightarrow> (Session \<times> nat) res prog" where
  "Forward E ident protocols rawPort = do {
     admitted \<leftarrow> authorizedSession E ident ''GET'' (offered protocols ''capability.'');
     State_Monad.return
       (case admitted of
          None \<Rightarrow> Inl errUnauthorized
        | Some s \<Rightarrow>
            (case parse_uint16 rawPort of
               None \<Rightarrow> Inl (APIError ''not_found'' ''route not found'' 404)
             | Some port \<Rightarrow>
                 if port = 0 \<or> port = portControl (ports (sID s) (sSeq s)) then
                   Inl (APIError ''not_found'' ''route not found'' 404)
                 else Inr (s, port))) }"

text \<open>
  \<^verbatim>\<open>Link\<close>: an admitted Linkspan replaces the link of its session, and the run becomes ready when it still waits. \<open>mux\<close>
  names the new connection; the deregistration when it closes is \<open>link_closed\<close>.
\<close>

definition link_ready :: "env \<Rightarrow> Session \<Rightarrow> unit res prog" where
  "link_ready E s = locked E (\<lambda>current.
     case alookup (Sessions current) (sID s) of
       None \<Rightarrow> State_Monad.return (Inr ())
     | Some linked \<Rightarrow>
         if sSeq linked \<noteq> sSeq s \<or> (sState linked \<noteq> ''QUEUED'' \<and> sState linked \<noteq> ''STARTING'') then
           State_Monad.return (Inr ())
         else do {
           t \<leftarrow> utcNow E;
           sessionStatus E (sID s) ''Session is running'';
           fails (save E (current\<lparr>Sessions := aput (sID s)
             (linked\<lparr>sState := ''READY'', sError := [], sUpdatedAt := t,
                     sStartedAt := (if sStartedAt linked \<noteq> 0 then sStartedAt linked else t)\<rparr>)
             (Sessions current)\<rparr>)) })"

definition Link :: "env \<Rightarrow> string \<Rightarrow> string list \<Rightarrow> nat \<Rightarrow> unit res prog" where
  "Link E ident protocols mux = do {
     admitted \<leftarrow> linkedSession E ident protocols;
     (case admitted of
        None \<Rightarrow> State_Monad.return (Inl errUnauthorized)
      | Some s \<Rightarrow> do {
          State_Monad.update (\<lambda>w. w\<lparr>wLinks := aput (sID s) \<lparr>lkSeq = sSeq s, lkMux = mux\<rparr> (wLinks w)\<rparr>);
          sessionStatus E (sID s) ''Linkspan connected to cs-plane'';
          link_ready E s;
          State_Monad.return (Inr ()) }) }"

definition link_closed :: "string \<Rightarrow> sessionLink \<Rightarrow> unit prog" where
  "link_closed ident l = State_Monad.update
     (\<lambda>w. if alookup (wLinks w) ident = Some l then w\<lparr>wLinks := adel ident (wLinks w)\<rparr> else w)"

section \<open>Facts on lifetimes\<close>

text \<open>
  A run's tunnel is asked for between an hour and thirty days, whatever the walltime, and for every walltime a
  request can have it lasts the walltime and fifteen minutes, within those bounds.
\<close>

theorem sessionTunnelDuration_bounds:
  "3600 \<le> sessionTunnelDuration m \<and> sessionTunnelDuration m \<le> 2592000
   \<and> (1 \<le> m \<and> m \<le> 525600 \<longrightarrow> int (sessionTunnelDuration m) = max 3600 (min 2592000 (m * 60 + 900)))"
proof -
  let ?d = "dur_add (dur_mul m minute) tunnelCleanupGrace"
  let ?c = "min (max ?d (3600 * second)) (2592000 * second)"
  have c: "3600 * second \<le> ?c" "?c \<le> 2592000 * second" by (auto simp: second_def)
  have units: "dur_mul (int MinDurationSeconds) second = 3600 * second" "dur_mul (int MaxDurationSeconds) second = 2592000 * second"
    by (simp_all add: dur_mul_def wrap64_def second_def MinDurationSeconds_def MaxDurationSeconds_def)
  have "go_quot ?c second = ?c div second" using c by (intro go_quot_pos) (auto simp: second_def)
  moreover have "3600 \<le> ?c div second" "?c div second \<le> 2592000"
    using zdiv_mono1 [OF c(1), of second] zdiv_mono1 [OF c(2), of second] by (simp_all add: second_def)
  ultimately have eq: "int (sessionTunnelDuration m) = ?c div second"
    by (simp add: sessionTunnelDuration_def Let_def units zmod_int)
  moreover have "?c div second = max 3600 (min 2592000 (m * 60 + 900))" if "1 \<le> m" "m \<le> 525600"
  proof -
    have "tunnelCleanupGrace = 900 * second" by (simp add: tunnelCleanupGrace_def dur_mul_def wrap64_def minute_def second_def)
    moreover have "dur_mul m minute = m * minute" using that by (simp add: dur_mul_minute)
    ultimately have "?d = (m * 60 + 900) * second" using that
      by (simp add: dur_add_def minute_def second_def) (subst wrap64_id; simp)
    then show ?thesis by (auto simp: second_def min_def max_def)
  qed
  ultimately show ?thesis using \<open>3600 \<le> ?c div second\<close> \<open>?c div second \<le> 2592000\<close> by auto
qed

theorem sessionTunnelDuration_bounds_witness: "int (sessionTunnelDuration 120) = max 3600 (min 2592000 (120 * 60 + 900))"
  using sessionTunnelDuration_bounds [of 120] by simp

end
