(* ===== verification/SessionReconcile.thy ===== *)
theory SessionReconcile
  imports SessionTunnel
begin

text \<open>
  \<^verbatim>\<open>subsystems/session/reconcile.go\<close>: how a scheduler's observation, its silence or its failure moves a session, and the
  reconciliation of snapshots against the stored sessions. The goroutines of one reconciliation work on disjoint
  sessions; the model runs them one after the other, scopes in order of first appearance.
\<close>

section \<open>Policy\<close>

definition schedulerPropagationWindow :: duration where "schedulerPropagationWindow = dur_mul 2 minute"
definition walltimeGrace :: duration where "walltimeGrace = dur_mul 10 minute"

definition stateNarration :: "(string \<times> string) list" where
  "stateNarration =
     [(''QUEUED'', ''Session is queued''), (''STARTING'', ''Session is starting''), (''READY'', ''Session is running''),
      (''STOPPED'', ''Session stopped''), (''FAILED'', ''Session failed'')]"

definition narration_of :: "string \<Rightarrow> string" where
  "narration_of st = (case alookup stateNarration st of None \<Rightarrow> [] | Some t \<Rightarrow> t)"

definition outlivedWalltime :: "Session \<Rightarrow> time \<Rightarrow> bool" where
  "outlivedWalltime s now =
     (if (sState s \<noteq> ''STARTING'' \<and> sState s \<noteq> ''READY'') \<or> sStartedAt s = 0 \<or> WallMinutes (sResources s) \<le> 0
      then False
      else dur_add (dur_mul (WallMinutes (sResources s)) minute) walltimeGrace < time_sub now (sStartedAt s))"

definition unknownToScheduler :: "Session \<Rightarrow> time \<Rightarrow> bool" where
  "unknownToScheduler s now \<longleftrightarrow> schedulerPropagationWindow < time_sub now (sUpdatedAt s)"

definition unreachableScheduler :: "Session \<Rightarrow> go_error \<Rightarrow> time \<Rightarrow> Session \<times> string list" where
  "unreachableScheduler s e now =
     (if outlivedWalltime s now then (s\<lparr>sState := ''STOPPED'', sError := []\<rparr>, [''Session reached its walltime''])
      else (s\<lparr>sError := boundedSessionError e\<rparr>, [''Session status check failed'']))"

definition missingFromScheduler :: "Session \<Rightarrow> string \<Rightarrow> time \<Rightarrow> Session \<times> string list" where
  "missingFromScheduler s cancelError now =
     (if sJobID s = [] \<and> time_sub now (sUpdatedAt s) \<le> provisionTimeout then (s, [])
      else if sState s = ''STOPPING'' \<and> \<not> unknownToScheduler s now then
        (s\<lparr>sError := (if cancelError \<noteq> [] then cancelError else ''scheduler returned no state'')\<rparr>,
         [''Session status is temporarily unavailable''])
      else if sJobID s \<noteq> [] \<and> \<not> unknownToScheduler s now then (s, [])
      else (s\<lparr>sState := ''STOPPED'', sError := []\<rparr>, [''Session is no longer known to the scheduler'']))"

definition nextState :: "string \<Rightarrow> slurm_state \<Rightarrow> string" where
  "nextState current st =
     (if current = ''STOPPING'' \<and> (st = Pending \<or> st = Active) then ''STOPPING''
      else if st = Pending then ''QUEUED''
      else if st = Active \<and> current = ''READY'' then ''READY''
      else if st = Active then ''STARTING''
      else if st = Stopped \<or> st = Expired then ''STOPPED''
      else ''FAILED'')"

definition reconciliationSnapshotCurrent :: "Session option \<Rightarrow> Session \<Rightarrow> bool" where
  "reconciliationSnapshotCurrent current snapshot =
     (case current of
        None \<Rightarrow> False
      | Some c \<Rightarrow> sUpdatedAt c = sUpdatedAt snapshot \<and> sState c = sState snapshot \<and> sJobID c = sJobID snapshot)"

text \<open>The stored session after the merge, and whether the merge happened.\<close>

definition mergeReconciled ::
  "Session option \<Rightarrow> Session \<Rightarrow> Session \<Rightarrow> time \<Rightarrow> bool \<times> Session option" where
  "mergeReconciled current snapshot candidate now =
     (if \<not> reconciliationSnapshotCurrent current snapshot
         \<or> (sState snapshot = sState candidate \<and> sError snapshot = sError candidate \<and> sJobID snapshot = sJobID candidate
            \<and> sNode snapshot = sNode candidate \<and> sStartedAt snapshot = sStartedAt candidate)
      then (False, current)
      else (True, map_option (\<lambda>c. c\<lparr>sState := sState candidate, sError := sError candidate, sJobID := sJobID candidate,
              sNode := sNode candidate, sUpdatedAt := now, sStartedAt := sStartedAt candidate\<rparr>) current))"

section \<open>One observation\<close>

definition observed_node :: "Session \<Rightarrow> Observation \<Rightarrow> string" where
  "observed_node s ob =
     (let node = trim_space (obsNode ob)
      in if node \<noteq> [] \<and> node \<noteq> ''(null)'' \<and> node \<noteq> ''None assigned'' \<and> SafeName node 256 then node else sNode s)"

text \<open>\<open>linked\<close> says whether the run has a link to cs-plane, \<open>now\<close> is the clock where the code reads it.\<close>

definition observe_session :: "bool \<Rightarrow> time \<Rightarrow> Session \<Rightarrow> Observation \<Rightarrow> string \<Rightarrow> Session \<times> string list" where
  "observe_session linked now s ob cancelError =
     (let s1 = s\<lparr>sJobID := (if sJobID s = [] then obsJobID ob else sJobID s), sNode := observed_node s ob\<rparr>;
          lines = (if sNode s1 \<noteq> [] \<and> sNode s1 \<noteq> sNode s then [''Compute node assigned: '' @ sNode s1] else [])
      in if obsState ob = Unknown then (s1, lines)
         else (let started = (if obsState ob = Active \<and> sStartedAt s1 = 0
                              then now + dur_mul (wrap64 (- ElapsedSeconds ob)) second else sStartedAt s1);
                   previous = sState s1;
                   next0 = nextState previous (obsState ob);
                   next1 = (if (next0 = ''QUEUED'' \<or> next0 = ''STARTING'') \<and> linked then ''READY'' else next0);
                   line = (if next1 = ''STOPPED'' \<and> obsState ob = Expired then ''Session reached its walltime''
                           else narration_of next1);
                   lines' = (if next1 \<noteq> previous \<and> line \<noteq> [] then lines @ [line] else lines)
               in (s1\<lparr>sStartedAt := started, sState := next1,
                     sError := (if previous = ''STOPPING'' \<and> next1 = ''STOPPING'' then cancelError else [])\<rparr>, lines')))"

definition applyObservation :: "env \<Rightarrow> Session \<Rightarrow> Observation \<Rightarrow> string \<Rightarrow> (Session \<times> string list) prog" where
  "applyObservation E s ob cancelError = do {
     t \<leftarrow> utcNow E;
     w \<leftarrow> State_Monad.get;
     State_Monad.return (observe_session (link_of w s \<noteq> None) t s ob cancelError) }"

section \<open>Reconciling snapshots\<close>

definition scheduler_job :: "Session \<Rightarrow> Job" where
  "scheduler_job s = \<lparr>jobID = sJobID s, jobNameOf = sJobName s, Cancel = (sState s = ''STOPPING''),
     jobCreatedAt = sCreatedAt s\<rparr>"

definition index_statuses ::
  "Session list \<Rightarrow> JobStatus list \<Rightarrow> (string \<times> Observation) list \<times> (string \<times> string) list" where
  "index_statuses ss statuses =
     foldl (\<lambda>(obs, cancels) (s, st).
        (if Found st then aput (sID s) (statusObservation st) obs else obs,
         if CancelError st \<noteq> [] then aput (sID s) (CancelError st) cancels else cancels))
       ([], []) (zip ss statuses)"

definition schedulerObservations ::
  "env \<Rightarrow> Runner \<Rightarrow> string \<Rightarrow> Session list
   \<Rightarrow> ((string \<times> Observation) list \<times> (string \<times> string) list) res prog" where
  "schedulerObservations E r host ss = do {
     t \<leftarrow> utcNow E;
     emit (RemoteRun host (statusScript (map scheduler_job ss) t) [''sh'', ''-s'', ''--'', ''cs-session-status'']);
     answer \<leftarrow> ask (\<lambda>n. Observe (eSsh E n) r host (map scheduler_job ss) t);
     State_Monad.return (case answer of Inl e \<Rightarrow> Inl e | Inr statuses \<Rightarrow> Inr (index_statuses ss statuses)) }"

definition probeTunnel :: "env \<Rightarrow> Session \<Rightarrow> (Session \<times> string list) prog" where
  "probeTunnel E s = do {
     answer \<leftarrow> ask (\<lambda>n. eLinkspan E n s ''GET'' ''/api/v1/health'');
     (case answer of
        Inl e \<Rightarrow> State_Monad.return (s, [])
      | Inr (body, status) \<Rightarrow>
          if status \<noteq> 200 then State_Monad.return (s, [])
          else do {
            t \<leftarrow> utcNow E;
            State_Monad.return (s\<lparr>sState := ''READY'', sStartedAt := (if sStartedAt s \<noteq> 0 then sStartedAt s else t)\<rparr>,
              [narration_of ''READY'']) }) }"

text \<open>One session under reconciliation: whether the scheduler is asked about it, and its narration so far.\<close>

type_synonym entry = "bool \<times> Session \<times> string list"

definition first_pass :: "env \<Rightarrow> Session \<Rightarrow> entry prog" where
  "first_pass E s =
     (if sLauncher s = launcherClient \<and> sState s = ''STOPPING'' then
        State_Monad.return (False, s\<lparr>sState := ''STOPPED'', sError := []\<rparr>, [])
      else if sLauncher s = launcherClient \<and> sState s = ''QUEUED'' \<and> tmID (sTunnel s) \<noteq> [] then do {
        r \<leftarrow> probeTunnel E s;
        State_Monad.return (False, r) }
      else State_Monad.return (sLauncher s \<noteq> launcherClient \<and> reconcilable (sState s), s, []))"

definition in_scope :: "schedulerScope \<Rightarrow> entry \<Rightarrow> bool" where
  "in_scope sc = (\<lambda>(scheduled, s, _). scheduled \<and> scope_of s = sc)"

definition settle_entry ::
  "env \<Rightarrow> ((string \<times> Observation) list \<times> (string \<times> string) list) res \<Rightarrow> schedulerScope \<Rightarrow> entry \<Rightarrow> entry prog" where
  "settle_entry E answer sc en =
     (case en of (scheduled, s, lines) \<Rightarrow>
       if \<not> in_scope sc en then State_Monad.return en
       else do {
         r \<leftarrow> (case answer of
           Inl e \<Rightarrow> do { t \<leftarrow> utcNow E; State_Monad.return (unreachableScheduler s e t) }
         | Inr (observations, cancelErrors) \<Rightarrow>
             (let cancelError = (case alookup cancelErrors (sID s) of None \<Rightarrow> [] | Some c \<Rightarrow> c)
              in (case alookup observations (sID s) of
                    None \<Rightarrow> do { t \<leftarrow> utcNow E; State_Monad.return (missingFromScheduler s cancelError t) }
                  | Some ob \<Rightarrow> applyObservation E s ob cancelError)));
         State_Monad.return (scheduled, r) })"

definition reconcile_scope :: "env \<Rightarrow> entry list \<Rightarrow> schedulerScope \<Rightarrow> entry list prog" where
  "reconcile_scope E entries sc = do {
     answer \<leftarrow> schedulerObservations E (forPrincipal E (scopeOwner sc)) (scopeHost sc)
       (map (\<lambda>(_, s, _). s) (filter (in_scope sc) entries));
     ended \<leftarrow> ask (eDone E);
     (case answer of
        Inl e \<Rightarrow> if ended \<noteq> None then State_Monad.return entries else map_prog (settle_entry E answer sc) entries
      | Inr _ \<Rightarrow> map_prog (settle_entry E answer sc) entries) }"

definition entry_scopes :: "entry list \<Rightarrow> schedulerScope list" where
  "entry_scopes entries = remdups (map (\<lambda>(_, s, _). scope_of s) (filter (\<lambda>(scheduled, _, _). scheduled) entries))"

definition mark_started :: "string list \<Rightarrow> entry \<Rightarrow> Session \<times> string list" where
  "mark_started started = (\<lambda>(_, s, lines).
     if sID s \<in> set started \<and> sState s = ''STARTING''
     then (s\<lparr>sState := ''READY''\<rparr>, lines @ [''Session is running'']) else (s, lines))"

definition unchanged :: "Session list \<Rightarrow> (Session \<times> string list) list" where
  "unchanged ss = map (\<lambda>s. (s, [])) ss"

definition reconcileSnapshots :: "env \<Rightarrow> Session list \<Rightarrow> (Session \<times> string list) list prog" where
  "reconcileSnapshots E snapshots = do {
     entries0 \<leftarrow> map_prog (first_pass E) snapshots;
     entries \<leftarrow> fold_prog (reconcile_scope E) entries0 (entry_scopes entries0);
     ended \<leftarrow> ask (eDone E);
     (if ended \<noteq> None then State_Monad.return (unchanged snapshots)
      else do {
        started \<leftarrow> collectStartingSessionLogs E (map (\<lambda>(_, s, _). s) entries);
        late \<leftarrow> ask (eDone E);
        State_Monad.return (if late \<noteq> None then unchanged snapshots else map (mark_started started) entries) }) }"

section \<open>Reconciling everything\<close>

definition narrateReconciled :: "env \<Rightarrow> Session option \<Rightarrow> Session \<Rightarrow> string list \<Rightarrow> unit prog" where
  "narrateReconciled E current snapshot lines =
     (if \<not> reconciliationSnapshotCurrent current snapshot then State_Monad.return ()
      else fold_prog (\<lambda>_ line. sessionStatus E (sID snapshot) line) () lines)"

definition put_session :: "store_state \<Rightarrow> string \<Rightarrow> Session \<Rightarrow> store_state" where
  "put_session current ident s = current\<lparr>Sessions := aput ident s (Sessions current)\<rparr>"

definition reconcile_one ::
  "env \<Rightarrow> bool \<times> store_state \<Rightarrow> Session \<times> Session \<times> string list \<Rightarrow> (bool \<times> store_state) prog" where
  "reconcile_one E acc item =
     (case (acc, item) of ((changed, current), (snapshot, candidate, lines)) \<Rightarrow>
       (let stored = alookup (Sessions current) (sID snapshot)
        in do {
          narrateReconciled E stored snapshot lines;
          t \<leftarrow> utcNow E;
          (case mergeReconciled stored snapshot candidate t of
             (True, Some s) \<Rightarrow> do {
               outcome \<leftarrow> freezeIfTerminal E current s;
               (case outcome of (_, _, current', s') \<Rightarrow>
                  State_Monad.return (True, put_session current' (sID snapshot) s')) }
           | _ \<Rightarrow> State_Monad.return (changed, current)) }))"

definition reconcileAll :: "env \<Rightarrow> unit res prog" where
  "reconcileAll E =
     attempt (loadSessions E) (\<lambda>snapshots. do {
       candidates \<leftarrow> reconcileSnapshots E snapshots;
       ended \<leftarrow> ask (eDone E);
       (case ended of
          Some e \<Rightarrow> State_Monad.return (Inl e)
        | None \<Rightarrow> locked E (\<lambda>current. do {
            r \<leftarrow> fold_prog (reconcile_one E) (False, current) (zip snapshots candidates);
            (if fst r then fails (save E (snd r)) else State_Monad.return (Inr ())) })) })"

section \<open>Facts on reconciliation\<close>

text \<open>What one reconciliation may do to a session.\<close>

definition same_run :: "Session \<Rightarrow> Session \<Rightarrow> bool" where
  "same_run s s' \<longleftrightarrow>
     sID s' = sID s \<and> sSeq s' = sSeq s \<and> sOwner s' = sOwner s \<and> sTunnel s' = sTunnel s \<and> sLauncher s' = sLauncher s
     \<and> sJobName s' = sJobName s \<and> sSSHHost s' = sSSHHost s \<and> sResources s' = sResources s \<and> sCreatedAt s' = sCreatedAt s"

definition reconciled_step :: "Session \<Rightarrow> Session \<Rightarrow> bool" where
  "reconciled_step s s' \<longleftrightarrow>
     same_run s s'
     \<and> (\<not> reconcilable (sState s) \<longrightarrow> s' = s)
     \<and> (sState s = ''STOPPING'' \<longrightarrow> sState s' \<in> {''STOPPING'', ''STOPPED'', ''FAILED''})
     \<and> (sJobID s \<noteq> [] \<longrightarrow> sJobID s' = sJobID s)
     \<and> (sStartedAt s \<noteq> 0 \<longrightarrow> sStartedAt s' = sStartedAt s)"

lemma reconciled_step_refl [simp]: "reconciled_step s s"
  by (simp add: reconciled_step_def same_run_def)

lemma reconciled_stepI:
  "reconcilable (sState s) \<Longrightarrow> same_run s s' \<Longrightarrow> (sState s = ''STOPPING'' \<Longrightarrow> sState s' \<in> {''STOPPING'', ''STOPPED'', ''FAILED''})
   \<Longrightarrow> (sJobID s \<noteq> [] \<Longrightarrow> sJobID s' = sJobID s) \<Longrightarrow> (sStartedAt s \<noteq> 0 \<Longrightarrow> sStartedAt s' = sStartedAt s)
   \<Longrightarrow> reconciled_step s s'"
  by (simp add: reconciled_step_def)

lemma observe_step: "reconcilable (sState s) \<Longrightarrow> reconciled_step s (fst (observe_session linked now s ob cancelError))"
  by (cases "obsState ob") (auto simp: observe_session_def reconciled_step_def same_run_def Let_def nextState_def)

lemma missing_step: "reconcilable (sState s) \<Longrightarrow> reconciled_step s (fst (missingFromScheduler s cancelError now))"
  by (auto simp: missingFromScheduler_def reconciled_step_def same_run_def)

lemma unreachable_step: "reconcilable (sState s) \<Longrightarrow> reconciled_step s (fst (unreachableScheduler s e now))"
  by (auto simp: unreachableScheduler_def reconciled_step_def same_run_def)

text \<open>An entry the scheduler still has to be asked about is its snapshot.\<close>

definition entry_step :: "schedulerScope list \<Rightarrow> Session \<Rightarrow> entry \<Rightarrow> bool" where
  "entry_step pending snap = (\<lambda>(scheduled, s, lines).
     reconciled_step snap s \<and> (scheduled \<longrightarrow> reconcilable (sState snap))
     \<and> (scheduled \<and> scope_of s \<in> set pending \<longrightarrow> s = snap))"

lemma first_pass_step: "ensures (\<lambda>_. True) (first_pass E s) (entry_step pending s)"
proof -
  have probe: "ensures (\<lambda>_. True) (probeTunnel E s) (\<lambda>r. reconciled_step s (fst r))" if "sState s = ''QUEUED''"
    unfolding probeTunnel_def utcNow_def
    by (intro ensures_bind [OF keeps_True] ensures_case_sum ensures_case_prod ensures_if ensures_return)
      (auto intro!: reconciled_stepI simp: same_run_def that reconcilable_def)
  have stopped: "reconciled_step s (s\<lparr>sState := ''STOPPED'', sError := []\<rparr>)" if "sState s = ''STOPPING''"
    using that by (intro reconciled_stepI) (simp_all add: same_run_def reconcilable_def)
  show ?thesis
    unfolding first_pass_def
    by (intro ensures_if ensures_return ensures_bind [OF probe]) (auto simp: entry_step_def stopped)
qed

lemma scope_same: "same_run s s' \<Longrightarrow> scope_of s' = scope_of s"
  by (simp add: same_run_def scope_of_def)

lemma settle_step:
  assumes "entry_step (sc # pending) snap en" and "sc \<notin> set pending"
  shows "ensures (\<lambda>_. True) (settle_entry E answer sc en) (entry_step pending snap)"
proof (cases "in_scope sc en")
  case False
  with assms show ?thesis by (auto simp: settle_entry_def entry_step_def in_scope_def intro!: ensures_return split: prod.splits)
next
  case True
  then obtain lines where en: "en = (True, snap, lines)" and sc: "scope_of snap = sc" and rec: "reconcilable (sState snap)"
    using assms(1) by (cases en) (auto simp: in_scope_def entry_step_def)
  have settled: "entry_step pending snap (True, r)" if "reconciled_step snap (fst r)" for r
    using that assms(2) sc rec by (cases r) (auto simp: entry_step_def reconciled_step_def dest: scope_same)
  have "ensures (\<lambda>_. True) (do { r \<leftarrow> m; State_Monad.return (True, r) }) (entry_step pending snap)"
    if "ensures (\<lambda>_. True) m (\<lambda>r. reconciled_step snap (fst r))" for m
    by (rule ensures_bind [OF that]) (simp add: ensures_return settled)
  moreover have "ensures (\<lambda>_. True) (case answer of
      Inl e \<Rightarrow> do { t \<leftarrow> utcNow E; State_Monad.return (unreachableScheduler snap e t) }
    | Inr (observations, cancelErrors) \<Rightarrow>
        (let cancelError = (case alookup cancelErrors (sID snap) of None \<Rightarrow> [] | Some c \<Rightarrow> c)
         in (case alookup observations (sID snap) of
               None \<Rightarrow> do { t \<leftarrow> utcNow E; State_Monad.return (missingFromScheduler snap cancelError t) }
             | Some ob \<Rightarrow> applyObservation E snap ob cancelError))) (\<lambda>r. reconciled_step snap (fst r))"
    unfolding applyObservation_def
    by (intro ensures_case_sum ensures_case_prod ensures_let ensures_case_option ensures_bind [OF keeps_True] ensures_return
        unreachable_step missing_step observe_step rec)
  ultimately show ?thesis using True by (simp add: settle_entry_def en)
qed

lemma scope_step:
  assumes "list_all2 (entry_step (sc # pending)) snaps entries" and "sc \<notin> set pending"
  shows "ensures (\<lambda>_. True) (reconcile_scope E entries sc) (list_all2 (entry_step pending) snaps)"
proof -
  have weaker: "list_all2 (entry_step pending) snaps entries"
    using assms(1) by (rule list_all2_mono) (auto simp: entry_step_def)
  have "ensures (\<lambda>_. True) (map_prog (settle_entry E answer sc) entries) (list_all2 (entry_step pending) snaps)" for answer
    using assms(1)
  proof (induction rule: list_all2_induct)
    case (Cons x xs y ys)
    then show ?case
      by (auto intro!: ensures_bind [OF settle_step [OF _ assms(2)]] ensures_bind [where R = "list_all2 (entry_step pending) xs"]
          ensures_return)
  qed (simp add: ensures_return)
  then show ?thesis
    unfolding reconcile_scope_def
    by (intro ensures_bind [OF keeps_True] ensures_case_sum ensures_if ensures_return weaker)
qed

lemma scopes_step:
  "distinct pending \<Longrightarrow> list_all2 (entry_step pending) snaps entries
   \<Longrightarrow> ensures (\<lambda>_. True) (fold_prog (reconcile_scope E) entries pending) (list_all2 (entry_step []) snaps)"
proof (induction pending arbitrary: entries)
  case (Cons sc pending)
  then show ?case by (auto intro!: ensures_bind [OF scope_step])
qed (simp add: ensures_return)

lemma mark_started_step: "entry_step pending snap en \<Longrightarrow> reconciled_step snap (fst (mark_started started en))"
proof (cases en)
  case (fields b s lines)
  assume "entry_step pending snap en"
  then have step: "reconciled_step snap s" by (simp add: entry_step_def fields)
  have "reconciled_step snap (s\<lparr>sState := ''READY''\<rparr>)" if "sState s = ''STARTING''"
  proof (rule reconciled_stepI)
    show "reconcilable (sState snap)" using step that by (auto simp: reconciled_step_def reconcilable_def)
  qed (use step that in \<open>auto simp: reconciled_step_def same_run_def\<close>)
  with step show ?thesis by (simp add: mark_started_def fields)
qed


text \<open>
  A session counts as having outlived its walltime exactly when it runs, its start is known, and more than its
  walltime and ten minutes have passed since; nothing wraps around for the walltimes a request can have.
\<close>

theorem walltime_policy:
  assumes "1 \<le> WallMinutes (sResources s)" and "WallMinutes (sResources s) \<le> 525600" and "\<bar>now - sStartedAt s\<bar> < 2 ^ 63"
  shows "outlivedWalltime s now \<longleftrightarrow>
     (sState s = ''STARTING'' \<or> sState s = ''READY'') \<and> sStartedAt s \<noteq> 0
     \<and> sStartedAt s + (WallMinutes (sResources s) + 10) * minute < now"
proof -
  have grace: "walltimeGrace = 10 * minute" by (simp add: walltimeGrace_def dur_mul_minute)
  have "dur_add (WallMinutes (sResources s) * minute) (10 * minute) = (WallMinutes (sResources s) + 10) * minute"
    unfolding dur_add_def using assms(1,2) by (subst wrap64_id) (simp_all add: minute_def algebra_simps)
  then show ?thesis
    using assms by (auto simp: outlivedWalltime_def dur_mul_minute grace time_sub_eq)
qed

theorem walltime_policy_witness:
  "\<exists>s :: Session. sState s = ''READY'' \<and> outlivedWalltime s (12 * minute)"
proof -
  let ?s = "(session_of_request \<lparr>crID = [], crIdempotencyKey = [], crSSHHost = [], crAccount = [], crPartition = [], crRootFolder = [],
      crResources = \<lparr>Cores = 2, MemoryMB = 4096, WallMinutes = 1, GPUType = [], GPUCount = 0\<rparr>, crTunnelModes = None\<rparr> [] [])
    \<lparr>sState := ''READY'', sStartedAt := 1\<rparr>"
  have "outlivedWalltime ?s (12 * minute)"
    by (subst walltime_policy) (simp_all add: session_of_request_def minute_def)
  then show ?thesis by (intro exI [of _ ?s]) simp
qed

end
