(* ===== verification/SessionLifecycle.thy ===== *)
theory SessionLifecycle
  imports SessionReconcile
begin

text \<open>
  \<^verbatim>\<open>subsystems/session/lifecycle.go\<close>, the session state machine: define, adopt, start, attach, stop and delete, with
  the claims, compensations and cancellations between them; and from \<^verbatim>\<open>preparation.go\<close> and \<^verbatim>\<open>service.go\<close> the dry run, the
  reads and the shutdown.
\<close>

section \<open>Define\<close>

definition assignSessionID :: "CreateRequest \<Rightarrow> Principal \<Rightarrow> CreateRequest res" where
  "assignSessionID req pr =
     (case validateCreate req of
        Inl e \<Rightarrow> Inl e
      | Inr req1 \<Rightarrow>
          (let req2 = (if crID req1 = []
                 then req1\<lparr>crID := ''s-'' @ hex_encode (take 6 (sha256
                        (PrincipalDirName pr @ [nul] @ crIdempotencyKey req1)))\<rparr> else req1)
           in if \<not> idPattern (crID req2) then
                Inl (APIError ''invalid_session_id'' ''session ID must match s-[a-f0-9]{12}'' 400)
              else Inr req2))"

definition request_modes :: "CreateRequest \<Rightarrow> string list" where
  "request_modes req = (case crTunnelModes req of None \<Rightarrow> [] | Some modes \<Rightarrow> modes)"

definition sameCreateRequest :: "Session \<Rightarrow> CreateRequest \<Rightarrow> bool" where
  "sameCreateRequest s req \<longleftrightarrow>
     sSSHHost s = crSSHHost req \<and> sAccount s = crAccount req \<and> sPartition s = crPartition req
     \<and> sRootFolder s = crRootFolder req \<and> sResources s = crResources req \<and> sTunnelModes s = request_modes req"

definition defined_session :: "CreateRequest \<Rightarrow> Principal \<Rightarrow> time \<Rightarrow> time \<Rightarrow> Session" where
  "defined_session req pr createdAt updatedAt =
     (session_of_request req [] [])\<lparr>sState := ''STOPPED'', sLauncher := launcherPlane, sCreatedAt := createdAt,
        sUpdatedAt := updatedAt, sOwner := pr\<rparr>"

definition Define :: "env \<Rightarrow> Principal \<Rightarrow> CreateRequest \<Rightarrow> (Session \<times> bool) res prog" where
  "Define E pr raw =
     (case assignSessionID raw pr of
        Inl e \<Rightarrow> State_Monad.return (Inl e)
      | Inr req \<Rightarrow> do {
          t1 \<leftarrow> utcNow E;
          t2 \<leftarrow> utcNow E;
          locked E (\<lambda>current.
            case alookup (Sessions current) (crID req) of
              Some existing \<Rightarrow>
                State_Monad.return
                  (if sOwner existing \<noteq> pr then Inl errOwnerMismatch
                   else if \<not> sameCreateRequest existing req then Inl errIdempotencyConflict
                   else Inr (existing, False))
            | None \<Rightarrow>
                (let s = defined_session req pr t1 t2
                 in do {
                   r \<leftarrow> save E (put_session current (crID req) s);
                   State_Monad.return (case r of Some e \<Rightarrow> Inl e | None \<Rightarrow> Inr (s, True)) })) })"

section \<open>Claims\<close>

definition tunnelCredential :: "env \<Rightarrow> Principal \<Rightarrow> string list \<Rightarrow> Credential res prog" where
  "tunnelCredential E pr modes =
     (if modeDevtunnel \<notin> set modes then State_Monad.return (Inr no_credential)
      else do {
        r \<leftarrow> ask (\<lambda>n. eCredential E n pr);
        State_Monad.return (case r of
            Inl e \<Rightarrow> Inl e
          | Inr c \<Rightarrow> if credToken c = [] then Inl errTunnelLinkRequired else Inr c) })"

definition claimLaunch :: "env \<Rightarrow> string \<Rightarrow> Principal \<Rightarrow> Session res prog" where
  "claimLaunch E ident pr = locked E (\<lambda>current. State_Monad.return
     (case alookup (Sessions current) ident of
        None \<Rightarrow> Inl errSessionNotFound
      | Some existing \<Rightarrow>
          if sOwner existing \<noteq> pr then Inl errOwnerMismatch
          else if \<not> terminalSession (sState existing) then Inl errSessionRunning
          else Inr existing))"

definition persistSubmitIntent :: "env \<Rightarrow> Session \<Rightarrow> Session \<Rightarrow> unit res prog" where
  "persistSubmitIntent E previous intent = locked E (\<lambda>current.
     case alookup (Sessions current) (sID intent) of
       None \<Rightarrow> State_Monad.return (Inl errSessionNotFound)
     | Some existing \<Rightarrow>
         if sUpdatedAt existing \<noteq> sUpdatedAt previous \<or> sState existing \<noteq> sState previous \<or> sOwner existing \<noteq> sOwner previous
         then State_Monad.return (Inl errSessionRunning)
         else do {
           r \<leftarrow> save E (put_session current (sID intent) intent);
           State_Monad.return (case r of
               Some e \<Rightarrow> Inl (Wrapf [''persist submit intent: ''] [e])
             | None \<Rightarrow> Inr ()) })"

definition claimRun ::
  "env \<Rightarrow> Principal \<Rightarrow> Credential \<Rightarrow> Session \<Rightarrow> (Session \<times> string \<times> sessionCapability) res prog" where
  "claimRun E pr cred intent0 =
     attempt (claimLaunch E (sID intent0) pr) (\<lambda>previous. do {
       t \<leftarrow> utcNow E;
       attempt (issueSession E (intent0\<lparr>sCreatedAt := sCreatedAt previous, sUpdatedAt := t\<rparr>) pr cred (sSeq previous + 1))
         (\<lambda>(intent, hostToken, cap). do {
           r \<leftarrow> persistSubmitIntent E previous intent;
           (case r of
              Inr _ \<Rightarrow> State_Monad.return (Inr (intent, hostToken, cap))
            | Inl e \<Rightarrow> do {
                released \<leftarrow> releaseTunnel E cred (sID intent) (sSeq intent) (sTunnel intent);
                State_Monad.return (Inl (join_error_list e released)) }) }) })"

text \<open>
  \<^verbatim>\<open>serialized\<close> holds one of 64 process locks and its file lock for the whole operation; what the environment may do
  under it is what other sessions' operations may do, so the model only adds the failure to lock.
\<close>

definition serialized :: "env \<Rightarrow> 'a res prog \<Rightarrow> 'a res prog" where
  "serialized E m = do {
     fault \<leftarrow> ask (eLockFault E);
     (case fault of Some e \<Rightarrow> State_Monad.return (Inl e) | None \<Rightarrow> m) }"

section \<open>Start\<close>

definition recordSubmittedJob :: "env \<Rightarrow> string \<Rightarrow> string \<Rightarrow> (Session \<times> bool) res prog" where
  "recordSubmittedJob E ident job = locked E (\<lambda>current.
     case alookup (Sessions current) ident of
       None \<Rightarrow> State_Monad.return (Inl (Plain ''submitted session disappeared from state''))
     | Some s \<Rightarrow> do {
         t \<leftarrow> utcNow E;
         (let s1 = s\<lparr>sJobID := job, sState := (if sState s = ''SUBMITTING'' then ''QUEUED'' else sState s), sUpdatedAt := t\<rparr>
          in do {
            r \<leftarrow> save E (put_session current ident s1);
            State_Monad.return (case r of
                Some e \<Rightarrow> Inl (Wrapf [''persist submitted job '' @ job @ '': ''] [e])
              | None \<Rightarrow> Inr (s1, sState s1 \<noteq> ''QUEUED'')) }) })"

definition scancelWithOwnTimeout :: "env \<Rightarrow> Runner \<Rightarrow> string \<Rightarrow> string \<Rightarrow> go_error option prog" where
  "scancelWithOwnTimeout E r host job = do {
     answer \<leftarrow> remote_run E r host [] [''scancel'', job];
     State_Monad.return (snd answer) }"

definition cancelSupersededJob ::
  "env \<Rightarrow> Runner \<Rightarrow> string \<Rightarrow> string \<Rightarrow> string \<Rightarrow> Session option res prog" where
  "cancelSupersededJob E r host ident job = do {
     cancelErr \<leftarrow> scancelWithOwnTimeout E r host job;
     (let diagnostic = (case cancelErr of None \<Rightarrow> [] | Some e \<Rightarrow> boundedSessionError e)
      in locked E (\<lambda>current.
        case alookup (Sessions current) ident of
          None \<Rightarrow> State_Monad.return (Inr None)
        | Some s \<Rightarrow>
            if sJobID s = job \<and> sState s \<noteq> ''QUEUED'' then do {
              t \<leftarrow> utcNow E;
              (let s1 = s\<lparr>sError := diagnostic, sUpdatedAt := t\<rparr>
               in do {
                 saved \<leftarrow> save E (put_session current ident s1);
                 State_Monad.return (case saved of Some e \<Rightarrow> Inl e | None \<Rightarrow> Inr (Some s1)) }) }
            else State_Monad.return (Inr (Some s)))) }"

definition abandonSubmitIntent :: "env \<Rightarrow> Credential \<Rightarrow> Session \<Rightarrow> go_error option prog" where
  "abandonSubmitIntent E cred intent = do {
     compensateErr \<leftarrow> releaseTunnel E cred (sID intent) (sSeq intent) (sTunnel intent);
     stateErr \<leftarrow> locked E (\<lambda>current.
       case alookup (Sessions current) (sID intent) of
         None \<Rightarrow> State_Monad.return (Inr ())
       | Some c \<Rightarrow>
           if sSeq c \<noteq> sSeq intent \<or> sJobName c \<noteq> sJobName intent \<or> sJobID c \<noteq> [] then State_Monad.return (Inr ())
           else (let next = (if sState c = ''SUBMITTING'' then ''FAILED''
                             else if sState c = ''STOPPING'' then ''STOPPED'' else [])
                 in if next = [] then State_Monad.return (Inr ())
                    else do {
                      t \<leftarrow> utcNow E;
                      fails (save E (put_session current (sID intent)
                        (c\<lparr>sState := next, sTunnel := no_tunnel, sUpdatedAt := t,
                           sError := (case compensateErr of None \<Rightarrow> [] | Some e \<Rightarrow> boundedSessionError e)\<rparr>))) }));
     State_Monad.return (join_errors [compensateErr, (case stateErr of Inl e \<Rightarrow> Some e | Inr _ \<Rightarrow> None)]) }"

definition abandon_with :: "env \<Rightarrow> Credential \<Rightarrow> Session \<Rightarrow> go_error \<Rightarrow> 'a res prog" where
  "abandon_with E cred intent e = do {
     r \<leftarrow> abandonSubmitIntent E cred intent;
     State_Monad.return (Inl (join_error_list e r)) }"

text \<open>The tail of \<^verbatim>\<open>launchSerialized\<close>: recording the job the scheduler accepted.\<close>

definition launch_submitted :: "env \<Rightarrow> Runner \<Rightarrow> string \<Rightarrow> string \<Rightarrow> string \<Rightarrow> Session res prog" where
  "launch_submitted E r host ident job = do {
     sessionStatus E ident ''Session submitted to Slurm'';
     recorded \<leftarrow> recordSubmittedJob E ident job;
     (case recorded of
        Inl e \<Rightarrow> do {
          sessionStatus E ident ''Session submission could not be saved'';
          cancelErr \<leftarrow> scancelWithOwnTimeout E r host job;
          State_Monad.return (Inl (case cancelErr of
              Some c \<Rightarrow> Wrapf [[], ''; compensation scancel failed: ''] [e, c]
            | None \<Rightarrow> Wrapf [[], ''; job was cancelled''] [e])) }
      | Inr (created, superseded) \<Rightarrow> do {
          (if sState created = ''QUEUED'' then sessionStatus E ident ''Session is queued'' else State_Monad.return ());
          (if \<not> superseded then State_Monad.return (Inr created)
           else attempt (cancelSupersededJob E r host ident job) (\<lambda>replaced.
             State_Monad.return (Inr (case replaced of None \<Rightarrow> created | Some s \<Rightarrow> s)))) }) }"

definition launch_claimed ::
  "env \<Rightarrow> Runner \<Rightarrow> Credential \<Rightarrow> string \<Rightarrow> preparedSession \<Rightarrow> Session \<times> string \<times> sessionCapability \<Rightarrow> Session res prog" where
  "launch_claimed E r cred host prepared claimed =
     (case claimed of (intent, hostToken, cap) \<Rightarrow>
       (let script = buildScript intent (prepLinkspan prepared)
        in do {
          provisioned \<leftarrow> provisionSession E r host intent (prepHome prepared) (prepLinkspan prepared);
          (case provisioned of
             Some e \<Rightarrow> do {
               sessionStatus E (sID intent) ''Session environment preparation failed'';
               abandon_with E cred intent e }
           | None \<Rightarrow> do {
               sessionStatus E (sID intent) ''Submitting session to Slurm'';
               submitted \<leftarrow> submitSessionScript E r host intent script cap hostToken;
               (case submitted of
                  Inl e \<Rightarrow>
                    if AmbiguousSubmission e then do {
                      sessionStatus E (sID intent) ''Session submission outcome is unresolved'';
                      State_Monad.return (Inl e) }
                    else do {
                      sessionStatus E (sID intent) ''Session submission failed'';
                      abandon_with E cred intent e }
                | Inr job \<Rightarrow> launch_submitted E r host (sID intent) job) }) }))"

definition launchSerialized :: "env \<Rightarrow> Runner \<Rightarrow> CreateRequest \<Rightarrow> Principal \<Rightarrow> Session res prog" where
  "launchSerialized E r req pr =
     attempt (tunnelCredential E pr (request_modes req)) (\<lambda>cred.
     attempt (prepareSession E r (sessionStatus E (crID req)) req) (\<lambda>prepared.
     attempt (validateForCreate E r req (prepScript prepared)) (\<lambda>_.
     attempt (beginOperation E) (\<lambda>_.
     attempt (claimRun E pr cred
       ((prepSession prepared)\<lparr>sState := ''SUBMITTING'', sLauncher := launcherPlane\<rparr>)) (\<lambda>claimed.
     launch_claimed E r cred (crSSHHost req) prepared claimed)))))"

definition forgetUnpersistedBuffers :: "env \<Rightarrow> string \<Rightarrow> unit prog" where
  "forgetUnpersistedBuffers E ident = do {
     r \<leftarrow> loadSession E ident;
     (case r of
        Inl e \<Rightarrow> if e = errSessionNotFound then forgetSessionBuffers ident else State_Monad.return ()
      | Inr _ \<Rightarrow> State_Monad.return ()) }"

definition launch :: "env \<Rightarrow> Runner \<Rightarrow> Principal \<Rightarrow> CreateRequest \<Rightarrow> Session res prog" where
  "launch E r pr req = do {
     result \<leftarrow> serialized E (launchSerialized E r req pr);
     (case result of
        Inr s \<Rightarrow> State_Monad.return (Inr s)
      | Inl e \<Rightarrow> do {
          forgetUnpersistedBuffers E (crID req);
          State_Monad.return (Inl e) }) }"

definition retireFinished :: "env \<Rightarrow> Principal \<Rightarrow> string \<Rightarrow> Session res prog" where
  "retireFinished E pr ident =
     attempt (claimLaunch E ident pr) (\<lambda>s.
     attempt (if tmID (sTunnel s) = [] then State_Monad.return (Inr ())
              else attempt (ask (\<lambda>n. eCredential E n pr)) (\<lambda>cred.
                fails (releaseTunnel E cred (sID s) (sSeq s) (sTunnel s)))) (\<lambda>_.
     attempt (freezeRun E s) (\<lambda>_.
     State_Monad.return (Inr s))))"

definition start_request :: "string \<Rightarrow> Session \<Rightarrow> CreateRequest" where
  "start_request ident s =
     \<lparr>crID = ident, crIdempotencyKey = [], crSSHHost = sSSHHost s, crAccount = sAccount s, crPartition = sPartition s,
      crRootFolder = sRootFolder s, crResources = sResources s, crTunnelModes = Some (sTunnelModes s)\<rparr>"

definition Start :: "env \<Rightarrow> Principal \<Rightarrow> string \<Rightarrow> Session res prog" where
  "Start E pr ident =
     attempt (retireFinished E pr ident) (\<lambda>s. launch E (forPrincipal E pr) pr (start_request ident s))"

section \<open>Attach\<close>

definition attach_intent :: "Session \<Rightarrow> string list \<Rightarrow> Session" where
  "attach_intent previous modes =
     previous\<lparr>sTunnelModes := modes, sState := ''QUEUED'', sLauncher := launcherClient, sError := [], sJobID := [],
       sNode := [], sStartedAt := 0\<rparr>"

definition attach_response :: "env \<Rightarrow> string \<Rightarrow> Session \<times> string \<times> sessionCapability \<Rightarrow> AttachResponse" where
  "attach_response E ident = (\<lambda>(intent, hostToken, cap).
     \<lparr>arSession = intent,
      arLink = (if modeWebsocket \<in> set (sTunnelModes intent)
                then Some \<lparr>laURL = linkURL E ident, laToken = capLinkToken cap\<rparr> else None),
      arDevtunnel = (if modeDevtunnel \<in> set (sTunnelModes intent)
                     then Some \<lparr>daID = tmID (sTunnel intent), daCluster = tmClusterID (sTunnel intent),
                                daHostToken = hostToken\<rparr> else None)\<rparr>)"

definition Attach :: "env \<Rightarrow> Principal \<Rightarrow> string \<Rightarrow> string list option \<Rightarrow> AttachResponse res prog" where
  "Attach E pr ident modes =
     attempt (retireFinished E pr ident) (\<lambda>previous.
     attempt (State_Monad.return
       (case modes of None \<Rightarrow> Inr (sTunnelModes previous) | Some ms \<Rightarrow> canonicalTunnelModes ms)) (\<lambda>canonical.
     attempt (tunnelCredential E pr canonical) (\<lambda>cred.
     attempt (beginOperation E) (\<lambda>_.
     attempt (serialized E (claimRun E pr cred (attach_intent previous canonical))) (\<lambda>claimed. do {
       sessionStatus E ident (''Waiting for the client'' @ [CHR 0x27] @ ''s Linkspan to connect'');
       State_Monad.return (Inr (attach_response E ident claimed)) })))))"

section \<open>Stop and delete\<close>

definition claim_stop :: "env \<Rightarrow> Principal \<Rightarrow> string \<Rightarrow> (Session \<times> bool) res prog" where
  "claim_stop E pr ident = locked E (\<lambda>current.
     case alookup (Sessions current) ident of
       None \<Rightarrow> State_Monad.return (Inl errSessionNotFound)
     | Some s \<Rightarrow>
         if sOwner s \<noteq> pr then State_Monad.return (Inl errOwnerMismatch)
         else if terminalSession (sState s) then State_Monad.return (Inr (s, True))
         else do {
           t \<leftarrow> utcNow E;
           (let s1 = s\<lparr>sState := ''STOPPING'', sError := [], sUpdatedAt := t\<rparr>
            in do {
              r \<leftarrow> save E (put_session current ident s1);
              State_Monad.return (case r of Some e \<Rightarrow> Inl e | None \<Rightarrow> Inr (s1, False)) }) })"

text \<open>The stored session after the scheduler's answer and the tunnel's release are folded in.\<close>

definition settle_tunnel :: "Session \<Rightarrow> go_error option \<Rightarrow> time \<Rightarrow> bool \<times> Session \<Rightarrow> bool \<times> Session" where
  "settle_tunnel snapshot managementErr t = (\<lambda>(changed, s).
     if sSeq s = sSeq snapshot \<and> tmID (sTunnel s) = tmID (sTunnel snapshot) then
       (case managementErr of
          Some e \<Rightarrow> (True, s\<lparr>sError := boundedSessionError e, sUpdatedAt := t\<rparr>)
        | None \<Rightarrow>
            if tmID (sTunnel snapshot) \<noteq> [] then (True, s\<lparr>sTunnel := no_tunnel, sUpdatedAt := t\<rparr>) else (changed, s))
     else (changed, s))"

definition finish_stop ::
  "env \<Rightarrow> string \<Rightarrow> Session \<Rightarrow> bool \<Rightarrow> go_error option \<Rightarrow> Session \<times> string list \<Rightarrow> Session res prog" where
  "finish_stop E ident snapshot alreadyStopped managementErr candidate = locked E (\<lambda>current.
     case alookup (Sessions current) ident of
       None \<Rightarrow> State_Monad.return (Inl errSessionNotFound)
     | Some stored \<Rightarrow> do {
         narrateReconciled E (Some stored) snapshot (snd candidate);
         t1 \<leftarrow> utcNow E;
         t2 \<leftarrow> utcNow E;
         (let merged = (case mergeReconciled (Some stored) snapshot (fst candidate) t1 of
                (changed, Some s) \<Rightarrow> (changed, s) | (changed, None) \<Rightarrow> (changed, stored));
              settled = settle_tunnel snapshot managementErr t2 merged
          in do {
            (if sState (snd settled) = ''STOPPED'' \<and> \<not> alreadyStopped
             then sessionStatus E ident ''Session stopped'' else State_Monad.return ());
            outcome \<leftarrow> freezeIfTerminal E current (snd settled);
            (case outcome of (frozen, freezeErr, current', s) \<Rightarrow>
               if frozen \<or> fst settled then do {
                 r \<leftarrow> save E (put_session current' ident s);
                 State_Monad.return (case r of
                     Some e \<Rightarrow> Inl e
                   | None \<Rightarrow> (case freezeErr of Some e \<Rightarrow> Inl e | None \<Rightarrow> Inr s)) }
               else State_Monad.return (case freezeErr of Some e \<Rightarrow> Inl e | None \<Rightarrow> Inr s)) }) })"

definition Stop :: "env \<Rightarrow> Principal \<Rightarrow> string \<Rightarrow> Session res prog" where
  "Stop E pr ident =
     attempt (beginOperation E) (\<lambda>_.
     attempt (claim_stop E pr ident) (\<lambda>(snapshot, alreadyStopped). do {
       (if alreadyStopped then State_Monad.return () else sessionStatus E ident ''Stopping session'');
       found \<leftarrow> ask (\<lambda>n. eCredential E n pr);
       managementErr \<leftarrow> releaseTunnel E (case found of Inl _ \<Rightarrow> no_credential | Inr c \<Rightarrow> c)
         (sID snapshot) (sSeq snapshot) (sTunnel snapshot);
       State_Monad.update (\<lambda>w. w\<lparr>wLinks := adel ident (wLinks w)\<rparr>);
       candidate \<leftarrow> (if reconcilable (sState snapshot) then do {
           (if sLauncher snapshot \<noteq> launcherClient then sessionStatus E ident ''Requesting scheduler cancellation''
            else State_Monad.return ());
           candidates \<leftarrow> reconcileSnapshots E [snapshot];
           (let c = hd candidates
            in do {
              (if sError (fst c) \<noteq> [] then sessionStatus E ident ''Session stop is pending'' else State_Monad.return ());
              State_Monad.return c }) }
         else State_Monad.return (snapshot, []));
       finish_stop E ident snapshot alreadyStopped managementErr candidate }))"

definition Delete :: "env \<Rightarrow> Principal \<Rightarrow> string \<Rightarrow> Session res prog" where
  "Delete E pr ident =
     attempt (locked E (\<lambda>current.
       case alookup (Sessions current) ident of
         None \<Rightarrow> State_Monad.return (Inl errSessionNotFound)
       | Some s \<Rightarrow>
           if sOwner s \<noteq> pr then State_Monad.return (Inl errOwnerMismatch)
           else if \<not> terminalSession (sState s) then State_Monad.return (Inl errSessionNotStopped)
           else do {
             r \<leftarrow> save E (current\<lparr>Sessions := adel ident (Sessions current)\<rparr>);
             State_Monad.return (case r of Some e \<Rightarrow> Inl e | None \<Rightarrow> Inr s) })) (\<lambda>s. do {
       forgetSessionBuffers ident;
       r \<leftarrow> deleteCapability E (sID s) (sSeq s);
       State_Monad.return (case r of Some e \<Rightarrow> Inl e | None \<Rightarrow> Inr s) })"

section \<open>Adopt\<close>

definition finished_run_ok :: "FinishedRun \<Rightarrow> bool" where
  "finished_run_ok r \<longleftrightarrow>
     terminalSession (frFinalState r) \<and> frEndedAt r \<noteq> 0 \<and> length (frSamples r) \<le> maxSessionMetricSamples"

definition adopted_run :: "Session \<Rightarrow> Principal \<Rightarrow> nat \<Rightarrow> FinishedRun \<Rightarrow> runRecord" where
  "adopted_run s pr index r =
     \<lparr>rSessionID = sID s, rSeq = int index + 1, rSSHHost = sSSHHost s, rAccount = sAccount s, rPartition = sPartition s,
      rRootFolder = sRootFolder s, rResources = sResources s, rTunnelModes = sTunnelModes s,
      rFinalState = frFinalState r, rError = TruncateUTF8 (frError r) maxSessionError, rStartedAt = frStartedAt r,
      rEndedAt = frEndedAt r, rStats = frStats r, rSamples = frSamples r, rLogs = [], rOwner = pr, rLauncher = []\<rparr>"

definition adopt_all :: "Session \<Rightarrow> Principal \<Rightarrow> FinishedRun list \<Rightarrow> store_state \<Rightarrow> store_state" where
  "adopt_all s pr rs current =
     foldl (\<lambda>st (index, r). snd (recordRun st (adopted_run s pr index r))) current (enumerate 0 rs)"

definition adopted_session :: "Session \<Rightarrow> SessionHistory \<Rightarrow> time \<Rightarrow> Session" where
  "adopted_session s h t =
     (let final = last (shRuns h)
      in s\<lparr>sSeq := int (length (shRuns h)), sState := frFinalState final,
           sError := TruncateUTF8 (frError final) maxSessionError, sStartedAt := frStartedAt final,
           sCreatedAt := (if shCreatedAt h \<noteq> 0 then shCreatedAt h else sCreatedAt s), sUpdatedAt := t\<rparr>)"

definition AdoptRuns :: "env \<Rightarrow> Principal \<Rightarrow> string \<Rightarrow> SessionHistory \<Rightarrow> Session res prog" where
  "AdoptRuns E pr ident h =
     (if shRuns h = [] \<or> 50 < length (shRuns h) \<or> \<not> list_all finished_run_ok (shRuns h) then
        State_Monad.return (Inl (APIError ''invalid_runs''
          (''runs must be 1 to 50 terminal runs, each with endedAt and at most '' @ itoa (int maxSessionMetricSamples)
             @ '' samples'') 400))
      else locked E (\<lambda>current.
        case alookup (Sessions current) ident of
          None \<Rightarrow> State_Monad.return (Inl errSessionNotFound)
        | Some s \<Rightarrow>
            if sOwner s \<noteq> pr then State_Monad.return (Inl errOwnerMismatch)
            else if sSeq s \<noteq> 0 \<or> list_ex (\<lambda>r. rSessionID r = ident) (Runs current) then
              State_Monad.return (Inl errSessionHasHistory)
            else do {
              t \<leftarrow> utcNow E;
              (let s1 = adopted_session s h t
               in do {
                 r \<leftarrow> save E (put_session (adopt_all s1 pr (shRuns h) current) ident s1);
                 State_Monad.return (case r of Some e \<Rightarrow> Inl e | None \<Rightarrow> Inr s1) }) }))"

section \<open>Dry run, listing and shutdown\<close>

definition Validate :: "env \<Rightarrow> Principal \<Rightarrow> CreateRequest \<Rightarrow> ValidationResult res prog" where
  "Validate E pr raw =
     attempt (State_Monad.return (assignSessionID raw pr)) (\<lambda>req.
     attempt (tunnelCredential E pr (request_modes req)) (\<lambda>_.
     attempt (prepareSession E (forPrincipal E pr) (\<lambda>_. State_Monad.return ()) req) (\<lambda>prepared.
     attempt (check_prog E (forPrincipal E pr) (sSSHHost (prepSession prepared)) (prepScript prepared)) (\<lambda>result.
     State_Monad.return (Inr
       \<lparr>vrSessionID = sID (prepSession prepared), vrScript = prepScript prepared,
        vrStatus = (if Passed result then ''PASSED'' else ''FAILED''), vrMessage = validationMessage result,
        vrStdout = trim_space (crStdout result), vrStderr = trim_space (crStderr result)\<rparr>)))))"

definition List :: "env \<Rightarrow> Principal \<Rightarrow> (SessionResponse list \<times> SessionLogTail list) res prog" where
  "List E pr = attempt (sessionsOf E pr) (\<lambda>ss. do {
     w \<leftarrow> State_Monad.get;
     State_Monad.return (Inr (map SessionResponse.truncate ss, List.map_filter (\<lambda>s. logs_tail (wLogs w) (sID s)) ss)) })"

definition Metrics :: "env \<Rightarrow> Principal \<Rightarrow> string \<Rightarrow> (string \<times> MetricSample list) res prog" where
  "Metrics E pr ident = attempt (Get E pr ident) (\<lambda>s. do {
     w \<leftarrow> State_Monad.get;
     State_Monad.return (Inr (sID s, metrics_samples (wMetrics w) (sID s))) })"

definition Close :: "unit prog" where
  "Close = State_Monad.update (\<lambda>w. w\<lparr>wClosing := True\<rparr>)"

end
