(* ===== verification/SessionInvariant.thy ===== *)
theory SessionInvariant
  imports SessionLifecycle
begin

text \<open>
  The invariant of the stored sessions and runs, the round trip of a saved state, and the proof that every operation
  of the session component keeps the invariant, whatever the environment answers and whichever step fails, as long as
  what runs concurrently keeps it too.
\<close>

section \<open>Well-formed states\<close>

definition canonical_modes :: "string list \<Rightarrow> bool" where
  "canonical_modes ms \<longleftrightarrow> ms \<noteq> [] \<and> sorted ms \<and> distinct ms \<and> set ms \<subseteq> {modeDevtunnel, modeWebsocket}"

text \<open>
  A session that never ran has run number 0, is stopped and owns no tunnel. A job name, once there is one, is the
  one the session's identifier and run number give.
\<close>

definition wf_session :: "string \<Rightarrow> Session \<Rightarrow> bool" where
  "wf_session ident s \<longleftrightarrow>
     sID s = ident \<and> idPattern ident \<and> valid_state (sState s) \<and> 0 \<le> sSeq s
     \<and> (sSeq s = 0 \<longrightarrow> sState s = ''STOPPED'' \<and> tmID (sTunnel s) = [] \<and> sJobName s = [])
     \<and> canonical_modes (sTunnelModes s)
     \<and> (sJobName s = [] \<or> sJobName s = jobName ident (sSeq s))"

definition wf_run :: "runRecord \<Rightarrow> bool" where
  "wf_run r \<longleftrightarrow>
     idPattern (rSessionID r) \<and> 1 \<le> rSeq r \<and> terminalSession (rFinalState r)
     \<and> length (rSamples r) \<le> maxSessionMetricSamples \<and> length (rLogs r) \<le> 200"

definition run_key :: "runRecord \<Rightarrow> string \<times> int" where
  "run_key r = (rSessionID r, rSeq r)"

definition wf_runs :: "runRecord list \<Rightarrow> bool" where
  "wf_runs rs \<longleftrightarrow> distinct (map run_key rs) \<and> length rs \<le> maxRunRecords \<and> list_all wf_run rs"

definition wf_sessions :: "(string \<times> Session) list \<Rightarrow> bool" where
  "wf_sessions m \<longleftrightarrow> distinct (map fst m) \<and> list_all (\<lambda>(k, s). wf_session k s) m"

definition wf_state :: "store_state \<Rightarrow> bool" where
  "wf_state st \<longleftrightarrow> wf_sessions (Sessions st) \<and> wf_runs (Runs st)"

definition wf_tables :: "tables \<Rightarrow> bool" where
  "wf_tables t \<longleftrightarrow>
     distinct (map fst (tSessions t)) \<and> (case load_state t of Inl _ \<Rightarrow> False | Inr st \<Rightarrow> wf_state st)"

definition wf_world :: "world \<Rightarrow> bool" where
  "wf_world w \<longleftrightarrow>
     wf_tables (wTables w) \<and> logs_ok (wLogs w)
     \<and> (\<forall>ident. length (metrics_samples (wMetrics w) ident) \<le> maxSessionMetricSamples)"

lemma wf_sessions_lookup: "wf_sessions m \<Longrightarrow> alookup m k = Some s \<Longrightarrow> wf_session k s"
  by (auto simp: wf_sessions_def list_all_iff dest: alookup_in_set)

lemma wf_sessions_put: "wf_sessions m \<Longrightarrow> wf_session k s \<Longrightarrow> wf_sessions (aput k s m)"
  using aput_set_subset [of k s m] by (auto simp: wf_sessions_def list_all_iff)

lemma wf_sessions_del: "wf_sessions m \<Longrightarrow> wf_sessions (adel k m)"
  using adel_set_subset [of k m] by (auto simp: wf_sessions_def list_all_iff)

lemma wf_state_put [wf_intros]: "wf_state st \<Longrightarrow> wf_session k s \<Longrightarrow> wf_state (put_session st k s)"
  by (simp add: wf_state_def put_session_def wf_sessions_put)

lemma wf_state_del [wf_intros]: "wf_state st \<Longrightarrow> wf_state (st\<lparr>Sessions := adel k (Sessions st)\<rparr>)"
  by (simp add: wf_state_def wf_sessions_del)

lemma wf_state_lookup: "wf_state st \<Longrightarrow> alookup (Sessions st) k = Some s \<Longrightarrow> wf_session k s"
  by (auto simp: wf_state_def dest: wf_sessions_lookup)

lemma wf_runs_push:
  "wf_runs rs \<Longrightarrow> wf_run r \<Longrightarrow> run_key r \<notin> set (map run_key rs) \<Longrightarrow> wf_runs (push_run r rs)"
  using run_window.add_length [of r rs]
  by (auto simp: wf_runs_def push_run_def list_all_take distinct_map_take simp del: take_Suc_Cons)

lemma wf_state_recordRun [wf_intros]:
  "wf_state st \<Longrightarrow> (rSeq r \<noteq> 0 \<Longrightarrow> wf_run r) \<Longrightarrow> wf_state (snd (recordRun st r))"
proof -
  assume st: "wf_state st" and r: "rSeq r \<noteq> 0 \<Longrightarrow> wf_run r"
  show "wf_state (snd (recordRun st r))"
  proof (cases "fst (recordRun st r)")
    case True
    then have "rSeq r \<noteq> 0" and "run_key r \<notin> set (map run_key (Runs st))"
      and "snd (recordRun st r) = st\<lparr>Runs := push_run r (Runs st)\<rparr>"
      by (auto simp: recordRun_def list_ex_iff run_key_def split: if_splits)
    with st r show ?thesis by (simp add: wf_state_def wf_runs_push del: set_map)
  next
    case False
    with st show ?thesis by (auto simp: recordRun_def)
  qed
qed

section \<open>Saving and loading\<close>

definition stored_session :: "Session \<Rightarrow> Session" where
  "stored_session s = s\<lparr>sError := json_text (sError s)\<rparr>"

definition stored_run :: "runRecord \<Rightarrow> runRecord" where
  "stored_run r = r\<lparr>rError := json_text (rError r)\<rparr>"

text \<open>What a later cycle finds: the sessions in order of identifier, the runs in the order they were in.\<close>

definition stored_state :: "store_state \<Rightarrow> store_state" where
  "stored_state st =
     \<lparr>Sessions = sort_key fst (map (\<lambda>(k, s). (k, stored_session s)) (Sessions st)), Runs = map stored_run (Runs st)\<rparr>"

lemma map_res_Inr: "map_res f xs = Inr ys \<Longrightarrow> list_all2 (\<lambda>x y. f x = Inr y) xs ys"
  by (induction xs arbitrary: ys) (auto split: sum.splits)

lemma map_res_total: "(\<And>x. x \<in> set xs \<Longrightarrow> f x = Inr (g x)) \<Longrightarrow> map_res f xs = Inr (map g xs)"
  by (induction xs) auto

lemma insort_key_map: "insort_key k (f x) (map f xs) = map f (insort_key (\<lambda>x. k (f x)) x xs)"
  by (induction xs) auto

lemma sort_key_map: "sort_key k (map f xs) = map f (sort_key (\<lambda>x. k (f x)) xs)"
  by (induction xs) (simp_all add: insort_key_map)

lemma distinct_map_sort: "distinct (map f (sort_key k xs)) = distinct (map f xs)"
  by (simp add: distinct_map)

lemma index_sessions_distinct:
  assumes "distinct (map sID ss)"
  shows "index_sessions ss = map (\<lambda>s. (sID s, s)) ss"
proof -
  have "foldl (\<lambda>m s. aput (sID s) s m) m xs = m @ map (\<lambda>s. (sID s, s)) xs"
    if "distinct (map sID xs)" "set (map sID xs) \<inter> set (map fst m) = {}" for m xs
    using that
  proof (induction xs arbitrary: m)
    case (Cons x xs)
    then have "aput (sID x) x m = m @ [(sID x, x)]" by (intro aput_new) auto
    with Cons show ?case by auto
  qed simp
  from this [of ss "[]"] assms show ?thesis by (simp add: index_sessions_def)
qed

lemma session_rows:
  "map_res session_row ss = Inr rows
   \<Longrightarrow> rows = map (\<lambda>s. (sID s, PrincipalDirName (sOwner s), Json (stored_session s))) ss"
  by (induction ss arbitrary: rows)
    (auto simp: session_row_def marshal_session_def stored_session_def split: sum.splits if_splits)

lemma run_rows:
  "map_res run_row rs = Inr rows
   \<Longrightarrow> rows = map (\<lambda>r. (rSessionID r, rSeq r, PrincipalDirName (rOwner r), Json (stored_run r))) rs"
  by (induction rs arbitrary: rows)
    (auto simp: run_row_def marshal_run_def stored_run_def split: sum.splits if_splits)

lemma decode_stored_session: "decodeSession (sID s, owner, Json (stored_session s)) = Inr (stored_session s)"
  by (simp add: decodeSession_def DecodePayload_def stored_session_def)

lemma decode_stored_run: "decodeRun (rSessionID r, rSeq r, owner, Json (stored_run r)) = Inr (stored_run r)"
  by (simp add: decodeRun_def DecodePayload_def stored_run_def)

lemma stored_session_simps [simp]:
  "sID (stored_session s) = sID s" "wf_session k (stored_session s) = wf_session k s"
  by (simp_all add: stored_session_def wf_session_def)

lemma stored_run_simps [simp]:
  "run_key (stored_run r) = run_key r" "wf_run (stored_run r) = wf_run r"
  by (simp_all add: stored_run_def run_key_def wf_run_def)

lemma load_saved:
  assumes saved: "save_tables st = Inr t" and keys: "\<forall>(k, s) \<in> set (Sessions st). sID s = k"
  shows "load_state t = Inr (stored_state st)"
proof -
  let ?ss = "map snd (Sessions st)"
  let ?srow = "\<lambda>s. (sID s, PrincipalDirName (sOwner s), Json (stored_session s))"
  let ?rrow = "\<lambda>r. (rSessionID r, rSeq r, PrincipalDirName (rOwner r), Json (stored_run r))"
  from saved obtain srows rrows where
    s: "map_res session_row ?ss = Inr srows" and r: "map_res run_row (Runs st) = Inr rrows"
    and d: "distinct (map fst srows)" and t: "t = \<lparr>tSessions = srows, tRuns = rrows\<rparr>"
    by (auto simp: save_tables_def split: sum.splits if_splits)
  have srows: "srows = map ?srow ?ss" using session_rows [OF s] .
  have rrows: "rrows = map ?rrow (Runs st)" using run_rows [OF r] .
  have "ListSessions t = map ?srow (sort_key sID ?ss)"
    by (simp add: ListSessions_def t srows sort_key_map del: map_map)
  then have sessions: "map_res decodeSession (ListSessions t) = Inr (map stored_session (sort_key sID ?ss))"
    by (subst map_res_total [where g = "\<lambda>(_, _, p). case p of Json v \<Rightarrow> v"])
      (auto simp: decode_stored_session)
  have runs: "map_res decodeRun (tRuns t) = Inr (map stored_run (Runs st))"
    by (subst map_res_total [where g = "\<lambda>(_, _, _, p). case p of Json v \<Rightarrow> v"])
      (auto simp: t rrows decode_stored_run)
  have "distinct (map sID ?ss)" using d by (simp add: srows comp_def)
  then have "distinct (map sID (map stored_session (sort_key sID ?ss)))"
    using distinct_map_sort [of sID sID ?ss] by (simp add: comp_def del: map_map) (simp add: comp_def)
  then have index: "index_sessions (map stored_session (sort_key sID ?ss))
      = map (\<lambda>s. (sID s, stored_session s)) (sort_key sID ?ss)"
    by (simp add: index_sessions_distinct comp_def)
  have "map (\<lambda>(k, s). (k, stored_session s)) (Sessions st) = map (\<lambda>s. (sID s, stored_session s)) ?ss"
    using keys by (auto simp: comp_def)
  then have "sort_key fst (map (\<lambda>(k, s). (k, stored_session s)) (Sessions st))
      = map (\<lambda>s. (sID s, stored_session s)) (sort_key sID ?ss)"
    by (simp add: sort_key_map del: map_map)
  with sessions runs index show ?thesis by (simp add: load_state_def stored_state_def)
qed

lemma wf_stored: "wf_state st \<Longrightarrow> wf_state (stored_state st)"
proof -
  assume st: "wf_state st"
  let ?f = "\<lambda>(k, s). (k, stored_session s)"
  have "map fst (map ?f (Sessions st)) = map fst (Sessions st)" by auto
  then have "distinct (map fst (sort_key fst (map ?f (Sessions st))))"
    using st by (simp add: distinct_map_sort wf_state_def wf_sessions_def del: map_map)
  moreover have "list_all (\<lambda>(k, s). wf_session k s) (sort_key fst (map ?f (Sessions st)))"
    using st by (auto simp: wf_state_def wf_sessions_def list_all_iff)
  moreover have "map run_key (map stored_run (Runs st)) = map run_key (Runs st)" by simp
  then have "wf_runs (map stored_run (Runs st))"
    using st by (simp add: wf_state_def wf_runs_def list_all_iff comp_def)
  ultimately show ?thesis by (simp add: wf_state_def stored_state_def wf_sessions_def)
qed

lemma wf_session_key: "wf_session k s \<Longrightarrow> sID s = k"
  by (simp add: wf_session_def)

lemma wf_state_keys: "wf_state st \<Longrightarrow> \<forall>(k, s) \<in> set (Sessions st). sID s = k"
  by (auto simp: wf_state_def wf_sessions_def list_all_iff wf_session_def)

lemma wf_tables_saved: "save_tables st = Inr t \<Longrightarrow> wf_state st \<Longrightarrow> wf_tables t"
  using load_saved [of st t] wf_state_keys [of st] wf_stored [of st]
  by (auto simp: wf_tables_def save_tables_def split: sum.splits if_splits)

lemma decodeSession_id: "decodeSession row = Inr s \<Longrightarrow> sID s = fst row"
  by (cases row) (auto simp: decodeSession_def DecodePayload_def split: payload.splits if_splits)

lemma decoded_ids: "map_res decodeSession rows = Inr ss \<Longrightarrow> map sID ss = map fst rows"
  by (induction rows arbitrary: ss) (auto split: sum.splits dest: decodeSession_id)

lemma wf_tables_list:
  assumes t: "wf_tables t" and ss: "map_res decodeSession (ListSessions t) = Inr ss" and s: "s \<in> set ss"
  shows "wf_session (sID s) s"
proof -
  have "distinct (map sID ss)"
    using t decoded_ids [OF ss] by (simp add: ListSessions_def wf_tables_def distinct_map_sort)
  then have "index_sessions ss = map (\<lambda>s. (sID s, s)) ss" by (rule index_sessions_distinct)
  moreover from t ss obtain st where "wf_state st" "Sessions st = index_sessions ss"
    by (auto simp: wf_tables_def load_state_def split: sum.splits)
  ultimately show ?thesis using s by (auto simp: wf_state_def wf_sessions_def list_all_iff)
qed

lemma decode_member:
  "map_res decodeSession rows = Inr ss \<Longrightarrow> row \<in> set rows \<Longrightarrow> \<exists>s \<in> set ss. decodeSession row = Inr s"
  by (induction rows arbitrary: ss) (auto split: sum.splits)

lemma wf_tables_row:
  assumes "wf_tables t" and "row \<in> set (tSessions t)" and "decodeSession row = Inr s"
  shows "wf_session (fst row) s"
proof -
  from assms(1) obtain ss where ss: "map_res decodeSession (ListSessions t) = Inr ss"
    by (auto simp: wf_tables_def load_state_def split: sum.splits)
  moreover have "row \<in> set (ListSessions t)" using assms(2) by (simp add: ListSessions_def)
  ultimately have "s \<in> set ss" using decode_member [OF ss, of row] assms(3) by fastforce
  then have "wf_session (sID s) s" using wf_tables_list [OF assms(1) ss] by simp
  then show ?thesis using decodeSession_id [OF assms(3)] by simp
qed

section \<open>Rules for the programs of the component\<close>

definition on_ok :: "('a \<Rightarrow> bool) \<Rightarrow> 'a res \<Rightarrow> bool" where
  "on_ok R r = (case r of Inl _ \<Rightarrow> True | Inr x \<Rightarrow> R x)"

lemma on_ok_simps [simp]: "on_ok R (Inl e)" "on_ok R (Inr x) = R x"
  by (simp_all add: on_ok_def)

lemma on_ok_True [simp]: "on_ok (\<lambda>_. True) r"
  by (simp add: on_ok_def split: sum.splits)

lemma ensures_keeps_bind:
  "keeps P m \<Longrightarrow> (\<And>x. ensures P (f x) Q) \<Longrightarrow> ensures P (State_Monad.bind m f) Q"
  by (rule ensures_bind)

lemma ensures_attempt:
  "ensures P m (on_ok R) \<Longrightarrow> (\<And>x. R x \<Longrightarrow> ensures P (f x) (on_ok Q)) \<Longrightarrow> ensures P (attempt m f) (on_ok Q)"
  unfolding attempt_def by (rule ensures_bind, assumption) (auto split: sum.split intro!: ensures_return)

lemma keeps_attempt:
  "keeps P m \<Longrightarrow> (\<And>x. keeps P (f x)) \<Longrightarrow> keeps P (attempt m f)"
  unfolding attempt_def by (rule ensures_bind, assumption) (auto split: sum.split intro!: ensures_return)

lemma keeps_weaken: "ensures P m Q \<Longrightarrow> keeps P m"
  by (rule ensures_weaken) simp_all

lemma on_ok_keeps: "keeps P m \<Longrightarrow> ensures P m (on_ok (\<lambda>_. True))"
  by (rule ensures_weaken) simp_all

lemma wf_world_frame [simp]:
  "wf_world (w\<lparr>wTick := x1\<rparr>) = wf_world w" "wf_world (w\<lparr>wTrace := x2\<rparr>) = wf_world w"
  "wf_world (w\<lparr>wCapabilities := x3\<rparr>) = wf_world w" "wf_world (w\<lparr>wLinks := x4\<rparr>) = wf_world w"
  "wf_world (w\<lparr>wPreparations := x5\<rparr>) = wf_world w" "wf_world (w\<lparr>wClosing := x6\<rparr>) = wf_world w"
  by (simp_all add: wf_world_def)

lemma wf_world_logs: "wf_world w \<Longrightarrow> logs_ok l \<Longrightarrow> wf_world (w\<lparr>wLogs := l\<rparr>)"
  by (simp add: wf_world_def)

lemma wf_world_tables: "wf_world w \<Longrightarrow> wf_tables t \<Longrightarrow> wf_world (w\<lparr>wTables := t\<rparr>)"
  by (simp add: wf_world_def)

lemma wf_tick [ensures_rules]: "keeps wf_world tick"
  by (simp add: ensures_def tick_def)

lemma wf_ask: "ensures wf_world (ask f) (\<lambda>r. \<exists>n. r = f n)"
  by (auto simp: ensures_def ask_def tick_def)

lemma keeps_ask [ensures_rules]: "keeps wf_world (ask f)"
  by (rule keeps_weaken [OF wf_ask])

lemma keeps_utcNow [ensures_rules]: "keeps wf_world (utcNow E)"
  unfolding utcNow_def by (rule keeps_ask)

lemma keeps_emit [ensures_rules]: "keeps wf_world (emit x)"
  unfolding emit_def by (rule ensures_update) simp_all

lemma keeps_fails [ensures_rules]: "keeps wf_world m \<Longrightarrow> keeps wf_world (fails m)"
  unfolding fails_def by (rule ensures_bind, assumption) (auto intro!: ensures_return)

lemma keeps_save [ensures_rules]: "wf_state st \<Longrightarrow> keeps wf_world (save E st)"
  unfolding save_def
  by (intro ensures_keeps_bind keeps_ask ensures_case_option ensures_case_sum ensures_return ensures_update TrueI)
    (auto intro: wf_world_tables wf_tables_saved)

lemma keeps_sessionStatus [ensures_rules]: "keeps wf_world (sessionStatus E ident line)"
  unfolding sessionStatus_def
  by (intro ensures_keeps_bind keeps_utcNow ensures_update TrueI)
    (auto intro!: wf_world_logs logs_append_ok simp: wf_world_def)

lemma keeps_forgetSessionBuffers [ensures_rules]: "keeps wf_world (forgetSessionBuffers ident)"
  unfolding forgetSessionBuffers_def
  by (rule ensures_update) (auto simp: wf_world_def metrics_forget_def metrics_samples_def intro: logs_forget_ok)

lemma keeps_beginOperation [ensures_rules]: "keeps wf_world (beginOperation E)"
  unfolding beginOperation_def by (intro ensures_get_bind ensures_return TrueI)

lemma keeps_write_file [ensures_rules]:
  "(\<And>w. wf_world w \<Longrightarrow> wf_world (change w)) \<Longrightarrow> keeps wf_world (write_file E change)"
  unfolding write_file_def
  by (rule ensures_keeps_bind [OF keeps_ask])
    (auto split: file_fault.split intro!: ensures_keeps_bind ensures_update ensures_return)

lemma keeps_putCapability [ensures_rules]: "keeps wf_world (putCapability E ident seq cap)"
  unfolding putCapability_def by (intro ensures_rules TrueI) simp

lemma keeps_getCapability [ensures_rules]: "keeps wf_world (getCapability E ident seq)"
  unfolding getCapability_def
  by (intro ensures_case_sum ensures_keeps_bind keeps_ask ensures_return TrueI)
    (auto split: file_fault.split intro!: ensures_get_bind ensures_return)

lemma keeps_deleteCapability [ensures_rules]: "keeps wf_world (deleteCapability E ident seq)"
  unfolding deleteCapability_def
  by (intro ensures_if ensures_case_sum ensures_get_bind ensures_keeps_bind keeps_write_file ensures_return TrueI) simp

lemma keeps_newSecret [ensures_rules]: "keeps wf_world (newSecret E)"
  unfolding newSecret_def by (rule keeps_ask)

lemma keeps_remote_run [ensures_rules]: "keeps wf_world (remote_run E r host stdin args)"
  unfolding remote_run_def by (intro ensures_keeps_bind keeps_emit keeps_ask)

lemma keeps_get_return [ensures_rules]: "ensures P (State_Monad.bind State_Monad.get (\<lambda>w. State_Monad.return (f w))) (\<lambda>_. True)"
  by (simp add: ensures_def)

lemmas prog_rules = ensures_get_bind ensures_keeps_bind

text \<open>
  What runs beside an operation: other requests and processes may change the world whenever a lock is taken or a
  table is read, but they keep it well formed.
\<close>

locale session_rely =
  fixes E :: env
  assumes others_wf: "wf_world w \<Longrightarrow> wf_world (eOthers E n w)"
begin

lemma keeps_others: "keeps wf_world (others E)"
  unfolding others_def by (intro ensures_keeps_bind wf_tick ensures_update TrueI) (simp add: others_wf)

lemma ensures_locked:
  assumes "\<And>st. wf_state st \<Longrightarrow> ensures wf_world (fn st) Q" and "\<And>e. Q (Inl e)"
  shows "ensures wf_world (locked E fn) Q"
  unfolding locked_def
proof (intro ensures_get_bind ensures_keeps_bind keeps_others keeps_ask ensures_case_option ensures_return assms(2))
  fix w
  assume "wf_world w"
  then show "ensures wf_world (case load_state (wTables w) of
      Inl e \<Rightarrow> State_Monad.return (Inl e) | Inr current \<Rightarrow> fn current) Q"
    by (auto simp: wf_world_def wf_tables_def split: sum.splits intro: assms ensures_return)
qed

lemma ensures_read:
  assumes "\<And>t. wf_tables t \<Longrightarrow> Q (f t)" and "\<And>e. Q (Inl e)"
  shows "ensures wf_world (read_tables E f) Q"
  unfolding read_tables_def
  by (intro ensures_get_bind ensures_keeps_bind keeps_others keeps_ask ensures_case_option ensures_return assms)
    (simp add: wf_world_def)

end

section \<open>Facts on requests and sessions\<close>

lemma canonicalTunnelModes_canonical: "canonicalTunnelModes ms = Inr ms' \<Longrightarrow> canonical_modes ms'"
  by (auto simp: canonicalTunnelModes_eq canonical_modes_def modeDevtunnel_def modeWebsocket_def less_eq_char_def neq_Nil_conv
      split: if_splits)

lemma validateCreate_modes:
  "validateCreate req = Inr req' \<Longrightarrow> \<exists>ms. crTunnelModes req' = Some ms \<and> canonical_modes ms"
  by (auto simp: validateCreate_def Let_def split: if_splits sum.splits dest!: canonicalTunnelModes_canonical)

lemma assignSessionID_request:
  "assignSessionID req pr = Inr req' \<Longrightarrow> idPattern (crID req') \<and> canonical_modes (request_modes req')"
  by (auto simp: assignSessionID_def Let_def request_modes_def split: sum.splits if_splits dest!: validateCreate_modes)

lemma wf_defined_session:
  "idPattern (crID req) \<Longrightarrow> canonical_modes (request_modes req) \<Longrightarrow> wf_session (crID req) (defined_session req pr t1 t2)"
  by (simp add: wf_session_def defined_session_def session_of_request_def request_modes_def valid_state_def
      session_states_def no_tunnel_def)

lemma wf_session_seq: "wf_session k s \<Longrightarrow> sState s \<noteq> ''STOPPED'' \<Longrightarrow> 1 \<le> sSeq s"
  by (auto simp: wf_session_def)

text \<open>A change of the fields the lifecycle updates, with a state the run number allows.\<close>

lemma wf_session_state [wf_intros]:
  "wf_session k s \<Longrightarrow> valid_state st \<Longrightarrow> (sSeq s = 0 \<Longrightarrow> st = ''STOPPED'') \<Longrightarrow> wf_session k (s\<lparr>sState := st\<rparr>)"
  by (simp add: wf_session_def)

lemma wf_session_frame [simp]:
  "wf_session k (s\<lparr>sError := x1\<rparr>) = wf_session k s" "wf_session k (s\<lparr>sUpdatedAt := x2\<rparr>) = wf_session k s"
  "wf_session k (s\<lparr>sJobID := x3\<rparr>) = wf_session k s" "wf_session k (s\<lparr>sNode := x4\<rparr>) = wf_session k s"
  "wf_session k (s\<lparr>sStartedAt := x5\<rparr>) = wf_session k s" "wf_session k (s\<lparr>sCreatedAt := x6\<rparr>) = wf_session k s"
  by (simp_all add: wf_session_def)

lemma valid_states [simp]:
  "valid_state ''SUBMITTING''" "valid_state ''QUEUED''" "valid_state ''STARTING''" "valid_state ''READY''"
  "valid_state ''STOPPING''" "valid_state ''STOPPED''" "valid_state ''FAILED''"
  by (simp_all add: valid_state_def session_states_def)

lemma logs_tail_length: "logs_ok l \<Longrightarrow> logs_tail l ident = Some t \<Longrightarrow> length (ltLines t) \<le> 200"
proof -
  assume l: "logs_ok l" and t: "logs_tail l ident = Some t"
  then obtain b where "alookup (tails l) ident = Some b" "ltLines t = bufStatus b @ bufRemote b"
    by (auto simp: logs_tail_def split: option.splits if_splits)
  with l have "buffer_ok b" by (simp add: logs_ok_def)
  then show ?thesis using \<open>ltLines t = _\<close> by (simp add: buffer_ok_def maxSessionLogLines_def)
qed

lemma wf_runOf:
  assumes "wf_world w" and "wf_session k s" and "terminalSession (sState s)" and "sSeq s \<noteq> 0"
  shows "wf_run (runOf (wLogs w) (wMetrics w) s)"
  using assms logs_tail_length [of "wLogs w" "sID s"]
  by (auto simp: wf_run_def runOf_def wf_session_def wf_world_def split: option.splits)

section \<open>Runs and capabilities\<close>

lemma deleteCapability_zero: "ensures wf_world (deleteCapability E ident seq) (\<lambda>r. seq = 0 \<longrightarrow> r = None)"
proof (cases "seq = 0")
  case True
  then show ?thesis by (simp add: deleteCapability_def ensures_return)
next
  case False
  then show ?thesis by (intro ensures_weaken [OF keeps_deleteCapability]) simp
qed

lemma freezeIfTerminal_wf:
  assumes "wf_state st" and "wf_session k s"
  shows "ensures wf_world (freezeIfTerminal E st s) (\<lambda>(changed, err, st', s'). wf_state st' \<and> wf_session k s')"
  unfolding freezeIfTerminal_def
proof (intro ensures_if ensures_return ensures_bind [OF deleteCapability_zero] ensures_case_option ensures_get_bind)
  show "case (False, None, st, s) of (changed, err, st', s') \<Rightarrow> wf_state st' \<and> wf_session k s'"
    using assms by simp
next
  fix r :: "go_error option" and e
  assume "sSeq s = 0 \<longrightarrow> r = None" and "r = Some e"
  with assms show "case (True, Some e, st, s\<lparr>sState := ''STOPPING'', sError := ''session cleanup pending: '' @ boundedSessionError e\<rparr>)
      of (changed, err, st', s') \<Rightarrow> wf_state st' \<and> wf_session k s'"
    by (simp add: wf_session_state)
next
  fix w
  assume w: "wf_world w" and "\<not> \<not> terminalSession (sState s)"
  then have run: "sSeq s \<noteq> 0 \<Longrightarrow> wf_run (runOf (wLogs w) (wMetrics w) s)" using wf_runOf [OF w assms(2)] by blast
  obtain b st' where rec: "recordRun st (runOf (wLogs w) (wMetrics w) s) = (b, st')" by fastforce
  have "wf_state st'"
    using wf_state_recordRun [OF assms(1), of "runOf (wLogs w) (wMetrics w) s"] run rec by (simp add: runOf_def)
  with rec assms show "ensures wf_world (case recordRun st (runOf (wLogs w) (wMetrics w) s) of
      (True, current') \<Rightarrow> do { forgetSessionBuffers (sID s); State_Monad.return (True, None, current', s) }
    | (False, _) \<Rightarrow> State_Monad.return (False, None, st, s))
    (\<lambda>(changed, err, st', s'). wf_state st' \<and> wf_session k s')"
    by (cases b) (auto intro!: ensures_keeps_bind keeps_forgetSessionBuffers ensures_return)
qed

lemma keeps_releaseTunnel [ensures_rules]: "keeps wf_world (releaseTunnel E cred ident seq tunnel)"
  unfolding releaseTunnel_def tunnel_delete_def by (intro prog_rules ensures_rules TrueI)

lemma keeps_create_tunnel [ensures_rules]: "keeps wf_world (create_tunnel E s cred seq)"
  unfolding create_tunnel_def tunnel_create_def Let_def by (intro prog_rules ensures_rules TrueI)

lemma issueSession_result:
  "ensures wf_world (issueSession E s pr cred seq)
     (on_ok (\<lambda>(s', hostToken, cap). \<exists>tunnel. idPattern (sID s) \<and> 1 \<le> seq
        \<and> s' = s\<lparr>sSeq := seq, sJobName := jobName (sID s) seq, sOwner := pr, sTunnel := tunnel\<rparr>))"
  unfolding issueSession_def Let_def attempt_def
  by (intro prog_rules ensures_rules on_ok_simps) (auto intro!: ensures_return)

section \<open>Reconciliation\<close>

text \<open>
  What reconciliation may make of a snapshot: the same session, in a valid state, and in the same state unless the
  snapshot's state was one the scheduler decides.
\<close>

definition cand_ok :: "Session \<Rightarrow> Session \<Rightarrow> bool" where
  "cand_ok snap cand \<longleftrightarrow>
     sID cand = sID snap \<and> (valid_state (sState snap) \<longrightarrow> valid_state (sState cand))
     \<and> (\<not> reconcilable (sState snap) \<longrightarrow> sState cand = sState snap)"

definition entry_ok :: "Session \<Rightarrow> entry \<Rightarrow> bool" where
  "entry_ok snap = (\<lambda>(scheduled, s, lines). cand_ok snap s \<and> (scheduled \<longrightarrow> reconcilable (sState snap)))"

lemma entry_ok_pair: "entry_ok snap (b, r) \<longleftrightarrow> cand_ok snap (fst r) \<and> (b \<longrightarrow> reconcilable (sState snap))"
  by (cases r) (simp add: entry_ok_def)

lemma cand_ok_refl [simp]: "cand_ok s s"
  by (simp add: cand_ok_def)

lemma nextState_valid [simp]: "valid_state (nextState current st)"
  by (simp add: nextState_def)

lemma observe_session_ok:
  "cand_ok snap s \<Longrightarrow> reconcilable (sState snap) \<Longrightarrow> cand_ok snap (fst (observe_session linked now s ob cancelError))"
  by (auto simp: observe_session_def cand_ok_def Let_def)

lemma missing_ok:
  "cand_ok snap s \<Longrightarrow> reconcilable (sState snap) \<Longrightarrow> cand_ok snap (fst (missingFromScheduler s cancelError now))"
  by (auto simp: missingFromScheduler_def cand_ok_def)

lemma unreachable_ok:
  "cand_ok snap s \<Longrightarrow> reconcilable (sState snap) \<Longrightarrow> cand_ok snap (fst (unreachableScheduler s e now))"
  by (auto simp: unreachableScheduler_def cand_ok_def)

lemma probeTunnel_ok:
  "sState s = ''QUEUED'' \<Longrightarrow> ensures wf_world (probeTunnel E s) (\<lambda>r. cand_ok s (fst r))"
  unfolding probeTunnel_def
  by (intro prog_rules ensures_rules) (auto simp: cand_ok_def reconcilable_def)

lemma first_pass_ok: "ensures wf_world (first_pass E s) (entry_ok s)"
  unfolding first_pass_def
  by (intro ensures_if ensures_return ensures_bind [OF probeTunnel_ok])
    (auto simp: entry_ok_def cand_ok_def reconcilable_def)

lemma settle_entry_ok:
  assumes "entry_ok snap en"
  shows "ensures wf_world (settle_entry E answer sc en) (entry_ok snap)"
proof (cases "in_scope sc en")
  case False
  with assms show ?thesis by (simp add: settle_entry_def ensures_return split: prod.splits)
next
  case True
  obtain s lines where en: "en = (True, s, lines)" and ok: "cand_ok snap s" and rec: "reconcilable (sState snap)"
    using True assms by (cases en) (auto simp: in_scope_def entry_ok_def)
  have step: "ensures wf_world (do { r \<leftarrow> m; State_Monad.return (True, r) }) (entry_ok snap)"
    if "ensures wf_world m (\<lambda>r. cand_ok snap (fst r))" for m
    by (rule ensures_bind [OF that]) (auto simp: entry_ok_def rec intro!: ensures_return)
  show ?thesis
  proof (cases answer)
    case (Inl e)
    show ?thesis
      unfolding settle_entry_def en Inl using True en
      by (simp, intro prog_rules ensures_rules) (simp add: entry_ok_pair unreachable_ok ok rec)
  next
    case (Inr a)
    obtain obs cancels where a: "a = (obs, cancels)" by (cases a)
    show ?thesis
      unfolding settle_entry_def en Inr a using True en
      by (simp, intro step ensures_let ensures_case_option)
        (auto simp: applyObservation_def intro!: prog_rules ensures_rules missing_ok observe_session_ok ok rec)
  qed
qed

lemma list_all2_map_prog:
  assumes "list_all2 R xs ys" and "\<And>x y. R x y \<Longrightarrow> ensures P (f y) (R x)"
  shows "ensures P (map_prog f ys) (list_all2 R xs)"
  using assms(1)
proof (induction rule: list_all2_induct)
  case Nil
  then show ?case by (simp add: ensures_return)
next
  case (Cons x xs y ys)
  then show ?case
    by (auto intro!: ensures_bind [OF assms(2)] ensures_bind [where R = "list_all2 R xs"] ensures_return)
qed

lemma keeps_schedulerObservations [ensures_rules]: "keeps wf_world (schedulerObservations E r host ss)"
  unfolding schedulerObservations_def by (intro prog_rules ensures_rules TrueI)

lemma reconcile_scope_ok:
  "list_all2 entry_ok snaps entries \<Longrightarrow> ensures wf_world (reconcile_scope E entries sc) (list_all2 entry_ok snaps)"
  unfolding reconcile_scope_def
  by (intro prog_rules ensures_rules list_all2_map_prog settle_entry_ok)

lemma keeps_readRemoteSessionTails [ensures_rules]: "keeps wf_world (readRemoteSessionTails E r host targets)"
  unfolding readRemoteSessionTails_def by (intro prog_rules ensures_rules TrueI)

lemma keeps_merge_tail [ensures_rules]: "keeps wf_world (merge_tail E got started target)"
proof -
  have "wf_world (w\<lparr>wTick := n, wLogs := snd (mergeRemote ident out err t (wLogs w))\<rparr>)"
    if "wf_world w" for w n ident out err t
    using that by (intro wf_world_logs mergeRemote_ok) (simp_all add: wf_world_def)
  then show ?thesis
    by (auto simp: merge_tail_def ensures_def utcNow_def ask_def tick_def Let_def)
qed

lemma keeps_fold_prog [ensures_rules]:
  "(\<And>a x. keeps P (f a x)) \<Longrightarrow> keeps P (fold_prog f acc xs)"
  by (rule ensures_fold_prog) simp_all

lemma keeps_collect_chunks [ensures_rules]: "keeps wf_world (collect_chunks E started cs)"
proof (induction cs arbitrary: started)
  case Nil
  then show ?case by (simp add: ensures_return)
next
  case (Cons c cs)
  show ?case unfolding collect_chunks.simps by (intro prog_rules ensures_rules Cons TrueI)
qed

lemma fold_sensitive_ok: "logs_ok l \<Longrightarrow> logs_ok (foldl (\<lambda>l s. setSessionSensitive (f s) (g s) l) l ss)"
  by (induction ss arbitrary: l) (simp_all add: setSessionSensitive_ok)

lemma keeps_collectStartingSessionLogs [ensures_rules]: "keeps wf_world (collectStartingSessionLogs E ss)"
  unfolding collectStartingSessionLogs_def
  by (intro prog_rules ensures_rules ensures_update TrueI)
    (auto intro!: wf_world_logs fold_sensitive_ok simp: wf_world_def)

lemma mark_started_ok: "entry_ok snap en \<Longrightarrow> cand_ok snap (fst (mark_started started en))"
  by (auto simp: mark_started_def entry_ok_def cand_ok_def reconcilable_def split: prod.splits)

lemma reconcileSnapshots_ok:
  "ensures wf_world (reconcileSnapshots E snaps) (list_all2 (\<lambda>snap c. cand_ok snap (fst c)) snaps)"
proof -
  have same: "list_all2 (\<lambda>snap c. cand_ok snap (fst c)) snaps (unchanged snaps)"
    by (simp add: unchanged_def list_all2_map2 list.rel_refl)
  have marked: "list_all2 (\<lambda>snap c. cand_ok snap (fst c)) snaps (map (mark_started started) entries)"
    if "list_all2 entry_ok snaps entries" for entries started
    using that by (auto simp: list_all2_map2 elim!: list_all2_mono intro: mark_started_ok)
  have first: "ensures wf_world (map_prog (first_pass E) snaps) (list_all2 entry_ok snaps)"
    by (rule ensures_map_prog) (rule first_pass_ok)
  have scopes: "ensures wf_world (fold_prog (reconcile_scope E) entries scs) (list_all2 entry_ok snaps)"
    if "list_all2 entry_ok snaps entries" for entries scs
    using that by (rule ensures_fold_prog) (rule reconcile_scope_ok)
  show ?thesis
    unfolding reconcileSnapshots_def
    by (rule ensures_bind [OF first], rule ensures_bind [OF scopes], assumption)
      (auto intro!: prog_rules ensures_rules same marked)
qed

lemma mergeReconciled_wf:
  assumes "wf_session k c" and "cand_ok snap cand" and "mergeReconciled (Some c) snap cand t = (b, Some s)"
  shows "wf_session k s"
proof (cases b)
  case False
  with assms show ?thesis by (auto simp: mergeReconciled_def split: if_splits)
next
  case True
  with assms(3) have state: "sState c = sState snap"
    and s: "s = c\<lparr>sState := sState cand, sError := sError cand, sJobID := sJobID cand, sNode := sNode cand,
        sUpdatedAt := t, sStartedAt := sStartedAt cand\<rparr>"
    by (auto simp: mergeReconciled_def reconciliationSnapshotCurrent_def split: if_splits)
  have "valid_state (sState cand)" "sSeq c = 0 \<Longrightarrow> sState cand = ''STOPPED''"
    using assms(1,2) state by (auto simp: wf_session_def cand_ok_def reconcilable_def)
  with assms(1) show ?thesis by (simp add: s wf_session_def)
qed

lemma keeps_narrateReconciled [ensures_rules]: "keeps wf_world (narrateReconciled E current snap lines)"
  unfolding narrateReconciled_def by (intro prog_rules ensures_rules TrueI)

lemma reconcile_one_wf:
  assumes "wf_state (snd acc)" and "cand_ok snap (fst c)"
  shows "ensures wf_world (reconcile_one E acc (snap, c)) (\<lambda>r. wf_state (snd r))"
proof -
  obtain changed current cand lines where acc: "acc = (changed, current)" and c: "c = (cand, lines)"
    by (cases acc, cases c)
  let ?stored = "alookup (Sessions current) (sID snap)"
  have step: "ensures wf_world (case mergeReconciled ?stored snap cand t of
        (True, Some s) \<Rightarrow> do {
           outcome \<leftarrow> freezeIfTerminal E current s;
           (case outcome of (_, _, current', s') \<Rightarrow> State_Monad.return (True, put_session current' (sID snap) s')) }
      | _ \<Rightarrow> State_Monad.return (changed, current)) (\<lambda>r. wf_state (snd r))" for t
  proof (cases "\<exists>s. mergeReconciled ?stored snap cand t = (True, Some s)")
    case False
    with assms show ?thesis by (auto simp: acc intro!: ensures_return split: prod.splits bool.splits option.splits)
  next
    case True
    then obtain s where m: "mergeReconciled ?stored snap cand t = (True, Some s)" by blast
    then obtain stored where st: "?stored = Some stored"
      by (cases ?stored) (auto simp: mergeReconciled_def reconciliationSnapshotCurrent_def)
    from wf_state_lookup [OF _ st] assms(1) have "wf_session (sID snap) stored" by (simp add: acc)
    with m st assms(2) have "wf_session (sID snap) s" using mergeReconciled_wf by (metis c fst_conv)
    then have "ensures wf_world (freezeIfTerminal E current s) (\<lambda>(b, e, st', s'). wf_state st' \<and> wf_session (sID snap) s')"
      using assms(1) by (intro freezeIfTerminal_wf) (simp_all add: acc)
    then show ?thesis
      unfolding m by (simp, elim ensures_bind) (auto intro!: ensures_return wf_state_put)
  qed
  show ?thesis
    unfolding reconcile_one_def acc c prod.case Let_def
    by (intro ensures_keeps_bind keeps_narrateReconciled keeps_utcNow step)
qed

section \<open>Every operation\<close>

lemma keeps_map_state: "keeps wf_world m \<Longrightarrow> keeps wf_world (do { r \<leftarrow> m; State_Monad.return (f r) })"
  by (rule ensures_keeps_bind) (auto intro: ensures_return)

context session_rely
begin

lemma keeps_locked:
  "(\<And>st. wf_state st \<Longrightarrow> keeps wf_world (fn st)) \<Longrightarrow> keeps wf_world (locked E fn)"
  by (rule ensures_locked) simp_all

lemma loadSessions_wf: "ensures wf_world (loadSessions E) (on_ok (list_all (\<lambda>s. wf_session (sID s) s)))"
  unfolding loadSessions_def
  by (rule ensures_read) (auto simp: on_ok_def list_all_iff split: sum.split intro: wf_tables_list)

lemma loadSession_wf: "ensures wf_world (loadSession E ident) (on_ok (wf_session ident))"
  unfolding loadSession_def
  by (rule ensures_read)
    (auto simp: on_ok_def find_Some_iff in_set_conv_nth split: sum.split option.split dest!: wf_tables_row)

lemma keeps_loadSession: "keeps wf_world (loadSession E ident)"
  by (rule keeps_weaken [OF loadSession_wf])

lemma keeps_Define: "keeps wf_world (Define E pr raw)"
  unfolding Define_def Let_def
  by (intro prog_rules ensures_rules keeps_locked wf_state_put TrueI)
    (auto dest: assignSessionID_request intro: wf_defined_session)

lemma keeps_tunnelCredential: "keeps wf_world (tunnelCredential E pr modes)"
  unfolding tunnelCredential_def by (intro prog_rules ensures_rules TrueI)

lemma claimLaunch_wf:
  "ensures wf_world (claimLaunch E ident pr) (on_ok (\<lambda>s. wf_session ident s \<and> terminalSession (sState s)))"
  unfolding claimLaunch_def
  by (rule ensures_locked) (auto intro!: ensures_return split: option.split dest: wf_state_lookup)

lemma keeps_persistSubmitIntent:
  "wf_session (sID intent) intent \<Longrightarrow> keeps wf_world (persistSubmitIntent E previous intent)"
  unfolding persistSubmitIntent_def
  by (intro keeps_locked ensures_case_option ensures_if prog_rules ensures_rules wf_state_put TrueI)

lemma claimRun_wf:
  assumes "valid_state (sState intent0)" and "canonical_modes (sTunnelModes intent0)"
  shows "keeps wf_world (claimRun E pr cred intent0)"
proof -
  have intent: "wf_session (sID intent) intent"
    if "wf_session (sID intent0) previous"
      and "intent = intent0\<lparr>sCreatedAt := c, sUpdatedAt := t, sSeq := sSeq previous + 1,
          sJobName := jobName (sID intent0) (sSeq previous + 1), sOwner := pr, sTunnel := tunnel\<rparr>"
    for previous intent c t tunnel
    using that assms by (auto simp: wf_session_def)
  show ?thesis
    unfolding claimRun_def
  proof (rule keeps_weaken, rule ensures_attempt [where Q = "\<lambda>_. True"], rule claimLaunch_wf, intro ensures_keeps_bind keeps_utcNow)
    fix previous t
    assume prev: "wf_session (sID intent0) previous \<and> terminalSession (sState previous)"
    show "ensures wf_world
      (attempt (issueSession E (intent0\<lparr>sCreatedAt := sCreatedAt previous, sUpdatedAt := t\<rparr>) pr cred (sSeq previous + 1))
         (\<lambda>(intent, hostToken, cap). do {
           r \<leftarrow> persistSubmitIntent E previous intent;
           (case r of
              Inr _ \<Rightarrow> State_Monad.return (Inr (intent, hostToken, cap))
            | Inl e \<Rightarrow> do {
                released \<leftarrow> releaseTunnel E cred (sID intent) (sSeq intent) (sTunnel intent);
                State_Monad.return (Inl (join_error_list e released)) }) })) (on_ok (\<lambda>_. True))"
      by (rule ensures_attempt [OF issueSession_result])
        (use prev in \<open>auto intro!: prog_rules ensures_rules keeps_persistSubmitIntent intent\<close>)
  qed
qed

lemma keeps_freezeRun: "wf_session k s \<Longrightarrow> keeps wf_world (freezeRun E s)"
  unfolding freezeRun_def
  by (intro keeps_locked ensures_bind [OF freezeIfTerminal_wf], assumption+)
    (auto intro!: prog_rules ensures_rules)

lemma retireFinished_wf: "ensures wf_world (retireFinished E pr ident) (on_ok (wf_session ident))"
  unfolding retireFinished_def
proof (rule ensures_attempt [OF claimLaunch_wf])
  fix s
  assume s: "wf_session ident s \<and> terminalSession (sState s)"
  have "keeps wf_world (if tmID (sTunnel s) = [] then State_Monad.return (Inr ())
      else attempt (ask (\<lambda>n. eCredential E n pr)) (\<lambda>cred. fails (releaseTunnel E cred (sID s) (sSeq s) (sTunnel s))))"
    by (intro ensures_rules keeps_attempt TrueI)
  moreover have "keeps wf_world (freezeRun E s)" using s keeps_freezeRun by blast
  ultimately show "ensures wf_world
      (attempt (if tmID (sTunnel s) = [] then State_Monad.return (Inr ())
        else attempt (ask (\<lambda>n. eCredential E n pr)) (\<lambda>cred. fails (releaseTunnel E cred (sID s) (sSeq s) (sTunnel s))))
        (\<lambda>_. attempt (freezeRun E s) (\<lambda>_. State_Monad.return (Inr s)))) (on_ok (wf_session ident))"
    using s by (intro ensures_attempt [OF on_ok_keeps] ensures_return) simp_all
qed

lemma keeps_recordSubmittedJob: "keeps wf_world (recordSubmittedJob E ident job)"
  unfolding recordSubmittedJob_def Let_def
  by (intro keeps_locked prog_rules ensures_rules wf_state_put TrueI)
    (auto dest!: wf_state_lookup simp: wf_session_def)

lemma keeps_scancel: "keeps wf_world (scancelWithOwnTimeout E r host job)"
  unfolding scancelWithOwnTimeout_def by (intro prog_rules ensures_rules TrueI)

lemma keeps_cancelSupersededJob: "keeps wf_world (cancelSupersededJob E r host ident job)"
  unfolding cancelSupersededJob_def Let_def
  by (intro keeps_locked prog_rules ensures_rules keeps_scancel wf_state_put TrueI)
    (auto dest: wf_state_lookup)

lemma keeps_abandonSubmitIntent: "keeps wf_world (abandonSubmitIntent E cred intent)"
  unfolding abandonSubmitIntent_def Let_def
  by (intro keeps_locked prog_rules ensures_rules wf_state_put TrueI)
    (auto dest!: wf_state_lookup simp: wf_session_def no_tunnel_def)

lemma keeps_abandon_with: "keeps wf_world (abandon_with E cred intent e)"
  unfolding abandon_with_def by (intro prog_rules keeps_abandonSubmitIntent ensures_return TrueI)

lemma keeps_launch_submitted: "keeps wf_world (launch_submitted E r host ident job)"
  unfolding launch_submitted_def
  by (intro prog_rules ensures_rules keeps_recordSubmittedJob keeps_scancel keeps_attempt keeps_cancelSupersededJob TrueI)

lemma keeps_provision_run: "keeps wf_world (provision_run E r alias s home linkspan)"
  unfolding provision_run_def Let_def by (intro prog_rules ensures_rules TrueI)

lemma keeps_provisionSession: "keeps wf_world (provisionSession E r alias s home linkspan)"
proof -
  have inner: "keeps wf_world (do {
      started \<leftarrow> beginOperation E;
      result \<leftarrow> (case started of Inl e \<Rightarrow> State_Monad.return (Some e) | Inr _ \<Rightarrow> provision_run E r alias s home linkspan);
      State_Monad.update (\<lambda>w. w\<lparr>wPreparations := removeAll key (wPreparations w)\<rparr>);
      State_Monad.return result })" for key
    by (intro ensures_keeps_bind ensures_rules keeps_provision_run ensures_update TrueI) simp
  have put: "keeps wf_world (do { State_Monad.set (w\<lparr>wPreparations := x\<rparr>); m })"
    if "wf_world w" "keeps wf_world m" for w x and m :: "'a prog"
    using that by (simp add: ensures_def)
  show ?thesis
    unfolding provisionSession_def Let_def
    by (rule ensures_get_bind, rule ensures_if, rule ensures_return, rule TrueI, rule put, assumption, rule inner)
qed

lemma keeps_submitSessionScript: "keeps wf_world (submitSessionScript E r host s script cap hostToken)"
  unfolding submitSessionScript_def Let_def by (intro prog_rules ensures_rules TrueI)

lemma keeps_launch_claimed: "keeps wf_world (launch_claimed E r cred host prepared claimed)"
  unfolding launch_claimed_def Let_def
  by (intro prog_rules ensures_rules keeps_provisionSession keeps_abandon_with keeps_submitSessionScript
      keeps_launch_submitted TrueI)

lemma keeps_discover_prog: "keeps wf_world (discover_prog E r alias)"
  unfolding discover_prog_def by (intro prog_rules ensures_rules TrueI)

lemma keeps_resolveWorkspaceRoot: "keeps wf_world (resolveWorkspaceRoot E r alias home expression)"
  unfolding resolveWorkspaceRoot_def Let_def by (intro prog_rules ensures_rules TrueI)

lemma prepare_steps_session:
  assumes "\<And>line. keeps wf_world (say line)"
  shows "ensures wf_world (prepare_steps E r say req)
    (on_ok (\<lambda>p. sID (prepSession p) = crID req \<and> sTunnelModes (prepSession p) = request_modes req))"
  unfolding prepare_steps_def Let_def
  by (intro prog_rules ensures_rules keeps_discover_prog on_ok_simps assms
      ensures_attempt [OF on_ok_keeps] keeps_resolveWorkspaceRoot TrueI)
    (simp add: session_of_request_def request_modes_def)

lemma prepareSession_session:
  assumes "\<And>line. keeps wf_world (say line)"
  shows "ensures wf_world (prepareSession E r say req)
    (on_ok (\<lambda>p. sID (prepSession p) = crID req \<and> sTunnelModes (prepSession p) = request_modes req))"
  unfolding prepareSession_def
  by (rule ensures_keeps_bind [OF assms], rule ensures_bind [OF prepare_steps_session [OF assms]])
    (auto split: sum.split intro!: ensures_keeps_bind assms ensures_return)

lemma keeps_check_prog: "keeps wf_world (check_prog E r host script)"
  unfolding check_prog_def by (intro prog_rules ensures_rules TrueI)

lemma keeps_validateForCreate: "keeps wf_world (validateForCreate E r req script)"
  unfolding validateForCreate_def Let_def by (intro prog_rules ensures_rules keeps_check_prog TrueI)

lemma keeps_launchSerialized:
  assumes "canonical_modes (request_modes req)"
  shows "keeps wf_world (launchSerialized E r req pr)"
  unfolding launchSerialized_def
  by (rule keeps_weaken, rule ensures_attempt [OF on_ok_keeps [OF keeps_tunnelCredential]],
      rule ensures_attempt [OF prepareSession_session [OF keeps_sessionStatus]],
      rule ensures_attempt [OF on_ok_keeps [OF keeps_validateForCreate]],
      rule ensures_attempt [OF on_ok_keeps [OF keeps_beginOperation]], rule on_ok_keeps, rule keeps_attempt)
    (use assms in \<open>auto intro!: claimRun_wf keeps_launch_claimed\<close>)

lemma keeps_serialized: "keeps wf_world m \<Longrightarrow> keeps wf_world (serialized E m)"
  unfolding serialized_def by (intro prog_rules ensures_rules TrueI)

lemma keeps_launch: "canonical_modes (request_modes req) \<Longrightarrow> keeps wf_world (launch E r pr req)"
  unfolding launch_def forgetUnpersistedBuffers_def
  by (intro prog_rules ensures_rules keeps_serialized keeps_launchSerialized keeps_loadSession TrueI)

lemma keeps_Start: "keeps wf_world (Start E pr ident)"
  unfolding Start_def
  by (rule keeps_weaken, rule ensures_attempt [OF retireFinished_wf], rule on_ok_keeps, rule keeps_launch)
    (simp add: wf_session_def start_request_def request_modes_def)

lemma keeps_Attach: "keeps wf_world (Attach E pr ident modes)"
proof -
  have modes: "ensures wf_world (State_Monad.return (case modes of None \<Rightarrow> Inr (sTunnelModes previous)
      | Some ms \<Rightarrow> canonicalTunnelModes ms)) (on_ok canonical_modes)" if "wf_session ident previous" for previous
    using that
    by (auto intro!: ensures_return simp: on_ok_def wf_session_def split: option.split sum.split
        dest: canonicalTunnelModes_canonical)
  show ?thesis
    unfolding Attach_def
    by (rule keeps_weaken, rule ensures_attempt [OF retireFinished_wf], rule ensures_attempt [OF modes], assumption,
        rule on_ok_keeps, intro keeps_attempt keeps_tunnelCredential keeps_beginOperation keeps_serialized claimRun_wf
        prog_rules ensures_rules TrueI)
      (simp_all add: attach_intent_def)
qed

lemma claim_stop_wf: "ensures wf_world (claim_stop E pr ident) (on_ok (\<lambda>(s, already). wf_session ident s))"
proof -
  have "ensures wf_world (case alookup (Sessions st) ident of
       None \<Rightarrow> State_Monad.return (Inl errSessionNotFound)
     | Some s \<Rightarrow>
         if sOwner s \<noteq> pr then State_Monad.return (Inl errOwnerMismatch)
         else if terminalSession (sState s) then State_Monad.return (Inr (s, True))
         else do {
           t \<leftarrow> utcNow E;
           (let s1 = s\<lparr>sState := ''STOPPING'', sError := [], sUpdatedAt := t\<rparr>
            in do {
              r \<leftarrow> save E (put_session st ident s1);
              State_Monad.return (case r of Some e \<Rightarrow> Inl e | None \<Rightarrow> Inr (s1, False)) }) })
     (on_ok (\<lambda>(s, already). wf_session ident s))" if st: "wf_state st" for st
  proof (cases "alookup (Sessions st) ident")
    case None
    then show ?thesis by (simp add: ensures_return)
  next
    case (Some s)
    with st have s: "wf_session ident s" by (rule wf_state_lookup)
    moreover have "wf_session ident (s\<lparr>sState := ''STOPPING'', sError := [], sUpdatedAt := t\<rparr>)"
      if "\<not> terminalSession (sState s)" for t
      using that s by (simp add: wf_session_def terminalSession_def)
    ultimately show ?thesis
      unfolding Some Let_def option.case
      by (intro prog_rules ensures_rules wf_state_put st) (auto split: option.split)
  qed
  then show ?thesis unfolding claim_stop_def by (rule ensures_locked) (simp_all only: on_ok_simps)
qed

lemma settle_tunnel_wf:
  "wf_session k (snd m) \<Longrightarrow> wf_session k (snd (settle_tunnel snap err t m))"
  by (auto simp: settle_tunnel_def wf_session_def no_tunnel_def split: prod.splits option.splits)

lemma keeps_finish_stop:
  assumes "cand_ok snap (fst cand)"
  shows "keeps wf_world (finish_stop E ident snap already err cand)"
  unfolding finish_stop_def
proof (rule keeps_locked)
  fix st
  assume st: "wf_state st"
  show "keeps wf_world (case alookup (Sessions st) ident of
       None \<Rightarrow> State_Monad.return (Inl errSessionNotFound)
     | Some stored \<Rightarrow> do {
         narrateReconciled E (Some stored) snap (snd cand);
         t1 \<leftarrow> utcNow E;
         t2 \<leftarrow> utcNow E;
         (let merged = (case mergeReconciled (Some stored) snap (fst cand) t1 of
                (changed, Some s) \<Rightarrow> (changed, s) | (changed, None) \<Rightarrow> (changed, stored));
              settled = settle_tunnel snap err t2 merged
          in do {
            (if sState (snd settled) = ''STOPPED'' \<and> \<not> already
             then sessionStatus E ident ''Session stopped'' else State_Monad.return ());
            outcome \<leftarrow> freezeIfTerminal E st (snd settled);
            (case outcome of (frozen, freezeErr, current', s) \<Rightarrow>
               if frozen \<or> fst settled then do {
                 r \<leftarrow> save E (put_session current' ident s);
                 State_Monad.return (case r of
                     Some e \<Rightarrow> Inl e
                   | None \<Rightarrow> (case freezeErr of Some e \<Rightarrow> Inl e | None \<Rightarrow> Inr s)) }
               else State_Monad.return (case freezeErr of Some e \<Rightarrow> Inl e | None \<Rightarrow> Inr s)) }) })"
  proof (cases "alookup (Sessions st) ident")
    case None
    then show ?thesis by (simp add: ensures_return)
  next
    case (Some stored)
    with st have "wf_session ident stored" by (rule wf_state_lookup)
    then have merged: "wf_session ident (snd (case mergeReconciled (Some stored) snap (fst cand) t of
        (changed, Some s) \<Rightarrow> (changed, s) | (changed, None) \<Rightarrow> (changed, stored)))" for t
      using mergeReconciled_wf [OF _ assms] by (auto split: prod.split option.split)
    have frozen: "ensures wf_world (freezeIfTerminal E st s) (\<lambda>(b, e, st', s'). wf_state st' \<and> wf_session ident s')"
      if "wf_session ident s" for s
      using freezeIfTerminal_wf [OF st that] .
    show ?thesis
      unfolding Some option.case Let_def
      by (intro ensures_keeps_bind keeps_narrateReconciled keeps_utcNow ensures_if keeps_sessionStatus ensures_return TrueI
          ensures_bind [OF frozen] settle_tunnel_wf merged)
        (auto intro!: prog_rules ensures_rules wf_state_put)
  qed
qed

lemma keeps_Stop: "keeps wf_world (Stop E pr ident)"
proof -
  have pending: "ensures wf_world (do {
      candidates \<leftarrow> reconcileSnapshots E [snap];
      (let c = hd candidates
       in do {
         (if sError (fst c) \<noteq> [] then sessionStatus E ident ''Session stop is pending'' else State_Monad.return ());
         State_Monad.return c }) }) (\<lambda>c. cand_ok snap (fst c))" for snap
    by (rule ensures_bind [OF reconcileSnapshots_ok])
      (auto simp: list_all2_Cons1 Let_def intro!: prog_rules ensures_rules)
  have candidate: "ensures wf_world (if reconcilable (sState snap) then do {
      (if sLauncher snap \<noteq> launcherClient then sessionStatus E ident ''Requesting scheduler cancellation''
       else State_Monad.return ());
      candidates \<leftarrow> reconcileSnapshots E [snap];
      (let c = hd candidates
       in do {
         (if sError (fst c) \<noteq> [] then sessionStatus E ident ''Session stop is pending'' else State_Monad.return ());
         State_Monad.return c }) }
     else State_Monad.return (snap, [])) (\<lambda>c. cand_ok snap (fst c))" for snap
    by (intro ensures_if ensures_keeps_bind keeps_sessionStatus ensures_return TrueI pending) simp
  show ?thesis
    unfolding Stop_def
    by (rule keeps_attempt [OF keeps_beginOperation], rule keeps_attempt [OF keeps_weaken [OF claim_stop_wf]])
      (auto intro!: ensures_keeps_bind keeps_sessionStatus ensures_return keeps_ask keeps_releaseTunnel ensures_update
        ensures_bind [OF candidate] keeps_finish_stop)
qed

lemma keeps_Delete: "keeps wf_world (Delete E pr ident)"
  unfolding Delete_def
  by (intro keeps_attempt keeps_locked prog_rules ensures_rules wf_state_del TrueI)

lemma wf_adopted_run:
  "wf_session k s \<Longrightarrow> finished_run_ok r \<Longrightarrow> wf_run (adopted_run s pr i r)"
  by (simp add: wf_run_def adopted_run_def finished_run_ok_def wf_session_def)

lemma wf_adopt_all:
  assumes "wf_session k s" and "list_all finished_run_ok rs" and "wf_state st"
  shows "wf_state (adopt_all s pr rs st)"
proof -
  have "wf_state (foldl (\<lambda>st (i, r). snd (recordRun st (adopted_run s pr i r))) st xs)"
    if "list_all finished_run_ok (map snd xs)" "wf_state st" for st xs
    using that
  proof (induction xs arbitrary: st)
    case (Cons x xs)
    obtain i r where x: "x = (i, r)" by (cases x)
    have "wf_state (snd (recordRun st (adopted_run s pr i r)))"
      using Cons.prems x wf_adopted_run [OF assms(1)] by (intro wf_state_recordRun) simp_all
    with Cons x show ?case by simp
  qed simp
  from this [of "enumerate 0 rs" st] assms(2,3) show ?thesis by (simp add: adopt_all_def)
qed

lemma wf_adopted_session:
  assumes "wf_session k s" and "sSeq s = 0" and "shRuns h \<noteq> []" and "list_all finished_run_ok (shRuns h)"
  shows "wf_session k (adopted_session s h t)"
proof -
  have "terminalSession (frFinalState (last (shRuns h)))"
    using assms(3,4) by (auto simp: list_all_iff finished_run_ok_def)
  then have "valid_state (frFinalState (last (shRuns h)))" by (simp add: valid_state_cases)
  with assms show ?thesis by (simp add: wf_session_def adopted_session_def Let_def)
qed

lemma keeps_AdoptRuns: "keeps wf_world (AdoptRuns E pr ident h)"
  unfolding AdoptRuns_def Let_def
  by (intro keeps_locked prog_rules ensures_rules wf_state_put wf_adopt_all TrueI)
    (auto dest!: wf_state_lookup intro: wf_adopted_session)

lemma keeps_reconcileAll: "keeps wf_world (reconcileAll E)"
proof -
  have fold: "ensures wf_world (fold_prog (reconcile_one E) (False, st) (zip snaps cands)) (\<lambda>r. wf_state (snd r))"
    if "list_all2 (\<lambda>snap c. cand_ok snap (fst c)) snaps cands" "wf_state st" for snaps cands st
    by (rule ensures_fold_prog)
      (use that in \<open>auto intro!: reconcile_one_wf simp: list_all2_iff simp del: snd_conv\<close>, simp add: that)
  have cycle: "keeps wf_world (do {
      r \<leftarrow> fold_prog (reconcile_one E) (False, st) (zip snaps cands);
      (if fst r then fails (save E (snd r)) else State_Monad.return (Inr ())) })"
    if "list_all2 (\<lambda>snap c. cand_ok snap (fst c)) snaps cands" "wf_state st" for snaps cands st
    by (rule ensures_bind [OF fold [OF that]]) (intro ensures_rules TrueI)
  show ?thesis
    unfolding reconcileAll_def
    by (rule keeps_attempt [OF keeps_weaken [OF loadSessions_wf]], rule ensures_bind [OF reconcileSnapshots_ok],
        intro ensures_keeps_bind keeps_ask ensures_case_option ensures_return TrueI keeps_locked cycle)
qed

lemma keeps_read: "keeps wf_world (read_tables E f)"
  by (rule ensures_read) simp_all

lemma keeps_Get: "keeps wf_world (Get E pr ident)"
  unfolding Get_def by (intro keeps_map_state keeps_loadSession)

lemma keeps_reachable: "keeps wf_world (reachable E s)"
  unfolding reachable_def by (intro ensures_keeps_bind keeps_getCapability keeps_get_return)

lemma keeps_Access: "keeps wf_world (Access E pr ident)"
  unfolding Access_def by (intro keeps_attempt keeps_Get keeps_reachable prog_rules ensures_rules TrueI)

lemma keeps_linkedSession: "keeps wf_world (linkedSession E ident protocols)"
  unfolding linkedSession_def by (intro keeps_loadSession prog_rules ensures_rules TrueI)

lemma keeps_authorizedSession: "keeps wf_world (authorizedSession E ident method token)"
  unfolding authorizedSession_def by (intro keeps_loadSession keeps_reachable prog_rules ensures_rules TrueI)

lemma keeps_Forward: "keeps wf_world (Forward E ident protocols rawPort)"
  unfolding Forward_def by (intro keeps_map_state keeps_authorizedSession)

lemma keeps_Link: "keeps wf_world (Link E ident protocols mux)"
  unfolding Link_def link_ready_def
  by (intro keeps_linkedSession prog_rules ensures_rules ensures_update keeps_locked TrueI wf_state_put [unfolded put_session_def])
    (auto dest!: wf_state_lookup simp: wf_session_def)

lemma keeps_link_closed: "keeps wf_world (link_closed ident l)"
  unfolding link_closed_def by (rule ensures_update) simp_all

lemma attach_stats_keys: "attach_stats ident seq stats rs = Some rs' \<Longrightarrow> map run_key rs' = map run_key rs"
  by (induction rs arbitrary: rs') (auto simp: run_key_def split: if_splits)

lemma attach_stats_wf:
  "attach_stats ident seq stats rs = Some rs' \<Longrightarrow> list_all wf_run rs \<Longrightarrow> list_all wf_run rs'"
  by (induction rs arbitrary: rs') (auto simp: wf_run_def split: if_splits)

lemma wf_state_attach:
  assumes "wf_state st" and "attach_stats ident seq stats (Runs st) = Some rs"
  shows "wf_state (st\<lparr>Runs := rs\<rparr>)"
  using assms attach_stats_keys [OF assms(2)] attach_stats_wf [OF assms(2)] map_eq_imp_length_eq [OF attach_stats_keys [OF assms(2)]]
  by (simp add: wf_state_def wf_runs_def)

lemma keeps_attachRunStats: "keeps wf_world (attachRunStats E ident seq stats)"
  unfolding attachRunStats_def by (intro keeps_locked ensures_rules wf_state_attach TrueI)

lemma keeps_pendingRunStats: "keeps wf_world (pendingRunStats E)"
  unfolding pendingRunStats_def by (intro prog_rules keeps_utcNow keeps_locked ensures_return TrueI)

lemma keeps_sampleSession: "keeps wf_world (sampleSession E decode s)"
  unfolding sampleSession_def by (intro prog_rules ensures_rules TrueI)

lemma keeps_sample_into: "keeps wf_world (sample_into E decode u s)"
proof -
  have "wf_world (w\<lparr>wMetrics := metrics_append (sID s) x (wMetrics w)\<rparr>)" if "wf_world w" for w x
    using that sample_window.add_length [of x "metrics_samples (wMetrics w) (sID s)"]
    by (auto simp: wf_world_def metrics_append_def metrics_samples_def)
  then show ?thesis
    unfolding sample_into_def
    by (intro ensures_if prog_rules keeps_sampleSession ensures_case_sum ensures_return ensures_update TrueI)
qed

lemma keeps_sampleOnce: "keeps wf_world (sampleOnce E decode)"
  unfolding sampleOnce_def
  by (intro ensures_keeps_bind keeps_weaken [OF loadSessions_wf] ensures_case_sum ensures_return keeps_fold_prog
      keeps_sample_into TrueI)

lemma keeps_Validate: "keeps wf_world (Validate E pr raw)"
  unfolding Validate_def
  by (intro keeps_attempt keeps_tunnelCredential keeps_weaken [OF prepareSession_session] keeps_check_prog ensures_return TrueI)

lemma keeps_List: "keeps wf_world (List E pr)"
  unfolding List_def sessionsOf_def by (intro keeps_attempt keeps_read keeps_get_return)

lemma keeps_Metrics: "keeps wf_world (Metrics E pr ident)"
  unfolding Metrics_def by (intro keeps_attempt keeps_Get keeps_get_return)

lemma keeps_Close: "keeps wf_world Close"
  unfolding Close_def by (rule ensures_update) simp_all

lemma keeps_RunsOf: "keeps wf_world (RunsOf E pr)"
  unfolding RunsOf_def by (rule keeps_read)

end

section \<open>The service as a whole\<close>

text \<open>
  Everything that reaches the component: the operations behind the HTTP routes, a Linkspan that connects or leaves,
  and the background work.
\<close>

datatype request =
    RDefine Principal CreateRequest
  | RValidate Principal CreateRequest
  | RStart Principal string
  | RAttach Principal string "string list option"
  | RStop Principal string
  | RDelete Principal string
  | RAdopt Principal string SessionHistory
  | RGet Principal string
  | RList Principal
  | RMetrics Principal string
  | RRuns Principal
  | RAccess Principal string
  | RForward string "string list" string
  | RLink string "string list" nat
  | RLinkClosed string sessionLink
  | RReconcile
  | RSample "string \<Rightarrow> MetricSample option"
  | RPendingStats
  | RAttachStats string int RunStats
  | RClose

definition ignoring :: "'a prog \<Rightarrow> unit prog" where
  "ignoring m = do { m; State_Monad.return () }"

primrec handle :: "env \<Rightarrow> request \<Rightarrow> unit prog" where
  "handle E (RDefine pr req) = ignoring (Define E pr req)"
| "handle E (RValidate pr req) = ignoring (Validate E pr req)"
| "handle E (RStart pr ident) = ignoring (Start E pr ident)"
| "handle E (RAttach pr ident modes) = ignoring (Attach E pr ident modes)"
| "handle E (RStop pr ident) = ignoring (Stop E pr ident)"
| "handle E (RDelete pr ident) = ignoring (Delete E pr ident)"
| "handle E (RAdopt pr ident h) = ignoring (AdoptRuns E pr ident h)"
| "handle E (RGet pr ident) = ignoring (Get E pr ident)"
| "handle E (RList pr) = ignoring (List E pr)"
| "handle E (RMetrics pr ident) = ignoring (Metrics E pr ident)"
| "handle E (RRuns pr) = ignoring (RunsOf E pr)"
| "handle E (RAccess pr ident) = ignoring (Access E pr ident)"
| "handle E (RForward ident protocols port) = ignoring (Forward E ident protocols port)"
| "handle E (RLink ident protocols mux) = ignoring (Link E ident protocols mux)"
| "handle E (RLinkClosed ident l) = link_closed ident l"
| "handle E RReconcile = ignoring (reconcileAll E)"
| "handle E (RSample decode) = sampleOnce E decode"
| "handle E RPendingStats = ignoring (pendingRunStats E)"
| "handle E (RAttachStats ident seq stats) = ignoring (attachRunStats E ident seq stats)"
| "handle E RClose = Close"

lemma keeps_ignoring: "keeps P m \<Longrightarrow> keeps P (ignoring m)"
  unfolding ignoring_def by (rule ensures_keeps_bind) (auto intro: ensures_return)

context session_rely
begin

lemmas operation_keeps =
  keeps_Define keeps_Validate keeps_Start keeps_Attach keeps_Stop keeps_Delete keeps_AdoptRuns keeps_Get keeps_List
  keeps_Metrics keeps_RunsOf keeps_Access keeps_Forward keeps_Link keeps_link_closed keeps_reconcileAll keeps_sampleOnce
  keeps_pendingRunStats keeps_attachRunStats keeps_Close

lemma handle_keeps: "keeps wf_world (handle E q)"
  by (cases q) (simp_all add: operation_keeps keeps_ignoring)

end

definition quiet :: "env \<Rightarrow> env" where
  "quiet E = E\<lparr>eOthers := (\<lambda>_ w. w)\<rparr>"

text \<open>An environment in which other requests run whenever an operation takes the lock or reads a table.\<close>

definition busy :: "env \<Rightarrow> (nat \<Rightarrow> request list) \<Rightarrow> env" where
  "busy E queue = E\<lparr>eOthers := (\<lambda>n w. foldl (\<lambda>w q. snd (run_state (handle (quiet E) q) w)) w (queue n))\<rparr>"

interpretation alone: session_rely "quiet E" for E
  by unfold_locales (simp add: quiet_def)

interpretation shared: session_rely "busy E queue" for E queue
proof
  fix w n
  assume "wf_world w"
  moreover have "wf_world (foldl (\<lambda>w q. snd (run_state (handle (quiet E) q) w)) w qs)" if "wf_world w" for w qs
    using that by (induction qs arbitrary: w) (simp_all add: keepsD [OF alone.handle_keeps])
  ultimately show "wf_world (eOthers (busy E queue) n w)" by (simp add: busy_def)
qed

text \<open>
  What the service can do from a world, requests interrupted by requests to any depth: \<open>evolves w w'\<close>. Each request
  meets an arbitrary clock, arbitrary faults and arbitrary answers of the hosts and of the tunnel manager.
\<close>

inductive evolves :: "world \<Rightarrow> world \<Rightarrow> bool" where
  idle: "evolves w w"
| serve: "\<lbrakk>\<And>n v. evolves v (eOthers E n v); evolves w w'\<rbrakk> \<Longrightarrow> evolves w (snd (run_state (handle E q) w'))"

lemma evolves_wf: "evolves w w' \<Longrightarrow> wf_world w \<Longrightarrow> wf_world w'"
proof (induction rule: evolves.induct)
  case (idle w)
  then show ?case .
next
  case (serve E w w' q)
  from serve.IH(1) have "session_rely E" by (simp add: session_rely_def)
  then show ?case using serve by (intro keepsD [OF session_rely.handle_keeps]) simp_all
qed

lemma wf_empty_world: "wf_world empty_world"
  by (simp add: wf_world_def empty_world_def wf_tables_def load_state_def ListSessions_def index_sessions_def
      wf_state_def wf_sessions_def wf_runs_def metrics_samples_def)

text \<open>
  C1: Whatever requests the service answers from an empty database, interleaved with one another, with any clock, any
  failures of the store, the file system, the hosts and the tunnel service, the stored state always loads and is
  well formed: every row decodes to the session its key names, identifiers match \<^verbatim>\<open>s-[a-f0-9]{12}\<close>, states are of the
  seven known ones, a session with run number 0 is stopped and owns no tunnel, tunnel modes are canonical, job names
  are those of their run, and the run history has at most 200 runs, all terminal, no two with one key; log buffers
  and metric series are within their bounds.
\<close>

theorem service_invariant:
  assumes "evolves empty_world w"
  shows "wf_world w"
  using assms wf_empty_world by (rule evolves_wf)

theorem service_invariant_witness: "wf_world (snd (run_state (handle sample_env RReconcile) empty_world))"
proof (rule service_invariant)
  show "evolves empty_world (snd (run_state (handle sample_env RReconcile) empty_world))"
    by (rule evolves.serve) (auto simp: sample_env_def intro: evolves.idle)
qed

end
