(* ===== verification/SessionScript.thy ===== *)
theory SessionScript
  imports SessionInvariant
begin

text \<open>
  What a successful preparation has established, and what becomes of the job script it leads to: the script survives
  its way through the login node's shell to \<^verbatim>\<open>sbatch\<close> byte for byte.
\<close>

lemma safeRemotePath_fresh: "safeRemotePath p \<Longrightarrow> nl \<notin> set p"
  by (auto simp: safeRemotePath_def absolutePath_def list_all_iff is_alnum_iff split: list.splits)

lemma SafeName_fresh: "SafeName s n \<Longrightarrow> nl \<notin> set s"
  using SafeName_chars [of s n nl] by (auto simp: is_alnum_iff)

lemma idPattern_fresh: "idPattern s \<Longrightarrow> nl \<notin> set s"
  using idPattern_char [of s nl] by (auto simp: is_alnum_iff)

lemma walltime_fresh: "nl \<notin> set (minutesToWalltime m)"
  by (simp add: minutesToWalltime_def Let_def itoa_fresh pad2_line)

lemma ShellQuote_fresh: "nl \<notin> set v \<Longrightarrow> nl \<notin> set (ShellQuote v)"
  by (induction v) (auto simp: ShellQuote_def)

lemma tunnelArgs_fresh: "canonical_modes ms \<Longrightarrow> nl \<notin> set (linkspanTunnelArgs ms)"
proof -
  assume "canonical_modes ms"
  then have ms: "\<forall>m \<in> set ms. m = modeDevtunnel \<or> m = modeWebsocket" by (auto simp: canonical_modes_def)
  then have "nl \<notin> set (join '','' ms)"
    using set_join [of "'',''" ms] by (fastforce simp: modeDevtunnel_def modeWebsocket_def)
  moreover have "nl \<notin> set (linkspanModeArgs m)" for m by (simp add: linkspanModeArgs_def)
  ultimately show ?thesis by (simp add: linkspanTunnelArgs_def)
qed

text \<open>What the script of a session is made of: nothing in it breaks a line.\<close>

definition scriptable :: "Session \<Rightarrow> string \<Rightarrow> bool" where
  "scriptable s linkspan \<longleftrightarrow>
     nl \<notin> set (sID s) \<and> nl \<notin> set (sPartition s) \<and> nl \<notin> set (sAccount s)
     \<and> (0 < GPUCount (sResources s) \<longrightarrow> nl \<notin> set (GPUType (sResources s)))
     \<and> canonical_modes (sTunnelModes s) \<and> nl \<notin> set (sPrivateRoot s) \<and> nl \<notin> set linkspan"

lemma script_lines_fresh:
  assumes "scriptable s linkspan"
  shows "list_all (\<lambda>l. nl \<notin> set l \<and> hd l \<noteq> CHR ''C'') (script_lines s linkspan)"
proof -
  have "nl \<notin> set (ShellQuote linkspan)" using assms by (simp add: scriptable_def ShellQuote_fresh)
  moreover have "nl \<notin> set (sessionWorkflowPath s)"
    using assms set_trim_suffix [of "sPrivateRoot s" "''/''"] by (auto simp: scriptable_def sessionWorkflowPath_def)
  then have "nl \<notin> set (ShellQuote (sessionWorkflowPath s))" by (rule ShellQuote_fresh)
  moreover have "nl \<notin> set (linkspanTunnelArgs (sTunnelModes s))" using assms by (simp add: scriptable_def tunnelArgs_fresh)
  ultimately show ?thesis
    using assms by (simp add: script_lines_def scriptable_def Let_def itoa_fresh walltime_fresh)
qed

lemma join_unlines: "join [nl] (ls @ [[]]) = unlines ls"
  by (induction ls rule: induct_list012) (simp_all add: unlines_def)

lemma unlines_join: "ls \<noteq> [] \<Longrightarrow> unlines ls = join [nl] ls @ [nl]"
  by (induction ls rule: induct_list012) (simp_all add: unlines_def)

lemma script_accepted:
  assumes "scriptable s linkspan"
  shows "has_suffix (buildScript s linkspan) [nl] \<and> \<not> contains (buildScript s linkspan) ([nl] @ submitScriptEnd @ [nl])
    \<and> \<not> has_prefix (buildScript s linkspan) (submitScriptEnd @ [nl])"
proof -
  let ?ls = "script_lines s linkspan"
  have ne: "?ls \<noteq> []" by (simp add: script_lines_def Let_def)
  have script: "buildScript s linkspan = join [nl] ?ls @ [nl]"
    using ne by (simp add: buildScript_def join_unlines unlines_join)
  have "\<forall>l \<in> set ?ls. nl \<notin> set l" using script_lines_fresh [OF assms] by (simp add: list_all_iff)
  then have "split_on nl (join [nl] ?ls) = ?ls" using ne by (intro split_on_join) (auto simp: list_all_iff)
  moreover have "submitScriptEnd \<notin> set ?ls"
    using script_lines_fresh [OF assms] by (auto simp: list_all_iff submitScriptEnd_def)
  moreover have "nl \<notin> set submitScriptEnd" by (simp add: submitScriptEnd_def)
  ultimately show ?thesis using split_on_member_iff [of submitScriptEnd "join [nl] ?ls"] by (simp add: script)
qed


text \<open>What a preparation that succeeds has established.\<close>

definition prepared_ok :: "env \<Rightarrow> CreateRequest \<Rightarrow> preparedSession \<Rightarrow> bool" where
  "prepared_ok E req p \<longleftrightarrow>
     safeRemotePath (prepHome p) \<and> safeRemotePath (sPrivateRoot (prepSession p)) \<and> safeRemotePath (sWorkspaceRoot (prepSession p))
     \<and> prepSession p = session_of_request req (sPrivateRoot (prepSession p)) (sWorkspaceRoot (prepSession p))
     \<and> sPrivateRoot (prepSession p) = path_join [prepHome p, defaultSessionBase, crID req]
     \<and> sWorkspaceRoot (prepSession p) \<noteq> sPrivateRoot (prepSession p)
     \<and> \<not> has_prefix (sWorkspaceRoot (prepSession p)) (sPrivateRoot (prepSession p) @ ''/'')
     \<and> (has_prefix (sPrivateRoot (prepSession p)) (sWorkspaceRoot (prepSession p) @ ''/'') \<longrightarrow>
          sWorkspaceRoot (prepSession p) = prepHome p \<and> homeRootExpression (crRootFolder req))
     \<and> (GPUCount (crResources req) \<noteq> 0 \<longrightarrow> 1 \<le> GPUCount (crResources req) \<and> SafeName (GPUType (crResources req)) 64)
     \<and> prepLinkspan p = resolveRemoteExecutable (cLinkspanPath (eConfig E)) (prepHome p)
     \<and> prepScript p = buildScript (prepSession p) (prepLinkspan p)"

lemma discover_home: "discover io r host = Inr d \<Longrightarrow> safeRemotePath (resHomeDir d)"
  using Discover_home [of io r host]
  by (auto simp: discover_def safeRemotePath_def split: sum.splits option.splits)

lemma discover_prog_home: "ensures (\<lambda>_. True) (discover_prog E r alias) (on_ok (\<lambda>d. safeRemotePath (resHomeDir d)))"
  by (auto simp: discover_prog_def ensures_def emit_def ask_def tick_def on_ok_def dest: discover_home split: sum.splits)

lemma ensures_return_res: "(\<And>x. r = Inr x \<Longrightarrow> Q x) \<Longrightarrow> ensures P (State_Monad.return r) (on_ok Q)"
  by (rule ensures_return) (auto simp: on_ok_def split: sum.splits)

lemma resolve_safe: "ensures (\<lambda>_. True) (resolveWorkspaceRoot E r alias home expression) (on_ok safeRemotePath)"
  unfolding resolveWorkspaceRoot_def Let_def
  by (intro ensures_if ensures_case_option ensures_case_prod ensures_return_res ensures_bind [OF keeps_True])
    (auto split: if_splits prod.splits option.splits sum.splits)

lemma partition_gpu:
  "validatePartitionResources ps name r = Inr () \<Longrightarrow> GPUCount r \<noteq> 0 \<longrightarrow> 1 \<le> GPUCount r \<and> SafeName (GPUType r) 64"
  by (auto simp: validatePartitionResources_def Let_def split: if_splits)

lemma layout_ok:
  "validateWorkspacePrivateLayout home workspace privateRoot ident expression = Inr ()
   \<Longrightarrow> workspace \<noteq> privateRoot \<and> \<not> has_prefix workspace (privateRoot @ ''/'')
     \<and> (has_prefix privateRoot (workspace @ ''/'') \<longrightarrow> workspace = home \<and> homeRootExpression expression)"
  by (auto simp: validateWorkspacePrivateLayout_def split: if_splits)

lemma session_of_request_roots [simp]:
  "sPrivateRoot (session_of_request req a b) = a" "sWorkspaceRoot (session_of_request req a b) = b"
  by (simp_all add: session_of_request_def)

definition gpu_ok :: "Resources \<Rightarrow> bool" where
  "gpu_ok r \<longleftrightarrow> (GPUCount r \<noteq> 0 \<longrightarrow> 1 \<le> GPUCount r \<and> SafeName (GPUType r) 64)"

lemma prepare_steps_ok: "ensures (\<lambda>_. True) (prepare_steps E r say req) (on_ok (prepared_ok E req))"
  unfolding prepare_steps_def Let_def
  apply (rule ensures_bind [OF discover_prog_home])
  apply (rule ensures_case_sum)
  subgoal by (simp add: ensures_return)
  apply (rule ensures_if)
  subgoal by (simp add: ensures_return)
  apply (rule ensures_attempt [where R = "\<lambda>_. gpu_ok (crResources req)"])
  subgoal by (rule ensures_return_res) (simp add: gpu_ok_def partition_gpu)
  apply (rule ensures_if)
  subgoal by (simp add: ensures_return)
  apply (rule ensures_attempt [OF resolve_safe])
  subgoal for d resource u workspace
    by (rule ensures_attempt [OF ensures_return_res [where Q = "\<lambda>_. workspace \<noteq> path_join [resHomeDir resource, defaultSessionBase, crID req]
        \<and> \<not> has_prefix workspace (path_join [resHomeDir resource, defaultSessionBase, crID req] @ ''/'')
        \<and> (has_prefix (path_join [resHomeDir resource, defaultSessionBase, crID req]) (workspace @ ''/'') \<longrightarrow>
             workspace = resHomeDir resource \<and> homeRootExpression (crRootFolder req))"]])
      (use layout_ok in \<open>auto intro!: ensures_bind [OF keeps_True] ensures_return simp: prepared_ok_def gpu_ok_def\<close>)
  done


lemma prepareSession_ok: "ensures (\<lambda>_. True) (prepareSession E r say req) (on_ok (prepared_ok E req))"
  unfolding prepareSession_def
  by (rule ensures_bind [OF keeps_True], rule ensures_bind [OF prepare_steps_ok], rule ensures_case_sum)
    (auto intro!: ensures_bind [OF keeps_True] ensures_return)

lemma prepareSession_result: "fst (run_state (prepareSession E r say req) w) = Inr p \<Longrightarrow> prepared_ok E req p"
  using prepareSession_ok [of E r say req] by (simp add: ensures_def on_ok_def split: sum.splits)

text \<open>
  C35: When preparing a session succeeds, its workspace and its private directory are safe absolute paths, the private
  directory is the one under the discovered home that its identifier names, the workspace is never inside it, and
  the workspace contains it only as the home directory itself, asked for as such.
\<close>

theorem prepared_layout:
  assumes "fst (run_state (prepareSession E r say req) w) = Inr p"
  shows "safeRemotePath (prepHome p) \<and> safeRemotePath (sPrivateRoot (prepSession p)) \<and> safeRemotePath (sWorkspaceRoot (prepSession p))
    \<and> sPrivateRoot (prepSession p) = path_join [prepHome p, defaultSessionBase, crID req]
    \<and> sWorkspaceRoot (prepSession p) \<noteq> sPrivateRoot (prepSession p)
    \<and> \<not> has_prefix (sWorkspaceRoot (prepSession p)) (sPrivateRoot (prepSession p) @ ''/'')
    \<and> (has_prefix (sPrivateRoot (prepSession p)) (sWorkspaceRoot (prepSession p) @ ''/'') \<longrightarrow>
         sWorkspaceRoot (prepSession p) = prepHome p \<and> homeRootExpression (crRootFolder req))"
  using prepareSession_result [OF assms] unfolding prepared_ok_def by blast

lemma safe_executable_fresh:
  assumes "safeRemoteExecutable path" and "nl \<notin> set home"
  shows "nl \<notin> set (resolveRemoteExecutable path home)"
proof (cases "snd (cut_prefix path ''$HOME/'')")
  case True
  let ?rest = "fst (cut_prefix path ''$HOME/'')"
  have "safeRemotePath (''/'' @ ?rest)" using assms(1) True by (simp add: safeRemoteExecutable_def case_prod_unfold)
  then have "nl \<notin> set ?rest" by (auto dest: safeRemotePath_fresh)
  then have "nl \<notin> set (path_join [home, ?rest])" using assms(2) set_path_join [of "[home, ?rest]"] by auto
  with True show ?thesis by (simp add: resolveRemoteExecutable_def case_prod_unfold)
next
  case False
  then have "safeRemotePath path" using assms(1) by (simp add: safeRemoteExecutable_def case_prod_unfold)
  with False show ?thesis by (simp add: resolveRemoteExecutable_def case_prod_unfold safeRemotePath_fresh)
qed

lemma validateCreate_names:
  "validateCreate raw = Inr req \<Longrightarrow> SafeName (crPartition req) 64 \<and> (crAccount req = [] \<or> SafeName (crAccount req) 64)
     \<and> canonical_modes (request_modes req)"
  by (auto simp: validateCreate_def Let_def request_modes_def split: if_splits sum.splits dest: canonicalTunnelModes_canonical)

lemma scriptable_prepared:
  assumes "validateCreate raw = Inr req" and "idPattern (crID req)" and "safeRemoteExecutable (cLinkspanPath (eConfig E))"
    and "prepared_ok E req p"
  shows "scriptable (prepSession p) (prepLinkspan p)"
proof -
  let ?s = "prepSession p"
  have s: "?s = session_of_request req (sPrivateRoot ?s) (sWorkspaceRoot ?s)"
    using assms(4) unfolding prepared_ok_def by blast
  then have fields: "sID ?s = crID req" "sPartition ?s = crPartition req" "sAccount ?s = crAccount req"
    "sResources ?s = crResources req" "sTunnelModes ?s = request_modes req"
    by (metis session_of_request_def SessionResponse.select_convs(1,6,7,9,10) request_modes_def)+
  have "nl \<notin> set (crAccount req)" using validateCreate_names [OF assms(1)] by (auto dest: SafeName_fresh)
  then show ?thesis
    using assms(2-) validateCreate_names [OF assms(1)] fields safe_executable_fresh [OF assms(3), of "prepHome p"]
    by (auto simp: scriptable_def prepared_ok_def idPattern_fresh safeRemotePath_fresh dest: SafeName_fresh)
qed

text \<open>
  C14: The job script of a validated, prepared session is never refused by the submission, whichever run it is for, and
  the here-document that the program on the login node feeds to \<^verbatim>\<open>sbatch\<close> is exactly that script. So no field of a
  request can end the here-document early or add a line to it.
\<close>

theorem session_script_delivered:
  assumes "validateCreate raw = Inr req" and "idPattern (crID req)" and "safeRemoteExecutable (cLinkspanPath (eConfig E))"
    and "fst (run_state (prepareSession E r say req) w) = Inr p"
  shows "let script = buildScript ((prepSession p)\<lparr>sState := st, sLauncher := launcher, sCreatedAt := t0, sUpdatedAt := t1,
               sSeq := seq, sJobName := name, sOwner := pr, sTunnel := tunnel\<rparr>) (prepLinkspan p)
         in \<exists>program exports rest.
              submitProgram \<lparr>srJobName = name, srScript = script, srEnvironment = environment\<rparr> = Inr program
              \<and> program = exports @ heredoc_open @ rest \<and> here_document submitScriptEnd rest = Some script"
proof -
  let ?s = "(prepSession p)\<lparr>sState := st, sLauncher := launcher, sCreatedAt := t0, sUpdatedAt := t1,
               sSeq := seq, sJobName := name, sOwner := pr, sTunnel := tunnel\<rparr>"
  let ?script = "buildScript ?s (prepLinkspan p)"
  let ?req = "\<lparr>srJobName = name, srScript = ?script, srEnvironment = environment\<rparr>"
  have "scriptable (prepSession p) (prepLinkspan p)"
    using scriptable_prepared [OF assms(1-3) prepareSession_result [OF assms(4)]] .
  then have "scriptable ?s (prepLinkspan p)" by (simp add: scriptable_def)
  from script_accepted [OF this] obtain program where program: "submitProgram ?req = Inr program"
    and first: "\<not> has_prefix ?script (submitScriptEnd @ [nl])"
    by (auto simp: submitProgram_def)
  from submit_heredoc [OF program] first show ?thesis by (auto simp: Let_def program)
qed


definition sample_create :: CreateRequest where
  "sample_create = \<lparr>crID = ''s-0123456789ab'', crIdempotencyKey = [], crSSHHost = ''hpc'', crAccount = [], crPartition = ''cpu'',
     crRootFolder = ''~'', crResources = \<lparr>Cores = 2, MemoryMB = 4096, WallMinutes = 60, GPUType = [], GPUCount = 0\<rparr>,
     crTunnelModes = Some [modeWebsocket]\<rparr>"

definition sample_discovery :: string where
  "sample_discovery = unlines [markerUser, ''alice'', markerAccounts, ''proj'', markerPartitions, ''cpu|64|256000|(null)'',
     markerHome, ''/home/alice'', markerDone]"

definition discovering_env :: env where
  "discovering_env = sample_env\<lparr>eSsh := (\<lambda>_. sample_io sample_discovery)\<rparr>"

lemma sample_discovery_sections:
  "Sections sample_discovery discoveryMarkerPrefix discoveryMarkers = Inr [(markerUser, ''alice''), (markerAccounts, ''proj''), (markerPartitions, ''cpu|64|256000|(null)''),
     (markerHome, ''/home/alice''), (markerDone, [])]" 
  by (simp add: Sections_def sample_discovery_def unlines_def discovery_marker_defs trim_suffix_def has_suffix_def
      flush_section_def Let_def)

lemma sample_partition: "parsePartitions ''cpu|64|256000|(null)'' = Inr [\<lparr>spName = ''cpu'', spCPUCount = 64, spMemoryMB = 256000, spGRES = []\<rparr>]"
  by (simp add: parsePartitions_def fresh_eval parsePartitionLine_def leadingDigits_def char_eval atoi_def all_digits_def digits_val_def digit_val_def
    parseGRES_def trim_suffix_def has_suffix_def)

lemma sample_parse:
  "parseDiscovery sample_discovery = Inr \<lparr>dUser = ''alice'', dAccounts = parseAccounts ''proj'',
     dPartitions = [\<lparr>spName = ''cpu'', spCPUCount = 64, spMemoryMB = 256000, spGRES = []\<rparr>], dHome = ''/home/alice''\<rparr>"
proof -
  have "\<not> contains sample_discovery (m @ [nl])" if "m \<in> {markerErrorUser, markerErrorAccounts, markerErrorPartitions, markerErrorHome}" for m
    using that by (elim insertE; simp add: sample_discovery_def unlines_def discovery_marker_defs)
  then have "find (\<lambda>(marker, operation). contains sample_discovery (marker @ [nl])) discoveryFailures = None"
    by (simp add: discoveryFailures_def)
  moreover have "SafeName ''alice'' 64" "absolutePath ''/home/alice''" "path_clean ''/home/alice'' = ''/home/alice''"
    by (simp_all add: SafeName_def safeNamePattern_def char_eval absolutePath_def path_clean_def clean_segments_def)
  ultimately show ?thesis
    unfolding parseDiscovery_def sample_discovery_sections
    by (simp add: section_of_def discovery_marker_defs fresh_eval sample_partition Let_def)
qed

lemma sample_discover: "discover (sample_io sample_discovery) sample_runner ''hpc'' =
  Inr \<lparr>resHost = ''hpc'', resAccounts = parseAccounts ''proj'',
       resPartitions = [\<lparr>pName = ''cpu'', pCPUCount = 64, pMemoryMB = 256000, pGRES = []\<rparr>], resHomeDir = ''/home/alice''\<rparr>"
  by (simp add: discover_def Discover_def sample_RunOutput sample_parse)

lemma sample_paths:
  "safeRemotePath ''/home/alice''" "path_join [''/home/alice'', ''.cybershuttle/sessions'', ''s-0123456789ab''] = ''/home/alice/.cybershuttle/sessions/s-0123456789ab''"
  "safeRemotePath ''/home/alice/.cybershuttle/sessions/s-0123456789ab''"
  by (simp_all add: safeRemotePath_def absolutePath_def char_eval path_clean_def clean_segments_def path_join_def)

lemma sample_prepare:
  "\<exists>p. fst (run_state (prepareSession discovering_env sample_runner (\<lambda>_. State_Monad.return ()) sample_create) empty_world) = Inr p"
proof -
  have "validatePartitionResources [\<lparr>pName = ''cpu'', pCPUCount = 64, pMemoryMB = 256000, pGRES = []\<rparr>] ''cpu''
      \<lparr>Cores = 2, MemoryMB = 4096, WallMinutes = 60, GPUType = [], GPUCount = 0\<rparr> = Inr ()"
    by (simp add: validatePartitionResources_def hasGPU_def resourcesFit_def)
  moreover have "validWorkspaceExpression ''~''"
    by (simp add: validWorkspaceExpression_def fresh_eval contains_any_def homeRootExpression_def)
  moreover have "validateWorkspacePrivateLayout ''/home/alice'' ''/home/alice'' ''/home/alice/.cybershuttle/sessions/s-0123456789ab''
      ''s-0123456789ab'' ''~'' = Inr ()"
    by (simp add: validateWorkspacePrivateLayout_def homeRootExpression_def defaultSessionBase_def sample_paths)
  ultimately show ?thesis
    by (simp add: prepareSession_def prepare_steps_def discover_prog_def emit_def ask_def tick_def discovering_env_def sample_discover
        sample_create_def attempt_def Let_def defaultSessionBase_def sample_paths resolveWorkspaceRoot_def homeRootExpression_def)
qed

theorem prepared_layout_witness:
  "\<exists>p. fst (run_state (prepareSession discovering_env sample_runner (\<lambda>_. State_Monad.return ()) sample_create) empty_world) = Inr p
     \<and> safeRemotePath (sWorkspaceRoot (prepSession p))"
  using sample_prepare prepared_layout by blast

theorem session_script_delivered_witness:
  "\<exists>(p :: preparedSession) program. submitProgram \<lparr>srJobName = ''cs-s-0123456789ab-1'',
       srScript = buildScript ((prepSession p)\<lparr>sState := ''SUBMITTING'', sLauncher := launcherPlane, sCreatedAt := 1, sUpdatedAt := 2,
         sSeq := 1, sJobName := ''cs-s-0123456789ab-1'', sOwner := \<lparr>Subject = ''alice'', Tenant = []\<rparr>, sTunnel := no_tunnel\<rparr>) (prepLinkspan p),
       srEnvironment = []\<rparr> = Inr program"
proof -
  have v: "validateCreate sample_create = Inr sample_create" and e: "safeRemoteExecutable (cLinkspanPath (eConfig discovering_env))"
    by code_simp+
  have i: "idPattern (crID sample_create)" by (simp add: sample_create_def sample_id)
  from sample_prepare obtain p where
    p: "fst (run_state (prepareSession discovering_env sample_runner (\<lambda>_. State_Monad.return ()) sample_create) empty_world) = Inr p"
    by blast
  have "let script = buildScript ((prepSession p)\<lparr>sState := ''SUBMITTING'', sLauncher := launcherPlane, sCreatedAt := 1, sUpdatedAt := 2,
         sSeq := 1, sJobName := ''cs-s-0123456789ab-1'', sOwner := \<lparr>Subject = ''alice'', Tenant = []\<rparr>, sTunnel := no_tunnel\<rparr>) (prepLinkspan p)
     in \<exists>program exports rest.
       submitProgram \<lparr>srJobName = ''cs-s-0123456789ab-1'', srScript = script, srEnvironment = []\<rparr> = Inr program
       \<and> program = exports @ heredoc_open @ rest \<and> here_document submitScriptEnd rest = Some script"
    by (rule session_script_delivered [OF v i e p])
  then show ?thesis unfolding Let_def by blast
qed

end
