(* ===== verification/SessionEffects.thy ===== *)
theory SessionEffects
  imports SessionScript
begin

text \<open>
  How the operations run: the equations of a state cycle that nothing interrupts, the predicates on the world that the
  effects of an operation leave alone, and the effects of issuing and releasing a run's tunnel and capability.
\<close>

section \<open>Undisturbed cycles\<close>

definition undisturbed :: "env \<Rightarrow> bool" where
  "undisturbed E \<longleftrightarrow> (\<forall>n w. eOthers E n w = w)"

lemma run_tick [simp]: "run_state tick w = (wTick w, w\<lparr>wTick := Suc (wTick w)\<rparr>)"
  by (simp add: tick_def)

lemma run_ask [simp]: "run_state (ask f) w = (f (wTick w), w\<lparr>wTick := Suc (wTick w)\<rparr>)"
  by (simp add: ask_def)

lemma run_attempt:
  "run_state (attempt m f) w =
     (case run_state m w of (Inl e, w1) \<Rightarrow> (Inl e, w1) | (Inr x, w1) \<Rightarrow> run_state (f x) w1)"
  by (simp add: attempt_def split: prod.splits sum.splits)

lemma run_locked:
  "undisturbed E \<Longrightarrow> run_state (locked E fn) w =
     (let w1 = w\<lparr>wTick := Suc (Suc (wTick w))\<rparr>
      in case eLoadFault E (Suc (wTick w)) of
           Some e \<Rightarrow> (Inl e, w1)
         | None \<Rightarrow> (case load_state (wTables w) of Inl e \<Rightarrow> (Inl e, w1) | Inr st \<Rightarrow> run_state (fn st) w1))"
  by (simp add: locked_def others_def undisturbed_def Let_def split: option.splits sum.splits)

lemma run_save:
  "run_state (save E st) w =
     (let w1 = w\<lparr>wTick := Suc (wTick w)\<rparr>
      in case eSaveFault E (wTick w) of
           Some e \<Rightarrow> (Some e, w1)
         | None \<Rightarrow> (case save_tables st of Inl e \<Rightarrow> (Some e, w1) | Inr t \<Rightarrow> (None, w1\<lparr>wTables := t\<rparr>)))"
  by (simp add: save_def Let_def split: option.splits sum.splits)

lemma run_claimLaunch:
  "undisturbed E \<Longrightarrow> (\<And>n. eLoadFault E n = None) \<Longrightarrow> load_state (wTables w) = Inr st \<Longrightarrow> alookup (Sessions st) ident = Some s
   \<Longrightarrow> run_state (claimLaunch E ident pr) w =
     ((if sOwner s \<noteq> pr then Inl errOwnerMismatch else if \<not> terminalSession (sState s) then Inl errSessionRunning else Inr s),
      w\<lparr>wTick := Suc (Suc (wTick w))\<rparr>)"
  by (simp add: claimLaunch_def run_locked)

lemma retireFinished_refused:
  "run_state (claimLaunch E ident pr) w = (Inl e, w1) \<Longrightarrow> run_state (retireFinished E pr ident) w = (Inl e, w1)"
  by (simp add: retireFinished_def run_attempt)

section \<open>Predicates the effects leave alone\<close>

lemma fails_attempt: "ensures P m (\<lambda>r. \<exists>e. r = Inl e) \<Longrightarrow> ensures P (attempt m f) (\<lambda>r. \<exists>e. r = Inl e)"
  by (fastforce simp: ensures_def run_attempt split: prod.splits)

lemma fails_after: "keeps P m \<Longrightarrow> (\<And>x. ensures P (f x) (\<lambda>r. \<exists>e. r = Inl e)) \<Longrightarrow> ensures P (attempt m f) (\<lambda>r. \<exists>e. r = Inl e)"
  unfolding attempt_def by (rule ensures_bind, assumption) (auto split: sum.split intro!: ensures_return)

text \<open>
  Predicates on the world that the effects of an operation leave alone: \<open>steady\<close> ones do not look at the clock, the trace,
  the capability files and the logs, \<open>settled\<close> ones do not look at the tables and the metrics either.
\<close>

locale steady =
  fixes P :: "world \<Rightarrow> bool"
  assumes steady_tick: "P (w\<lparr>wTick := n\<rparr>) = P w" and steady_trace: "P (w\<lparr>wTrace := trace\<rparr>) = P w"
    and steady_capabilities: "P (w\<lparr>wCapabilities := files\<rparr>) = P w" and steady_logs: "P (w\<lparr>wLogs := logs\<rparr>) = P w"
begin

lemma ask_steady: "keeps P (ask f)"
  by (simp add: ensures_def steady_tick)

lemma emit_steady: "keeps P (emit x)"
  by (simp add: ensures_def emit_def steady_trace)

lemma status_steady: "keeps P (sessionStatus E ident line)"
  by (simp add: ensures_def sessionStatus_def utcNow_def steady_tick steady_logs)

lemma delete_steady: "keeps P (deleteCapability E ident seq)"
  by (auto simp: ensures_def deleteCapability_def write_file_def steady_tick steady_capabilities split: sum.splits file_fault.splits)

lemma put_steady: "keeps P (putCapability E ident seq cap)"
  by (auto simp: ensures_def putCapability_def write_file_def steady_tick steady_capabilities split: sum.splits file_fault.splits)

lemma remote_steady: "keeps P (remote_run E r host stdin args)"
  unfolding remote_run_def by (intro ensures_keeps_bind emit_steady ask_steady)

lemma release_steady: "keeps P (releaseTunnel E cred ident seq tunnel)"
  unfolding releaseTunnel_def tunnel_delete_def
  by (intro ensures_if ensures_keeps_bind emit_steady ask_steady delete_steady ensures_return TrueI)

lemma create_steady: "keeps P (create_tunnel E s cred seq)"
  unfolding create_tunnel_def tunnel_create_def utcNow_def Let_def
  by (intro ensures_if ensures_keeps_bind emit_steady ask_steady release_steady ensures_return ensures_case_sum TrueI)

lemma credential_steady: "keeps P (tunnelCredential E pr modes)"
  unfolding tunnelCredential_def by (intro ensures_if ensures_keeps_bind ask_steady ensures_return TrueI)

lemma resolve_steady: "keeps P (resolveWorkspaceRoot E r host home expression)"
  unfolding resolveWorkspaceRoot_def Let_def
  by (intro ensures_if ensures_case_option ensures_case_prod ensures_keeps_bind remote_steady ensures_return TrueI)

lemma prepare_steady: "keeps P (prepareSession E r (sessionStatus E ident) req)"
  unfolding prepareSession_def prepare_steps_def discover_prog_def Let_def
  by (intro ensures_keeps_bind status_steady emit_steady ask_steady ensures_case_sum ensures_if ensures_return keeps_attempt
      resolve_steady TrueI)

lemma validate_steady: "keeps P (validateForCreate E r req script)"
  unfolding validateForCreate_def check_prog_def Let_def
  by (intro ensures_keeps_bind status_steady emit_steady ask_steady ensures_case_sum ensures_return TrueI)

end

locale settled = steady +
  assumes settled_tables: "P (w\<lparr>wTables := t\<rparr>) = P w" and settled_metrics: "P (w\<lparr>wMetrics := m\<rparr>) = P w"
begin

lemma locked_settled: "undisturbed E \<Longrightarrow> (\<And>st. keeps P (fn st)) \<Longrightarrow> keeps P (locked E fn)"
  by (auto simp: ensures_def run_locked Let_def steady_tick split: option.splits sum.splits)

lemma save_settled: "keeps P (save E st)"
  by (auto simp: ensures_def run_save Let_def steady_tick settled_tables split: option.splits sum.splits)

lemma forget_settled: "keeps P (forgetSessionBuffers ident)"
  by (simp add: ensures_def forgetSessionBuffers_def settled_metrics steady_logs)

lemma read_settled: "undisturbed E \<Longrightarrow> keeps P (read_tables E f)"
  by (auto simp: ensures_def read_tables_def others_def undisturbed_def steady_tick split: option.splits)

lemma unpersisted_settled: "undisturbed E \<Longrightarrow> keeps P (forgetUnpersistedBuffers E ident)"
  unfolding forgetUnpersistedBuffers_def loadSession_def
  by (intro ensures_keeps_bind read_settled ensures_case_sum ensures_if forget_settled ensures_return TrueI)

lemma freeze_settled: "keeps P (freezeIfTerminal E st s)"
  unfolding freezeIfTerminal_def
  by (auto intro!: ensures_if ensures_keeps_bind delete_steady forget_settled ensures_return ensures_case_option ensures_get_bind
      split: prod.splits bool.splits)

lemma retire_settled: "undisturbed E \<Longrightarrow> keeps P (retireFinished E pr ident)"
  unfolding retireFinished_def claimLaunch_def freezeRun_def fails_def
  by (intro keeps_attempt locked_settled ensures_if ensures_keeps_bind ask_steady release_steady freeze_settled save_settled ensures_return
      ensures_case_prod ensures_case_option TrueI)

end

interpretation same_tables: steady "\<lambda>w. wTables w = t" for t
  by unfold_locales simp_all

interpretation same_links: settled "\<lambda>w. wLinks w = l" for l
  by unfold_locales simp_all

interpretation closing: settled wClosing
  by unfold_locales simp_all

section \<open>Issue and release\<close>

lemma run_putCapability:
  assumes "run_state (putCapability E ident seq cap) w = (None, w1)"
  shows "wTables w1 = wTables w \<and> capabilityPath (cCapabilityDir (eConfig E)) ident seq = Inr (capability_file (cCapabilityDir (eConfig E)) (ident, seq))
    \<and> read_capability (wCapabilities w1) (capability_file (cCapabilityDir (eConfig E)) (ident, seq)) = Inr cap"
  using assms
  by (auto simp: putCapability_def write_file_def capabilityPath_Inr read_capability_def split: sum.splits if_splits file_fault.splits)

lemma issueSession_effect:
  assumes "run_state (issueSession E s pr cred seq) w = (Inr (s', hostToken, cap), w1)"
  shows "wTables w1 = wTables w \<and> idPattern (sID s) \<and> 1 \<le> seq
    \<and> (\<exists>tunnel. s' = s\<lparr>sSeq := seq, sJobName := jobName (sID s) seq, sOwner := pr, sTunnel := tunnel\<rparr>)
    \<and> read_capability (wCapabilities w1) (capability_file (cCapabilityDir (eConfig E)) (sID s, seq)) = Inr cap"
proof -
  let ?w0 = "w\<lparr>wTick := Suc (Suc (wTick w))\<rparr>"
  from assms obtain tunnel connect host w2 where
    create: "run_state (create_tunnel E s cred seq) ?w0 = (Inr (tunnel, connect, host), w2)"
    and "idPattern (sID s)" "1 \<le> seq"
    and put: "run_state (putCapability E (sID s) seq cap) w2 = (None, w1)"
    and "s' = s\<lparr>sSeq := seq, sJobName := jobName (sID s) seq, sOwner := pr, sTunnel := tunnel\<rparr>"
    by (auto simp: issueSession_def Let_def newSecret_def run_attempt split: if_splits prod.splits sum.splits option.splits)
  moreover have "wTables w2 = wTables w"
    using keepsD [OF same_tables.create_steady [of "wTables w" E s cred seq], of ?w0] create by simp
  ultimately show ?thesis using run_putCapability [OF put] by auto
qed

text \<open>The tunnel service answers a creation with the tunnel that was asked for.\<close>

definition faithful_tunnels :: "env \<Rightarrow> bool" where
  "faithful_tunnels E \<longleftrightarrow> (\<forall>n req rec. eTunnelCreate E n req = Inr rec \<longrightarrow> trID rec = tcTunnelID req)"

lemma faithfulD: "faithful_tunnels E \<Longrightarrow> eTunnelCreate E n req = Inr rec \<Longrightarrow> trID rec = tcTunnelID req"
  by (simp add: faithful_tunnels_def)

lemma delete_trace: "wTrace (snd (run_state (deleteCapability E ident seq) w)) = wTrace w"
  by (auto simp: deleteCapability_def write_file_def split: sum.splits file_fault.splits)

lemma release_trace:
  "wTrace (snd (run_state (releaseTunnel E cred ident seq tunnel) w)) = wTrace w @
     (if tmID tunnel \<noteq> [] \<and> credToken cred \<noteq> []
      then [TunnelDelete \<lparr>tdScheme = credScheme cred, tdOAuthToken = credToken cred, tdTunnelID = tmID tunnel, tdClusterID = tmClusterID tunnel\<rparr>]
      else [])"
  by (simp add: releaseTunnel_def tunnel_delete_def emit_def case_prod_unfold delete_trace)

lemma create_failed:
  assumes "faithful_tunnels E"
    and "run_state (create_tunnel E s cred seq) w = (Inl e, w1)"
  shows "\<exists>req d. wTrace w1 = wTrace w @ [TunnelCreate req, TunnelDelete d] \<and> tdTunnelID d = tcTunnelID req
      \<and> tdOAuthToken d = tcOAuthToken req"
proof -
  have fst_snd: "run_state m v = (x, v1) \<Longrightarrow> v1 = snd (run_state m v)" for m :: "'a prog" and v x v1 by simp
  show ?thesis using assms(2)
    by (auto simp: create_tunnel_def tunnel_create_def utcNow_def emit_def Let_def release_trace
        split: if_splits sum.splits prod.splits dest!: fst_snd faithfulD [OF assms(1)])
qed


lemma create_succeeded:
  assumes "faithful_tunnels E"
    and "run_state (create_tunnel E s cred seq) w = (Inr (tunnel, connect, host), w1)"
  shows "if credToken cred = [] then wTrace w1 = wTrace w \<and> tunnel = no_tunnel
    else \<exists>req. wTrace w1 = wTrace w @ [TunnelCreate req] \<and> tmID tunnel = tcTunnelID req \<and> tmID tunnel \<noteq> []
      \<and> tcOAuthToken req = credToken cred"
  using assms(2)
  by (auto simp: create_tunnel_def tunnel_create_def utcNow_def emit_def Let_def created_record_ok_def
      split: if_splits sum.splits prod.splits dest!: faithfulD [OF assms(1)])

lemma put_trace: "wTrace (snd (run_state (putCapability E ident seq cap) w)) = wTrace w"
  by (auto simp: putCapability_def write_file_def split: sum.splits file_fault.splits)

lemma put_tables: "wTables (snd (run_state (putCapability E ident seq cap) w)) = wTables w"
  by (auto simp: putCapability_def write_file_def split: sum.splits file_fault.splits)

lemma release_tables: "wTables (snd (run_state (releaseTunnel E cred ident seq tunnel) w)) = wTables w"
  using keepsD [OF same_tables.release_steady [of "wTables w" E cred ident seq tunnel], of w] by simp

lemma create_tables: "wTables (snd (run_state (create_tunnel E s cred seq) w)) = wTables w"
  using keepsD [OF same_tables.create_steady [of "wTables w" E s cred seq], of w] by simp

section \<open>Reading\<close>

lemma read_result: "fst (run_state (read_tables E f) w) = Inr x \<Longrightarrow> \<exists>t. f t = Inr x"
  by (auto simp: read_tables_def split: prod.splits option.splits)

lemma run_loadSession: "fst (run_state (loadSession E ident) w) = Inr s \<Longrightarrow> sID s = ident"
  by (auto simp: loadSession_def find_Some_iff split: option.splits dest!: read_result decodeSession_id)

lemma run_reachable:
  assumes "run_state (reachable E s) w = (Inr cap, w1)"
  shows "sState s = ''READY'' \<and> (link_of w1 s \<noteq> None \<or> tmID (sTunnel s) \<noteq> [])
    \<and> read_capability (wCapabilities w1) (capability_file (cCapabilityDir (eConfig E)) (sID s, sSeq s)) = Inr cap"
  using assms
  by (auto simp: reachable_def getCapability_def link_of_def capabilityPath_Inr split: sum.splits if_splits file_fault.splits)

lemma run_linkedSession:
  assumes "run_state (linkedSession E ident protocols) w = (Some s, w1)"
  shows "sID s = ident \<and> \<not> terminalSession (sState s)
    \<and> (\<exists>cap. read_capability (wCapabilities w1) (capability_file (cCapabilityDir (eConfig E)) (sID s, sSeq s)) = Inr cap
         \<and> offered protocols ''link.'' = capLinkToken cap)"
  using assms run_loadSession [of E ident w]
  by (auto simp: linkedSession_def getCapability_def capabilityPath_Inr split: prod.splits sum.splits if_splits file_fault.splits)

lemma loaded_row:
  "undisturbed E \<Longrightarrow> fst (run_state (loadSession E ident) w) = Inr s
   \<Longrightarrow> \<exists>row \<in> set (tSessions (wTables w)). decodeSession row = Inr s"
  by (auto simp: loadSession_def read_tables_def others_def undisturbed_def find_Some_iff split: option.splits) (metis nth_mem)+

section \<open>Saving and loading one session\<close>

lemma alookup_sort: "distinct (map fst m) \<Longrightarrow> alookup (sort_key fst m) k = alookup m k"
  by (metis distinct_map_sort map_of_inject_set set_sort)

lemma stored_lookup:
  assumes "distinct (map fst (Sessions st))"
  shows "alookup (Sessions (stored_state st)) k = map_option stored_session (alookup (Sessions st) k)"
proof -
  have keys: "map fst (map (\<lambda>(k, s). (k, stored_session s)) (Sessions st)) = map fst (Sessions st)" by auto
  have "alookup (map (\<lambda>(k, s). (k, stored_session s)) m) k = map_option stored_session (alookup m k)" for m
    by (induction m) auto
  then show ?thesis using assms keys by (simp add: stored_state_def alookup_sort del: map_map)
qed

lemma stored_session_clean: "sError s = [] \<Longrightarrow> stored_session s = s"
  by (simp add: stored_session_def json_text.simps)

text \<open>Saving a change of one session and loading it back.\<close>

lemma load_put:
  assumes "wf_tables t" and "load_state t = Inr st" and "sID s = k" and "save_tables (put_session st k s) = Inr t'"
  shows "load_state t' = Inr (stored_state (put_session st k s))"
    and "alookup (Sessions (stored_state (put_session st k s))) j = map_option stored_session (if j = k then Some s else alookup (Sessions st) j)"
proof -
  have wf: "wf_state st" using assms(1,2) by (simp add: wf_tables_def)
  then have "\<forall>(k, s) \<in> set (Sessions (put_session st k s)). sID s = k"
    using wf_state_keys [of st] aput_set_subset [of k s "Sessions st"] assms(3) by (auto simp: put_session_def)
  then show "load_state t' = Inr (stored_state (put_session st k s))" by (rule load_saved [OF assms(4)])
  have "distinct (map fst (Sessions (put_session st k s)))"
    using wf by (simp add: wf_state_def wf_sessions_def put_session_def)
  from stored_lookup [OF this, of j]
  show "alookup (Sessions (stored_state (put_session st k s))) j = map_option stored_session (if j = k then Some s else alookup (Sessions st) j)"
    by (simp add: put_session_def)
qed

lemma same_defined: "sameCreateRequest (defined_session req pr t1 t2) req"
  by (simp add: sameCreateRequest_def defined_session_def session_of_request_def request_modes_def)

lemma deleteCapability_frame:
  "run_state (deleteCapability E ident seq) w = (r, w1)
   \<Longrightarrow> wTables w1 = wTables w \<and> wLogs w1 = wLogs w \<and> wMetrics w1 = wMetrics w"
  by (auto simp: deleteCapability_def write_file_def split: if_splits sum.splits file_fault.splits)

lemma recordRun_new:
  "rSeq r \<noteq> 0 \<Longrightarrow> run_key r \<notin> set (map run_key (Runs st)) \<Longrightarrow> snd (recordRun st r) = st\<lparr>Runs := push_run r (Runs st)\<rparr>"
  by (auto simp: recordRun_def list_ex_iff run_key_def image_iff)

lemma adopt_runs:
  assumes "\<forall>r \<in> set (Runs st). rSessionID r = sID s \<longrightarrow> rSeq r \<le> int k"
  shows "foldl (\<lambda>st (i, r). snd (recordRun st (adopted_run s pr i r))) st (enumerate k rs)
    = st\<lparr>Runs := (if rs = [] then Runs st else take maxRunRecords (rev (map (\<lambda>(i, r). adopted_run s pr i r) (enumerate k rs)) @ Runs st))\<rparr>"
  using assms
proof (induction rs arbitrary: st k)
  case (Cons r rs)
  let ?r = "adopted_run s pr k r"
  have key: "rSessionID ?r = sID s" "rSeq ?r = int k + 1" by (simp_all add: adopted_run_def)
  have "run_key ?r \<notin> set (map run_key (Runs st))"
    using Cons.prems key by (auto simp: run_key_def)
  then have first: "snd (recordRun st ?r) = st\<lparr>Runs := take maxRunRecords (?r # Runs st)\<rparr>"
    using key by (simp add: recordRun_new push_run_def)
  have "\<forall>x \<in> set (take maxRunRecords (?r # Runs st)). rSessionID x = sID s \<longrightarrow> rSeq x \<le> int (Suc k)"
    using Cons.prems key by (auto dest!: in_set_takeD)
  from Cons.IH [of "st\<lparr>Runs := take maxRunRecords (?r # Runs st)\<rparr>" "Suc k"] this
  show ?case by (simp add: first take_append min_def)
qed simp


lemma lookup_put: "alookup (Sessions (put_session st k s)) j = (if j = k then Some s else alookup (Sessions st) j)"
  by (simp add: put_session_def)

end
