(* ===== verification/SessionSafety.thy ===== *)
theory SessionSafety
  imports SessionEffects
begin

text \<open>
  What the operations of the session component promise to the principals that call them: ownership, the claim of a
  run, compensation of what was half done, replay, deletion, adoption, admission to a running session and shutdown.
\<close>

section \<open>Ownership\<close>

lemmas refused = run_attempt run_locked Let_def Start_def Attach_def Stop_def Delete_def AdoptRuns_def claim_stop_def beginOperation_def

text \<open>
  C3: A request about a session of another principal changes nothing. Starting, attaching, stopping, deleting it and adopting
  a history into it all answer that the owner does not match, and the world after it is the world before it.
\<close>

theorem foreign_session_untouched:
  assumes "undisturbed E" and "\<And>n. eLoadFault E n = None" and "\<not> wClosing w"
    and "load_state (wTables w) = Inr st" and "alookup (Sessions st) ident = Some s" and "sOwner s \<noteq> pr"
  shows "\<exists>n. run_state (Start E pr ident) w = (Inl errOwnerMismatch, w\<lparr>wTick := n\<rparr>)
      \<and> run_state (Attach E pr ident modes) w = (Inl errOwnerMismatch, w\<lparr>wTick := n\<rparr>)
      \<and> run_state (Stop E pr ident) w = (Inl errOwnerMismatch, w\<lparr>wTick := n\<rparr>)
      \<and> run_state (Delete E pr ident) w = (Inl errOwnerMismatch, w\<lparr>wTick := n\<rparr>)
      \<and> (shRuns h \<noteq> [] \<and> length (shRuns h) \<le> 50 \<and> list_all finished_run_ok (shRuns h) \<longrightarrow>
           run_state (AdoptRuns E pr ident h) w = (Inl errOwnerMismatch, w\<lparr>wTick := n\<rparr>))"
proof -
  have "run_state (claimLaunch E ident pr) w = (Inl errOwnerMismatch, w\<lparr>wTick := Suc (Suc (wTick w))\<rparr>)"
    using run_claimLaunch [OF assms(1,2,4,5)] assms(6) by simp
  from retireFinished_refused [OF this] show ?thesis
    using assms by (intro exI [of _ "Suc (Suc (wTick w))"]) (simp add: refused)
qed

text \<open>
  C31: A session that has not stopped can neither be started again, nor attached, nor deleted, and trying changes nothing.
\<close>

theorem busy_session_refused:
  assumes "undisturbed E" and "\<And>n. eLoadFault E n = None"
    and "load_state (wTables w) = Inr st" and "alookup (Sessions st) ident = Some s" and "\<not> terminalSession (sState s)"
  shows "\<exists>n. run_state (Start E (sOwner s) ident) w = (Inl errSessionRunning, w\<lparr>wTick := n\<rparr>)
      \<and> run_state (Attach E (sOwner s) ident modes) w = (Inl errSessionRunning, w\<lparr>wTick := n\<rparr>)
      \<and> run_state (Delete E (sOwner s) ident) w = (Inl errSessionNotStopped, w\<lparr>wTick := n\<rparr>)"
proof -
  have "run_state (claimLaunch E ident (sOwner s)) w = (Inl errSessionRunning, w\<lparr>wTick := Suc (Suc (wTick w))\<rparr>)"
    using run_claimLaunch [OF assms(1-4)] assms(5) by simp
  from retireFinished_refused [OF this] show ?thesis
    using assms by (intro exI [of _ "Suc (Suc (wTick w))"]) (simp add: refused)
qed

text \<open>
  A session that is read or listed for a principal belongs to that principal, and is the one that was asked for.
\<close>

theorem reads_are_owned:
  "(case fst (run_state (Get E pr ident) w) of Inl _ \<Rightarrow> True | Inr s \<Rightarrow> sOwner s = pr \<and> sID s = ident)
   \<and> (case fst (run_state (sessionsOf E pr) w) of Inl _ \<Rightarrow> True | Inr ss \<Rightarrow> list_all (\<lambda>s. sOwner s = pr) ss)"
proof -
  have "sOwner s = pr \<and> sID s = ident" if "fst (run_state (Get E pr ident) w) = Inr s" for s
    using that run_loadSession [of E ident w s] by (auto simp: Get_def split: sum.splits prod.splits if_splits)
  moreover have "list_all (\<lambda>s. sOwner s = pr) ss" if "fst (run_state (sessionsOf E pr) w) = Inr ss" for ss
    using that by (auto simp: sessionsOf_def list_all_iff split: sum.splits dest!: read_result)
  ultimately show ?thesis by (auto split: sum.splits)
qed

section \<open>Runs\<close>




section \<open>Definitions and histories\<close>

text \<open>
  C25: Repeating a definition is harmless: the same request again answers the session the first one answered, reports it as
  not new, and changes nothing.
\<close>

theorem Define_replay:
  assumes "undisturbed E" and "\<And>n. eLoadFault E n = None" and "wf_tables (wTables w)"
    and "run_state (Define E pr raw) w = (Inr (s, created), w1)"
  shows "\<exists>n. run_state (Define E pr raw) w1 = (Inr (s, False), w1\<lparr>wTick := n\<rparr>)"
proof -
  from assms(4) obtain req where req: "assignSessionID raw pr = Inr req" by (auto simp: Define_def split: sum.splits)
  from assms(3) obtain st where st: "load_state (wTables w) = Inr st" by (auto simp: wf_tables_def split: sum.splits)
  show ?thesis
  proof (cases "alookup (Sessions st) (crID req)")
    case (Some existing)
    with assms req st have "w1 = w\<lparr>wTick := wTick w1\<rparr>" "s = existing" "sOwner s = pr" "sameCreateRequest s req" "wTables w1 = wTables w"
      by (auto simp: Define_def utcNow_def run_locked Let_def split: if_splits)
    with assms(1,2) req st Some show ?thesis by (auto simp: Define_def utcNow_def run_locked Let_def)
  next
    case None
    with assms req st obtain t t1 t2 where saved: "save_tables (put_session st (crID req) s) = Inr t" and w1: "wTables w1 = t"
      and s: "s = defined_session req pr t1 t2"
      by (auto simp: Define_def utcNow_def run_locked run_save Let_def split: option.splits sum.splits)
    have id: "sID s = crID req" and owner: "sOwner s = pr" and clean: "sError s = []"
      by (simp_all add: s defined_session_def session_of_request_def)
    have "load_state (wTables w1) = Inr (stored_state (put_session st (crID req) s))"
      using load_put(1) [OF assms(3) st id saved] w1 by simp
    moreover have "alookup (Sessions (stored_state (put_session st (crID req) s))) (crID req) = Some s"
      using load_put(2) [OF assms(3) st id saved, of "crID req"] clean by (simp add: stored_session_clean)
    ultimately show ?thesis using assms(1,2) req owner same_defined [of req pr t1 t2] s
      by (auto simp: Define_def utcNow_def run_locked Let_def)
  qed
qed

text \<open>
  A valid request without an identifier is always given one of the right form, and it depends on the principal and the
  idempotency key only.
\<close>

theorem assigned_identifier:
  assumes "validateCreate raw = Inr req" and "crID raw = []"
  shows "\<exists>ident. assignSessionID raw pr = Inr (req\<lparr>crID := ident\<rparr>) \<and> idPattern ident
     \<and> ident = ''s-'' @ hex_encode (take 6 (sha256 (PrincipalDirName pr @ [nul] @ crIdempotencyKey raw)))"
proof -
  have same: "crID req = []" "crIdempotencyKey req = crIdempotencyKey raw"
    using assms by (auto simp: validateCreate_def Let_def split: if_splits sum.splits)
  let ?bytes = "take 6 (sha256 (PrincipalDirName pr @ [nul] @ crIdempotencyKey raw))"
  have "idPattern (''s-'' @ hex_encode ?bytes)"
    using hex_encode_lower [of ?bytes] sha256_lt by (auto simp: idPattern_def list_all_iff dest!: in_set_takeD)
  then show ?thesis using assms(1) same by (simp add: assignSessionID_def Let_def)
qed

text \<open>
  C30: Deleting a session removes that session, its log buffer and its metrics, keeps every other session, and keeps the run
  history, that of the deleted session included.
\<close>

theorem Delete_forgets:
  assumes "undisturbed E" and "wf_tables (wTables w)" and "run_state (Delete E pr ident) w = (Inr s, w')"
  shows "\<exists>st st'. load_state (wTables w) = Inr st \<and> alookup (Sessions st) ident = Some s \<and> sOwner s = pr \<and> terminalSession (sState s)
      \<and> load_state (wTables w') = Inr st'
      \<and> (\<forall>other. alookup (Sessions st') other =
           (if other = ident then None else map_option stored_session (alookup (Sessions st) other)))
      \<and> Runs st' = map stored_run (Runs st)
      \<and> logs_tail (wLogs w') ident = None \<and> metrics_samples (wMetrics w') ident = []"
proof -
  from assms(2) obtain st where st: "load_state (wTables w) = Inr st" and wf: "wf_state st"
    by (auto simp: wf_tables_def split: sum.splits)
  let ?st = "st\<lparr>Sessions := adel ident (Sessions st)\<rparr>"
  from assms(1,3) st obtain t where found: "alookup (Sessions st) ident = Some s" "sOwner s = pr" "terminalSession (sState s)"
    and saved: "save_tables ?st = Inr t"
    and deleted: "run_state (deleteCapability E (sID s) (sSeq s)) (w\<lparr>wTick := Suc (Suc (Suc (wTick w))), wTables := t,
      wLogs := logs_forget ident (wLogs w), wMetrics := metrics_forget ident (wMetrics w)\<rparr>) = (None, w')"
    by (auto simp: Delete_def run_attempt run_locked run_save Let_def forgetSessionBuffers_def
        split: option.splits sum.splits if_splits prod.splits)
  have "load_state t = Inr (stored_state ?st)"
    using load_saved [OF saved] wf_state_keys [OF wf_state_del [OF wf, of ident]] by simp
  moreover have "alookup (Sessions (stored_state ?st)) other =
      (if other = ident then None else map_option stored_session (alookup (Sessions st) other))" for other
    using stored_lookup [of ?st other] wf by (simp add: wf_state_def wf_sessions_def)
  moreover have "Runs (stored_state ?st) = map stored_run (Runs st)" by (simp add: stored_state_def)
  moreover have "wTables w' = t" "logs_tail (wLogs w') ident = None" "metrics_samples (wMetrics w') ident = []"
    using deleteCapability_frame [OF deleted]
    by (simp_all add: logs_tail_def logs_forget_def metrics_samples_def metrics_forget_def)
  ultimately show ?thesis using st found by auto
qed

text \<open>
  C29: Adopting a history records its runs, numbered from 1 with the last one newest, leaves the session in the state of the
  last run with that run's number, and can not be done twice.
\<close>

theorem AdoptRuns_history:
  assumes "undisturbed E" and "\<And>n. eLoadFault E n = None" and "wf_tables (wTables w)"
    and "run_state (AdoptRuns E pr ident h) w = (Inr s, w')"
  shows "\<exists>st st'. load_state (wTables w) = Inr st \<and> load_state (wTables w') = Inr st'
      \<and> sSeq s = int (length (shRuns h)) \<and> sState s = frFinalState (last (shRuns h))
      \<and> alookup (Sessions st') ident = Some (stored_session s)
      \<and> Runs st' = take maxRunRecords (map stored_run (rev (map (\<lambda>(i, r). adopted_run s pr i r) (enumerate 0 (shRuns h))) @ Runs st))
      \<and> fst (run_state (AdoptRuns E pr ident h) w') = Inl errSessionHasHistory"
proof -
  from assms(3) obtain st where st: "load_state (wTables w) = Inr st" by (auto simp: wf_tables_def split: sum.splits)
  have valid: "shRuns h \<noteq> []" "\<not> 50 < length (shRuns h)" "list_all finished_run_ok (shRuns h)"
    using assms(4) by (auto simp: AdoptRuns_def split: if_splits)
  from assms(1,2,4) st valid obtain s0 n t where found: "alookup (Sessions st) ident = Some s0" "sOwner s0 = pr" "sSeq s0 = 0"
    "\<not> list_ex (\<lambda>r. rSessionID r = ident) (Runs st)" and s: "s = adopted_session s0 h (eNow E n)"
    and saved: "save_tables (put_session (adopt_all s pr (shRuns h) st) ident s) = Inr t" and w': "wTables w' = t"
    by (auto simp: AdoptRuns_def run_locked run_save utcNow_def Let_def split: option.splits sum.splits if_splits)
  have wf0: "wf_state st" "wf_session ident s0" using assms(3) st found(1) by (auto simp: wf_tables_def dest: wf_state_lookup)
  have id: "sID s = ident" using wf0(2) by (simp add: s adopted_session_def Let_def wf_session_def)
  have runs: "adopt_all s pr (shRuns h) st = st\<lparr>Runs := take maxRunRecords
      (rev (map (\<lambda>(i, r). adopted_run s pr i r) (enumerate 0 (shRuns h))) @ Runs st)\<rparr>"
    unfolding adopt_all_def using found(4) valid(1) id by (subst adopt_runs) (auto simp: list_ex_iff)
  let ?st = "put_session (adopt_all s pr (shRuns h) st) ident s"
  have keys: "\<forall>(k, s) \<in> set (Sessions ?st). sID s = k"
    using wf_state_keys [OF wf0(1)] aput_set_subset [of ident s "Sessions st"] id by (auto simp: put_session_def runs)
  have load: "load_state (wTables w') = Inr (stored_state ?st)" using load_saved [OF saved keys] w' by simp
  have "distinct (map fst (Sessions ?st))" using wf0(1) by (simp add: wf_state_def wf_sessions_def put_session_def runs)
  then have lookup: "alookup (Sessions (stored_state ?st)) ident = Some (stored_session s)"
    using stored_lookup [of ?st ident] by (simp only: lookup_put refl if_True option.map(2))
  have seq: "sSeq s = int (length (shRuns h))" by (simp add: s adopted_session_def Let_def)
  have "sOwner (stored_session s) = pr" "sSeq (stored_session s) \<noteq> 0"
    using found(2) seq valid(1) by (simp_all add: s adopted_session_def Let_def stored_session_def)
  then have "fst (run_state (AdoptRuns E pr ident h) w') = Inl errSessionHasHistory"
    using assms(1,2) load lookup valid by (simp add: AdoptRuns_def run_locked Let_def)
  moreover have "Runs (stored_state ?st) = take maxRunRecords (map stored_run (rev (map (\<lambda>(i, r). adopted_run s pr i r) (enumerate 0 (shRuns h))) @ Runs st))"
    by (simp add: stored_state_def put_session_def runs take_map)
  ultimately show ?thesis using st load lookup seq by (auto simp: s adopted_session_def Let_def)
qed

section \<open>Admission and shutdown\<close>

text \<open>
  C23: A connection is forwarded only into a session that is ready and reachable, only with the Jupyter token of the
  capability stored for its current run, and never to Linkspan's control port.
\<close>

theorem Forward_admission:
  assumes "run_state (Forward E ident protocols rawPort) w = (Inr (s, port), w')"
  shows "sID s = ident \<and> sState s = ''READY'' \<and> (link_of w' s \<noteq> None \<or> tmID (sTunnel s) \<noteq> [])
    \<and> 0 < port \<and> port < 65536 \<and> port \<noteq> portControl (ports (sID s) (sSeq s))
    \<and> (\<exists>cap. read_capability (wCapabilities w') (capability_file (cCapabilityDir (eConfig E)) (sID s, sSeq s)) = Inr cap
         \<and> offered protocols ''capability.'' = capJupyterToken cap \<and> validCapability cap)"
proof -
  from assms obtain w1 cap where load: "run_state (loadSession E ident) w = (Inr s, w1)"
    and reach: "run_state (reachable E s) w1 = (Inr cap, w')" and token: "offered protocols ''capability.'' = capJupyterToken cap"
    and port: "parse_uint16 rawPort = Some port" "port \<noteq> 0" "port \<noteq> portControl (ports (sID s) (sSeq s))"
    by (auto simp: Forward_def authorizedSession_def split: prod.splits sum.splits option.splits if_splits)
  have "sID s = ident" using load run_loadSession [of E ident w s] by simp
  moreover have "port < 65536" using port(1) by (auto simp: parse_uint16_def split: if_splits)
  moreover have "validCapability cap" using run_reachable [OF reach] by (auto simp: read_capability_def split: option.splits payload.splits if_splits)
  ultimately show ?thesis using run_reachable [OF reach] token port by auto
qed


lemma closing_begin: "ensures wClosing (beginOperation E) (\<lambda>r. r = Inl errServiceStopping)"
  by (simp add: ensures_def beginOperation_def)

lemma begin_fails: "ensures wClosing (attempt (beginOperation E) f) (\<lambda>r. \<exists>e. r = Inl e)"
  by (rule fails_attempt, rule ensures_weaken [OF closing_begin]) simp

lemma closing_launch: "ensures wClosing (launchSerialized E r req pr) (\<lambda>x. \<exists>e. x = Inl e)"
  unfolding launchSerialized_def
  by (intro fails_after closing.credential_steady closing.prepare_steady closing.validate_steady begin_fails)

text \<open>
  Once the service is closing, no session is stopped, started or attached.
\<close>

theorem closed_service_starts_nothing:
  assumes "undisturbed E" and "wClosing w"
  shows "run_state (Stop E pr ident) w = (Inl errServiceStopping, w)
    \<and> (\<exists>e. fst (run_state (Start E pr ident) w) = Inl e) \<and> (\<exists>e. fst (run_state (Attach E pr ident modes) w) = Inl e)"
proof -
  have serial: "ensures wClosing (serialized E m) (\<lambda>r. \<exists>e. r = Inl e)" if "ensures wClosing m (\<lambda>r. \<exists>e. r = Inl e)" for m :: "'a res prog"
    unfolding serialized_def
    by (rule ensures_bind [OF closing.ask_steady], rule ensures_case_option) (auto intro: that ensures_return)
  have "ensures wClosing (launch E r pr req) (\<lambda>r. \<exists>e. r = Inl e)" for r req
    unfolding launch_def
    by (rule ensures_bind [OF serial [OF closing_launch]])
      (auto intro!: ensures_keeps_bind closing.unpersisted_settled assms(1) ensures_return)
  then have "ensures wClosing (Start E pr ident) (\<lambda>r. \<exists>e. r = Inl e)"
    unfolding Start_def by (intro fails_after closing.retire_settled assms(1))
  moreover have "ensures wClosing (Attach E pr ident modes) (\<lambda>r. \<exists>e. r = Inl e)"
    unfolding Attach_def
    by (intro fails_after closing.retire_settled assms(1) closing.credential_steady begin_fails ensures_return TrueI)
  moreover have "run_state (Stop E pr ident) w = (Inl errServiceStopping, w)"
    using assms(2) by (simp add: Stop_def run_attempt beginOperation_def)
  ultimately show ?thesis using assms(2) by (simp add: ensures_def)
qed

section \<open>Concrete worlds\<close>

text \<open>A world that stores one session, for concrete runs.\<close>

definition one_session :: "Session \<Rightarrow> world" where
  "one_session s = empty_world\<lparr>wTables := \<lparr>tSessions = [(sID s, PrincipalDirName (sOwner s), Json s)], tRuns = []\<rparr>\<rparr>"

definition alice :: Principal where "alice = \<lparr>Subject = ''alice'', Tenant = []\<rparr>"

definition sample_session :: Session where
  "sample_session = defined_session sample_create alice 63902995200000000000 63902995200000000000"

lemma load_one: "load_state (wTables (one_session s)) = Inr \<lparr>Sessions = [(sID s, s)], Runs = []\<rparr>"
  by (simp add: one_session_def load_state_def ListSessions_def decodeSession_def DecodePayload_def index_sessions_def)

lemma wf_one: "wf_session (sID s) s \<Longrightarrow> wf_tables (wTables (one_session s))"
  using load_one [of s] by (simp add: wf_tables_def one_session_def wf_state_def wf_sessions_def wf_runs_def)

lemma sample_session_simps [simp]:
  "sID sample_session = ''s-0123456789ab''" "sOwner sample_session = alice" "sState sample_session = ''STOPPED''"
  "sSeq sample_session = 0" "sTunnelModes sample_session = [modeWebsocket]" "sJobName sample_session = []" "sTunnel sample_session = no_tunnel"
  "sError sample_session = []"
  by (simp_all add: sample_session_def defined_session_def session_of_request_def sample_create_def)

lemma sample_session_wf: "wf_session ''s-0123456789ab'' sample_session"
  by (simp add: wf_session_def sample_id valid_state_def session_states_def canonical_modes_def no_tunnel_def)

lemma sample_undisturbed: "undisturbed sample_env" "eLoadFault sample_env n = None"
  by (simp_all add: undisturbed_def sample_env_def)

lemma sample_open: "\<not> wClosing (one_session s)"
  by (simp add: one_session_def empty_world_def)

lemmas sample_loaded = load_one [of sample_session, simplified]

section \<open>The properties at concrete inputs\<close>

definition bob :: Principal where "bob = \<lparr>Subject = ''bob'', Tenant = []\<rparr>"

theorem foreign_session_untouched_witness:
  "\<exists>n. run_state (Delete sample_env bob ''s-0123456789ab'') (one_session sample_session)
     = (Inl errOwnerMismatch, (one_session sample_session)\<lparr>wTick := n\<rparr>)"
  using foreign_session_untouched [OF sample_undisturbed sample_open sample_loaded, of "''s-0123456789ab''" sample_session bob]
  by (auto simp: alice_def bob_def)

theorem busy_session_refused_witness:
  "\<exists>n. run_state (Start sample_env alice ''s-0123456789ab'') (one_session (sample_session\<lparr>sState := ''QUEUED'', sSeq := 1\<rparr>))
     = (Inl errSessionRunning, (one_session (sample_session\<lparr>sState := ''QUEUED'', sSeq := 1\<rparr>))\<lparr>wTick := n\<rparr>)"
  using busy_session_refused [OF sample_undisturbed load_one, of "sample_session\<lparr>sState := ''QUEUED'', sSeq := 1\<rparr>" "''s-0123456789ab''"
      "sample_session\<lparr>sState := ''QUEUED'', sSeq := 1\<rparr>"]
  by (auto simp: terminalSession_def)

lemma sample_clock: "json_time (eNow sample_env n) \<longleftrightarrow> n < 251634902400"
  by (auto simp: json_time_def sample_env_def second_def)

lemma sample_saves: "eSaveFault sample_env n = None" "eFileFault sample_env n = NoFault"
  by (simp_all add: sample_env_def)

lemma load_empty: "load_state (wTables empty_world) = Inr \<lparr>Sessions = [], Runs = []\<rparr>" "wTick empty_world = 0"
  by (simp_all add: empty_world_def load_state_def ListSessions_def index_sessions_def)

lemma save_one: "json_time (sCreatedAt s) \<Longrightarrow> json_time (sStartedAt s) \<Longrightarrow> json_time (sUpdatedAt s) \<Longrightarrow> json_time (tmExpiresAt (sTunnel s))
  \<Longrightarrow> save_tables \<lparr>Sessions = [(k, s)], Runs = []\<rparr> = Inr \<lparr>tSessions = [(sID s, PrincipalDirName (sOwner s), Json (stored_session s))], tRuns = []\<rparr>"
  by (simp add: save_tables_def session_row_def marshal_session_def stored_session_def)

theorem Define_replay_witness:
  "\<exists>s w1 n. run_state (Define sample_env alice sample_create) empty_world = (Inr (s, True), w1)
     \<and> run_state (Define sample_env alice sample_create) w1 = (Inr (s, False), w1\<lparr>wTick := n\<rparr>)"
proof -
  have "assignSessionID sample_create alice = Inr sample_create" by code_simp
  moreover have "json_time 0" by (simp add: json_time_def second_def)
  ultimately obtain s w1 where first: "run_state (Define sample_env alice sample_create) empty_world = (Inr (s, True), w1)"
    by (simp add: Define_def utcNow_def run_locked run_save sample_undisturbed sample_saves load_empty Let_def put_session_def
       save_one sample_clock defined_session_def session_of_request_def no_tunnel_def)
  moreover have "wf_tables (wTables empty_world)" using wf_empty_world by (simp add: wf_world_def)
  ultimately show ?thesis using Define_replay [OF sample_undisturbed _ first] by blast
qed

theorem assigned_identifier_witness:
  "\<exists>ident. assignSessionID (sample_create\<lparr>crID := [], crIdempotencyKey := ''k''\<rparr>) alice
     = Inr (sample_create\<lparr>crIdempotencyKey := ''k'', crID := ident\<rparr>) \<and> idPattern ident"
proof -
  have "validateCreate (sample_create\<lparr>crID := [], crIdempotencyKey := ''k''\<rparr>) = Inr (sample_create\<lparr>crID := [], crIdempotencyKey := ''k''\<rparr>)"
    by code_simp
  from assigned_identifier [OF this, of alice] show ?thesis by auto
qed

theorem closed_service_starts_nothing_witness:
  "\<exists>e. fst (run_state (Start sample_env alice ''s-0123456789ab'') (empty_world\<lparr>wClosing := True\<rparr>)) = Inl e"
  using closed_service_starts_nothing [OF sample_undisturbed(1), of "empty_world\<lparr>wClosing := True\<rparr>"] by simp

theorem Delete_forgets_witness:
  "\<exists>w' st'. run_state (Delete sample_env alice ''s-0123456789ab'') (one_session sample_session) = (Inr sample_session, w')
     \<and> load_state (wTables w') = Inr st' \<and> alookup (Sessions st') ''s-0123456789ab'' = None"
proof -
  have "save_tables \<lparr>Sessions = [], Runs = []\<rparr> = Inr \<lparr>tSessions = [], tRuns = []\<rparr>" by (simp add: save_tables_def)
  then obtain w' where deleted: "run_state (Delete sample_env alice ''s-0123456789ab'') (one_session sample_session) = (Inr sample_session, w')"
    by (simp add: Delete_def run_attempt run_locked run_save sample_undisturbed sample_saves sample_loaded Let_def forgetSessionBuffers_def
        deleteCapability_def AList.delete_eq terminalSession_def)
  from Delete_forgets [OF sample_undisturbed(1) wf_one this] sample_session_wf show ?thesis using deleted by auto
qed

definition sample_history :: SessionHistory where
  "sample_history = \<lparr>shCreatedAt = 0, shRuns = [\<lparr>frFinalState = ''STOPPED'', frError = [], frStartedAt = 1, frEndedAt = 2, frStats = None, frSamples = []\<rparr>]\<rparr>"

theorem AdoptRuns_history_witness:
  "\<exists>s w'. run_state (AdoptRuns sample_env alice ''s-0123456789ab'' sample_history) (one_session sample_session) = (Inr s, w')
     \<and> sSeq s = 1 \<and> fst (run_state (AdoptRuns sample_env alice ''s-0123456789ab'' sample_history) w') = Inl errSessionHasHistory"
proof -
  have valid: "shRuns sample_history \<noteq> []" "\<not> 50 < length (shRuns sample_history)" "list_all finished_run_ok (shRuns sample_history)"
    by (simp_all add: sample_history_def finished_run_ok_def terminalSession_def)
  have zero: "json_time 0" "json_time 1" "json_time 2" "json_time 63902995200000000000" by (simp_all add: json_time_def second_def)
  have times: "sCreatedAt sample_session = 63902995200000000000"
    by (simp_all add: sample_session_def defined_session_def)
  let ?s = "adopted_session sample_session sample_history (eNow sample_env 2)"
  let ?r = "adopted_run ?s alice 0 (hd (shRuns sample_history))"
  have runs: "adopt_all ?s alice (shRuns sample_history) \<lparr>Sessions = [(''s-0123456789ab'', sample_session)], Runs = []\<rparr>
    = \<lparr>Sessions = [(''s-0123456789ab'', sample_session)], Runs = [?r]\<rparr>"
    by (simp add: adopt_all_def sample_history_def recordRun_def push_run_def maxRunRecords_def adopted_run_def)
  have row: "run_row ?r = Inr (''s-0123456789ab'', 1, PrincipalDirName alice, Json (?r\<lparr>rError := json_text (rError ?r)\<rparr>))"
    by (simp add: run_row_def marshal_run_def adopted_run_def adopted_session_def sample_history_def Let_def zero)
  have "json_time (sCreatedAt ?s)" "json_time (sStartedAt ?s)" "json_time (sUpdatedAt ?s)" "json_time (tmExpiresAt (sTunnel ?s))"
    by (simp_all add: adopted_session_def sample_history_def Let_def zero times sample_clock no_tunnel_def)
  then obtain t where saved: "save_tables (put_session (adopt_all ?s alice (shRuns sample_history)
      \<lparr>Sessions = [(''s-0123456789ab'', sample_session)], Runs = []\<rparr>) ''s-0123456789ab'' ?s) = Inr t"
    unfolding runs by (simp add: put_session_def save_tables_def session_row_def marshal_session_def row)
  have n: "wTick (one_session sample_session) = 0" by (simp add: one_session_def load_empty)
  obtain s w' where adopted: "run_state (AdoptRuns sample_env alice ''s-0123456789ab'' sample_history) (one_session sample_session) = (Inr s, w')"
    using valid saved
    by (simp add: AdoptRuns_def run_locked run_save utcNow_def sample_saves Let_def sample_undisturbed sample_loaded n numeral_2_eq_2)
  from AdoptRuns_history [OF sample_undisturbed wf_one adopted] sample_session_wf show ?thesis
    using adopted by (auto simp: sample_history_def)
qed

definition running_session :: Session where
  "running_session = sample_session\<lparr>sState := ''READY'', sSeq := 1, sJobName := ''cs-s-0123456789ab-1''\<rparr>"

definition linked_world :: world where
  "linked_world = (one_session running_session)\<lparr>wLinks := [(''s-0123456789ab'', \<lparr>lkSeq = 1, lkMux = 0\<rparr>)],
     wCapabilities := [(capability_file ''/var/lib/cs/capabilities'' (''s-0123456789ab'', 1), Json sample_capability)]\<rparr>"

lemma linked_world_capability:
  "run_state (getCapability sample_env ''s-0123456789ab'' 1) (linked_world\<lparr>wTick := n\<rparr>) = (Inr sample_capability, linked_world\<lparr>wTick := Suc n\<rparr>)"
  using capabilityPath_admitted [of "''/var/lib/cs/capabilities''" "''s-0123456789ab''" 1] sample_id sample_capability_valid
  by (simp add: getCapability_def sample_env_def run_admitted_def linked_world_def read_capability_def)

lemma linked_world_session:
  "run_state (loadSession sample_env ''s-0123456789ab'') linked_world = (Inr running_session, linked_world\<lparr>wTick := 2\<rparr>)"
  using sample_undisturbed
  by (simp add: loadSession_def read_tables_def others_def undisturbed_def linked_world_def one_session_def decodeSession_def DecodePayload_def
      running_session_def load_empty)

lemma control_port_high: "20000 \<le> portControl (ports ident seq)"
  by (simp add: ports_def Let_def)

theorem Forward_admission_witness:
  "\<exists>w'. run_state (Forward sample_env ''s-0123456789ab'' [ControlWebSocketProtocol, ''capability.'' @ capJupyterToken sample_capability] ''80'') linked_world
     = (Inr (running_session, 80), w') \<and> sState running_session = ''READY''"
proof -
  have "parse_uint16 ''80'' = Some 80" by (simp add: parse_uint16_def all_digits_def char_eval digits_val_def digit_val_def)
  moreover have "offered [ControlWebSocketProtocol, ''capability.'' @ capJupyterToken sample_capability] ''capability.'' = capJupyterToken sample_capability"
    by (simp add: offered_def trim_prefix_def)
  moreover have "portControl (ports ''s-0123456789ab'' 1) \<noteq> 80" using control_port_high [of "''s-0123456789ab''" 1] by linarith
  moreover have "sID running_session = ''s-0123456789ab''" "sSeq running_session = 1" "sState running_session = ''READY''"
    by (simp_all add: running_session_def)
  moreover have "link_of (linked_world\<lparr>wTick := 3\<rparr>) running_session \<noteq> None"
    by (simp add: link_of_def linked_world_def running_session_def)
  ultimately obtain w' where "run_state (Forward sample_env ''s-0123456789ab'' [ControlWebSocketProtocol, ''capability.'' @ capJupyterToken sample_capability] ''80'') linked_world
     = (Inr (running_session, 80), w')"
    by (simp add: Forward_def authorizedSession_def linked_world_session reachable_def linked_world_capability)
  from this Forward_admission [OF this] show ?thesis by blast
qed


lemma sample_tunnel_id: "ValidID ''s-0123456789ab-1''" by code_simp

lemma sample_issue:
  assumes "sID s = ''s-0123456789ab''" and "credToken cred = []"
  shows "\<exists>cap w'. run_state (issueSession sample_env s alice cred 1) w
    = (Inr (s\<lparr>sSeq := 1, sJobName := jobName ''s-0123456789ab'' 1, sOwner := alice, sTunnel := no_tunnel\<rparr>, [], cap), w')
    \<and> wTables w' = wTables w \<and> wTick w' = wTick w + 3"
proof -
  have path: "capabilityPath ''/var/lib/cs/capabilities'' ''s-0123456789ab'' 1
      = Inr (capability_file ''/var/lib/cs/capabilities'' (''s-0123456789ab'', 1))"
    using sample_id by (intro capabilityPath_admitted) (simp_all add: run_admitted_def)
  have env: "cCapabilityDir (eConfig sample_env) = ''/var/lib/cs/capabilities''" "eSecret sample_env n = replicate 32 7" for n
    by (simp_all add: sample_env_def)
  have "itoa 1 = ''1''" by code_simp
  moreover have "validSecret (b64_encode (replicate 32 7))" by (simp add: new_secret_valid)
  ultimately show ?thesis
    using assms sample_id sample_tunnel_id path
    by (simp add: issueSession_def newSecret_def run_attempt create_tunnel_def putCapability_def validCapability_def write_file_def
      env sample_saves Let_def)
qed


definition linked_credential :: Credential where
  "linked_credential = \<lparr>credScheme = ''github'', credToken = ''gho_token''\<rparr>"


end
