(* ===== verification/HostConfig.thy ===== *)
theory HostConfig
  imports SshExec
begin

text \<open>
  \<^verbatim>\<open>subsystems/ssh/config.go\<close>: a host entry parsed from a pasted \<^verbatim>\<open>ssh\<close> command, and the OpenSSH stanza it is
  rendered to. The parser admits connection options and a list of directives only; the renderer writes one
  \<^verbatim>\<open>Host\<close> line per entry, the line \<^verbatim>\<open>Runner.identity\<close> looks for before it resolves an alias.
\<close>

section \<open>Host entries\<close>

record HostEntry =
  hName :: string
  hHostname :: string
  hUser :: string
  hPort :: int
  hKey :: string
  hExtraDirectives :: "string list"
  hManaged :: bool

text \<open>\<^verbatim>\<open>^[A-Za-z0-9_@%:./+=,~-]{1,256}$\<close>\<close>

definition value_char :: "char \<Rightarrow> bool" where
  "value_char c \<longleftrightarrow> is_alnum c \<or> c \<in> set ''_@%:./+=,~-''"

definition valuePattern :: "string \<Rightarrow> bool" where
  "valuePattern s \<longleftrightarrow> 1 \<le> length s \<and> length s \<le> 256 \<and> list_all value_char s"

definition allowedOptions :: "(string \<times> string) list" where
  "allowedOptions =
     [(''proxyjump'', ''ProxyJump''), (''stricthostkeychecking'', ''StrictHostKeyChecking''),
      (''userknownhostsfile'', ''UserKnownHostsFile''), (''identitiesonly'', ''IdentitiesOnly''),
      (''forwardagent'', ''ForwardAgent''), (''serveraliveinterval'', ''ServerAliveInterval''),
      (''serveralivecountmax'', ''ServerAliveCountMax''), (''preferredauthentications'', ''PreferredAuthentications''),
      (''pubkeyauthentication'', ''PubkeyAuthentication''), (''pubkeyacceptedalgorithms'', ''PubkeyAcceptedAlgorithms''),
      (''hostkeyalgorithms'', ''HostKeyAlgorithms''), (''kexalgorithms'', ''KexAlgorithms''), (''ciphers'', ''Ciphers''),
      (''macs'', ''MACs''), (''addkeystoagent'', ''AddKeysToAgent''), (''compression'', ''Compression''),
      (''requesttty'', ''RequestTTY'')]"

section \<open>Rendering\<close>

definition config_add :: "string \<Rightarrow> string \<Rightarrow> (string \<times> string list) list \<Rightarrow> (string \<times> string list) list" where
  "config_add key v config =
     aput key ((case alookup config key of None \<Rightarrow> [] | Some vs \<Rightarrow> vs) @ [v]) config"

definition add_directive :: "(string \<times> string list) list \<Rightarrow> string \<Rightarrow> (string \<times> string list) list" where
  "add_directive config directive =
     (case cut (trim_space directive) '' '' of
        None \<Rightarrow> config
      | Some (key, v) \<Rightarrow> config_add (to_lower key) (trim_space v) config)"

definition stanza_config :: "HostEntry \<Rightarrow> string \<Rightarrow> (string \<times> string list) list" where
  "stanza_config h identityFile =
     (let c1 = (if hHostname h \<noteq> [] then config_add ''hostname'' (hHostname h) [] else []);
          c2 = (if hUser h \<noteq> [] then config_add ''user'' (hUser h) c1 else c1);
          c3 = (if hPort h \<noteq> 0 \<and> hPort h \<noteq> 22 then config_add ''port'' (itoa (hPort h)) c2 else c2);
          c4 = foldl add_directive c3 (hExtraDirectives h)
      in if hKey h \<noteq> [] then aput ''identitiesonly'' [''yes''] (aput ''identityfile'' [identityFile] c4) else c4)"

definition stanza :: "HostEntry \<Rightarrow> string \<Rightarrow> string list" where
  "stanza h identityFile =
     (let config = stanza_config h identityFile
      in [''Host '' @ hName h]
         @ concat (map (\<lambda>key. map (\<lambda>v. ''    '' @ key @ '' '' @ v)
             (case alookup config key of None \<Rightarrow> [] | Some vs \<Rightarrow> vs)) (sort (map fst config)))
         @ [[]])"

definition sshPath :: "string \<Rightarrow> string \<Rightarrow> string \<Rightarrow> string" where
  "sshPath dir pr name = path_join [dir, pr, ''keys'', name]"

definition renderConfig :: "string \<Rightarrow> string \<Rightarrow> HostEntry list \<Rightarrow> string" where
  "renderConfig dir pr hosts =
     join [nl] (concat (map (\<lambda>h. stanza h (sshPath dir pr (hKey h))) (sort_key hName hosts)))"

section \<open>Parsing a pasted command\<close>

definition invalid :: "string \<Rightarrow> go_error" where
  "invalid message = APIError ''invalid_ssh_command'' message 400"

definition validText :: "string \<Rightarrow> string \<Rightarrow> string res" where
  "validText subject txt =
     (if \<not> valuePattern txt then
        Inl (invalid (''The '' @ subject @ '' carries characters an ssh config cannot hold.''))
      else Inr txt)"

definition ssh_option :: "string \<Rightarrow> string \<Rightarrow> string res" where
  "ssh_option key v =
     (case validText (key @ '' value'') v of Inl e \<Rightarrow> Inl e | Inr value \<Rightarrow> Inr (key @ '' '' @ value))"

text \<open>\<^verbatim>\<open>filepath.Base\<close>\<close>

definition path_base :: "string \<Rightarrow> string" where
  "path_base p =
     (if p = [] then ''.''
      else (let t = rev (dropWhile (\<lambda>c. c = CHR ''/'') (rev p))
            in if t = [] then ''/'' else last (split_on CHR ''/'' t)))"

definition add_option :: "HostEntry \<Rightarrow> string \<Rightarrow> string \<Rightarrow> HostEntry res" where
  "add_option host key v =
     (case ssh_option key v of
        Inl e \<Rightarrow> Inl e
      | Inr directive \<Rightarrow> Inr (host\<lparr>hExtraDirectives := hExtraDirectives host @ [directive]\<rparr>))"

text \<open>The \<^verbatim>\<open>switch\<close> on the option letter.\<close>

definition parse_flag :: "HostEntry \<Rightarrow> char \<Rightarrow> string \<Rightarrow> HostEntry res" where
  "parse_flag host flag v =
     (if flag = CHR ''p'' then
        (case atoi v of
           None \<Rightarrow> Inl (invalid (go_quote v @ '' is not a port.''))
         | Some port \<Rightarrow>
             if port < 1 \<or> 65535 < port then Inl (invalid (go_quote v @ '' is not a port.''))
             else Inr (host\<lparr>hPort := port\<rparr>))
      else if flag = CHR ''l'' then
        (case validText ''user name'' v of Inl e \<Rightarrow> Inl e | Inr user \<Rightarrow> Inr (host\<lparr>hUser := user\<rparr>))
      else if flag = CHR ''J'' then add_option host ''ProxyJump'' v
      else
        (case (case cut v ''='' of None \<Rightarrow> cut v '' '' | found \<Rightarrow> found) of
           None \<Rightarrow> Inl (invalid (go_quote v @ '' is not an ssh option.''))
         | Some (key, setting) \<Rightarrow>
             (case alookup allowedOptions (to_lower (trim_space key)) of
                None \<Rightarrow> Inl (invalid (trim_space key @ '' cannot be set from a pasted command.''))
              | Some canonical \<Rightarrow> add_option host canonical (trim_space setting))))"

definition unsupported_flag :: "string \<Rightarrow> go_error" where
  "unsupported_flag field =
     invalid (field @ '' is not supported here. Keep the command to the host, user, port, jump host, and -o options; keys are added under /keys/ssh and chosen by keyId.'')"

fun parse_fields :: "HostEntry \<Rightarrow> string \<Rightarrow> string list \<Rightarrow> (HostEntry \<times> string) res" where
  "parse_fields host target [] = Inr (host, target)"
| "parse_fields host target (field # rest) =
     (if field = ''--'' then parse_fields host target rest
      else if \<not> has_prefix field ''-'' then
        (if target \<noteq> [] then Inl (invalid ''Remove the remote command; the entry describes the connection only.'')
         else parse_fields host field rest)
      else if length field < 2 \<or> field ! 1 \<notin> set ''plJo'' then Inl (unsupported_flag field)
      else if drop 2 field \<noteq> [] then
        (case parse_flag host (field ! 1) (drop 2 field) of
           Inl e \<Rightarrow> Inl e
         | Inr host' \<Rightarrow> parse_fields host' target rest)
      else
        (case rest of
           [] \<Rightarrow> Inl (invalid (field @ '' expects a value.''))
         | v # rest' \<Rightarrow>
             (case parse_flag host (field ! 1) v of
                Inl e \<Rightarrow> Inl e
              | Inr host' \<Rightarrow> parse_fields host' target rest')))"

definition fresh_host :: "string \<Rightarrow> HostEntry" where
  "fresh_host name = \<lparr>hName = name, hHostname = [], hUser = [], hPort = 22, hKey = [], hExtraDirectives = [], hManaged = False\<rparr>"

definition parse_target :: "HostEntry \<Rightarrow> string \<Rightarrow> HostEntry res" where
  "parse_target host target =
     (if target = [] then Inl (invalid ''The command names no host.'')
      else (case (case cut target ''@'' of
                    None \<Rightarrow> Inr (host, target)
                  | Some (user, hostname) \<Rightarrow>
                      (case validText ''user name'' user of
                         Inl e \<Rightarrow> Inl e
                       | Inr u \<Rightarrow> Inr (host\<lparr>hUser := u\<rparr>, hostname))) of
              Inl e \<Rightarrow> Inl e
            | Inr (host', t) \<Rightarrow>
                (case validText ''host name'' t of Inl e \<Rightarrow> Inl e | Inr hostname \<Rightarrow> Inr (host'\<lparr>hHostname := hostname\<rparr>))))"

definition parseCommand :: "string \<Rightarrow> string \<Rightarrow> HostEntry res" where
  "parseCommand name command =
     (if \<not> ValidAlias name then Inl ErrInvalidAlias
      else (let fields = str_fields command;
                args = (if fields \<noteq> [] \<and> equal_fold (path_base (hd fields)) ''ssh'' then tl fields else fields)
            in (case parse_fields (fresh_host name) [] args of
                  Inl e \<Rightarrow> Inl e
                | Inr (host, target) \<Rightarrow> parse_target host target)))"

definition hostWithCredential :: "string \<Rightarrow> string \<Rightarrow> string \<Rightarrow> HostEntry res" where
  "hostWithCredential alias command key =
     (case parseCommand alias command of
        Inl e \<Rightarrow> Inl e
      | Inr host \<Rightarrow> Inr (host\<lparr>hKey := key, hManaged := True\<rparr>))"

section \<open>What the parser admits\<close>

lemma value_char_plain: "value_char c \<Longrightarrow> \<not> space_byte c" "value_char c \<Longrightarrow> c \<noteq> nl"
  by (auto simp: value_char_def is_alnum_iff space_byte_def space_encodings_def less_eq_char_def)

lemma valuePattern_plain: "valuePattern v \<Longrightarrow> c \<in> set v \<Longrightarrow> \<not> space_byte c" "valuePattern v \<Longrightarrow> nl \<notin> set v" "valuePattern v \<Longrightarrow> v \<noteq> []"
  using value_char_plain by (auto simp: valuePattern_def list_all_iff)

lemma trim_value: "valuePattern v \<Longrightarrow> trim_space v = v"
  using valuePattern_plain by (intro trim_space_fresh) auto

definition canonical_option :: "string \<Rightarrow> bool" where
  "canonical_option key \<longleftrightarrow> key \<in> snd ` set allowedOptions"

definition directive_ok :: "string \<Rightarrow> bool" where
  "directive_ok d \<longleftrightarrow> (\<exists>canonical v. d = canonical @ '' '' @ v \<and> canonical_option canonical \<and> valuePattern v)"

definition host_wf :: "HostEntry \<Rightarrow> bool" where
  "host_wf h \<longleftrightarrow>
     ValidAlias (hName h) \<and> valuePattern (hHostname h) \<and> (hUser h = [] \<or> valuePattern (hUser h))
     \<and> 1 \<le> hPort h \<and> hPort h \<le> 65535 \<and> list_all directive_ok (hExtraDirectives h)
     \<and> ((CHR ''@'' \<notin> set (hHostname h) \<and> hd (hHostname h) \<noteq> CHR ''-'')
        \<or> (hUser h \<noteq> [] \<and> CHR ''@'' \<notin> set (hUser h) \<and> hd (hUser h) \<noteq> CHR ''-''))"

lemma options_lower:
  "list_all (\<lambda>(lower, canonical). map lower_char canonical = lower \<and> list_all is_alnum canonical \<and> canonical \<noteq> []
     \<and> lower \<noteq> ''host'' \<and> list_all is_alnum lower) allowedOptions"
  by code_simp

lemma options_distinct: "distinct (map fst allowedOptions)"
  by (simp add: allowedOptions_def)

lemma alnum_high:
  assumes "list_all is_alnum s"
  shows "CHR 0xE2 \<notin> set s" "CHR 0xC4 \<notin> set s" "CHR 0xC5 \<notin> set s"
  using assms by (auto simp: list_all_iff is_alnum_iff less_eq_char_def)

lemma to_lower_alnum: "list_all is_alnum s \<Longrightarrow> to_lower s = map lower_char s"
  by (simp add: to_lower_def replace_all_fresh alnum_high)

lemma fold_alnum: "list_all is_alnum s \<Longrightarrow> fold_case s = map lower_char s"
  by (simp add: fold_case_def replace_all_fresh alnum_high)

lemma fold_Host: "fold_case ''Host'' = ''host''"
  by code_simp

lemma alnum_value: "is_alnum c \<Longrightarrow> value_char c"
  by (simp add: value_char_def)

lemma option_facts:
  assumes "(lower, canonical) \<in> set allowedOptions"
  shows "alookup allowedOptions (to_lower (trim_space canonical)) = Some canonical" "to_lower canonical = lower"
    "\<not> equal_fold lower ''Host''" "canonical \<noteq> []" "\<forall>c \<in> set canonical. value_char c"  "\<forall>c \<in> set lower. value_char c"
    "CHR ''='' \<notin> set canonical" "CHR '' '' \<notin> set canonical" "lower \<noteq> []"
proof -
  have facts: "map lower_char canonical = lower" "list_all is_alnum canonical" "canonical \<noteq> []" "lower \<noteq> ''host''" "list_all is_alnum lower"
    using options_lower assms by (auto simp: list_all_iff)
  show "to_lower canonical = lower" using facts by (simp add: to_lower_alnum)
  have plain: "\<forall>c \<in> set canonical. value_char c" using facts(2) by (simp add: alnum_value list_all_iff)
  then show "\<forall>c \<in> set canonical. value_char c" .
  have "trim_space canonical = canonical" using facts(3) plain value_char_plain(1) by (intro trim_space_fresh) auto
  with \<open>to_lower canonical = lower\<close> show "alookup allowedOptions (to_lower (trim_space canonical)) = Some canonical"
    using options_distinct assms by (simp add: map_of_is_SomeI)
  show "CHR ''='' \<notin> set canonical" "CHR '' '' \<notin> set canonical"
    using facts(2) by (auto simp: list_all_iff is_alnum_iff less_eq_char_def)
  show "canonical \<noteq> []" "lower \<noteq> []" "\<forall>c \<in> set lower. value_char c" using facts by (auto simp: alnum_value list_all_iff)
  have "fold_case lower = map lower_char (map lower_char canonical)" using facts by (simp add: fold_alnum)
  moreover note fold_Host
  moreover have "lower_char (lower_char c) = lower_char c" for c
    by (simp add: lower_char_def less_eq_char_def)
  ultimately show "\<not> equal_fold lower ''Host''" using facts(1,4) by (auto simp: equal_fold_def)
qed

text \<open>What the loop over the options keeps of the entry it builds.\<close>

definition host_draft :: "string \<Rightarrow> HostEntry \<Rightarrow> bool" where
  "host_draft name h \<longleftrightarrow>
     hName h = name \<and> (hUser h = [] \<or> valuePattern (hUser h)) \<and> 1 \<le> hPort h \<and> hPort h \<le> 65535
     \<and> list_all directive_ok (hExtraDirectives h) \<and> hKey h = [] \<and> \<not> hManaged h"

lemma validText_Inr [simp]: "validText subject txt = Inr v \<longleftrightarrow> v = txt \<and> valuePattern txt"
  by (auto simp: validText_def)

lemma directive_okI: "canonical_option canonical \<Longrightarrow> valuePattern v \<Longrightarrow> directive_ok (canonical @ CHR '' '' # v)"
  by (auto simp: directive_ok_def)

lemma add_option_draft:
  "host_draft name h \<Longrightarrow> canonical_option canonical \<Longrightarrow> add_option h canonical v = Inr h' \<Longrightarrow> host_draft name h'"
  using directive_okI [of canonical v] by (auto simp: add_option_def ssh_option_def host_draft_def split: sum.splits)

lemma proxy_option: "canonical_option ''ProxyJump''"
  by (simp add: canonical_option_def allowedOptions_def)

lemma allowed_canonical: "alookup allowedOptions key = Some canonical \<Longrightarrow> canonical_option canonical"
  using alookup_in_set [of allowedOptions key canonical] by (force simp: canonical_option_def)

lemma parse_flag_draft:
  assumes "host_draft name h" and "parse_flag h flag v = Inr h'"
  shows "host_draft name h'"
proof -
  consider port where "h' = h\<lparr>hPort := port\<rparr>" "1 \<le> port" "port \<le> 65535" | "h' = h\<lparr>hUser := v\<rparr>" "valuePattern v"
    | canonical setting where "canonical_option canonical" "add_option h canonical setting = Inr h'"
    using assms(2) proxy_option
    by (auto simp: parse_flag_def split: if_splits option.splits sum.splits dest!: allowed_canonical)
  then show ?thesis
  proof cases
    case 3
    with assms(1) show ?thesis by (metis add_option_draft)
  qed (use assms(1) in \<open>simp_all add: host_draft_def\<close>)
qed

lemma parse_fields_draft:
  "parse_fields h target args = Inr (h', target') \<Longrightarrow> host_draft name h \<Longrightarrow> (target = [] \<or> hd target \<noteq> CHR ''-'') 
   \<Longrightarrow> host_draft name h' \<and> (target' = [] \<or> hd target' \<noteq> CHR ''-'')"
proof (induction h target args rule: parse_fields.induct)
  case (2 h target field rest)
  have dash: "hd field \<noteq> CHR ''-''" if "\<not> has_prefix field ''-''" "field \<noteq> []"
    using that by (cases field) auto
  show ?case
    using "2.prems" parse_flag_draft [of name h] dash "2.IH"
    by (auto split: if_splits sum.splits list.splits)
qed simp

lemma parse_target_wf:
  assumes "parse_target h target = Inr h'" and "host_draft name h" and "ValidAlias name" and "hd target \<noteq> CHR ''-''"
  shows "host_wf h' \<and> hName h' = name \<and> hKey h' = [] \<and> \<not> hManaged h'"
proof (cases "cut target ''@''")
  case None
  then have "CHR ''@'' \<notin> set target" by (simp add: cut_char_None)
  with None assms show ?thesis
    by (auto simp: parse_target_def host_draft_def host_wf_def split: if_splits sum.splits)
next
  case (Some p)
  then obtain user hostname where p: "cut target ''@'' = Some (user, hostname)" by (cases p) auto
  then have "CHR ''@'' \<notin> set user" "target = user @ ''@'' @ hostname" using cut_char_fresh cut_Some by blast+
  with assms p show ?thesis
    by (auto simp: parse_target_def host_draft_def host_wf_def valuePattern_plain(3) split: if_splits sum.splits)
qed

section \<open>A command for every entry\<close>

text \<open>The canonical command of an entry: its port, its directives, its user and its host name.\<close>

definition directive_word :: "string \<Rightarrow> string" where
  "directive_word d = (case cut d '' '' of None \<Rightarrow> d | Some (key, v) \<Rightarrow> key @ ''='' @ v)"

definition directive_words :: "string list \<Rightarrow> string list" where
  "directive_words ds = concat (map (\<lambda>d. [''-o'', directive_word d]) ds)"

definition target_words :: "HostEntry \<Rightarrow> string list" where
  "target_words h =
     (if hUser h = [] then [hHostname h]
      else if CHR ''@'' \<notin> set (hUser h) \<and> hd (hUser h) \<noteq> CHR ''-'' then [hUser h @ ''@'' @ hHostname h]
      else [''-l'', hUser h, hHostname h])"

definition command_words :: "HostEntry \<Rightarrow> string list" where
  "command_words h = [''ssh'', ''-p'', itoa (hPort h)] @ directive_words (hExtraDirectives h) @ target_words h"

lemma directive_word_ok:
  assumes "directive_ok d"
  obtains canonical v where "d = canonical @ '' '' @ v" "canonical_option canonical" "valuePattern v" "directive_word d = canonical @ ''='' @ v"
proof -
  from assms obtain canonical v where d: "d = canonical @ '' '' @ v" "canonical_option canonical" "valuePattern v"
    by (auto simp: directive_ok_def)
  then obtain lower where "(lower, canonical) \<in> set allowedOptions" by (auto simp: canonical_option_def)
  from option_facts(8) [OF this] have "cut d '' '' = Some (canonical, v)" using d(1) by (simp add: cut_char_append)
  with d that show thesis by (simp add: directive_word_def)
qed

lemma parse_directive_word:
  assumes "directive_ok d"
  shows "parse_flag h CHR ''o'' (directive_word d) = Inr (h\<lparr>hExtraDirectives := hExtraDirectives h @ [d]\<rparr>)"
proof -
  from directive_word_ok [OF assms] obtain canonical v where d: "d = canonical @ '' '' @ v" "canonical_option canonical" "valuePattern v"
    "directive_word d = canonical @ ''='' @ v" .
  then obtain lower where row: "(lower, canonical) \<in> set allowedOptions" by (auto simp: canonical_option_def)
  have "cut (directive_word d) ''='' = Some (canonical, v)" using d(4) option_facts(7) [OF row] by (simp add: cut_char_append)
  then show ?thesis
    using option_facts(1) [OF row] d by (simp add: parse_flag_def add_option_def ssh_option_def trim_value validText_def)
qed

lemma parse_directives:
  "list_all directive_ok ds \<Longrightarrow> parse_fields h target (directive_words ds @ rest)
     = parse_fields (h\<lparr>hExtraDirectives := hExtraDirectives h @ ds\<rparr>) target rest"
  by (induction ds arbitrary: h) (simp_all add: directive_words_def parse_directive_word)

lemma not_flag: "s \<noteq> [] \<Longrightarrow> hd s \<noteq> CHR ''-'' \<Longrightarrow> \<not> has_prefix s ''-'' \<and> s \<noteq> ''--''"
  by (cases s) auto

lemma parse_target_words:
  assumes "host_wf h"
  shows "(case parse_fields (h\<lparr>hUser := [], hHostname := []\<rparr>) [] (target_words h) of Inl e \<Rightarrow> Inl e | Inr (h', target) \<Rightarrow> parse_target h' target) = Inr h"
proof -
  have host: "valuePattern (hHostname h)" "hHostname h \<noteq> []" using assms valuePattern_plain(3) by (auto simp: host_wf_def)
  show ?thesis
  proof (cases "hUser h = [] \<or> \<not> (CHR ''@'' \<notin> set (hUser h) \<and> hd (hUser h) \<noteq> CHR ''-'')")
    case True
    with assms have plain: "CHR ''@'' \<notin> set (hHostname h)" "hd (hHostname h) \<noteq> CHR ''-''" by (auto simp: host_wf_def)
    then have "cut (hHostname h) ''@'' = None" by (simp add: cut_char_None)
    with True plain host assms not_flag [OF host(2) plain(2)] show ?thesis
      by (auto simp: target_words_def parse_target_def parse_flag_def validText_def host_wf_def)
  next
    case False
    let ?t = "hUser h @ CHR ''@'' # hHostname h"
    have "cut ?t ''@'' = Some (hUser h, hHostname h)" using False by (simp add: cut_char_append)
    moreover have "valuePattern (hUser h)" using False assms by (auto simp: host_wf_def)
    moreover have "\<not> has_prefix ?t ''-'' \<and> ?t \<noteq> ''--''" using False by (intro not_flag) auto
    ultimately show ?thesis using False host by (simp add: target_words_def parse_target_def validText_def)
  qed
qed

lemma valuePattern_chars: "valuePattern v \<Longrightarrow> list_all value_char v \<and> v \<noteq> []"
  by (auto simp: valuePattern_def)

lemma valuePattern_Nil [simp]: "\<not> valuePattern []"
  by (simp add: valuePattern_def)

lemma flag_chars:
  "value_char CHR ''s''" "value_char CHR ''h''" "value_char CHR ''p''" "value_char CHR ''o''" "value_char CHR ''l''"
  "value_char CHR ''-''" "value_char CHR ''@''" "value_char CHR ''=''"
  by (simp_all add: value_char_def char_eval)

lemma directive_word_chars: "directive_ok d \<Longrightarrow> list_all value_char (directive_word d) \<and> directive_word d \<noteq> []"
proof (elim directive_word_ok)
  fix canonical v
  assume d: "canonical_option canonical" "valuePattern v" "directive_word d = canonical @ ''='' @ v"
  then obtain lower where "(lower, canonical) \<in> set allowedOptions" by (auto simp: canonical_option_def)
  from option_facts(5) [OF this] d valuePattern_chars [OF d(2)] show ?thesis by (auto simp: flag_chars list_all_iff)
qed

lemma target_words_chars: "host_wf h \<Longrightarrow> w \<in> set (target_words h) \<Longrightarrow> list_all value_char w \<and> w \<noteq> []"
  by (auto simp: target_words_def host_wf_def valuePattern_chars flag_chars split: if_splits)

lemma command_words_chars: "host_wf h \<Longrightarrow> w \<in> set (command_words h) \<Longrightarrow> list_all value_char w \<and> w \<noteq> []"
proof -
  assume wf: "host_wf h" and w: "w \<in> set (command_words h)"
  have "0 \<le> hPort h" using wf by (simp add: host_wf_def)
  then have "list_all value_char (itoa (hPort h))"
    using itoa_digits [of "hPort h"] by (simp add: list_all_iff alnum_value is_alnum_def)
  moreover have "list_all value_char x \<and> x \<noteq> []" if "x \<in> set (directive_words (hExtraDirectives h))" for x
    using that wf directive_word_chars by (auto simp: directive_words_def host_wf_def list_all_iff [of directive_ok] flag_chars split: if_splits)
  ultimately show ?thesis
    using w target_words_chars [OF wf] by (auto simp: command_words_def flag_chars)
qed

lemma parse_command_words:
  assumes "host_wf h" and "hKey h = []" and "\<not> hManaged h"
  shows "parseCommand (hName h) (join '' '' (command_words h)) = Inr h"
proof -
  have fields: "str_fields (join '' '' (command_words h)) = command_words h"
    using command_words_chars [OF assms(1)] value_char_plain(1) by (intro fields_join) (auto simp: list_all_iff)
  have ssh: "equal_fold (path_base ''ssh'') ''ssh''" by (simp add: path_base_def equal_fold_def)
  have range: "1 \<le> hPort h" "hPort h \<le> 65535" and ds: "list_all directive_ok (hExtraDirectives h)" and valid: "ValidAlias (hName h)"
    using assms(1) by (simp_all add: host_wf_def)
  have port: "parse_flag (fresh_host (hName h)) CHR ''p'' (itoa (hPort h)) = Inr ((fresh_host (hName h))\<lparr>hPort := hPort h\<rparr>)"
    using range atoi_itoa [of "hPort h"] by (simp add: parse_flag_def)
  have draft: "(fresh_host (hName h))\<lparr>hPort := hPort h, hExtraDirectives := hExtraDirectives h\<rparr> = h\<lparr>hUser := [], hHostname := []\<rparr>"
    using assms(2,3) by (cases h) (simp add: fresh_host_def)
  have "hExtraDirectives (fresh_host (hName h)) = []" by (simp add: fresh_host_def)
  then have "parse_fields (fresh_host (hName h)) [] (tl (command_words h)) = parse_fields (h\<lparr>hUser := [], hHostname := []\<rparr>) [] (target_words h)"
    using draft by (simp add: command_words_def port parse_directives [OF ds])
  then show ?thesis
    using valid parse_target_words [OF assms(1)] ssh by (simp add: parseCommand_def fields Let_def) (simp add: command_words_def)
qed

text \<open>
  C21: A host entry can be entered by some pasted command exactly when it is well formed: a valid alias, a port between 1
  and 65535, user and host name of safe characters, and directives from the admitted list only, each with a value of
  safe characters. So nothing a command holds can break out of its line of the rendered configuration.
\<close>

theorem parseCommand_image:
  "(\<exists>command. parseCommand name command = Inr h) \<longleftrightarrow> host_wf h \<and> hName h = name \<and> hKey h = [] \<and> \<not> hManaged h"
proof
  assume "\<exists>command. parseCommand name command = Inr h"
  then obtain args h0 target where valid: "ValidAlias name" and fields: "parse_fields (fresh_host name) [] args = Inr (h0, target)"
    and target: "parse_target h0 target = Inr h"
    by (auto simp: parseCommand_def Let_def split: if_splits sum.splits)
  have "host_draft name (fresh_host name)" by (simp add: host_draft_def fresh_host_def)
  with parse_fields_draft [OF fields] have "host_draft name h0" "target = [] \<or> hd target \<noteq> CHR ''-''" by auto
  with parse_target_wf [OF target _ valid] target show "host_wf h \<and> hName h = name \<and> hKey h = [] \<and> \<not> hManaged h"
    by (auto simp: parse_target_def)
qed (use parse_command_words in blast)

section \<open>What the renderer writes\<close>

definition entry_keys :: "string list" where
  "entry_keys = [''hostname'', ''user'', ''port'', ''identityfile'', ''identitiesonly'']"

definition config_key :: "string \<Rightarrow> bool" where
  "config_key k \<longleftrightarrow> k \<in> set entry_keys \<or> k \<in> fst ` set allowedOptions"

lemma entry_keys_plain: "list_all (\<lambda>k. k \<noteq> [] \<and> list_all is_alnum k \<and> map lower_char k \<noteq> ''host'') entry_keys"
  by code_simp

definition config_ok :: "(string \<times> string list) list \<Rightarrow> bool" where
  "config_ok config \<longleftrightarrow> (\<forall>(k, vs) \<in> set config. config_key k \<and> (\<forall>v \<in> set vs. nl \<notin> set v))"

lemma config_key_facts:
  assumes "config_key k"
  shows "k \<noteq> []" "\<forall>c \<in> set k. value_char c" "\<not> equal_fold k ''Host''"
proof -
  consider "k \<in> set entry_keys" | canonical where "(k, canonical) \<in> set allowedOptions"
    using assms by (auto simp: config_key_def)
  then have "k \<noteq> [] \<and> (\<forall>c \<in> set k. value_char c) \<and> \<not> equal_fold k ''Host''"
  proof cases
    case 1
    with entry_keys_plain have "k \<noteq> []" "list_all is_alnum k" "map lower_char k \<noteq> ''host''" by (auto simp: list_all_iff)
    then show ?thesis using fold_Host by (simp add: alnum_value equal_fold_def fold_alnum list_all_iff)
  next
    case 2
    from option_facts(3,6,9) [OF 2] show ?thesis by simp
  qed
  then show "k \<noteq> []" "\<forall>c \<in> set k. value_char c" "\<not> equal_fold k ''Host''" by auto
qed

lemma config_ok_put: "config_ok config \<Longrightarrow> config_key k \<Longrightarrow> \<forall>v \<in> set vs. nl \<notin> set v \<Longrightarrow> config_ok (aput k vs config)"
  using aput_set_subset [of k vs config] by (auto simp: config_ok_def)

lemma config_ok_lookup: "config_ok config \<Longrightarrow> alookup config k = Some vs \<Longrightarrow> config_key k \<and> (\<forall>v \<in> set vs. nl \<notin> set v)"
  using alookup_in_set [of config k vs] by (auto simp: config_ok_def)

lemma config_ok_add: "config_ok config \<Longrightarrow> config_key k \<Longrightarrow> nl \<notin> set v \<Longrightarrow> config_ok (config_add k v config)"
  using config_ok_lookup [of config k] by (auto simp: config_add_def intro!: config_ok_put split: option.splits)

lemma config_ok_directive:
  assumes "config_ok config" and "directive_ok d"
  shows "config_ok (add_directive config d)"
proof -
  from assms(2) obtain canonical v lower where d: "d = canonical @ '' '' @ v" "valuePattern v" and row: "(lower, canonical) \<in> set allowedOptions"
    by (auto simp: directive_ok_def canonical_option_def)
  have "nl \<notin> set (trim_space v)" using set_trim_space [of v] valuePattern_plain(2) [OF d(2)] by auto
  moreover have "trim_space d = d"
    using d valuePattern_plain option_facts(4,5) [OF row] value_char_plain(1) by (intro trim_space_fresh) (auto simp: last_append)
  moreover have "cut d '' '' = Some (canonical, v)" using option_facts(8) [OF row] d(1) by (simp add: cut_char_append)
  moreover have "config_key (to_lower canonical)" using row option_facts(2) [OF row] by (force simp: config_key_def)
  ultimately show ?thesis using assms(1) by (simp add: add_directive_def config_ok_add)
qed

lemma stanza_config_ok:
  assumes "host_wf h" and "nl \<notin> set identityFile"
  shows "config_ok (stanza_config h identityFile)"
proof -
  have keys: "config_key ''hostname''" "config_key ''user''" "config_key ''port''" "config_key ''identityfile''" "config_key ''identitiesonly''"
    by (simp_all add: config_key_def entry_keys_def)
  have fold: "config_ok config \<Longrightarrow> list_all directive_ok ds \<Longrightarrow> config_ok (foldl add_directive config ds)" for config ds
    by (induction ds arbitrary: config) (auto intro: config_ok_directive)
  have "config_ok []" by (simp add: config_ok_def)
  with assms keys valuePattern_plain(2) show ?thesis
    by (auto simp: stanza_config_def Let_def host_wf_def itoa_fresh intro!: fold config_ok_add config_ok_put)
qed

lemma ValidAlias_plain: "ValidAlias n \<Longrightarrow> n \<noteq> [] \<and> (\<forall>c \<in> set n. value_char c)"
  using SafeName_chars [of n 128] SafeName_nonempty [of n 128] by (auto simp: ValidAlias_def value_char_def)

lemma plain_line: "\<forall>c \<in> set w. value_char c \<Longrightarrow> nl \<notin> set w"
  using value_char_plain(2) by auto

lemma stanza_lines:
  assumes "host_wf h" and "nl \<notin> set identityFile" and "line \<in> set (stanza h identityFile)"
  shows "nl \<notin> set line \<and> (hostLine alias line \<longrightarrow> alias = hName h)"
proof -
  have name: "hName h \<noteq> []" "\<forall>c \<in> set (hName h). value_char c" using assms(1) ValidAlias_plain by (auto simp: host_wf_def)
  from assms(3) have "line = ''Host '' @ hName h \<or> line = [] \<or> (\<exists>k v vs. line = ''    '' @ k @ '' '' @ v
      \<and> alookup (stanza_config h identityFile) k = Some vs \<and> v \<in> set vs)"
    by (fastforce simp: stanza_def Let_def split: option.splits)
  then consider "line = ''Host '' @ hName h" | "line = []"
    | k v vs where "line = ''    '' @ k @ '' '' @ v" "alookup (stanza_config h identityFile) k = Some vs" "v \<in> set vs"
    by blast
  then show ?thesis
  proof cases
    case 1
    have "str_fields (''Host'' @ CHR '' '' # hName h) = [''Host'', hName h]"
      using name value_char_plain(1) by (subst fields_word_blank) (auto simp: fields_word space_byte_def space_encodings_def)
    with 1 plain_line [OF name(2)] show ?thesis by (auto simp: hostLine_def)
  next
    case 3
    from config_ok_lookup [OF stanza_config_ok [OF assms(1,2)] 3(2)] have key: "config_key k" "nl \<notin> set v" using 3(3) by auto
    have "str_fields (k @ CHR '' '' # v) = k # str_fields v"
      using config_key_facts [OF key(1)] value_char_plain(1) by (intro fields_word_blank) auto
    with 3 key config_key_facts [OF key(1)] plain_line [of k] show ?thesis by (auto simp: hostLine_def)
  qed (simp add: hostLine_def)
qed

lemma stanza_names: "ValidAlias (hName h) \<Longrightarrow> \<exists>line \<in> set (stanza h identityFile). hostLine (hName h) line"
proof -
  assume "ValidAlias (hName h)"
  from ValidAlias_plain [OF this] have "str_fields (''Host'' @ CHR '' '' # hName h) = [''Host'', hName h]"
    using value_char_plain(1) by (subst fields_word_blank) (auto simp: fields_word space_byte_def space_encodings_def)
  then have "hostLine (hName h) (''Host '' @ hName h)" by (simp add: hostLine_def equal_fold_def)
  then show ?thesis by (auto simp: stanza_def Let_def)
qed

lemma rendered_lines:
  assumes "\<forall>h \<in> set hosts. host_wf h \<and> nl \<notin> set (sshPath dir pr (hKey h))"
  shows "set (split_on nl (renderConfig dir pr hosts)) \<subseteq> insert [] (\<Union>h \<in> set hosts. set (stanza h (sshPath dir pr (hKey h))))"
    and "(\<Union>h \<in> set hosts. set (stanza h (sshPath dir pr (hKey h)))) \<subseteq> set (split_on nl (renderConfig dir pr hosts))"
proof -
  let ?lines = "concat (map (\<lambda>h. stanza h (sshPath dir pr (hKey h))) (sort_key hName hosts))"
  have "nl \<notin> set line" if "h \<in> set hosts" "line \<in> set (stanza h (sshPath dir pr (hKey h)))" for h line
    using stanza_lines [OF _ _ that(2)] assms that(1) by blast
  then have "list_all (\<lambda>line. nl \<notin> set line) ?lines" by (auto simp: list_all_iff)
  then have "split_on nl (renderConfig dir pr hosts) = (if ?lines = [] then [[]] else ?lines)"
    unfolding renderConfig_def using split_on_join [of ?lines nl] by (cases "?lines = []") (simp_all del: concat_eq_Nil_conv)
  then show "set (split_on nl (renderConfig dir pr hosts)) \<subseteq> insert [] (\<Union>h \<in> set hosts. set (stanza h (sshPath dir pr (hKey h))))"
    and "(\<Union>h \<in> set hosts. set (stanza h (sshPath dir pr (hKey h)))) \<subseteq> set (split_on nl (renderConfig dir pr hosts))"
    by auto
qed

text \<open>
  C17: Under the configuration rendered from a principal's well-formed hosts, an alias resolves exactly when it is one of
  those hosts. The renderer writes the lines that \<^verbatim>\<open>Runner.identity\<close> reads, and no stored value can forge one.
\<close>

theorem rendered_aliases:
  assumes "\<forall>h \<in> set hosts. host_wf h \<and> nl \<notin> set (sshPath dir pr (hKey h))"
    and "ConfigPath r \<noteq> []" and "ConfigPath r \<noteq> DevNull" and "io_read_config io (ConfigPath r) = Inr (renderConfig dir pr hosts)"
    and "ValidAlias alias"
  shows "identity io r alias = (if alias \<in> hName ` set hosts then resolve io r alias else Inl errHostNotConfigured)"
proof -
  have "list_ex (hostLine alias) (split_on nl (renderConfig dir pr hosts)) \<longleftrightarrow> alias \<in> hName ` set hosts"
  proof
    assume "list_ex (hostLine alias) (split_on nl (renderConfig dir pr hosts))"
    then obtain line where "line \<in> set (split_on nl (renderConfig dir pr hosts))" "hostLine alias line" by (auto simp: list_ex_iff)
    moreover have "\<not> hostLine alias []" by (simp add: hostLine_def)
    ultimately obtain h where "h \<in> set hosts" "line \<in> set (stanza h (sshPath dir pr (hKey h)))" using rendered_lines(1) [OF assms(1)] by auto
    with stanza_lines [of h _ line "alias"] assms(1) \<open>hostLine alias line\<close> show "alias \<in> hName ` set hosts" by blast
  next
    assume "alias \<in> hName ` set hosts"
    then obtain h where "h \<in> set hosts" "alias = hName h" by auto
    with stanza_names [of h "sshPath dir pr (hKey h)"] assms(5) rendered_lines(2) [OF assms(1)]
    show "list_ex (hostLine alias) (split_on nl (renderConfig dir pr hosts))" by (auto simp: list_ex_iff)
  qed
  with assms(2-5) show ?thesis by (simp add: identity_def)
qed

definition configured_host :: HostEntry where
  "configured_host = \<lparr>hName = ''cluster'', hHostname = ''login.example.org'', hUser = ''alice'', hPort = 2222, hKey = ''laptop'',
     hExtraDirectives = [], hManaged = True\<rparr>"

definition configured_io :: ssh_io where
  "configured_io = \<lparr>io_read_config = \<lambda>_. Inr (renderConfig ''/state'' ''p1'' [configured_host]), io_resolve = \<lambda>_. Inr ''hostname login.example.org'',
     io_private_path = \<lambda>p. Inr p, io_exec = \<lambda>_ _. ([], [], None)\<rparr>"

definition configured_runner :: Runner where
  "configured_runner = \<lparr>SSHBin = ''ssh'', Timeout = 0, ControlNamespace = [], ConfigPath = ''/state/p1/config''\<rparr>"

lemma configured_facts:
  "host_wf configured_host" "nl \<notin> set (sshPath ''/state'' ''p1'' (hKey configured_host))" "ValidAlias ''cluster''" "ValidAlias ''other''"
proof -
  have "ValidAlias ''cluster'' \<and> ValidAlias ''other'' \<and> valuePattern ''login.example.org'' \<and> valuePattern ''alice''" by code_simp
  then show "host_wf configured_host" "ValidAlias ''cluster''" "ValidAlias ''other''" by (simp_all add: host_wf_def configured_host_def)
  have "list_all (\<lambda>c. c \<noteq> nl) (sshPath ''/state'' ''p1'' ''laptop'')" by code_simp
  then show "nl \<notin> set (sshPath ''/state'' ''p1'' (hKey configured_host))" by (auto simp: configured_host_def list_all_iff)
qed

theorem rendered_aliases_witness:
  "identity configured_io configured_runner ''cluster'' = Inr ''hostname login.example.org''
   \<and> identity configured_io configured_runner ''other'' = Inl errHostNotConfigured"
proof -
  have aliases: "identity configured_io configured_runner a = (if a \<in> hName ` set [configured_host] then resolve configured_io configured_runner a else Inl errHostNotConfigured)"
    if "ValidAlias a" for a
    by (rule rendered_aliases [of "[configured_host]" "''/state''" "''p1''"])
      (use that configured_facts in \<open>simp_all add: configured_io_def configured_runner_def DevNull_def\<close>)
  from aliases [OF configured_facts(3)] aliases [OF configured_facts(4)] show ?thesis
    by (simp add: configured_host_def resolve_def configured_io_def)
qed

end
