(* ===== verification/SshStore.thy ===== *)
theory SshStore
  imports SessionStore HostConfig
begin

text \<open>
  \<^verbatim>\<open>subsystems/ssh\<close>: the hosts and keys of a principal. Host and key rows live in the database, the rendered
  configuration and the private keys in protected files; \<^verbatim>\<open>persistence.go\<close> and \<^verbatim>\<open>keys.go\<close> keep the two in step by
  staging, compensation and, after a crash, by recovery at start.
\<close>

section \<open>Tables, files and faults\<close>

record keyRow =
  krPrincipal :: string
  krName :: string
  krType :: string
  krFingerprint :: string

record SSHKey =
  skName :: string
  skType :: string
  skFingerprint :: string

record ssh_tables =
  stHosts :: "(string \<times> string \<times> HostEntry payload) list"
  stKeys :: "keyRow list"

text \<open>
  A location is the list of path segments below the principal directory. \<open>dkFiles\<close> holds the private regular files,
  \<open>dkDirs\<close> the private directories. The history is every state the disk was in, oldest first: what a crash can leave.
\<close>

type_synonym location = "string list"

record disk =
  dkTables :: ssh_tables
  dkFiles :: "(location \<times> string) list"
  dkDirs :: "location list"

record ssh_world =
  swDisk :: disk
  swHistory :: "disk list"
  swTick :: nat

type_synonym 'a sprog = "(ssh_world, 'a) state"

text \<open>
  \<open>seFault\<close> is a file operation that fails before it took effect, \<open>seSync\<close> one whose directory sync fails after it did.
  A database error, of a statement or of a commit, leaves the tables as they were. \<open>seParse\<close> is \<^verbatim>\<open>ParsePrivateKey\<close> of
  \<^verbatim>\<open>x/crypto/ssh\<close>: the type and fingerprint of the key's public half, which a key under a passphrase may tell too.
\<close>

datatype parsed_key =
    Signer string string
  | PassphraseMissing "(string \<times> string) option"
  | Unparsable go_error

record ssh_env =
  sePrincipalDir :: string
  seFault :: "nat \<Rightarrow> go_error option"
  seSync :: "nat \<Rightarrow> go_error option"
  seLock :: "nat \<Rightarrow> go_error option"
  seBegin :: "nat \<Rightarrow> go_error option"
  seQuery :: "nat \<Rightarrow> go_error option"
  seCommit :: "nat \<Rightarrow> go_error option"
  seRollback :: "nat \<Rightarrow> go_error option"
  seParse :: "string \<Rightarrow> parsed_key"

definition s_ask :: "(nat \<Rightarrow> 'a) \<Rightarrow> 'a sprog" where
  "s_ask f = do {
     w \<leftarrow> State_Monad.get;
     State_Monad.set (w\<lparr>swTick := Suc (swTick w)\<rparr>);
     State_Monad.return (f (swTick w)) }"

definition s_disk :: "(disk \<Rightarrow> 'a) \<Rightarrow> 'a sprog" where
  "s_disk f = do { w \<leftarrow> State_Monad.get; State_Monad.return (f (swDisk w)) }"

definition s_change :: "(disk \<Rightarrow> disk) \<Rightarrow> unit sprog" where
  "s_change f = State_Monad.update (\<lambda>w. w\<lparr>swDisk := f (swDisk w), swHistory := swHistory w @ [f (swDisk w)]\<rparr>)"

definition s_try :: "go_error option sprog \<Rightarrow> go_error option sprog \<Rightarrow> go_error option sprog" where
  "s_try m k = do { r \<leftarrow> m; case r of Some e \<Rightarrow> State_Monad.return (Some e) | None \<Rightarrow> k }"

definition s_attempt :: "'a res sprog \<Rightarrow> ('a \<Rightarrow> 'b res sprog) \<Rightarrow> 'b res sprog" where
  "s_attempt m f = do { r \<leftarrow> m; case r of Inl e \<Rightarrow> State_Monad.return (Inl e) | Inr x \<Rightarrow> f x }"

fun is_not_exist :: "go_error \<Rightarrow> bool" where
  "is_not_exist (NotExist m) = True"
| "is_not_exist _ = False"

definition missing :: "location \<Rightarrow> go_error" where
  "missing p = NotExist (''open '' @ join ''/'' p @ '': no such file or directory'')"

section \<open>Private files\<close>

definition os_rename :: "ssh_env \<Rightarrow> location \<Rightarrow> location \<Rightarrow> go_error option sprog" where
  "os_rename E from to = s_try (s_ask (seFault E)) (do {
     found \<leftarrow> s_disk (\<lambda>d. alookup (dkFiles d) from);
     case found of
       None \<Rightarrow> State_Monad.return (Some (missing from))
     | Some data \<Rightarrow> do {
         s_change (\<lambda>d. d\<lparr>dkFiles := aput to data (adel from (dkFiles d))\<rparr>);
         State_Monad.return None } })"

definition os_remove :: "ssh_env \<Rightarrow> location \<Rightarrow> go_error option sprog" where
  "os_remove E p = s_try (s_ask (seFault E)) (do {
     found \<leftarrow> s_disk (\<lambda>d. alookup (dkFiles d) p);
     case found of
       None \<Rightarrow> State_Monad.return (Some (missing p))
     | Some _ \<Rightarrow> do {
         s_change (\<lambda>d. d\<lparr>dkFiles := adel p (dkFiles d)\<rparr>);
         State_Monad.return None } })"

text \<open>\<^verbatim>\<open>os.Lstat\<close>: whether there is such a file, or an error that is not \<^verbatim>\<open>ErrNotExist\<close>.\<close>

definition os_lstat :: "ssh_env \<Rightarrow> location \<Rightarrow> bool res sprog" where
  "os_lstat E p = do {
     fault \<leftarrow> s_ask (seFault E);
     case fault of
       Some e \<Rightarrow> State_Monad.return (Inl e)
     | None \<Rightarrow> s_disk (\<lambda>d. Inr (alookup (dkFiles d) p \<noteq> None)) }"

definition SyncDir :: "ssh_env \<Rightarrow> go_error option sprog" where
  "SyncDir E = s_ask (seSync E)"

definition RemoveFile :: "ssh_env \<Rightarrow> location \<Rightarrow> go_error option sprog" where
  "RemoveFile E p = do {
     r \<leftarrow> os_remove E p;
     case r of
       Some e \<Rightarrow> State_Monad.return (if is_not_exist e then None else Some e)
     | None \<Rightarrow> SyncDir E }"

text \<open>The temporary file of a replacement is not modelled: nothing reads it, and the rename is the moment of effect.\<close>

definition ReplaceFile :: "ssh_env \<Rightarrow> location \<Rightarrow> string \<Rightarrow> go_error option sprog" where
  "ReplaceFile E p data = s_try (s_ask (seFault E)) (do {
     there \<leftarrow> s_disk (\<lambda>d. butlast p \<in> set (dkDirs d));
     if \<not> there then State_Monad.return (Some (missing p))
     else do {
       s_change (\<lambda>d. d\<lparr>dkFiles := aput p data (dkFiles d)\<rparr>);
       SyncDir E } })"

definition ReadPrivateFile :: "ssh_env \<Rightarrow> location \<Rightarrow> nat \<Rightarrow> string res sprog" where
  "ReadPrivateFile E p bound = do {
     fault \<leftarrow> s_ask (seFault E);
     case fault of
       Some e \<Rightarrow> State_Monad.return (Inl e)
     | None \<Rightarrow> s_disk (\<lambda>d.
         case alookup (dkFiles d) p of
           None \<Rightarrow> Inl (missing p)
         | Some data \<Rightarrow>
             if bound < length data then Inl (Plain (join ''/'' p @ '' is not a private file owned by this user''))
             else Inr data) }"

definition PrivateDir :: "ssh_env \<Rightarrow> location \<Rightarrow> go_error option sprog" where
  "PrivateDir E p = s_try (s_ask (seFault E)) (s_disk (\<lambda>d. if p \<in> set (dkDirs d) then None else Some (missing p)))"

definition EnsurePrivateDir :: "ssh_env \<Rightarrow> location \<Rightarrow> go_error option sprog" where
  "EnsurePrivateDir E p = s_try (s_ask (seFault E)) (do {
     s_change (\<lambda>d. d\<lparr>dkDirs := remdups (map (\<lambda>n. take n p) [0..<Suc (length p)] @ dkDirs d)\<rparr>);
     State_Monad.return None })"

text \<open>\<^verbatim>\<open>os.ReadDir\<close>: the entries in order of name, each with whether it is a directory.\<close>

definition dir_entries :: "disk \<Rightarrow> location \<Rightarrow> (string \<times> bool) list" where
  "dir_entries d p =
     sort_key fst
       (map (\<lambda>q. (last q, True)) (filter (\<lambda>q. q \<noteq> [] \<and> butlast q = p) (remdups (dkDirs d)))
        @ map (\<lambda>(q, _). (last q, False)) (filter (\<lambda>(q, _). q \<noteq> [] \<and> butlast q = p) (dkFiles d)))"

definition ReadDir :: "ssh_env \<Rightarrow> location \<Rightarrow> (string \<times> bool) list res sprog" where
  "ReadDir E p = do {
     fault \<leftarrow> s_ask (seFault E);
     case fault of
       Some e \<Rightarrow> State_Monad.return (Inl e)
     | None \<Rightarrow> s_disk (\<lambda>d. if p \<in> set (dkDirs d) then Inr (dir_entries d p) else Inl (missing p)) }"

section \<open>Queries\<close>

definition ListHosts :: "ssh_tables \<Rightarrow> string \<Rightarrow> (string \<times> HostEntry payload) list" where
  "ListHosts t pr = sort_key (\<lambda>(host, _). to_lower host) (map snd (filter (\<lambda>(p, _). p = pr) (stHosts t)))"

definition ListHostPrincipals :: "ssh_tables \<Rightarrow> string list" where
  "ListHostPrincipals t = sort (remdups (map fst (stHosts t)))"

text \<open>The primary key and the unique index on the alias in lower case.\<close>

definition InsertHost :: "ssh_tables \<Rightarrow> string \<Rightarrow> HostEntry \<Rightarrow> ssh_tables res" where
  "InsertHost t pr host =
     (if list_ex (\<lambda>(p, n, _). p = pr \<and> to_lower n = to_lower (hName host)) (stHosts t) then Inl errDuplicateKey
      else Inr (t\<lparr>stHosts := stHosts t @ [(pr, hName host, Json host)]\<rparr>))"

definition UpdateHost :: "ssh_tables \<Rightarrow> string \<Rightarrow> HostEntry \<Rightarrow> nat \<times> ssh_tables" where
  "UpdateHost t pr host =
     (let hit = (\<lambda>(p, n, _). p = pr \<and> n = hName host)
      in (length (filter hit (stHosts t)),
          t\<lparr>stHosts := map (\<lambda>row. if hit row then (pr, hName host, Json host) else row) (stHosts t)\<rparr>))"

definition DeleteHost :: "ssh_tables \<Rightarrow> string \<Rightarrow> string \<Rightarrow> nat \<times> ssh_tables" where
  "DeleteHost t pr name =
     (let hit = (\<lambda>(p, n, _). p = pr \<and> n = name)
      in (length (filter hit (stHosts t)), t\<lparr>stHosts := filter (\<lambda>row. \<not> hit row) (stHosts t)\<rparr>))"

definition GetKey :: "ssh_tables \<Rightarrow> string \<Rightarrow> string \<Rightarrow> keyRow option" where
  "GetKey t pr name = find (\<lambda>k. krPrincipal k = pr \<and> krName k = name) (stKeys t)"

definition ListKeys :: "ssh_tables \<Rightarrow> string \<Rightarrow> keyRow list" where
  "ListKeys t pr = sort_key krName (filter (\<lambda>k. krPrincipal k = pr) (stKeys t))"

definition InsertKey :: "ssh_tables \<Rightarrow> keyRow \<Rightarrow> ssh_tables res" where
  "InsertKey t row =
     (if GetKey t (krPrincipal row) (krName row) \<noteq> None then Inl errDuplicateKey
      else Inr (t\<lparr>stKeys := stKeys t @ [row]\<rparr>))"

definition DeleteKey :: "ssh_tables \<Rightarrow> string \<Rightarrow> string \<Rightarrow> nat \<times> ssh_tables" where
  "DeleteKey t pr name =
     (let hit = (\<lambda>k. krPrincipal k = pr \<and> krName k = name)
      in (length (filter hit (stKeys t)), t\<lparr>stKeys := filter (\<lambda>k. \<not> hit k) (stKeys t)\<rparr>))"

definition IsConstraint :: "go_error \<Rightarrow> bool" where
  "IsConstraint e \<longleftrightarrow> e = errDuplicateKey"

section \<open>Hosts\<close>

definition hostNotFound :: "string \<Rightarrow> go_error" where
  "hostNotFound name = APIError ''ssh_host_not_found'' ([CHR 0x22] @ name @ [CHR 0x22] @ '' is not configured'') 404"

definition hostsIn :: "ssh_tables \<Rightarrow> string \<Rightarrow> HostEntry list res" where
  "hostsIn t pr =
     map_res (\<lambda>(host, p). DecodePayload (\<lambda>h. hName h = host) (''SSH host '' @ host) p) (ListHosts t pr)"

definition replaceHost :: "ssh_tables \<Rightarrow> string \<Rightarrow> HostEntry \<Rightarrow> ssh_tables res" where
  "replaceHost t pr host =
     (case UpdateHost t pr host of (rows, t') \<Rightarrow> if rows = 0 then Inl (hostNotFound (hName host)) else Inr t')"

definition s_locked :: "ssh_env \<Rightarrow> 'a res sprog \<Rightarrow> 'a res sprog" where
  "s_locked E m = do {
     fault \<leftarrow> s_ask (seLock E);
     case fault of Some e \<Rightarrow> State_Monad.return (Inl e) | None \<Rightarrow> m }"

definition done_of :: "go_error option sprog \<Rightarrow> unit res sprog" where
  "done_of m = do { r \<leftarrow> m; State_Monad.return (case r of Some e \<Rightarrow> Inl e | None \<Rightarrow> Inr ()) }"

text \<open>A read of the committed tables outside a transaction.\<close>

definition s_query :: "ssh_env \<Rightarrow> (ssh_tables \<Rightarrow> 'a res) \<Rightarrow> 'a res sprog" where
  "s_query E f = do {
     fault \<leftarrow> s_ask (seQuery E);
     case fault of
       Some e \<Rightarrow> State_Monad.return (Inl e)
     | None \<Rightarrow> s_disk (\<lambda>d. f (dkTables d)) }"

definition loadHosts :: "ssh_env \<Rightarrow> string \<Rightarrow> HostEntry list res sprog" where
  "loadHosts E pr = s_locked E (s_query E (\<lambda>t. hostsIn t pr))"

definition config_file :: "string \<Rightarrow> location" where
  "config_file pr = [pr, ''config'']"

text \<open>\<^verbatim>\<open>reconcileConfigs\<close>: every principal with a host or a directory gets the configuration its hosts render to.\<close>

definition reconcile_config :: "ssh_env \<Rightarrow> string \<Rightarrow> unit res sprog" where
  "reconcile_config E pr =
     s_attempt (s_query E (\<lambda>t. hostsIn t pr)) (\<lambda>hosts.
       done_of (s_try (EnsurePrivateDir E [pr]) (ReplaceFile E (config_file pr) (renderConfig (sePrincipalDir E) pr hosts))))"

fun each_res :: "('a \<Rightarrow> unit res sprog) \<Rightarrow> 'a list \<Rightarrow> unit res sprog" where
  "each_res f [] = State_Monad.return (Inr ())"
| "each_res f (x # xs) = s_attempt (f x) (\<lambda>_. each_res f xs)"

definition reconcileConfigs :: "ssh_env \<Rightarrow> unit res sprog" where
  "reconcileConfigs E = s_locked E (
     s_attempt (s_query E (\<lambda>t. Inr (ListHostPrincipals t))) (\<lambda>principals.
     s_attempt (ReadDir E []) (\<lambda>entries.
       each_res (reconcile_config E)
         (compact (sort (principals @ map fst (filter (\<lambda>(name, dir). dir \<and> SafeName name 128) entries)))))))"

section \<open>Keys\<close>

definition deletePrefix :: string where "deletePrefix = ''.delete-''"
definition putPrefix :: string where "putPrefix = ''.put-''"

definition errInvalidSSHKeyName :: go_error where
  "errInvalidSSHKeyName = APIError ''invalid_ssh_key_id'' ''invalid SSH key id'' 400"

definition errSSHKeyNotFound :: go_error where
  "errSSHKeyNotFound = APIError ''ssh_key_not_found'' ''SSH key is not stored'' 404"

definition errSSHKeyExists :: go_error where
  "errSSHKeyExists = APIError ''ssh_key_exists'' ''SSH key is already stored'' 409"

definition validSSHKeyName :: "string \<Rightarrow> bool" where
  "validSSHKeyName v \<longleftrightarrow> SafeName v 64 \<and> \<not> has_suffix v ''.pub''"

definition keyMetadata :: "ssh_tables \<Rightarrow> string \<Rightarrow> string \<Rightarrow> SSHKey option" where
  "keyMetadata t pr name =
     map_option (\<lambda>k. \<lparr>skName = krName k, skType = krType k, skFingerprint = krFingerprint k\<rparr>) (GetKey t pr name)"

definition listSSHKeys :: "ssh_env \<Rightarrow> string \<Rightarrow> SSHKey list res sprog" where
  "listSSHKeys E pr = s_locked E (s_query E (\<lambda>t.
     Inr (map (\<lambda>k. \<lparr>skName = krName k, skType = krType k, skFingerprint = krFingerprint k\<rparr>) (ListKeys t pr))))"

definition key_file :: "string \<Rightarrow> string \<Rightarrow> location" where
  "key_file pr name = [pr, ''keys'', name]"

text \<open>The base name of \<^verbatim>\<open>sshPutStage\<close>: the key's name and a digest of the row that commits it.\<close>

definition sshPutStage :: "string \<Rightarrow> keyRow \<Rightarrow> string" where
  "sshPutStage name row =
     putPrefix @ name @ ''-'' @ hex_encode (sha256
       (join [nul] [krPrincipal row, krName row, krType row, krFingerprint row]))"

definition stagedSSHName :: "string \<Rightarrow> string option" where
  "stagedSSHName filename =
     (let rest = trim_prefix filename putPrefix
      in if length rest \<le> 65 \<or> rest ! (length rest - 65) \<noteq> CHR ''-'' then None
         else (let name = take (length rest - 65) rest; encoded = drop (length rest - 64) rest
               in case hex_decode encoded of
                    None \<Rightarrow> None
                  | Some digest \<Rightarrow> if length digest = 32 \<and> validSSHKeyName name then Some name else None))"

definition max_key_bytes :: nat where "max_key_bytes = 1048576"

text \<open>The body of the loop of \<^verbatim>\<open>recoverSSHChanges\<close> over one entry; the answer is whether the directory changed.\<close>

definition recover_delete :: "ssh_env \<Rightarrow> string \<Rightarrow> string \<Rightarrow> string \<Rightarrow> bool res sprog" where
  "recover_delete E pr entry name =
     s_attempt (s_query E (\<lambda>t. Inr (keyMetadata t pr name))) (\<lambda>metadata.
       case metadata of
         Some _ \<Rightarrow>
           s_attempt (os_lstat E (key_file pr name)) (\<lambda>there.
             if there then State_Monad.return (Inl (Plain ''SSH key and deletion tombstone both exist''))
             else s_attempt (done_of (os_rename E (key_file pr entry) (key_file pr name))) (\<lambda>_.
               State_Monad.return (Inr True)))
       | None \<Rightarrow>
           s_attempt (done_of (os_remove E (key_file pr entry))) (\<lambda>_. State_Monad.return (Inr True)))"

definition recover_put :: "ssh_env \<Rightarrow> string \<Rightarrow> string \<Rightarrow> string \<Rightarrow> bool res sprog" where
  "recover_put E pr entry name =
     s_attempt (s_query E (\<lambda>t. Inr (keyMetadata t pr name))) (\<lambda>metadata.
     s_attempt (ReadPrivateFile E (key_file pr entry) max_key_bytes) (\<lambda>_.
       let committed = (case metadata of
             None \<Rightarrow> False
           | Some m \<Rightarrow> sshPutStage name \<lparr>krPrincipal = pr, krName = skName m, krType = skType m, krFingerprint = skFingerprint m\<rparr> = entry)
       in if committed then do {
            old \<leftarrow> ReadPrivateFile E (key_file pr name) max_key_bytes;
            (case old of
               Inl e \<Rightarrow>
                 if is_not_exist e then
                   s_attempt (done_of (os_rename E (key_file pr entry) (key_file pr name))) (\<lambda>_. State_Monad.return (Inr True))
                 else State_Monad.return (Inl e)
             | Inr _ \<Rightarrow>
                 s_attempt (done_of (os_rename E (key_file pr entry) (key_file pr name))) (\<lambda>_. State_Monad.return (Inr True))) }
          else s_attempt (done_of (os_remove E (key_file pr entry))) (\<lambda>_. State_Monad.return (Inr True))))"

definition recover_entry :: "ssh_env \<Rightarrow> string \<Rightarrow> string \<times> bool \<Rightarrow> bool res sprog" where
  "recover_entry E pr = (\<lambda>(entry, dir).
     if dir then State_Monad.return (Inr False)
     else
       (case stagedSSHName entry of
          Some name \<Rightarrow>
            if has_prefix entry deletePrefix \<and> validSSHKeyName (trim_prefix entry deletePrefix)
            then recover_delete E pr entry name else recover_put E pr entry name
        | None \<Rightarrow>
            if has_prefix entry deletePrefix \<and> validSSHKeyName (trim_prefix entry deletePrefix)
            then recover_delete E pr entry (trim_prefix entry deletePrefix)
            else State_Monad.return (Inr False)))"

fun recover_entries :: "ssh_env \<Rightarrow> string \<Rightarrow> bool \<Rightarrow> (string \<times> bool) list \<Rightarrow> bool res sprog" where
  "recover_entries E pr changed [] = State_Monad.return (Inr changed)"
| "recover_entries E pr changed (x # xs) =
     s_attempt (recover_entry E pr x) (\<lambda>c. recover_entries E pr (changed \<or> c) xs)"

definition recover_principal :: "ssh_env \<Rightarrow> string \<times> bool \<Rightarrow> unit res sprog" where
  "recover_principal E = (\<lambda>(pr, dir).
     if \<not> dir \<or> \<not> SafeName pr 128 then State_Monad.return (Inr ())
     else s_attempt (done_of (PrivateDir E [pr])) (\<lambda>_. do {
       keys \<leftarrow> PrivateDir E [pr, ''keys''];
       (case keys of
          Some e \<Rightarrow> State_Monad.return (if is_not_exist e then Inr () else Inl e)
        | None \<Rightarrow>
            s_attempt (ReadDir E [pr, ''keys'']) (\<lambda>entries.
            s_attempt (recover_entries E pr False entries) (\<lambda>changed.
              if changed then done_of (SyncDir E) else State_Monad.return (Inr ())))) }))"

definition recoverSSHChanges :: "ssh_env \<Rightarrow> unit res sprog" where
  "recoverSSHChanges E =
     s_attempt (ReadDir E []) (\<lambda>principals. s_locked E (each_res (recover_principal E) principals))"

section \<open>Storing and deleting a key\<close>

definition putSSHKey :: "ssh_env \<Rightarrow> string \<Rightarrow> SSHKey \<Rightarrow> string \<Rightarrow> unit res sprog" where
  "putSSHKey E pr key private = s_locked E (
     s_attempt (s_query E (\<lambda>t. Inr (keyMetadata t pr (skName key)))) (\<lambda>existing.
     if existing \<noteq> None then State_Monad.return (Inl errSSHKeyExists)
     else s_attempt (os_lstat E (key_file pr (skName key))) (\<lambda>there.
     if there then State_Monad.return (Inl errSSHKeyExists)
     else
       (let row = \<lparr>krPrincipal = pr, krName = skName key, krType = skType key, krFingerprint = skFingerprint key\<rparr>;
            stage = key_file pr (sshPutStage (skName key) row)
        in s_attempt (done_of (s_try (EnsurePrivateDir E [pr, ''keys'']) (ReplaceFile E stage private))) (\<lambda>_. do {
             inserted \<leftarrow> s_query E (\<lambda>t. InsertKey t row);
             (case inserted of
                Inl e \<Rightarrow> do {
                  removed \<leftarrow> RemoveFile E stage;
                  State_Monad.return (Inl (the (join_errors [Some (if IsConstraint e then errSSHKeyExists else e), removed]))) }
              | Inr t \<Rightarrow> do {
                  s_change (\<lambda>d. d\<lparr>dkTables := t\<rparr>);
                  done_of (s_try (os_rename E stage (key_file pr (skName key))) (SyncDir E)) }) })))))"

definition tombstone :: "string \<Rightarrow> string \<Rightarrow> location" where
  "tombstone pr name = key_file pr (deletePrefix @ name)"

definition stageSSHDelete :: "ssh_env \<Rightarrow> string \<Rightarrow> string \<Rightarrow> go_error option sprog" where
  "stageSSHDelete E pr name = do {
     data \<leftarrow> ReadPrivateFile E (key_file pr name) max_key_bytes;
     (case data of
        Inl e \<Rightarrow> State_Monad.return (Some e)
      | Inr _ \<Rightarrow> do {
          pending \<leftarrow> os_lstat E (tombstone pr name);
          (case pending of
             Inl e \<Rightarrow> State_Monad.return (Some e)
           | Inr True \<Rightarrow> State_Monad.return (Some (Plain ''SSH key deletion is already pending''))
           | Inr False \<Rightarrow> s_try (os_rename E (key_file pr name) (tombstone pr name)) (do {
               synced \<leftarrow> SyncDir E;
               (case synced of
                  None \<Rightarrow> State_Monad.return None
                | Some e \<Rightarrow> do {
                    restored \<leftarrow> s_try (os_rename E (tombstone pr name) (key_file pr name)) (SyncDir E);
                    State_Monad.return (join_errors [Some e, restored]) }) })) }) }"

text \<open>The function \<^verbatim>\<open>stageSSHDelete\<close> returns.\<close>

definition finishSSHDelete :: "ssh_env \<Rightarrow> string \<Rightarrow> string \<Rightarrow> bool \<Rightarrow> go_error option sprog" where
  "finishSSHDelete E pr name commit =
     (if commit then RemoveFile E (tombstone pr name)
      else do {
        there \<leftarrow> os_lstat E (key_file pr name);
        (case there of
           Inl e \<Rightarrow> State_Monad.return (Some e)
         | Inr True \<Rightarrow> State_Monad.return (Some (Plain ''SSH key path was recreated during rollback''))
         | Inr False \<Rightarrow> do {
             renamed \<leftarrow> os_rename E (tombstone pr name) (key_file pr name);
             synced \<leftarrow> SyncDir E;
             State_Monad.return (join_errors [renamed, synced]) }) })"

section \<open>Compensated mutations\<close>

definition maxSSHConfigBytes :: nat where "maxSSHConfigBytes = 67108864"

text \<open>\<^verbatim>\<open>DB.Tx\<close> joins the error of its function with that of the rollback.\<close>

definition rolled_back :: "ssh_env \<Rightarrow> bool \<Rightarrow> go_error \<Rightarrow> (bool \<times> go_error option) sprog" where
  "rolled_back E attempted e = do {
     r \<leftarrow> s_ask (seRollback E);
     State_Monad.return (attempted, join_errors [Some e, r]) }"

definition errTxDone :: go_error where
  "errTxDone = Plain ''sql: transaction has already been committed or rolled back''"

text \<open>
  The transaction of \<^verbatim>\<open>mutateHosts\<close>: whether the configuration was touched, and the error. The configuration is
  rendered from the new rows, and they are committed after it is in place.
\<close>

definition mutate_tx :: "ssh_env \<Rightarrow> string \<Rightarrow> (ssh_tables \<Rightarrow> ssh_tables res) \<Rightarrow> (bool \<times> go_error option) sprog" where
  "mutate_tx E pr mutate = do {
     begun \<leftarrow> s_ask (seBegin E);
     (case begun of Some e \<Rightarrow> State_Monad.return (False, Some e) | None \<Rightarrow> do {
     changed \<leftarrow> s_query E (\<lambda>t. case mutate t of
         Inl e \<Rightarrow> Inl e
       | Inr t' \<Rightarrow> (case hostsIn t' pr of Inl e \<Rightarrow> Inl e | Inr hosts \<Rightarrow> Inr (t', hosts)));
     (case changed of
        Inl e \<Rightarrow> rolled_back E False e
      | Inr (t', hosts) \<Rightarrow> do {
          made \<leftarrow> EnsurePrivateDir E [pr];
          (case made of
             Some e \<Rightarrow> rolled_back E False e
           | None \<Rightarrow> do {
               replaced \<leftarrow> ReplaceFile E (config_file pr) (renderConfig (sePrincipalDir E) pr hosts);
               (case replaced of
                  Some e \<Rightarrow> rolled_back E True e
                | None \<Rightarrow> do {
                    fault \<leftarrow> s_ask (seCommit E);
                    (case fault of
                       Some e \<Rightarrow> State_Monad.return (True, join_errors [Some e, Some errTxDone])
                     | None \<Rightarrow> do {
                         s_change (\<lambda>d. d\<lparr>dkTables := t'\<rparr>);
                         State_Monad.return (True, None) }) }) }) }) }) }"

definition restore_config :: "ssh_env \<Rightarrow> string \<Rightarrow> bool \<Rightarrow> string option \<Rightarrow> go_error option sprog" where
  "restore_config E pr attempted previous =
     (if \<not> attempted then State_Monad.return None
      else (case previous of
              Some data \<Rightarrow> ReplaceFile E (config_file pr) data
            | None \<Rightarrow> RemoveFile E (config_file pr)))"

definition mutate_staged ::
  "ssh_env \<Rightarrow> string \<Rightarrow> (ssh_tables \<Rightarrow> ssh_tables res) \<Rightarrow> (bool \<Rightarrow> go_error option sprog) option \<Rightarrow> string option \<Rightarrow> unit res sprog" where
  "mutate_staged E pr mutate finish previous = do {
     outcome \<leftarrow> mutate_tx E pr mutate;
     (case outcome of
        (attempted, Some e) \<Rightarrow> do {
          restored \<leftarrow> restore_config E pr attempted previous;
          (case finish of
             None \<Rightarrow> State_Monad.return (Inl (the (join_errors [Some e, restored])))
           | Some fin \<Rightarrow> do {
               rolled \<leftarrow> fin False;
               State_Monad.return (Inl (the (join_errors [Some e, join_errors [restored, rolled]]))) }) }
      | (attempted, None) \<Rightarrow>
          (case finish of
             None \<Rightarrow> State_Monad.return (Inr ())
           | Some fin \<Rightarrow> done_of (fin True))) }"

definition mutateHosts ::
  "ssh_env \<Rightarrow> string \<Rightarrow> (ssh_tables \<Rightarrow> ssh_tables res)
   \<Rightarrow> (go_error option sprog \<times> (bool \<Rightarrow> go_error option sprog)) option \<Rightarrow> unit res sprog" where
  "mutateHosts E pr mutate stage = s_locked E (do {
     data \<leftarrow> ReadPrivateFile E (config_file pr) maxSSHConfigBytes;
     (let previous = (case data of Inl _ \<Rightarrow> None | Inr d \<Rightarrow> Some d)
      in (case data of
            Inl e \<Rightarrow>
              if \<not> is_not_exist e then State_Monad.return (Inl e)
              else (case stage of
                      None \<Rightarrow> mutate_staged E pr mutate None previous
                    | Some (enter, finish) \<Rightarrow>
                        s_attempt (done_of enter) (\<lambda>_. mutate_staged E pr mutate (Some finish) previous))
          | Inr _ \<Rightarrow>
              (case stage of
                 None \<Rightarrow> mutate_staged E pr mutate None previous
               | Some (enter, finish) \<Rightarrow>
                   s_attempt (done_of enter) (\<lambda>_. mutate_staged E pr mutate (Some finish) previous)))) })"

definition resolveSSHCredential :: "ssh_tables \<Rightarrow> string \<Rightarrow> HostEntry \<Rightarrow> HostEntry res" where
  "resolveSSHCredential t pr host =
     (if hKey host = [] then Inr host
      else if keyMetadata t pr (hKey host) = None then Inl errSSHKeyNotFound
      else Inr host)"

definition putHost ::
  "ssh_env \<Rightarrow> string \<Rightarrow> HostEntry \<Rightarrow> (ssh_tables \<Rightarrow> HostEntry \<Rightarrow> ssh_tables res) \<Rightarrow> HostEntry res sprog" where
  "putHost E pr host store =
     s_attempt (mutateHosts E pr (\<lambda>t.
       case resolveSSHCredential t pr host of Inl e \<Rightarrow> Inl e | Inr resolved \<Rightarrow> store t resolved) None) (\<lambda>_.
     State_Monad.return (Inr host))"

definition addHost :: "ssh_env \<Rightarrow> string \<Rightarrow> HostEntry \<Rightarrow> HostEntry res sprog" where
  "addHost E pr host = putHost E pr host (\<lambda>t resolved.
     case InsertHost t pr resolved of
       Inl e \<Rightarrow> Inl (if IsConstraint e then APIError ''ssh_host_exists'' (hName host @ '' is already configured.'') 409 else e)
     | Inr t' \<Rightarrow> Inr t')"

definition updateHost :: "ssh_env \<Rightarrow> string \<Rightarrow> HostEntry \<Rightarrow> HostEntry res sprog" where
  "updateHost E pr host = putHost E pr host (\<lambda>t resolved. replaceHost t pr resolved)"

definition deleteHost :: "ssh_env \<Rightarrow> string \<Rightarrow> string \<Rightarrow> unit res sprog" where
  "deleteHost E pr name = mutateHosts E pr (\<lambda>t.
     case DeleteHost t pr name of (rows, t') \<Rightarrow> if rows = 0 then Inl (hostNotFound name) else Inr t') None"

fun clear_key :: "string \<Rightarrow> string \<Rightarrow> HostEntry list \<Rightarrow> ssh_tables \<Rightarrow> ssh_tables res" where
  "clear_key pr name [] t = Inr t"
| "clear_key pr name (h # hs) t =
     (if hKey h = name then
        (case replaceHost t pr (h\<lparr>hKey := []\<rparr>) of Inl e \<Rightarrow> Inl e | Inr t' \<Rightarrow> clear_key pr name hs t')
      else clear_key pr name hs t)"

definition delete_key_rows :: "string \<Rightarrow> string \<Rightarrow> ssh_tables \<Rightarrow> ssh_tables res" where
  "delete_key_rows pr name t =
     (if keyMetadata t pr name = None then Inl errSSHKeyNotFound
      else (case hostsIn t pr of
              Inl e \<Rightarrow> Inl e
            | Inr hosts \<Rightarrow>
                (case clear_key pr name hosts t of
                   Inl e \<Rightarrow> Inl e
                 | Inr t1 \<Rightarrow>
                     (case DeleteKey t1 pr name of (rows, t2) \<Rightarrow> if rows = 0 then Inl errSSHKeyNotFound else Inr t2))))"

definition deleteSSHKey :: "ssh_env \<Rightarrow> string \<Rightarrow> string \<Rightarrow> unit res sprog" where
  "deleteSSHKey E pr name =
     mutateHosts E pr (delete_key_rows pr name) (Some (stageSSHDelete E pr name, finishSSHDelete E pr name))"

section \<open>The service\<close>

definition InspectPrivateKey :: "ssh_env \<Rightarrow> string \<Rightarrow> (string \<times> string) res" where
  "InspectPrivateKey E private =
     (case seParse E private of
        Signer ktype fingerprint \<Rightarrow> Inr (ktype, fingerprint)
      | PassphraseMissing None \<Rightarrow> Inl (Plain ''ssh: this private key is passphrase protected'')
      | PassphraseMissing (Some public) \<Rightarrow> Inr public
      | Unparsable e \<Rightarrow> Inl e)"

definition trim_line_ends :: "string \<Rightarrow> string" where
  "trim_line_ends s = rev (dropWhile (\<lambda>c. c = nl \<or> c = cr) (rev s))"

definition service_addHost :: "ssh_env \<Rightarrow> Principal \<Rightarrow> string \<Rightarrow> string \<Rightarrow> string \<Rightarrow> HostEntry res sprog" where
  "service_addHost E pr name command key =
     (case hostWithCredential (trim_space name) command key of
        Inl e \<Rightarrow> State_Monad.return (Inl e)
      | Inr host \<Rightarrow> addHost E (PrincipalDirName pr) host)"

definition service_updateHost :: "ssh_env \<Rightarrow> Principal \<Rightarrow> string \<Rightarrow> string \<Rightarrow> string \<Rightarrow> HostEntry res sprog" where
  "service_updateHost E pr name command key =
     (case hostWithCredential name command key of
        Inl e \<Rightarrow> State_Monad.return (Inl e)
      | Inr host \<Rightarrow> updateHost E (PrincipalDirName pr) host)"

definition removeHost :: "ssh_env \<Rightarrow> Principal \<Rightarrow> string \<Rightarrow> unit res sprog" where
  "removeHost E pr name =
     (if \<not> ValidAlias name then State_Monad.return (Inl ErrInvalidAlias)
      else deleteHost E (PrincipalDirName pr) name)"

definition writeSSHKey :: "ssh_env \<Rightarrow> Principal \<Rightarrow> string \<Rightarrow> string \<Rightarrow> SSHKey res sprog" where
  "writeSSHKey E pr rawName private =
     (let name = trim_space rawName
      in if \<not> validSSHKeyName name then State_Monad.return (Inl errInvalidSSHKeyName)
         else (case InspectPrivateKey E private of
                 Inl _ \<Rightarrow> State_Monad.return (Inl (APIError ''invalid_ssh_key'' ''The file is not an SSH private key.'' 400))
               | Inr (ktype, fingerprint) \<Rightarrow>
                   (let key = \<lparr>skName = name, skType = ktype, skFingerprint = fingerprint\<rparr>
                    in s_attempt (putSSHKey E (PrincipalDirName pr) key (trim_line_ends private @ [nl])) (\<lambda>_.
                         State_Monad.return (Inr key)))))"

definition service_deleteSSHKey :: "ssh_env \<Rightarrow> Principal \<Rightarrow> string \<Rightarrow> unit res sprog" where
  "service_deleteSSHKey E pr name =
     (if \<not> validSSHKeyName name then State_Monad.return (Inl errInvalidSSHKeyName)
      else deleteSSHKey E (PrincipalDirName pr) name)"

text \<open>What \<^verbatim>\<open>NewService\<close> does to the disk: settle interrupted key changes, then render every configuration again.\<close>

definition NewService :: "ssh_env \<Rightarrow> unit res sprog" where
  "NewService E =
     s_attempt (done_of (EnsurePrivateDir E [])) (\<lambda>_.
     s_attempt (recoverSSHChanges E) (\<lambda>_.
     reconcileConfigs E))"

end
