(* ===== verification/SshRuns.thy ===== *)
theory SshRuns
  imports SshStore
begin

text \<open>
  Reasoning about runs of the \<^verbatim>\<open>subsystems/ssh\<close> operations under faults, and recovery at start. A specification of a run
  speaks of every disk the run goes through, since a crash can stop it there. \<open>recoverable\<close> is what such a disk has to
  satisfy, \<open>key_bytes\<close> the keys it stands for; \<^verbatim>\<open>recoverSSHChanges\<close> and \<^verbatim>\<open>reconcileConfigs\<close> lead from every recoverable
  disk to a settled one that stands for the same keys.
\<close>

section \<open>Reasoning about runs\<close>

text \<open>
  \<open>spec R d m Q\<close>: started on disk \<open>d\<close>, \<open>m\<close> goes through disks that satisfy \<open>R\<close> only, and ends with an answer and a disk
  that satisfy \<open>Q\<close>.
\<close>

definition spec :: "(disk \<Rightarrow> bool) \<Rightarrow> disk \<Rightarrow> 'a sprog \<Rightarrow> ('a \<Rightarrow> disk \<Rightarrow> bool) \<Rightarrow> bool" where
  "spec R d m Q \<longleftrightarrow>
     (\<forall>w. swDisk w = d \<longrightarrow>
        (case run_state m w of (r, w') \<Rightarrow>
           (\<exists>ds. swHistory w' = swHistory w @ ds \<and> list_all R ds) \<and> Q r (swDisk w')))"

text \<open>\<open>spec\<close> on the world the run starts in.\<close>

lemma specD: "spec R (swDisk w) m Q \<Longrightarrow> run_state m w = (r, w') \<Longrightarrow> \<exists>ds. swHistory w' = swHistory w @ ds \<and> list_all R ds \<and> Q r (swDisk w')"
  by (auto simp: spec_def)

lemma specI:
  "(\<And>w r w'. swDisk w = d \<Longrightarrow> run_state m w = (r, w') \<Longrightarrow> \<exists>ds. swHistory w' = swHistory w @ ds \<and> list_all R ds \<and> Q r (swDisk w')) \<Longrightarrow> spec R d m Q"
  by (fastforce simp: spec_def)

lemma spec_return: "Q x d \<Longrightarrow> spec R d (State_Monad.return x) Q"
  by (simp add: spec_def)

lemma spec_bind:
  assumes "spec R d m P" and "\<And>x d'. P x d' \<Longrightarrow> spec R d' (f x) Q"
  shows "spec R d (State_Monad.bind m f) Q"
proof (rule specI)
  fix w r w'
  assume w: "swDisk w = d" and run: "run_state (State_Monad.bind m f) w = (r, w')"
  obtain x w1 where m: "run_state m w = (x, w1)" by fastforce
  from specD [OF _ m, of R P] assms(1) w obtain ds where ds: "swHistory w1 = swHistory w @ ds" "list_all R ds" "P x (swDisk w1)" by auto
  from run m have "run_state (f x) w1 = (r, w')" by simp
  from specD [OF assms(2) [OF ds(3)] this] obtain es where "swHistory w' = swHistory w1 @ es" "list_all R es" "Q r (swDisk w')" by auto
  with ds show "\<exists>ds. swHistory w' = swHistory w @ ds \<and> list_all R ds \<and> Q r (swDisk w')" by (auto intro: exI [of _ "ds @ es"])
qed

lemma spec_weaken:
  assumes "spec R d m P" and "\<And>d'. R d' \<Longrightarrow> R' d'" and "\<And>x d'. P x d' \<Longrightarrow> Q x d'"
  shows "spec R' d m Q"
proof (rule specI)
  fix w r w'
  assume "swDisk w = d" "run_state m w = (r, w')"
  with specD [of R w m P r w'] assms show "\<exists>ds. swHistory w' = swHistory w @ ds \<and> list_all R' ds \<and> Q r (swDisk w')"
    by (auto simp: list_all_iff)
qed

lemma spec_ask: "(\<And>n. Q (f n) d) \<Longrightarrow> spec R d (s_ask f) Q"
  by (simp add: spec_def s_ask_def)

lemma spec_disk: "Q (f d) d \<Longrightarrow> spec R d (s_disk f) Q"
  by (simp add: spec_def s_disk_def)

lemma spec_change: "R (f d) \<Longrightarrow> Q () (f d) \<Longrightarrow> spec R d (s_change f) Q"
  by (simp add: spec_def s_change_def)

lemma spec_try:
  "spec R d m P \<Longrightarrow> (\<And>e d'. P (Some e) d' \<Longrightarrow> Q (Some e) d') \<Longrightarrow> (\<And>d'. P None d' \<Longrightarrow> spec R d' k Q) \<Longrightarrow> spec R d (s_try m k) Q"
  unfolding s_try_def by (rule spec_bind, assumption) (auto split: option.split intro: spec_return)

lemma spec_attempt:
  "spec R d m P \<Longrightarrow> (\<And>e d'. P (Inl e) d' \<Longrightarrow> Q (Inl e) d') \<Longrightarrow> (\<And>x d'. P (Inr x) d' \<Longrightarrow> spec R d' (f x) Q) \<Longrightarrow> spec R d (s_attempt m f) Q"
  unfolding s_attempt_def by (rule spec_bind, assumption) (auto split: sum.split intro: spec_return)

lemma spec_done:
  "spec R d m P \<Longrightarrow> (\<And>e d'. P (Some e) d' \<Longrightarrow> Q (Inl e) d') \<Longrightarrow> (\<And>d'. P None d' \<Longrightarrow> Q (Inr ()) d') \<Longrightarrow> spec R d (done_of m) Q"
  unfolding done_of_def by (rule spec_bind, assumption) (auto split: option.split intro: spec_return)

text \<open>An environment in which nothing fails.\<close>

definition calm :: "ssh_env \<Rightarrow> bool" where
  "calm E \<longleftrightarrow> (\<forall>n. seFault E n = None \<and> seSync E n = None \<and> seLock E n = None \<and> seQuery E n = None \<and> seBegin E n = None
     \<and> seCommit E n = None \<and> seRollback E n = None)"

text \<open>A file operation never fails with \<^verbatim>\<open>ErrNotExist\<close> but on a file that is not there.\<close>

definition honest :: "ssh_env \<Rightarrow> bool" where
  "honest E \<longleftrightarrow> (\<forall>n e. seFault E n = Some e \<longrightarrow> \<not> is_not_exist e)"

lemma calmD:
  assumes "calm E"
  shows "seFault E n = None" "seSync E n = None" "seLock E n = None" "seQuery E n = None" "seBegin E n = None" "seCommit E n = None"
    "seRollback E n = None"
  using assms by (simp_all add: calm_def)

lemma spec_oracle:
  "(\<And>n. calm E \<Longrightarrow> f n = None) \<Longrightarrow> Q None d \<Longrightarrow> (\<And>e. \<not> calm E \<Longrightarrow> Q (Some e) d) \<Longrightarrow> spec R d (s_ask f) Q"
  by (rule spec_ask) (metis option.exhaust)

lemma spec_oracle_bind:
  assumes "\<And>n. calm E \<Longrightarrow> f n = None" and "spec R d (g None) Q" and "\<And>e. \<not> calm E \<Longrightarrow> spec R d (g (Some e)) Q"
  shows "spec R d (State_Monad.bind (s_ask f) g) Q"
  by (rule spec_bind [OF spec_oracle [where E = E and Q = "\<lambda>r d'. d' = d \<and> (\<forall>e. r = Some e \<longrightarrow> \<not> calm E)"]])
    (use assms in \<open>auto, metis option.exhaust\<close>)

lemma spec_locked:
  "(\<And>e. \<not> calm E \<Longrightarrow> Q (Inl e) d) \<Longrightarrow> spec R d m Q \<Longrightarrow> spec R d (s_locked E m) Q"
  unfolding s_locked_def by (rule spec_oracle_bind [where E = E]) (auto simp: calmD intro: spec_return)

lemma spec_query:
  "(\<And>e. \<not> calm E \<Longrightarrow> Q (Inl e) d) \<Longrightarrow> Q (f (dkTables d)) d \<Longrightarrow> spec R d (s_query E f) Q"
  unfolding s_query_def by (rule spec_oracle_bind [where E = E]) (auto simp: calmD intro: spec_return spec_disk)

lemma spec_fault: "Q None d \<Longrightarrow> (\<And>e. \<not> calm E \<Longrightarrow> (honest E \<longrightarrow> \<not> is_not_exist e) \<Longrightarrow> Q (Some e) d) \<Longrightarrow> spec R d (s_ask (seFault E)) Q"
  by (rule spec_ask) (metis calmD(1) honest_def option.exhaust)

lemma spec_sync: "Q None d \<Longrightarrow> (\<And>e. \<not> calm E \<Longrightarrow> Q (Some e) d) \<Longrightarrow> spec R d (SyncDir E) Q"
  unfolding SyncDir_def by (rule spec_oracle [where E = E]) (auto simp: calmD)

lemma spec_fault_try:
  "(\<And>e. \<not> calm E \<Longrightarrow> (honest E \<longrightarrow> \<not> is_not_exist e) \<Longrightarrow> Q (Some e) d) \<Longrightarrow> spec R d k Q \<Longrightarrow> spec R d (s_try (s_ask (seFault E)) k) Q"
  by (rule spec_try [OF spec_fault [where Q = "\<lambda>r d'. d' = d \<and> (\<forall>e. r = Some e \<longrightarrow> \<not> calm E \<and> (honest E \<longrightarrow> \<not> is_not_exist e))"]]) auto

lemma spec_get: "spec R d (f (g d)) Q \<Longrightarrow> spec R d (State_Monad.bind (s_disk g) f) Q"
  by (rule spec_bind [OF spec_disk [where Q = "\<lambda>x d'. d' = d \<and> x = g d"]]) auto

lemma spec_step: "R (g d) \<Longrightarrow> spec R (g d) m Q \<Longrightarrow> spec R d (State_Monad.bind (s_change g) (\<lambda>_. m)) Q"
  by (rule spec_bind [OF spec_change [where Q = "\<lambda>x d'. d' = g d"]]) auto

lemma spec_rename:
  assumes "\<And>e. alookup (dkFiles d) from = None \<or> \<not> calm E \<Longrightarrow> Q (Some e) d"
    and "\<And>data. alookup (dkFiles d) from = Some data \<Longrightarrow> R (d\<lparr>dkFiles := aput to data (adel from (dkFiles d))\<rparr>)
      \<and> Q None (d\<lparr>dkFiles := aput to data (adel from (dkFiles d))\<rparr>)"
  shows "spec R d (os_rename E from to) Q"
  unfolding os_rename_def
  by (rule spec_fault_try, use assms in blast, rule spec_get)
    (use assms in \<open>auto split: option.split intro!: spec_step spec_return\<close>)

lemma spec_remove:
  assumes "\<And>e. alookup (dkFiles d) p = None \<and> is_not_exist e \<or> \<not> calm E \<and> (honest E \<longrightarrow> \<not> is_not_exist e) \<Longrightarrow> Q (Some e) d"
    and "alookup (dkFiles d) p \<noteq> None \<Longrightarrow> R (d\<lparr>dkFiles := adel p (dkFiles d)\<rparr>) \<and> Q None (d\<lparr>dkFiles := adel p (dkFiles d)\<rparr>)"
  shows "spec R d (os_remove E p) Q"
  unfolding os_remove_def
  by (rule spec_fault_try, use assms in blast, rule spec_get)
    (use assms in \<open>auto simp: missing_def split: option.split intro!: spec_step spec_return\<close>)

lemma spec_lstat:
  assumes "\<And>e. \<not> calm E \<Longrightarrow> Q (Inl e) d" and "Q (Inr (alookup (dkFiles d) p \<noteq> None)) d"
  shows "spec R d (os_lstat E p) Q"
  unfolding os_lstat_def
  by (rule spec_bind [OF spec_fault [where Q = "\<lambda>r d'. d' = d \<and> (\<forall>e. r = Some e \<longrightarrow> \<not> calm E)"]])
    (use assms in \<open>auto split: option.split intro: spec_return spec_disk\<close>)

lemma spec_RemoveFile:
  assumes "\<And>e. \<not> calm E \<Longrightarrow> Q (Some e) d" and "alookup (dkFiles d) p = None \<Longrightarrow> Q None d"
    and "honest E"
    and "alookup (dkFiles d) p \<noteq> None \<Longrightarrow> R (d\<lparr>dkFiles := adel p (dkFiles d)\<rparr>) \<and> Q None (d\<lparr>dkFiles := adel p (dkFiles d)\<rparr>)
      \<and> (\<not> calm E \<longrightarrow> (\<forall>e. Q (Some e) (d\<lparr>dkFiles := adel p (dkFiles d)\<rparr>)))"
  shows "spec R d (RemoveFile E p) Q"
  unfolding RemoveFile_def
  by (rule spec_bind [OF spec_remove [where Q = "\<lambda>r d'. case r of
        Some e \<Rightarrow> d' = d \<and> (alookup (dkFiles d) p = None \<and> is_not_exist e \<or> \<not> calm E \<and> \<not> is_not_exist e)
      | None \<Rightarrow> alookup (dkFiles d) p \<noteq> None \<and> d' = d\<lparr>dkFiles := adel p (dkFiles d)\<rparr>"]])
    (use assms in \<open>auto split: option.splits intro!: spec_return spec_sync\<close>)

lemma spec_ReplaceFile:
  assumes "\<And>e. \<not> calm E \<or> butlast p \<notin> set (dkDirs d) \<Longrightarrow> Q (Some e) d"
    and "butlast p \<in> set (dkDirs d) \<Longrightarrow> R (d\<lparr>dkFiles := aput p data (dkFiles d)\<rparr>) \<and> Q None (d\<lparr>dkFiles := aput p data (dkFiles d)\<rparr>)
      \<and> (\<not> calm E \<longrightarrow> (\<forall>e. Q (Some e) (d\<lparr>dkFiles := aput p data (dkFiles d)\<rparr>)))"
  shows "spec R d (ReplaceFile E p data) Q"
  unfolding ReplaceFile_def
  by (rule spec_fault_try, use assms in blast, rule spec_get)
    (use assms in \<open>auto intro!: spec_step spec_return spec_sync\<close>)

lemma spec_read:
  assumes "\<And>e. \<not> calm E \<and> (honest E \<longrightarrow> \<not> is_not_exist e) \<Longrightarrow> Q (Inl e) d"
    and "\<And>e. alookup (dkFiles d) p = None \<Longrightarrow> is_not_exist e \<Longrightarrow> e = missing p \<Longrightarrow> Q (Inl e) d"
    and "\<And>e data. alookup (dkFiles d) p = Some data \<Longrightarrow> bound < length data \<Longrightarrow> \<not> is_not_exist e \<Longrightarrow> Q (Inl e) d"
    and "\<And>data. alookup (dkFiles d) p = Some data \<Longrightarrow> length data \<le> bound \<Longrightarrow> Q (Inr data) d"
  shows "spec R d (ReadPrivateFile E p bound) Q"
  unfolding ReadPrivateFile_def
  by (rule spec_bind [OF spec_fault [where Q = "\<lambda>r d'. d' = d \<and> (\<forall>e. r = Some e \<longrightarrow> \<not> calm E \<and> (honest E \<longrightarrow> \<not> is_not_exist e))"]])
    (use assms in \<open>auto simp: missing_def split: option.split intro!: spec_return spec_disk\<close>)

lemma spec_PrivateDir:
  assumes "\<And>e. \<not> calm E \<Longrightarrow> (honest E \<longrightarrow> \<not> is_not_exist e) \<Longrightarrow> Q (Some e) d" and "p \<in> set (dkDirs d) \<Longrightarrow> Q None d" and "p \<notin> set (dkDirs d) \<Longrightarrow> Q (Some (missing p)) d"
  shows "spec R d (PrivateDir E p) Q"
  unfolding PrivateDir_def by (rule spec_fault_try, use assms in blast) (use assms in \<open>auto intro!: spec_disk\<close>)

definition ensured :: "location \<Rightarrow> disk \<Rightarrow> disk" where
  "ensured p d = d\<lparr>dkDirs := remdups (map (\<lambda>n. take n p) [0..<Suc (length p)] @ dkDirs d)\<rparr>"

lemma spec_EnsurePrivateDir:
  assumes "\<And>e. \<not> calm E \<Longrightarrow> Q (Some e) d" and "R (ensured p d)" and "Q None (ensured p d)"
  shows "spec R d (EnsurePrivateDir E p) Q"
  unfolding EnsurePrivateDir_def ensured_def [symmetric, of _ d for d]
  by (rule spec_fault_try, use assms in blast) (use assms in \<open>auto simp: ensured_def intro!: spec_step spec_return\<close>)

lemma spec_ReadDir:
  assumes "\<And>e. \<not> calm E \<or> p \<notin> set (dkDirs d) \<Longrightarrow> Q (Inl e) d" and "p \<in> set (dkDirs d) \<Longrightarrow> Q (Inr (dir_entries d p)) d"
  shows "spec R d (ReadDir E p) Q"
  unfolding ReadDir_def
  by (rule spec_bind [OF spec_fault [where Q = "\<lambda>r d'. d' = d \<and> (\<forall>e. r = Some e \<longrightarrow> \<not> calm E)"]])
    (use assms in \<open>auto split: option.split intro!: spec_return spec_disk\<close>)

section \<open>Names in the key directory\<close>

definition deleting :: "string \<Rightarrow> bool" where
  "deleting f \<longleftrightarrow> has_prefix f deletePrefix \<and> validSSHKeyName (trim_prefix f deletePrefix)"

definition leftover :: "string \<Rightarrow> bool" where
  "leftover f \<longleftrightarrow> stagedSSHName f \<noteq> None \<or> deleting f"

lemma not_alnum_dot: "\<not> is_alnum CHR ''.''"
  by code_simp

lemma key_name_facts:
  assumes "validSSHKeyName n"
  obtains c t where "n = c # t" "c \<noteq> CHR ''.''" "length n \<le> 64"
proof -
  from assms have "length n \<le> 64" "safeNamePattern n" by (simp_all add: validSSHKeyName_def SafeName_def)
  moreover from this obtain c t where "n = c # t" "is_alnum c" by (auto simp: safeNamePattern_def split: list.splits)
  moreover have "c \<noteq> CHR ''.''" using \<open>is_alnum c\<close> not_alnum_dot by metis
  ultimately show thesis using that by blast
qed

lemma prefix_dot: "deletePrefix = CHR ''.'' # ''delete-''" "putPrefix = CHR ''.'' # ''put-''"
  by (simp_all add: deletePrefix_def putPrefix_def)

lemma deletePrefix_nonempty [simp]: "deletePrefix \<noteq> []"
  by (simp add: deletePrefix_def)

lemma key_name_settled: assumes "validSSHKeyName n" shows "\<not> leftover n"
proof -
  from assms obtain c t where n: "n = c # t" "c \<noteq> CHR ''.''" "length n \<le> 64" by (rule key_name_facts)
  have "\<not> has_prefix n deletePrefix" using n(1,2) by (simp add: prefix_dot has_prefix_def)
  moreover have "trim_prefix n putPrefix = n" using n(1,2) by (simp add: trim_prefix_def prefix_dot has_prefix_def)
  ultimately show ?thesis using n(3) by (simp add: leftover_def deleting_def stagedSSHName_def)
qed

lemma staged_name: "stagedSSHName f = Some n \<Longrightarrow> validSSHKeyName n"
  by (auto simp: stagedSSHName_def Let_def split: if_splits option.splits)

lemma staged_put: assumes "validSSHKeyName n" shows "stagedSSHName (sshPutStage n row) = Some n"
proof -
  let ?x = "join [nul] [krPrincipal row, krName row, krType row, krFingerprint row]"
  from assms have "n \<noteq> []" by (auto elim: key_name_facts)
  moreover have "hex_decode (hex_encode (sha256 ?x)) = Some (sha256 ?x)" using sha256_lt by (intro hex_decode_encode) auto
  moreover have "trim_prefix (sshPutStage n row) putPrefix = n @ ''-'' @ hex_encode (sha256 ?x)" by (simp add: sshPutStage_def)
  ultimately show ?thesis using assms by (simp add: stagedSSHName_def nth_append Let_def)
qed

lemma stage_not_deleting: "\<not> has_prefix (sshPutStage n row) deletePrefix"
  by (simp add: sshPutStage_def prefix_dot has_prefix_def)

lemma deleting_iff: "deleting f \<longleftrightarrow> (\<exists>n. f = deletePrefix @ n \<and> validSSHKeyName n)"
  by (auto simp: deleting_def has_prefix_iff)

lemma deleting_not_staged: assumes "deleting f" shows "stagedSSHName f = None"
proof (cases "stagedSSHName f")
  case (Some m)
  from assms obtain n where n: "f = deletePrefix @ n" by (auto simp: deleting_iff)
  then have f: "trim_prefix f putPrefix = f" "hd f = CHR ''.''" by (simp_all add: trim_prefix_def prefix_dot has_prefix_def)
  from Some f(1) obtain k where k: "m = take k f" by (auto simp: stagedSSHName_def Let_def split: if_splits option.splits)
  from staged_name [OF Some] obtain c t where "m = c # t" "c \<noteq> CHR ''.''" by (rule key_name_facts)
  with k f(2) show ?thesis by (cases f; cases k) auto
qed simp

lemma leftover_stage: "validSSHKeyName n \<Longrightarrow> leftover (sshPutStage n row)"
  by (simp add: leftover_def staged_put)

lemma leftover_tombstone: "validSSHKeyName n \<Longrightarrow> leftover (deletePrefix @ n)"
  by (auto simp: leftover_def deleting_iff)

lemma key_file_inject [simp]: "key_file p f = key_file q g \<longleftrightarrow> p = q \<and> f = g"
  by (simp add: key_file_def)

lemma config_not_key [simp]: "config_file p \<noteq> key_file q f" "key_file q f \<noteq> config_file p"
  by (simp_all add: config_file_def key_file_def)

lemma stage_not_name: "validSSHKeyName n \<Longrightarrow> validSSHKeyName m \<Longrightarrow> sshPutStage n row \<noteq> m"
  using leftover_stage [of n row] key_name_settled [of m] by auto

lemma tombstone_not_name: "validSSHKeyName n \<Longrightarrow> validSSHKeyName m \<Longrightarrow> deletePrefix @ n \<noteq> m"
  using leftover_tombstone [of n] key_name_settled [of m] by auto

lemma tombstone_not_stage: "deletePrefix @ n \<noteq> sshPutStage m row"
  using stage_not_deleting [of m row] by (metis has_prefix_iff)

lemma stage_inject: "sshPutStage n row = sshPutStage m row' \<Longrightarrow> validSSHKeyName n \<Longrightarrow> validSSHKeyName m \<Longrightarrow> n = m"
  using staged_put [of n row] staged_put [of m row'] by simp

lemmas name_clash = stage_not_name stage_not_name [symmetric] tombstone_not_name tombstone_not_name [symmetric]
  tombstone_not_stage tombstone_not_stage [symmetric]

section \<open>Disks that can be recovered\<close>

definition tables_ok :: "ssh_tables \<Rightarrow> bool" where
  "tables_ok t \<longleftrightarrow>
     (\<forall>(p, n, payload) \<in> set (stHosts t). SafeName p 128 \<and> (\<exists>h. payload = Json h \<and> hName h = n))
     \<and> (\<forall>k \<in> set (stKeys t). validSSHKeyName (krName k) \<and> SafeName (krPrincipal k) 128)"

abbreviation bytes :: "disk \<Rightarrow> string \<Rightarrow> string \<Rightarrow> string option" where
  "bytes d p f \<equiv> alookup (dkFiles d) (key_file p f)"

definition placed :: "disk \<Rightarrow> bool" where
  "placed d \<longleftrightarrow> distinct (map fst (dkFiles d))
     \<and> (\<forall>p f data. bytes d p f = Some data \<longrightarrow>
          SafeName p 128 \<and> [p] \<in> set (dkDirs d) \<and> [p, ''keys''] \<in> set (dkDirs d) \<and> length data \<le> max_key_bytes)"

text \<open>
  What a crash may leave of a key with a row: its file, a tombstone instead of it, or the staged file the row commits.
  A key without a row has leftovers only. \<open>key_bytes\<close> is the key such a disk stands for.
\<close>

definition key_bytes :: "disk \<Rightarrow> string \<Rightarrow> string \<Rightarrow> string option" where
  "key_bytes d p n =
     (case GetKey (dkTables d) p n of
        None \<Rightarrow> None
      | Some row \<Rightarrow>
          (case bytes d p (sshPutStage n row) of
             Some data \<Rightarrow> Some data
           | None \<Rightarrow> (case bytes d p (deletePrefix @ n) of Some data \<Rightarrow> Some data | None \<Rightarrow> bytes d p n)))"

definition key_recoverable :: "disk \<Rightarrow> string \<Rightarrow> string \<Rightarrow> bool" where
  "key_recoverable d p n =
     (case GetKey (dkTables d) p n of
        None \<Rightarrow> bytes d p n = None
      | Some row \<Rightarrow>
          key_bytes d p n \<noteq> None
          \<and> (bytes d p (deletePrefix @ n) \<noteq> None \<longrightarrow> bytes d p n = None \<and> bytes d p (sshPutStage n row) = None))"

definition recoverable :: "disk \<Rightarrow> bool" where
  "recoverable d \<longleftrightarrow> tables_ok (dkTables d) \<and> placed d \<and> (\<forall>p n. validSSHKeyName n \<longrightarrow> key_recoverable d p n)"

definition tidy :: "disk \<Rightarrow> string \<Rightarrow> bool" where
  "tidy d p \<longleftrightarrow> (\<forall>f. bytes d p f \<noteq> None \<longrightarrow> \<not> leftover f)"

definition settled :: "disk \<Rightarrow> bool" where
  "settled d \<longleftrightarrow> recoverable d \<and> (\<forall>p. tidy d p)"

lemma GetKey_row: "GetKey t p n = Some row \<Longrightarrow> krPrincipal row = p \<and> krName row = n \<and> row \<in> set (stKeys t)"
  by (auto simp: GetKey_def find_Some_iff)

lemma tidyD: "tidy d p \<Longrightarrow> leftover f \<Longrightarrow> bytes d p f = None"
  unfolding tidy_def by blast

lemma tidy_bytes:
  assumes "tidy d p" and "validSSHKeyName n"
  shows "bytes d p (deletePrefix @ n) = None" "bytes d p (sshPutStage n row) = None"
  using assms leftover_tombstone [of n] leftover_stage [of n row] by (auto simp: tidy_def)

lemma recoverable_key: "recoverable d \<Longrightarrow> validSSHKeyName n \<Longrightarrow> key_recoverable d p n"
  by (simp add: recoverable_def)

lemma settled_bytes: "settled d \<Longrightarrow> validSSHKeyName n \<Longrightarrow> key_bytes d p n = bytes d p n"
  using tidy_bytes [of d p n] recoverable_key [of d n p]
  by (cases "GetKey (dkTables d) p n") (simp_all add: settled_def key_recoverable_def key_bytes_def)

lemma recoverable_row:
  assumes "recoverable d" and "GetKey (dkTables d) p n = Some row"
  shows "validSSHKeyName n" "SafeName p 128" "krPrincipal row = p" "krName row = n"
  using assms GetKey_row [OF assms(2)] by (auto simp: recoverable_def tables_ok_def)

section \<open>Settling one leftover\<close>

text \<open>
  \<open>kept d d'\<close>: the tables, the directories and the keys the disk stands for are as they were. \<open>settles S d d'\<close>: and
  of the leftovers just those of \<open>S\<close> are gone.
\<close>

definition kept :: "disk \<Rightarrow> disk \<Rightarrow> bool" where
  "kept d d' \<longleftrightarrow> recoverable d' \<and> dkTables d' = dkTables d \<and> dkDirs d' = dkDirs d \<and> key_bytes d' = key_bytes d"

definition settles :: "(string \<times> string) set \<Rightarrow> disk \<Rightarrow> disk \<Rightarrow> bool" where
  "settles S d d' \<longleftrightarrow>
     kept d d' \<and> (\<forall>q f. leftover f \<longrightarrow> bytes d' q f = (if (q, f) \<in> S then None else bytes d q f))"

lemma kept_refl: "recoverable d \<Longrightarrow> kept d d"
  by (simp add: kept_def)

lemma kept_trans: "kept d d1 \<Longrightarrow> kept d1 d2 \<Longrightarrow> kept d d2"
  by (simp add: kept_def)

lemma settles_trans: "settles S d d1 \<Longrightarrow> settles T d1 d2 \<Longrightarrow> settles (S \<union> T) d d2"
  by (auto simp: settles_def intro: kept_trans)

lemma settles_refl: "recoverable d \<Longrightarrow> (\<And>q f. (q, f) \<in> S \<Longrightarrow> leftover f \<Longrightarrow> bytes d q f = None) \<Longrightarrow> settles S d d"
  by (auto simp: settles_def kept_refl)

lemma key_bytes_cong:
  assumes "recoverable d" and "dkTables d' = dkTables d"
    and "\<And>q m row. GetKey (dkTables d) q m = Some row \<Longrightarrow> validSSHKeyName m \<Longrightarrow> key_bytes d' q m = key_bytes d q m"
  shows "key_bytes d' = key_bytes d"
proof (intro ext)
  fix q m
  show "key_bytes d' q m = key_bytes d q m"
    using assms recoverable_row [OF assms(1), of q m] by (cases "GetKey (dkTables d) q m") (auto simp: key_bytes_def)
qed

lemma placed_adel: "placed d \<Longrightarrow> placed (d\<lparr>dkFiles := adel l (dkFiles d)\<rparr>)"
  by (simp add: placed_def)

lemma placed_move:
  "placed d \<Longrightarrow> bytes d p f = Some data \<Longrightarrow> placed (d\<lparr>dkFiles := aput (key_file p g) data (adel l (dkFiles d))\<rparr>)"
  by (simp add: placed_def)

text \<open>The three files of a key decide about it.\<close>

lemma key_local:
  assumes "dkTables d' = dkTables d" and "bytes d' q m = bytes d q m"
    and "\<And>row. GetKey (dkTables d) q m = Some row \<Longrightarrow>
      bytes d' q (deletePrefix @ m) = bytes d q (deletePrefix @ m) \<and> bytes d' q (sshPutStage m row) = bytes d q (sshPutStage m row)"
  shows "key_bytes d' q m = key_bytes d q m" "key_recoverable d' q m = key_recoverable d q m"
proof -
  show bytes: "key_bytes d' q m = key_bytes d q m"
    using assms by (cases "GetKey (dkTables d) q m") (simp_all add: key_bytes_def cong: option.case_cong)
  show "key_recoverable d' q m = key_recoverable d q m"
    using assms bytes by (cases "GetKey (dkTables d) q m") (simp_all add: key_recoverable_def)
qed

lemma settlesI:
  assumes "recoverable d" and "placed d'" and "dkTables d' = dkTables d" and "dkDirs d' = dkDirs d" and "bytes d' p entry = None"
    and "\<And>q f. leftover f \<Longrightarrow> (q, f) \<noteq> (p, entry) \<Longrightarrow> bytes d' q f = bytes d q f"
    and "\<And>q m. validSSHKeyName m \<Longrightarrow> key_bytes d' q m = key_bytes d q m \<and> key_recoverable d' q m"
  shows "settles {(p, entry)} d d'"
  unfolding settles_def kept_def recoverable_def
  using assms key_bytes_cong [of d d'] by (auto simp: recoverable_def)

lemma discard_settles:
  assumes "recoverable d" and "leftover entry"
    and "\<And>n row. GetKey (dkTables d) p n = Some row \<Longrightarrow> entry \<noteq> deletePrefix @ n \<and> entry \<noteq> sshPutStage n row"
  shows "settles {(p, entry)} d (d\<lparr>dkFiles := adel (key_file p entry) (dkFiles d)\<rparr>)" (is "settles {(p, entry)} d ?d'")
proof (rule settlesI [OF assms(1)])
  fix q m
  assume m: "validSSHKeyName m"
  with assms(2) key_name_settled have "m \<noteq> entry" by blast
  with assms(3) have "bytes ?d' q m = bytes d q m" "\<And>row. GetKey (dkTables d) q m = Some row \<Longrightarrow>
      bytes ?d' q (deletePrefix @ m) = bytes d q (deletePrefix @ m) \<and> bytes ?d' q (sshPutStage m row) = bytes d q (sshPutStage m row)"
    by auto
  from key_local [of ?d' d, OF _ this] recoverable_key [OF assms(1) m]
  show "key_bytes ?d' q m = key_bytes d q m \<and> key_recoverable ?d' q m" by simp
qed (use assms(1) placed_adel in \<open>auto simp: recoverable_def\<close>)

lemma promote_settles:
  assumes "recoverable d" and "GetKey (dkTables d) p n = Some row" and "bytes d p entry = Some data"
    and "entry = deletePrefix @ n \<or> entry = sshPutStage n row"
  shows "settles {(p, entry)} d (d\<lparr>dkFiles := aput (key_file p n) data (adel (key_file p entry) (dkFiles d))\<rparr>)" (is "settles {(p, entry)} d ?d'")
proof (rule settlesI [OF assms(1)])
  note n = recoverable_row(1) [OF assms(1,2)]
  have entry: "leftover entry" using assms(4) n leftover_stage leftover_tombstone by auto
  with n key_name_settled have "entry \<noteq> n" by blast
  then show "bytes ?d' p entry = None" by simp
  show "bytes ?d' q f = bytes d q f" if "leftover f" "(q, f) \<noteq> (p, entry)" for q f
    using that n key_name_settled [of n] by auto
  fix q m
  assume m: "validSSHKeyName m"
  show "key_bytes ?d' q m = key_bytes d q m \<and> key_recoverable ?d' q m"
  proof (cases "(q, m) = (p, n)")
    case True
    have "bytes ?d' p (deletePrefix @ n) = None" "bytes ?d' p (sshPutStage n row) = None"
      using recoverable_key [OF assms(1) n, of p] assms(2-4) n by (auto simp: key_recoverable_def name_clash)
    moreover have "key_bytes d p n = Some data"
      using recoverable_key [OF assms(1) n, of p] assms(2-4) by (auto simp: key_recoverable_def key_bytes_def)
    ultimately show ?thesis using True assms(2) by (simp add: key_recoverable_def key_bytes_def del: alookup_adel)
  next
    case False
    have "entry \<noteq> m" using entry m key_name_settled by blast
    with False n m assms(4) have "bytes ?d' q m = bytes d q m" "\<And>row'. GetKey (dkTables d) q m = Some row' \<Longrightarrow>
        bytes ?d' q (deletePrefix @ m) = bytes d q (deletePrefix @ m) \<and> bytes ?d' q (sshPutStage m row') = bytes d q (sshPutStage m row')"
      by (auto simp: name_clash dest: stage_inject)
    from key_local [of ?d' d, OF _ this] recoverable_key [OF assms(1) m] show ?thesis by simp
  qed
qed (use assms(1,3) placed_move in \<open>auto simp: recoverable_def\<close>)

section \<open>Recovery\<close>

lemma staged_discard:
  assumes "recoverable d" and "stagedSSHName entry = Some name"
    and "\<And>row. GetKey (dkTables d) p name = Some row \<Longrightarrow> sshPutStage name row \<noteq> entry"
  shows "settles {(p, entry)} d (d\<lparr>dkFiles := adel (key_file p entry) (dkFiles d)\<rparr>)"
proof (rule discard_settles [OF assms(1)])
  show "leftover entry" using assms(2) by (simp add: leftover_def)
  fix n row
  assume row: "GetKey (dkTables d) p n = Some row"
  note n = recoverable_row(1) [OF assms(1) row]
  then have "deleting (deletePrefix @ n)" by (auto simp: deleting_iff)
  with deleting_not_staged [of entry] assms(2) have "entry \<noteq> deletePrefix @ n" by auto
  moreover have "entry \<noteq> sshPutStage n row"
  proof
    assume "entry = sshPutStage n row"
    with staged_put [OF n, of row] assms(2,3) row show False by simp
  qed
  ultimately show "entry \<noteq> deletePrefix @ n \<and> entry \<noteq> sshPutStage n row" ..
qed

lemma tombstone_discard:
  assumes "recoverable d" and "validSSHKeyName name" and "GetKey (dkTables d) p name = None"
  shows "settles {(p, deletePrefix @ name)} d (d\<lparr>dkFiles := adel (key_file p (deletePrefix @ name)) (dkFiles d)\<rparr>)"
  using assms by (intro discard_settles leftover_tombstone) (auto simp: name_clash)

text \<open>The primitive steps with what follows them.\<close>

lemma spec_then_query:
  assumes "\<And>e. \<not> calm E \<or> f (dkTables d) = Inl e \<Longrightarrow> Q (Inl e) d" and "\<And>x. f (dkTables d) = Inr x \<Longrightarrow> spec R d (k x) Q"
  shows "spec R d (s_attempt (s_query E f) k) Q"
  by (rule spec_attempt [OF spec_query [where Q = "\<lambda>r d'. d' = d \<and> (case r of Inl e \<Rightarrow> \<not> calm E \<or> f (dkTables d) = Inl e | Inr x \<Rightarrow> f (dkTables d) = Inr x)"]])
    (use assms in \<open>auto split: sum.splits\<close>)

lemma spec_then_lstat:
  assumes "\<And>e. \<not> calm E \<Longrightarrow> Q (Inl e) d" and "spec R d (k (alookup (dkFiles d) l \<noteq> None)) Q"
  shows "spec R d (s_attempt (os_lstat E l) k) Q"
  by (rule spec_attempt [OF spec_lstat [where Q = "\<lambda>r d'. d' = d \<and> (case r of Inl e \<Rightarrow> \<not> calm E | Inr x \<Rightarrow> x = (alookup (dkFiles d) l \<noteq> None))"]])
    (use assms in \<open>auto split: sum.splits\<close>)

lemma spec_then_read:
  assumes "\<And>e. \<not> calm E \<or> alookup (dkFiles d) l = None \<or> (\<exists>data. alookup (dkFiles d) l = Some data \<and> bound < length data) \<Longrightarrow> Q (Inl e) d"
    and "\<And>data. alookup (dkFiles d) l = Some data \<Longrightarrow> spec R d (k data) Q"
  shows "spec R d (s_attempt (ReadPrivateFile E l bound) k) Q"
  by (rule spec_attempt [OF spec_read [where Q = "\<lambda>r d'. d' = d \<and> (case r of
        Inl e \<Rightarrow> \<not> calm E \<or> alookup (dkFiles d) l = None \<or> (\<exists>data. alookup (dkFiles d) l = Some data \<and> bound < length data)
      | Inr x \<Rightarrow> alookup (dkFiles d) l = Some x)"]])
    (use assms in \<open>auto split: sum.splits\<close>)

lemma spec_then_rename:
  assumes "\<And>e. alookup (dkFiles d) from = None \<or> \<not> calm E \<Longrightarrow> Q (Inl e) d"
    and "\<And>data. alookup (dkFiles d) from = Some data \<Longrightarrow> R (d\<lparr>dkFiles := aput to data (adel from (dkFiles d))\<rparr>)
      \<and> spec R (d\<lparr>dkFiles := aput to data (adel from (dkFiles d))\<rparr>) (k ()) Q"
  shows "spec R d (s_attempt (done_of (os_rename E from to)) k) Q"
  by (rule spec_attempt [OF spec_done [OF spec_rename [where Q = "\<lambda>r d'. case r of
        Some e \<Rightarrow> d' = d \<and> (alookup (dkFiles d) from = None \<or> \<not> calm E)
      | None \<Rightarrow> \<exists>data. alookup (dkFiles d) from = Some data \<and> d' = d\<lparr>dkFiles := aput to data (adel from (dkFiles d))\<rparr>"],
        where Q = "\<lambda>r d'. case r of
        Inl e \<Rightarrow> d' = d \<and> (alookup (dkFiles d) from = None \<or> \<not> calm E)
      | Inr _ \<Rightarrow> \<exists>data. alookup (dkFiles d) from = Some data \<and> d' = d\<lparr>dkFiles := aput to data (adel from (dkFiles d))\<rparr>"]])
    (use assms in \<open>auto\<close>)

lemma spec_then_remove:
  assumes "\<And>e. alookup (dkFiles d) l = None \<or> \<not> calm E \<Longrightarrow> Q (Inl e) d"
    and "alookup (dkFiles d) l \<noteq> None \<Longrightarrow> R (d\<lparr>dkFiles := adel l (dkFiles d)\<rparr>) \<and> spec R (d\<lparr>dkFiles := adel l (dkFiles d)\<rparr>) (k ()) Q"
  shows "spec R d (s_attempt (done_of (os_remove E l)) k) Q"
  by (rule spec_attempt [OF spec_done [OF spec_remove [where Q = "\<lambda>r d'. case r of
        Some e \<Rightarrow> d' = d \<and> (alookup (dkFiles d) l = None \<or> \<not> calm E)
      | None \<Rightarrow> alookup (dkFiles d) l \<noteq> None \<and> d' = d\<lparr>dkFiles := adel l (dkFiles d)\<rparr>"],
        where Q = "\<lambda>r d'. case r of
        Inl e \<Rightarrow> d' = d \<and> (alookup (dkFiles d) l = None \<or> \<not> calm E)
      | Inr _ \<Rightarrow> alookup (dkFiles d) l \<noteq> None \<and> d' = d\<lparr>dkFiles := adel l (dkFiles d)\<rparr>"]])
    (use assms in \<open>auto\<close>)

definition settled_answer :: "ssh_env \<Rightarrow> (string \<times> string) set \<Rightarrow> disk \<Rightarrow> 'a res \<Rightarrow> disk \<Rightarrow> bool" where
  "settled_answer E S d r d' = (case r of Inl e \<Rightarrow> \<not> calm E \<and> kept d d' | Inr _ \<Rightarrow> settles S d d')"

lemma settled_answer_simps [simp]:
  "settled_answer E S d (Inl e) d' \<longleftrightarrow> \<not> calm E \<and> kept d d'" "settled_answer E S d (Inr x) d' \<longleftrightarrow> settles S d d'"
  by (simp_all add: settled_answer_def)

lemma settles_kept: "settles S d d' \<Longrightarrow> kept d d'"
  by (simp add: settles_def)

lemma spec_recover_delete:
  assumes "recoverable d" and "validSSHKeyName name" and "bytes d p (deletePrefix @ name) \<noteq> None"
  shows "spec (kept d) d (recover_delete E p (deletePrefix @ name) name) (settled_answer E {(p, deletePrefix @ name)} d)"
proof (cases "GetKey (dkTables d) p name")
  case None
  with assms tombstone_discard [OF assms(1,2) None] kept_refl settles_kept show ?thesis
    unfolding recover_delete_def by (auto simp: keyMetadata_def intro!: spec_then_query spec_then_remove spec_return)
next
  case (Some row)
  with recoverable_key [OF assms(1,2), of p] assms(3) have free: "bytes d p name = None" by (auto simp: key_recoverable_def)
  from assms Some kept_refl show ?thesis
    unfolding recover_delete_def
    by (auto simp: keyMetadata_def free
      intro!: spec_then_query spec_then_lstat spec_then_rename spec_return promote_settles [OF _ Some] settles_kept [OF promote_settles [OF _ Some]])
qed

lemma recoverable_size: "recoverable d \<Longrightarrow> bytes d p f = Some data \<Longrightarrow> length data \<le> max_key_bytes"
  by (auto simp: recoverable_def placed_def)

lemma spec_recover_put:
  assumes "recoverable d" and "stagedSSHName entry = Some name" and "bytes d p entry = Some data"
  shows "spec (kept d) d (recover_put E p entry name) (settled_answer E {(p, entry)} d)"
proof -
  let ?committed = "\<exists>row. GetKey (dkTables d) p name = Some row \<and> sshPutStage name row = entry"
  have discard: "spec (kept d) d (s_attempt (done_of (os_remove E (key_file p entry))) (\<lambda>_. State_Monad.return (Inr True))) (settled_answer E {(p, entry)} d)"
    if "\<not> ?committed"
    using that staged_discard [OF assms(1,2), of p] assms(1,3) kept_refl settles_kept by (auto intro!: spec_then_remove spec_return)
  have promote: "spec (kept d) d (s_attempt (done_of (os_rename E (key_file p entry) (key_file p name))) (\<lambda>_. State_Monad.return (Inr True)))
      (settled_answer E {(p, entry)} d)" if "?committed"
    using that promote_settles [OF assms(1), of p name] assms(1,3) kept_refl by (auto intro!: spec_then_rename spec_return intro: settles_kept)
  have small: "length x \<le> max_key_bytes" if "bytes d p f = Some x" for f x using recoverable_size [OF assms(1) that] .
  have read: "spec (kept d) d (ReadPrivateFile E (key_file p name) max_key_bytes)
      (\<lambda>r d'. d' = d \<and> (case r of Inl e \<Rightarrow> \<not> calm E \<or> is_not_exist e | Inr _ \<Rightarrow> True))"
    by (rule spec_read) (use small in force)+
  have row: "\<lparr>krPrincipal = p, krName = krName row, krType = krType row, krFingerprint = krFingerprint row\<rparr> = row"
    if "GetKey (dkTables d) p name = Some row" for row using GetKey_row [OF that] by (cases row) simp
  show ?thesis
    unfolding recover_put_def
  proof (intro spec_then_query spec_then_read)
    fix metadata x
    assume m: "Inr (keyMetadata (dkTables d) p name) = Inr metadata"
    let ?c = "case metadata of None \<Rightarrow> False
      | Some m \<Rightarrow> sshPutStage name \<lparr>krPrincipal = p, krName = skName m, krType = skType m, krFingerprint = skFingerprint m\<rparr> = entry"
    have "?c \<longleftrightarrow> ?committed" using m row by (cases "GetKey (dkTables d) p name") (auto simp: keyMetadata_def)
    then show "spec (kept d) d (let committed = ?c in if committed then do {
            old \<leftarrow> ReadPrivateFile E (key_file p name) max_key_bytes;
            (case old of
               Inl e \<Rightarrow>
                 if is_not_exist e then
                   s_attempt (done_of (os_rename E (key_file p entry) (key_file p name))) (\<lambda>_. State_Monad.return (Inr True))
                 else State_Monad.return (Inl e)
             | Inr _ \<Rightarrow>
                 s_attempt (done_of (os_rename E (key_file p entry) (key_file p name))) (\<lambda>_. State_Monad.return (Inr True))) }
          else s_attempt (done_of (os_remove E (key_file p entry))) (\<lambda>_. State_Monad.return (Inr True)))
        (settled_answer E {(p, entry)} d)"
      using discard promote kept_refl [OF assms(1)]
      by (auto simp: Let_def intro!: spec_bind [OF read] spec_return split: sum.split)
  qed (use small assms(1,3) kept_refl in fastforce)+
qed

lemma spec_recover_entry:
  assumes "recoverable d" and "\<not> snd x \<Longrightarrow> leftover (fst x) \<Longrightarrow> bytes d p (fst x) \<noteq> None"
  shows "spec (kept d) d (recover_entry E p x) (settled_answer E (if snd x then {} else {(p, fst x)}) d)"
proof (cases "leftover (fst x) \<and> \<not> snd x")
  case False
  with assms(1) show ?thesis
    by (cases x) (auto simp: recover_entry_def leftover_def deleting_def intro!: spec_return settles_refl split: option.split)
next
  case True
  then obtain entry data where x: "x = (entry, False)" and data: "bytes d p entry = Some data" using assms(2) by (cases x) auto
  show ?thesis
  proof (cases "deleting entry")
    case True
    then obtain n where n: "entry = deletePrefix @ n" "validSSHKeyName n" by (auto simp: deleting_iff)
    with deleting_not_staged [OF True] spec_recover_delete [OF assms(1) n(2)] data x show ?thesis by (simp add: recover_entry_def)
  next
    case False
    with \<open>leftover (fst x) \<and> \<not> snd x\<close> x obtain n where "stagedSSHName entry = Some n" by (auto simp: leftover_def)
    with False spec_recover_put [OF assms(1) this data] x show ?thesis by (auto simp: recover_entry_def deleting_def)
  qed
qed

lemma spec_then_dir:
  assumes "honest E" and "\<And>e. \<not> calm E \<Longrightarrow> \<not> is_not_exist e \<Longrightarrow> spec R d (k (Some e)) Q"
    and "l \<in> set (dkDirs d) \<Longrightarrow> spec R d (k None) Q" and "l \<notin> set (dkDirs d) \<Longrightarrow> spec R d (k (Some (missing l))) Q"
  shows "spec R d (State_Monad.bind (PrivateDir E l) k) Q"
  by (rule spec_bind [OF spec_PrivateDir [where Q = "\<lambda>r d'. d' = d \<and> (case r of
        Some e \<Rightarrow> (\<not> calm E \<and> \<not> is_not_exist e) \<or> (l \<notin> set (dkDirs d) \<and> e = missing l) | None \<Rightarrow> l \<in> set (dkDirs d))"]])
    (use assms in \<open>auto split: option.splits\<close>)

lemma spec_then_private:
  assumes "\<And>e. \<not> calm E \<or> l \<notin> set (dkDirs d) \<Longrightarrow> Q (Inl e) d" and "l \<in> set (dkDirs d) \<Longrightarrow> spec R d (k ()) Q"
  shows "spec R d (s_attempt (done_of (PrivateDir E l)) k) Q"
  by (rule spec_attempt [OF spec_done [OF spec_PrivateDir [where Q = "\<lambda>r d'. d' = d \<and> (case r of
        Some e \<Rightarrow> \<not> calm E \<or> l \<notin> set (dkDirs d) | None \<Rightarrow> l \<in> set (dkDirs d))"], where Q = "\<lambda>r d'. d' = d \<and> (case r of
        Inl e \<Rightarrow> \<not> calm E \<or> l \<notin> set (dkDirs d) | Inr _ \<Rightarrow> l \<in> set (dkDirs d))"]])
    (use assms in auto)

lemma spec_then_list:
  assumes "\<And>e. \<not> calm E \<or> l \<notin> set (dkDirs d) \<Longrightarrow> Q (Inl e) d" and "l \<in> set (dkDirs d) \<Longrightarrow> spec R d (k (dir_entries d l)) Q"
  shows "spec R d (s_attempt (ReadDir E l) k) Q"
  by (rule spec_attempt [OF spec_ReadDir [where Q = "\<lambda>r d'. d' = d \<and> (case r of
        Inl e \<Rightarrow> \<not> calm E \<or> l \<notin> set (dkDirs d) | Inr x \<Rightarrow> l \<in> set (dkDirs d) \<and> x = dir_entries d l)"]])
    (use assms in auto)

abbreviation plain_files :: "(string \<times> bool) list \<Rightarrow> string list" where
  "plain_files xs \<equiv> map fst (filter (\<lambda>x. \<not> snd x) xs)"

lemma spec_settled_step:
  fixes m :: "'a res sprog"
  assumes "spec (kept d) d m (settled_answer E S d)" and "recoverable d"
    and "\<And>x d'. settles S d d' \<Longrightarrow> spec (kept d') d' (f x) (settled_answer E T d')"
  shows "spec (kept d) d (s_attempt m f) (settled_answer E (S \<union> T) d)"
proof (rule spec_attempt [OF assms(1)])
  fix x :: 'a and d'
  assume "settled_answer E S d (Inr x) d'"
  then have d': "settles S d d'" by simp
  show "spec (kept d) d' (f x) (settled_answer E (S \<union> T) d)"
    by (rule spec_weaken [OF assms(3) [OF d']])
      (use kept_trans [OF settles_kept [OF d']] settles_trans [OF d'] in \<open>auto simp: settled_answer_def split: sum.splits\<close>)
qed (simp add: settled_answer_def)

lemma spec_recover_entries:
  assumes "recoverable d" and "distinct (plain_files xs)" and "\<And>f. f \<in> set (plain_files xs) \<Longrightarrow> leftover f \<Longrightarrow> bytes d p f \<noteq> None"
  shows "spec (kept d) d (recover_entries E p changed xs) (settled_answer E ({p} \<times> set (plain_files xs)) d)"
  using assms
proof (induction xs arbitrary: d changed)
  case Nil
  then show ?case by (auto intro!: spec_return settles_refl)
next
  case (Cons x xs)
  have rest: "({p} \<times> set (plain_files (x # xs))) = (if snd x then {} else {(p, fst x)}) \<union> {p} \<times> set (plain_files xs)" by auto
  show ?case
    unfolding recover_entries.simps rest
  proof (rule spec_settled_step [OF spec_recover_entry Cons.prems(1)])
    show "recoverable d" by fact
    show "bytes d p (fst x) \<noteq> None" if "\<not> snd x" "leftover (fst x)" using Cons.prems(3) [of "fst x"] that by simp
    fix c d'
    assume d': "settles (if snd x then {} else {(p, fst x)}) d d'"
    show "spec (kept d') d' (recover_entries E p (changed \<or> c) xs) (settled_answer E ({p} \<times> set (plain_files xs)) d')"
    proof (rule Cons.IH)
      show "recoverable d'" using d' by (simp add: settles_def kept_def)
      show "distinct (plain_files xs)" using Cons.prems(2) by (simp split: if_splits)
      fix f
      assume f: "f \<in> set (plain_files xs)" "leftover f"
      with Cons.prems(2) Cons.prems(3) [of f] have "bytes d p f \<noteq> None" "\<not> snd x \<Longrightarrow> f \<noteq> fst x" by (simp_all split: if_splits) blast+
      with d' f(2) show "bytes d' p f \<noteq> None" by (auto simp: settles_def split: if_splits)
    qed
  qed
qed

lemma dir_entries_dirs: "(n, True) \<in> set (dir_entries d p) \<longleftrightarrow> p @ [n] \<in> set (dkDirs d)"
proof -
  have "(\<exists>q \<in> set (dkDirs d). q \<noteq> [] \<and> butlast q = p \<and> last q = n) \<longleftrightarrow> p @ [n] \<in> set (dkDirs d)"
    by (metis append_butlast_last_id butlast_snoc last_snoc snoc_eq_iff_butlast)
  then show ?thesis by (auto simp: dir_entries_def)
qed

lemma dir_entries_files: "f \<in> set (plain_files (dir_entries d p)) \<longleftrightarrow> alookup (dkFiles d) (p @ [f]) \<noteq> None"
proof -
  have "(\<exists>q \<in> fst ` set (dkFiles d). q \<noteq> [] \<and> butlast q = p \<and> last q = f) \<longleftrightarrow> p @ [f] \<in> fst ` set (dkFiles d)"
    by (metis append_butlast_last_id butlast_snoc last_snoc snoc_eq_iff_butlast)
  then show ?thesis by (force simp: dir_entries_def map_of_eq_None_iff)
qed

lemma distinct_sorted_map: "distinct (map f (sort_key g xs)) \<longleftrightarrow> distinct (map f xs)"
  by (simp add: distinct_map)

lemma dir_entries_distinct:
  assumes "distinct (map fst (dkFiles d))"
  shows "distinct (plain_files (dir_entries d p))"
proof -
  let ?files = "filter (\<lambda>(q, _). q \<noteq> [] \<and> butlast q = p) (dkFiles d)"
  have inj: "inj_on (last \<circ> fst) (set ?files)"
  proof (rule inj_onI)
    fix x y
    assume "x \<in> set ?files" "y \<in> set ?files" "(last \<circ> fst) x = (last \<circ> fst) y"
    then have "x \<in> set (dkFiles d)" "y \<in> set (dkFiles d)" "fst x \<noteq> []" "fst y \<noteq> []" "butlast (fst x) = butlast (fst y)" "last (fst x) = last (fst y)"
      by (auto simp: split_def)
    moreover from this(3-6) have "fst x = fst y" by (metis append_butlast_last_id)
    ultimately show "x = y" using assms by (auto simp: distinct_map dest: inj_onD)
  qed
  have "distinct (map fst (map (\<lambda>(q, _). (last q, False)) ?files))" 
    using inj assms by (auto simp: distinct_map split_def comp_def intro!: distinct_filter)
  then show ?thesis by (simp add: dir_entries_def filter_sort filter_map comp_def split_def distinct_sorted_map)
qed

lemma key_file_snoc: "[p, ''keys''] @ [f] = key_file p f"
  by (simp add: key_file_def)

lemma spec_recover_principal:
  assumes "recoverable d" and "snd x \<Longrightarrow> [fst x] \<in> set (dkDirs d)" and "honest E"
  shows "spec (kept d) d (recover_principal E x) (settled_answer E (if snd x \<and> SafeName (fst x) 128 then {fst x} \<times> UNIV else {}) d)"
proof -
  obtain p dir where x: "x = (p, dir)" by (cases x)
  let ?entries = "dir_entries d [p, ''keys'']"
  have files: "f \<in> set (plain_files ?entries) \<longleftrightarrow> bytes d p f \<noteq> None" for f
    using dir_entries_files [of f d "[p, ''keys'']"] by (simp add: key_file_def)
  have entries: "spec (kept d) d (recover_entries E p False ?entries) (settled_answer E ({p} \<times> set (plain_files ?entries)) d)"
    using assms(1) files dir_entries_distinct [of d] by (intro spec_recover_entries) (auto simp: recoverable_def placed_def)
  have all: "settles ({p} \<times> UNIV) d d'" if "settles ({p} \<times> set (plain_files ?entries)) d d'" for d'
    using that files unfolding settles_def by (metis (no_types, lifting) SigmaD1 SigmaD2 SigmaI UNIV_I singletonD singletonI)
  have none: "settles ({p} \<times> UNIV) d d" if "[p, ''keys''] \<notin> set (dkDirs d)"
  proof (rule settles_refl [OF assms(1)])
    show "bytes d q f = None" if "(q, f) \<in> {p} \<times> UNIV" "leftover f" for q f
      using assms(1) that \<open>[p, ''keys''] \<notin> set (dkDirs d)\<close> by (cases "bytes d q f") (auto simp: recoverable_def placed_def)
  qed
  have keep: "kept d d" using kept_refl assms(1) .
  show ?thesis
  proof (cases "dir \<and> SafeName p 128")
    case False
    with x assms(1) show ?thesis by (auto simp: recover_principal_def intro!: spec_return settles_refl)
  next
    case True
    with x assms(2) have "[p] \<in> set (dkDirs d)" by simp
    moreover have "spec (kept d) d (s_attempt (recover_entries E p False ?entries) (\<lambda>changed.
        if changed then done_of (SyncDir E) else State_Monad.return (Inr ()))) (settled_answer E ({p} \<times> UNIV) d)"
      by (rule spec_attempt [OF entries])
        (use all settles_kept in \<open>auto intro!: spec_return spec_done [OF spec_sync [where Q = "\<lambda>r d'. (\<exists>e. r = Some e \<and> \<not> calm E \<and> kept d d') \<or> r = None \<and> settles ({p} \<times> UNIV) d d'"]]\<close>)
    ultimately have "spec (kept d) d (recover_principal E (p, True)) (settled_answer E ({p} \<times> UNIV) d)"
      unfolding recover_principal_def using True keep none
      by (simp, intro spec_then_private spec_then_dir [OF assms(3)]) (auto simp: missing_def intro!: spec_return spec_then_list)
    with True x show ?thesis by simp
  qed
qed

lemma spec_recover_principals:
  assumes "recoverable d" and "\<And>x. x \<in> set xs \<Longrightarrow> snd x \<Longrightarrow> [fst x] \<in> set (dkDirs d)" and "honest E"
  shows "spec (kept d) d (each_res (recover_principal E) xs)
    (settled_answer E (\<Union>x \<in> set xs. if snd x \<and> SafeName (fst x) 128 then {fst x} \<times> UNIV else {}) d)"
  using assms(1,2)
proof (induction xs arbitrary: d)
  case Nil
  then show ?case by (auto intro!: spec_return settles_refl)
next
  case (Cons x xs)
  show ?case
    unfolding each_res.simps list.set UN_insert
  proof (rule spec_settled_step [OF spec_recover_principal])
    fix y d'
    assume "settles (if snd x \<and> SafeName (fst x) 128 then {fst x} \<times> UNIV else {}) d d'"
    then have "kept d d'" by (rule settles_kept)
    with Cons show "spec (kept d') d' (each_res (recover_principal E) xs)
        (settled_answer E (\<Union>x \<in> set xs. if snd x \<and> SafeName (fst x) 128 then {fst x} \<times> UNIV else {}) d')"
      by (intro Cons.IH) (auto simp: kept_def)
  qed (use Cons.prems assms(3) in auto)
qed

lemma settles_all:
  assumes "recoverable d" and "settles (\<Union>x \<in> set (dir_entries d []). if snd x \<and> SafeName (fst x) 128 then {fst x} \<times> UNIV else {}) d d'"
  shows "settled d'"
proof -
  have "bytes d' p f = None" if "leftover f" for p f
  proof (cases "bytes d p f")
    case (Some data)
    with assms(1) have "SafeName p 128" "[] @ [p] \<in> set (dkDirs d)" by (auto simp: recoverable_def placed_def)
    then have "(p, True) \<in> set (dir_entries d [])" "SafeName p 128" by (simp_all add: dir_entries_dirs del: append_Nil)
    then have "(p, f) \<in> (\<Union>x \<in> set (dir_entries d []). if snd x \<and> SafeName (fst x) 128 then {fst x} \<times> UNIV else {})" by force
    with assms(2) that show ?thesis by (simp add: settles_def)
  qed (use assms(2) that in \<open>simp add: settles_def\<close>)
  with assms(2) show ?thesis by (auto simp: settled_def tidy_def settles_def kept_def)
qed

lemma spec_recoverSSHChanges:
  assumes "recoverable d" and "[] \<in> set (dkDirs d)" and "honest E"
  shows "spec (kept d) d (recoverSSHChanges E) (\<lambda>r d'. kept d d' \<and> (case r of Inl e \<Rightarrow> \<not> calm E | Inr _ \<Rightarrow> settled d'))"
proof -
  have "[fst x] \<in> set (dkDirs d)" if "x \<in> set (dir_entries d [])" "snd x" for x
    using that dir_entries_dirs [of "fst x" d "[]"] by (metis append_Nil prod.collapse)
  from spec_recover_principals [OF assms(1) this assms(3)]
  have "spec (kept d) d (each_res (recover_principal E) (dir_entries d []))
     (\<lambda>r d'. kept d d' \<and> (case r of Inl e \<Rightarrow> \<not> calm E | Inr _ \<Rightarrow> settled d'))"
    by (rule spec_weaken) (use settles_all [OF assms(1)] settles_kept in \<open>auto simp: settled_answer_def split: sum.splits\<close>)
  with assms(1,2) kept_refl show ?thesis
    unfolding recoverSSHChanges_def by (auto intro!: spec_then_list spec_locked)
qed

section \<open>Rendering every configuration again\<close>

text \<open>The tables and the key files are as they were; directories may have been made.\<close>

definition same_keys :: "disk \<Rightarrow> disk \<Rightarrow> bool" where
  "same_keys d d' \<longleftrightarrow>
     dkTables d' = dkTables d \<and> (\<forall>p f. bytes d' p f = bytes d p f) \<and> set (dkDirs d) \<subseteq> set (dkDirs d')
     \<and> (distinct (map fst (dkFiles d)) \<longrightarrow> distinct (map fst (dkFiles d')))"

lemma same_keys_trans: "same_keys d d1 \<Longrightarrow> same_keys d1 d2 \<Longrightarrow> same_keys d d2"
  by (auto simp: same_keys_def)

lemma same_keys_refl [simp]: "same_keys d d"
  by (simp add: same_keys_def)

lemma same_keys_changes [simp]:
  "same_keys d (ensured l d)" "same_keys d (d\<lparr>dkFiles := aput (config_file p) data (dkFiles d)\<rparr>)"
  "same_keys d (d\<lparr>dkFiles := adel (config_file p) (dkFiles d)\<rparr>)"
  by (auto simp: same_keys_def ensured_def)

lemma same_keys_bytes: "same_keys d d' \<Longrightarrow> key_bytes d' = key_bytes d" "same_keys d d' \<Longrightarrow> key_recoverable d' = key_recoverable d"
  by (auto simp: same_keys_def key_bytes_def key_recoverable_def fun_eq_iff cong: option.case_cong)

text \<open>\<open>stands d d'\<close>: \<open>d'\<close> can be recovered, to the rows and keys \<open>d\<close> stands for.\<close>

definition stands :: "disk \<Rightarrow> disk \<Rightarrow> bool" where
  "stands d d' \<longleftrightarrow> recoverable d' \<and> dkTables d' = dkTables d \<and> key_bytes d' = key_bytes d"

lemma same_keys_stands: "recoverable d \<Longrightarrow> same_keys d d' \<Longrightarrow> stands d d'"
  using same_keys_bytes [of d d'] by (auto simp: stands_def recoverable_def same_keys_def placed_def)

lemma same_keys_settled: "settled d \<Longrightarrow> same_keys d d' \<Longrightarrow> settled d'"
  using same_keys_stands [of d d'] by (auto simp: settled_def tidy_def stands_def same_keys_def)

lemma kept_stands: "kept d d' \<Longrightarrow> stands d d'"
  by (simp add: kept_def stands_def)

lemma stands_trans: "stands d d1 \<Longrightarrow> stands d1 d2 \<Longrightarrow> stands d d2"
  by (simp add: stands_def)

lemma map_res_defined: "(\<And>x. x \<in> set xs \<Longrightarrow> \<exists>y. f x = Inr y) \<Longrightarrow> \<exists>ys. map_res f xs = Inr ys"
  by (induction xs) (auto, (metis sum.case(2))+)

lemma hostsIn_total: "tables_ok t \<Longrightarrow> \<exists>hosts. hostsIn t p = Inr hosts"
  unfolding hostsIn_def by (rule map_res_defined) (auto simp: ListHosts_def tables_ok_def DecodePayload_def)

definition config_current :: "ssh_env \<Rightarrow> disk \<Rightarrow> string \<Rightarrow> bool" where
  "config_current E d p \<longleftrightarrow>
     (\<exists>hosts. hostsIn (dkTables d) p = Inr hosts
        \<and> alookup (dkFiles d) (config_file p) = Some (renderConfig (sePrincipalDir E) p hosts))"

definition configs_current :: "ssh_env \<Rightarrow> disk \<Rightarrow> bool" where
  "configs_current E d \<longleftrightarrow>
     (\<forall>p. (p \<in> fst ` set (stHosts (dkTables d)) \<or> [p] \<in> set (dkDirs d) \<and> SafeName p 128) \<longrightarrow> config_current E d p)"

definition rerendered :: "ssh_env \<Rightarrow> string set \<Rightarrow> disk \<Rightarrow> disk \<Rightarrow> bool" where
  "rerendered E S d d' \<longleftrightarrow>
     same_keys d d' \<and> (\<forall>p. [p] \<in> set (dkDirs d') \<longrightarrow> p \<in> S \<or> [p] \<in> set (dkDirs d)) \<and> (\<forall>p \<in> S. config_current E d' p)
     \<and> (\<forall>p. p \<notin> S \<longrightarrow> alookup (dkFiles d') (config_file p) = alookup (dkFiles d) (config_file p))"

lemma rerendered_trans:
  assumes "rerendered E S d d1" and "rerendered E T d1 d2"
  shows "rerendered E (S \<union> T) d d2"
proof -
  have "config_current E d2 p" if "p \<in> S \<union> T" for p
    using assms that by (cases "p \<in> T") (auto simp: rerendered_def config_current_def same_keys_def)
  with assms show ?thesis unfolding rerendered_def by (auto intro: same_keys_trans)
qed

lemma config_dir: "butlast (config_file p) = [p]"
  by (simp add: config_file_def)

lemma ensured_dir: "l \<in> set (dkDirs (ensured l d))"
  by (auto simp: ensured_def intro!: image_eqI [of _ _ "length l"])

lemma spec_reconcile_config:
  assumes "tables_ok (dkTables d)"
  shows "spec (same_keys d) d (reconcile_config E p)
    (\<lambda>r d'. case r of Inl e \<Rightarrow> \<not> calm E \<and> same_keys d d' | Inr _ \<Rightarrow> rerendered E {p} d d')"
proof -
  obtain hosts where hosts: "hostsIn (dkTables d) p = Inr hosts" using hostsIn_total [OF assms] by blast
  let ?data = "renderConfig (sePrincipalDir E) p hosts"
  let ?d' = "ensured [p] d\<lparr>dkFiles := aput (config_file p) ?data (dkFiles (ensured [p] d))\<rparr>"
  have same: "same_keys d ?d'" by (rule same_keys_trans [OF same_keys_changes(1) same_keys_changes(2)])
  with hosts have full: "rerendered E {p} d ?d'" by (auto simp: rerendered_def config_current_def config_file_def ensured_def)
  have put: "spec (same_keys d) (ensured [p] d) (ReplaceFile E (config_file p) ?data)
      (\<lambda>r d'. same_keys d d' \<and> (case r of Some e \<Rightarrow> \<not> calm E | None \<Rightarrow> rerendered E {p} d d'))"
    by (rule spec_ReplaceFile) (use same full ensured_dir [of "[p]" d] in \<open>auto simp: config_dir\<close>)
  have "spec (same_keys d) d (s_try (EnsurePrivateDir E [p]) (ReplaceFile E (config_file p) ?data))
      (\<lambda>r d'. same_keys d d' \<and> (case r of Some e \<Rightarrow> \<not> calm E | None \<Rightarrow> rerendered E {p} d d'))"
    by (rule spec_try [OF spec_EnsurePrivateDir [where Q = "\<lambda>r d'. case r of Some e \<Rightarrow> \<not> calm E \<and> d' = d | None \<Rightarrow> d' = ensured [p] d"]])
      (use put in auto)
  then show ?thesis
    unfolding reconcile_config_def using hosts
    by (auto intro!: spec_then_query spec_done)
qed

lemma spec_reconcile_all:
  assumes "tables_ok (dkTables d)"
  shows "spec (same_keys d) d (each_res (reconcile_config E) ps)
    (\<lambda>r d'. case r of Inl e \<Rightarrow> \<not> calm E \<and> same_keys d d' | Inr _ \<Rightarrow> rerendered E (set ps) d d')"
  using assms
proof (induction ps arbitrary: d)
  case Nil
  then show ?case by (auto simp: rerendered_def intro!: spec_return)
next
  case (Cons p ps)
  show ?case
    unfolding each_res.simps
  proof (rule spec_attempt [OF spec_reconcile_config [OF Cons.prems]])
    fix x d'
    assume "case (Inr x :: unit res) of Inl e \<Rightarrow> \<not> calm E \<and> same_keys d d' | Inr _ \<Rightarrow> rerendered E {p} d d'"
    then have step: "rerendered E {p} d d'" by simp
    then have same: "same_keys d d'" by (simp add: rerendered_def)
    with Cons.prems have "tables_ok (dkTables d')" by (simp add: same_keys_def)
    from Cons.IH [OF this] show "spec (same_keys d) d' (each_res (reconcile_config E) ps)
        (\<lambda>r d'. case r of Inl e \<Rightarrow> \<not> calm E \<and> same_keys d d' | Inr _ \<Rightarrow> rerendered E (set (p # ps)) d d')"
      by (rule spec_weaken) (use same_keys_trans [OF same] rerendered_trans [OF step] in \<open>auto split: sum.splits\<close>)
  qed simp
qed

lemma spec_reconcileConfigs:
  assumes "tables_ok (dkTables d)" and "[] \<in> set (dkDirs d)"
  shows "spec (same_keys d) d (reconcileConfigs E)
    (\<lambda>r d'. case r of Inl e \<Rightarrow> \<not> calm E \<and> same_keys d d' | Inr _ \<Rightarrow> same_keys d d' \<and> configs_current E d')"
proof -
  let ?ps = "compact (sort (ListHostPrincipals (dkTables d) @ map fst (filter (\<lambda>(name, dir). dir \<and> SafeName name 128) (dir_entries d []))))"
  have names: "p \<in> set ?ps" if "p \<in> fst ` set (stHosts (dkTables d)) \<or> [p] \<in> set (dkDirs d) \<and> SafeName p 128" for p
    using that dir_entries_dirs [of p d "[]"] by (auto simp: set_compact ListHostPrincipals_def image_iff)
  have current: "configs_current E d'" if "rerendered E S d d'"
    and "\<And>p. p \<in> fst ` set (stHosts (dkTables d)) \<or> [p] \<in> set (dkDirs d) \<and> SafeName p 128 \<Longrightarrow> p \<in> S" for d' S
  proof -
    note r = that
    have "p \<in> S" if "p \<in> fst ` set (stHosts (dkTables d)) \<or> [p] \<in> set (dkDirs d') \<and> SafeName p 128" for p
      using that r by (auto simp: rerendered_def)
    with that(1) show ?thesis by (simp add: configs_current_def rerendered_def same_keys_def)
  qed
  have "spec (same_keys d) d (each_res (reconcile_config E) ?ps)
    (\<lambda>r d'. case r of Inl e \<Rightarrow> \<not> calm E \<and> same_keys d d' | Inr _ \<Rightarrow> same_keys d d' \<and> configs_current E d')"
    by (rule spec_weaken [OF spec_reconcile_all [OF assms(1)]]) (use current [OF _ names] in \<open>auto simp: rerendered_def simp del: set_compact split: sum.splits\<close>)
  with assms(2) show ?thesis
    unfolding reconcileConfigs_def by (auto intro!: spec_locked spec_then_query spec_then_list)
qed

text \<open>A start settles a disk that can be recovered; with faults, every disk on the way still can be.\<close>

lemma spec_NewService:
  assumes "recoverable d" and "honest E"
  shows "spec (stands d) d (NewService E)
    (\<lambda>r d'. stands d d' \<and> (case r of Inl e \<Rightarrow> \<not> calm E | Inr _ \<Rightarrow> settled d' \<and> configs_current E d'))"
proof -
  have d1: "stands d (ensured [] d)" using same_keys_stands [OF assms(1)] by simp
  then have "recoverable (ensured [] d)" by (simp add: stands_def)
  note recover = spec_recoverSSHChanges [OF this ensured_dir assms(2)]
  let ?final = "\<lambda>r d'. stands d d' \<and> (case (r :: unit res) of Inl e \<Rightarrow> \<not> calm E | Inr _ \<Rightarrow> settled d' \<and> configs_current E d')"
  have finish: "spec (stands d) d2 (reconcileConfigs E) ?final" if "kept (ensured [] d) d2" "settled d2" for d2
  proof (rule spec_weaken [OF spec_reconcileConfigs])
    show "tables_ok (dkTables d2)" "[] \<in> set (dkDirs d2)" using that ensured_dir [of "[]" d] by (auto simp: kept_def recoverable_def)
    have d2: "stands d d2" "recoverable d2" using stands_trans [OF d1 kept_stands [OF that(1)]] that(1) by (auto simp: kept_def)
    then show "stands d d'" if "same_keys d2 d'" for d' using stands_trans [OF _ same_keys_stands] that by blast
    then show "?final r d'" if "case r of Inl e \<Rightarrow> \<not> calm E \<and> same_keys d2 d' | Inr _ \<Rightarrow> same_keys d2 d' \<and> configs_current E d'" for r d'
      using that same_keys_settled [OF \<open>settled d2\<close>, of d'] by (auto split: sum.splits)
  qed
  have "spec (stands d) (ensured [] d) (s_attempt (recoverSSHChanges E) (\<lambda>_. reconcileConfigs E)) ?final"
    by (rule spec_attempt [OF spec_weaken [OF recover, where R' = "stands d" and Q = "\<lambda>r d'. stands d d' \<and> kept (ensured [] d) d' \<and> (case r of Inl e \<Rightarrow> \<not> calm E | Inr _ \<Rightarrow> settled d')"]])
      (use finish stands_trans [OF d1 kept_stands] in auto)
  with d1 kept_refl [OF assms(1)] kept_stands show ?thesis
    unfolding NewService_def
    by (intro spec_attempt [OF spec_done [OF spec_EnsurePrivateDir [where Q = "\<lambda>r d'. case r of Some e \<Rightarrow> \<not> calm E \<and> d' = d | None \<Rightarrow> d' = ensured [] d"],
        where Q = "\<lambda>r d'. case r of Inl e \<Rightarrow> \<not> calm E \<and> d' = d | Inr _ \<Rightarrow> d' = ensured [] d"]]) auto
qed

section \<open>What a crash of an operation leaves\<close>

text \<open>A disk that can be recovered, to one of the states of \<open>S\<close>: rows and keys.\<close>

definition crash_safe :: "(ssh_tables \<times> (string \<Rightarrow> string \<Rightarrow> string option)) set \<Rightarrow> disk \<Rightarrow> bool" where
  "crash_safe S d \<longleftrightarrow> recoverable d \<and> (dkTables d, key_bytes d) \<in> S"

lemma stands_crash_safe: "stands d d' \<Longrightarrow> crash_safe S d \<Longrightarrow> crash_safe S d'"
  by (simp add: stands_def crash_safe_def)

definition committed :: "ssh_env \<Rightarrow> string \<Rightarrow> (ssh_tables \<Rightarrow> ssh_tables res) \<Rightarrow> disk \<Rightarrow> disk \<Rightarrow> bool" where
  "committed E pr mutate d d' \<longleftrightarrow>
     (\<exists>d0 t. same_keys d d0 \<and> mutate (dkTables d) = Inr t \<and> d' = d0\<lparr>dkTables := t\<rparr>) \<and> config_current E d' pr"

lemma join_errors_Some [simp]: "join_errors (Some e # es) \<noteq> None"
  by (simp add: join_errors_def Let_def split: list.split)

lemma spec_then_ask: "(\<And>r. spec R d (k r) Q) \<Longrightarrow> spec R d (State_Monad.bind (s_ask f) k) Q"
  by (rule spec_bind [OF spec_ask [where Q = "\<lambda>r d'. d' = d"]]) auto

lemma spec_then_replace:
  assumes "\<And>e. spec R d (k (Some e)) Q" and "R (d\<lparr>dkFiles := aput l data (dkFiles d)\<rparr>)"
    and "\<And>r. spec R (d\<lparr>dkFiles := aput l data (dkFiles d)\<rparr>) (k r) Q"
  shows "spec R d (State_Monad.bind (ReplaceFile E l data) k) Q"
  by (rule spec_bind [OF spec_ReplaceFile [where Q = "\<lambda>r d'. d' = d \<and> r \<noteq> None \<or> d' = d\<lparr>dkFiles := aput l data (dkFiles d)\<rparr>"]])
    (use assms in auto)

lemma spec_then_ensure:
  assumes "\<And>e. spec R d (k (Some e)) Q" and "R (ensured l d)" and "spec R (ensured l d) (k None) Q"
  shows "spec R d (State_Monad.bind (EnsurePrivateDir E l) k) Q"
  by (rule spec_bind [OF spec_EnsurePrivateDir [where Q = "\<lambda>r d'. d' = d \<and> r \<noteq> None \<or> d' = ensured l d \<and> r = None"]])
    (use assms in auto)

lemma spec_then_table:
  assumes "\<And>e. spec R d (k (Inl e)) Q" and "spec R d (k (f (dkTables d))) Q"
  shows "spec R d (State_Monad.bind (s_query E f) k) Q"
  by (rule spec_bind [OF spec_query [where Q = "\<lambda>r d'. d' = d \<and> ((\<exists>e. r = Inl e) \<or> r = f (dkTables d))"]]) (use assms in auto)

definition tx_answer ::
  "ssh_env \<Rightarrow> string \<Rightarrow> (ssh_tables \<Rightarrow> ssh_tables res) \<Rightarrow> disk \<Rightarrow> bool \<times> go_error option \<Rightarrow> disk \<Rightarrow> bool" where
  "tx_answer E pr mutate d r d' = (case snd r of Some _ \<Rightarrow> same_keys d d' | None \<Rightarrow> committed E pr mutate d d')"

lemma tx_answer_simps [simp]:
  "tx_answer E pr mutate d (a, Some e) d' = same_keys d d'" "tx_answer E pr mutate d (a, None) d' = committed E pr mutate d d'"
  "tx_answer E pr mutate d (a, join_errors (Some e # es)) d' = same_keys d d'"
  using join_errors_Some [of e es] by (auto simp: tx_answer_def simp del: join_errors_Some split: option.split)

lemma committedI:
  "same_keys d d0 \<Longrightarrow> mutate (dkTables d) = Inr t \<Longrightarrow> hostsIn t pr = Inr hosts
   \<Longrightarrow> alookup (dkFiles d0) (config_file pr) = Some (renderConfig (sePrincipalDir E) pr hosts)
   \<Longrightarrow> committed E pr mutate d (d0\<lparr>dkTables := t\<rparr>)"
  by (auto simp: committed_def config_current_def)

lemma spec_mutate_tx:
  assumes "\<And>x. same_keys d x \<Longrightarrow> R x" and "\<And>x t. same_keys d x \<Longrightarrow> mutate (dkTables d) = Inr t \<Longrightarrow> R (x\<lparr>dkTables := t\<rparr>)"
  shows "spec R d (mutate_tx E pr mutate) (tx_answer E pr mutate d)"
proof -
  have roll: "spec R x (rolled_back E a e) (tx_answer E pr mutate d)" if "same_keys d x" for a e x
    unfolding rolled_back_def using that by (auto intro!: spec_then_ask spec_return)
  have made: "same_keys d (ensured [pr] d)" by simp
  have replaced: "same_keys d (ensured [pr] d\<lparr>dkFiles := aput (config_file pr) data (dkFiles (ensured [pr] d))\<rparr>)" for data
    using same_keys_trans [OF made same_keys_changes(2)] .
  show ?thesis
    unfolding mutate_tx_def using made replaced assms roll [OF same_keys_refl] roll [OF made] roll [OF replaced]
    by (auto simp: committedI intro!: spec_then_ask spec_then_table spec_then_ensure spec_then_replace spec_step spec_return
      split: option.split sum.split)
qed

text \<open>Putting the configuration back touches no key.\<close>

lemma spec_restore_config:
  assumes "same_keys d x" and "honest E" and "\<And>y. same_keys d y \<Longrightarrow> R y"
  shows "spec R x (restore_config E pr attempted previous) (\<lambda>_ d'. same_keys d d')"
proof -
  have "same_keys d (x\<lparr>dkFiles := aput (config_file pr) data (dkFiles x)\<rparr>)" "same_keys d (x\<lparr>dkFiles := adel (config_file pr) (dkFiles x)\<rparr>)" for data
    using same_keys_trans [OF assms(1) same_keys_changes(2)] same_keys_trans [OF assms(1) same_keys_changes(3)] by auto
  with assms show ?thesis
    unfolding restore_config_def by (auto intro!: spec_return spec_ReplaceFile spec_RemoveFile split: option.split)
qed

definition mutated :: "ssh_env \<Rightarrow> string \<Rightarrow> (ssh_tables \<Rightarrow> ssh_tables res) \<Rightarrow> disk \<Rightarrow> 'a res \<Rightarrow> disk \<Rightarrow> bool" where
  "mutated E pr mutate d r d' = (case r of Inl _ \<Rightarrow> same_keys d d' | Inr _ \<Rightarrow> committed E pr mutate d d')"

lemma mutated_simps [simp]: "mutated E pr mutate d (Inl e) d' = same_keys d d'" "mutated E pr mutate d (Inr x) d' = committed E pr mutate d d'"
  by (simp_all add: mutated_def)

lemma spec_mutate_plain:
  assumes "honest E" and "\<And>x. same_keys d x \<Longrightarrow> R x" and "\<And>x t. same_keys d x \<Longrightarrow> mutate (dkTables d) = Inr t \<Longrightarrow> R (x\<lparr>dkTables := t\<rparr>)"
  shows "spec R d (mutate_staged E pr mutate None previous) (mutated E pr mutate d)"
  unfolding mutate_staged_def
proof (rule spec_bind [OF spec_mutate_tx [of d R mutate E pr, OF assms(2,3)]])
  fix outcome d'
  assume "tx_answer E pr mutate d outcome d'"
  then show "spec R d' (case outcome of (attempted, Some e) \<Rightarrow> do {
          restored \<leftarrow> restore_config E pr attempted previous;
          (case None of
             None \<Rightarrow> State_Monad.return (Inl (the (join_errors [Some e, restored])))
           | Some fin \<Rightarrow> do {
               rolled \<leftarrow> fin False;
               State_Monad.return (Inl (the (join_errors [Some e, join_errors [restored, rolled]]))) }) }
      | (attempted, None) \<Rightarrow>
          (case None of
             None \<Rightarrow> State_Monad.return (Inr ())
           | Some fin \<Rightarrow> done_of (fin True))) (mutated E pr mutate d)"
    using assms(1,2) by (auto intro!: spec_return spec_bind [OF spec_restore_config [of d]] split: prod.split option.split)
qed

lemma spec_mutateHosts:
  assumes "honest E" and "\<And>x. same_keys d x \<Longrightarrow> R x" and "\<And>x t. same_keys d x \<Longrightarrow> mutate (dkTables d) = Inr t \<Longrightarrow> R (x\<lparr>dkTables := t\<rparr>)"
  shows "spec R d (mutateHosts E pr mutate None) (mutated E pr mutate d)"
proof -
  have read: "spec R d (ReadPrivateFile E l bound) (\<lambda>_ d'. d' = d)" for l bound
    by (rule spec_read) auto
  show ?thesis
    unfolding mutateHosts_def using spec_mutate_plain [of E d R mutate pr, OF assms]
    by (auto intro!: spec_locked spec_bind [OF read] spec_return split: sum.split)
qed

end
