(* ===== verification/SshRecovery.thy ===== *)
theory SshRecovery
  imports SshRuns
begin

text \<open>
  Crash safety of the requests of \<^verbatim>\<open>subsystems/ssh\<close>: the specification of a request on rows and keys, every disk a
  request goes through, and the start that follows a crash.
\<close>

section \<open>Storing a key\<close>

text \<open>A change of tables that leaves the key rows alone.\<close>

lemma host_change_crash_safe:
  assumes "recoverable d" and "same_keys d x" and "tables_ok t" and "stKeys t = stKeys (dkTables d)"
  shows "recoverable (x\<lparr>dkTables := t\<rparr>)" "key_bytes (x\<lparr>dkTables := t\<rparr>) = key_bytes d"
proof -
  have "GetKey t = GetKey (dkTables d)" using assms(4) by (simp add: GetKey_def fun_eq_iff)
  with assms(2) have "key_bytes (x\<lparr>dkTables := t\<rparr>) = key_bytes d" "key_recoverable (x\<lparr>dkTables := t\<rparr>) = key_recoverable d"
    by (auto simp: same_keys_def key_bytes_def key_recoverable_def fun_eq_iff cong: option.case_cong)
  with same_keys_stands [OF assms(1,2)] assms(1,3) show "recoverable (x\<lparr>dkTables := t\<rparr>)" "key_bytes (x\<lparr>dkTables := t\<rparr>) = key_bytes d"
    by (auto simp: stands_def recoverable_def placed_def)
qed

lemma stage_stands:
  assumes "recoverable d" and "validSSHKeyName n" and "GetKey (dkTables d) p n = None"
    and "SafeName p 128" and "length data \<le> max_key_bytes" and "[p] \<in> set (dkDirs d)" "[p, ''keys''] \<in> set (dkDirs d)"
  shows "stands d (d\<lparr>dkFiles := aput (key_file p (sshPutStage n row)) data (dkFiles d)\<rparr>)" (is "stands d ?d'")
proof -
  have local: "key_bytes ?d' q m = key_bytes d q m \<and> key_recoverable ?d' q m = key_recoverable d q m" if m: "validSSHKeyName m" for q m
  proof -
    have "bytes ?d' q m = bytes d q m" using stage_not_name [OF assms(2) m] by auto
    moreover have "bytes ?d' q (deletePrefix @ m) = bytes d q (deletePrefix @ m) \<and> bytes ?d' q (sshPutStage m row') = bytes d q (sshPutStage m row')"
      if "GetKey (dkTables d) q m = Some row'" for row'
      using that assms(2,3) m by (auto simp: name_clash dest: stage_inject)
    ultimately show ?thesis using key_local [of ?d' d q m] by simp
  qed
  have "key_bytes ?d' = key_bytes d" by (rule key_bytes_cong [OF assms(1)]) (use local in auto)
  with local assms show ?thesis by (auto simp: stands_def recoverable_def placed_def)
qed

definition key_stored :: "ssh_tables \<Rightarrow> keyRow \<Rightarrow> ssh_tables" where
  "key_stored t row = t\<lparr>stKeys := stKeys t @ [row]\<rparr>"

lemma find_append: "find P (xs @ ys) = (case find P xs of None \<Rightarrow> find P ys | Some x \<Rightarrow> Some x)"
  by (induction xs) auto

lemma GetKey_stored:
  "GetKey t (krPrincipal row) (krName row) = None \<Longrightarrow>
   GetKey (key_stored t row) q m = (if q = krPrincipal row \<and> m = krName row then Some row else GetKey t q m)"
  by (auto simp: GetKey_def key_stored_def find_append split: option.splits)

lemma insert_stage:
  assumes "recoverable d" and "validSSHKeyName (krName row)" and "GetKey (dkTables d) (krPrincipal row) (krName row) = None"
    and "SafeName (krPrincipal row) 128" and "bytes d (krPrincipal row) (sshPutStage (krName row) row) = Some data"
    and "bytes d (krPrincipal row) (deletePrefix @ krName row) = None"
  shows "recoverable (d\<lparr>dkTables := key_stored (dkTables d) row\<rparr>)" (is "recoverable ?d'")
    and "key_bytes (d\<lparr>dkTables := key_stored (dkTables d) row\<rparr>) = (key_bytes d)(krPrincipal row := (key_bytes d (krPrincipal row))(krName row := Some data))"
proof -
  note get = GetKey_stored [OF assms(3)]
  show bytes: "key_bytes ?d' = (key_bytes d)(krPrincipal row := (key_bytes d (krPrincipal row))(krName row := Some data))"
    using assms(5) by (auto simp: key_bytes_def get fun_eq_iff split: option.splits)
  have "key_recoverable ?d' q m" if "validSSHKeyName m" for q m
    using recoverable_key [OF assms(1) that, of q] bytes assms(6) by (auto simp: key_recoverable_def get split: option.splits)
  with assms show "recoverable ?d'" by (auto simp: recoverable_def tables_ok_def key_stored_def placed_def)
qed

text \<open>The rows and keys before and after the commit of \<open>row\<close> with the bytes \<open>data\<close>.\<close>

definition put_states :: "disk \<Rightarrow> keyRow \<Rightarrow> string \<Rightarrow> (ssh_tables \<times> (string \<Rightarrow> string \<Rightarrow> string option)) set" where
  "put_states d row data = insert (dkTables d, key_bytes d)
     {(t, (key_bytes d)(krPrincipal row := (key_bytes d (krPrincipal row))(krName row := Some data))) | t. InsertKey (dkTables d) row = Inr t}"

lemma InsertKey_stored: "GetKey t (krPrincipal row) (krName row) = None \<Longrightarrow> InsertKey t row = Inr (key_stored t row)"
  by (simp add: InsertKey_def key_stored_def)

lemma spec_then_RemoveFile:
  assumes "honest E" and "\<And>r. spec R d (k r) Q"
    and "alookup (dkFiles d) l \<noteq> None \<Longrightarrow> R (d\<lparr>dkFiles := adel l (dkFiles d)\<rparr>) \<and> (\<forall>r. spec R (d\<lparr>dkFiles := adel l (dkFiles d)\<rparr>) (k r) Q)"
  shows "spec R d (State_Monad.bind (RemoveFile E l) k) Q"
  by (rule spec_bind [OF spec_RemoveFile [where Q = "\<lambda>r d'. d' = d \<or> alookup (dkFiles d) l \<noteq> None \<and> d' = d\<lparr>dkFiles := adel l (dkFiles d)\<rparr>"]])
    (use assms in auto)

lemma promoted_settled:
  assumes "settles {(p, entry)} x d'" and "settled d" and "\<And>q f. bytes x q f \<noteq> None \<Longrightarrow> (q, f) = (p, entry) \<or> bytes d q f \<noteq> None"
  shows "settled d'"
proof -
  have "bytes d' q f = None" if f: "leftover f" for q f
  proof (cases "(q, f) = (p, entry)")
    case False
    with assms(2) f have "bytes d q f = None" by (simp add: settled_def tidyD)
    with False assms(3) [of q f] have "bytes x q f = None" by blast
    with assms(1) f show ?thesis by (simp add: settles_def)
  qed (use assms(1) f in \<open>simp add: settles_def\<close>)
  with assms(1) show ?thesis by (auto simp: settled_def tidy_def settles_def kept_def)
qed

text \<open>The disk with the staged file, the disk with its row too, and the disk with the key in place.\<close>

definition put_staged :: "disk \<Rightarrow> keyRow \<Rightarrow> string \<Rightarrow> disk" where
  "put_staged d row data =
     (let d1 = ensured [krPrincipal row, ''keys''] d
      in d1\<lparr>dkFiles := aput (key_file (krPrincipal row) (sshPutStage (krName row) row)) data (dkFiles d1)\<rparr>)"

definition put_inserted :: "disk \<Rightarrow> keyRow \<Rightarrow> string \<Rightarrow> disk" where
  "put_inserted d row data = put_staged d row data\<lparr>dkTables := key_stored (dkTables d) row\<rparr>"

definition put_placed :: "disk \<Rightarrow> keyRow \<Rightarrow> string \<Rightarrow> disk" where
  "put_placed d row data = put_inserted d row data\<lparr>dkFiles := aput (key_file (krPrincipal row) (krName row)) data
     (adel (key_file (krPrincipal row) (sshPutStage (krName row) row)) (dkFiles (put_inserted d row data)))\<rparr>"

definition puttable :: "disk \<Rightarrow> keyRow \<Rightarrow> string \<Rightarrow> bool" where
  "puttable d row data \<longleftrightarrow>
     settled d \<and> SafeName (krPrincipal row) 128 \<and> validSSHKeyName (krName row) \<and> length data \<le> max_key_bytes
     \<and> GetKey (dkTables d) (krPrincipal row) (krName row) = None"

lemma put_staged_tables [simp]: "dkTables (put_staged d row data) = dkTables d"
  by (simp add: put_staged_def ensured_def Let_def)

lemma put_staged_bytes:
  "bytes (put_staged d row data) q f =
   (if (q, f) = (krPrincipal row, sshPutStage (krName row) row) then Some data else bytes d q f)"
  by (simp add: put_staged_def ensured_def Let_def)

lemma put_staged_stands:
  assumes "puttable d row data"
  shows "stands d (put_staged d row data)"
proof -
  let ?d1 = "ensured [krPrincipal row, ''keys''] d"
  have d1: "stands d ?d1" using assms by (intro same_keys_stands) (auto simp: puttable_def settled_def)
  have "[krPrincipal row] \<in> set (dkDirs ?d1)" "[krPrincipal row, ''keys''] \<in> set (dkDirs ?d1)"
    by (auto simp: ensured_def intro!: image_eqI [of _ _ 1] image_eqI [of _ _ 2])
  with assms d1 have "stands ?d1 (put_staged d row data)"
    unfolding put_staged_def Let_def by (intro stage_stands) (auto simp: puttable_def stands_def)
  with d1 show ?thesis by (rule stands_trans)
qed

lemma put_discarded_stands:
  assumes "puttable d row data"
  shows "stands d (put_staged d row data\<lparr>dkFiles := adel (key_file (krPrincipal row) (sshPutStage (krName row) row)) (dkFiles (put_staged d row data))\<rparr>)"
    (is "stands d ?d'")
proof -
  note staged = put_staged_stands [OF assms]
  have "settles {(krPrincipal row, sshPutStage (krName row) row)} (put_staged d row data) ?d'"
    using assms staged by (intro staged_discard [OF _ staged_put]) (auto simp: puttable_def stands_def)
  from stands_trans [OF staged kept_stands [OF settles_kept [OF this]]] show ?thesis .
qed

lemma put_inserted_safe:
  assumes "puttable d row data"
  shows "crash_safe (put_states d row data) (put_inserted d row data)"
proof -
  have "bytes d (krPrincipal row) (deletePrefix @ krName row) = None"
    using assms tidy_bytes(1) [of d "krPrincipal row" "krName row"] by (simp add: puttable_def settled_def)
  with assms put_staged_stands [OF assms] insert_stage [of "put_staged d row data" row data] show ?thesis
    by (auto simp: put_inserted_def crash_safe_def put_states_def stands_def puttable_def put_staged_bytes name_clash InsertKey_stored)
qed

lemma put_placed_settled:
  assumes "puttable d row data"
  shows "crash_safe (put_states d row data) (put_placed d row data)" "settled (put_placed d row data)"
proof -
  note inserted = put_inserted_safe [OF assms]
  have bytes: "bytes (put_inserted d row data) q f = bytes (put_staged d row data) q f" for q f by (simp add: put_inserted_def)
  have "GetKey (dkTables (put_inserted d row data)) (krPrincipal row) (krName row) = Some row"
    using assms GetKey_stored [of "dkTables d" row] by (simp add: put_inserted_def puttable_def)
  then have step: "settles {(krPrincipal row, sshPutStage (krName row) row)} (put_inserted d row data) (put_placed d row data)"
    using inserted bytes put_staged_bytes [of d row data]
    unfolding put_placed_def by (intro promote_settles [where row = row]) (auto simp: crash_safe_def)
  show "settled (put_placed d row data)"
    by (rule promoted_settled [OF step, of d]) (use assms bytes put_staged_bytes [of d row data] in \<open>auto simp: puttable_def split: if_splits\<close>)
  show "crash_safe (put_states d row data) (put_placed d row data)"
    using stands_crash_safe [OF kept_stands [OF settles_kept [OF step]] inserted] .
qed

lemma put_placed_state:
  assumes "puttable d row data"
  shows "InsertKey (dkTables d) row = Inr (dkTables (put_placed d row data))"
    and "key_bytes (put_placed d row data) = (key_bytes d)(krPrincipal row := (key_bytes d (krPrincipal row))(krName row := Some data))"
proof -
  show row: "InsertKey (dkTables d) row = Inr (dkTables (put_placed d row data))"
    using assms by (simp add: put_placed_def put_inserted_def puttable_def InsertKey_stored)
  have "dkTables (put_placed d row data) \<noteq> dkTables d"
    by (auto simp: put_placed_def put_inserted_def key_stored_def dest: arg_cong [of _ _ "length \<circ> stKeys"])
  with put_placed_settled(1) [OF assms]
  show "key_bytes (put_placed d row data) = (key_bytes d)(krPrincipal row := (key_bytes d (krPrincipal row))(krName row := Some data))"
    by (auto simp: crash_safe_def put_states_def)
qed

lemma spec_put_commit:
  assumes "puttable d row data" and "honest E"
  shows "spec (crash_safe (put_states d row data)) (put_staged d row data) (do {
             inserted \<leftarrow> s_query E (\<lambda>t. InsertKey t row);
             (case inserted of
                Inl e \<Rightarrow> do {
                  removed \<leftarrow> RemoveFile E (key_file (krPrincipal row) (sshPutStage (krName row) row));
                  State_Monad.return (Inl (the (join_errors [Some (if IsConstraint e then errSSHKeyExists else e), removed]))) }
              | Inr t \<Rightarrow> do {
                  s_change (\<lambda>d. d\<lparr>dkTables := t\<rparr>);
                  done_of (s_try (os_rename E (key_file (krPrincipal row) (sshPutStage (krName row) row)) (key_file (krPrincipal row) (krName row))) (SyncDir E)) }) })
    (\<lambda>r d'. crash_safe (put_states d row data) d' \<and> (r = Inr () \<longrightarrow> d' = put_placed d row data))"
proof -
  let ?S = "put_states d row data"
  have safe: "crash_safe ?S x" if "stands d x" for x using that by (auto simp: stands_def crash_safe_def put_states_def)
  have placed: "spec (crash_safe ?S) (put_inserted d row data)
      (done_of (s_try (os_rename E (key_file (krPrincipal row) (sshPutStage (krName row) row)) (key_file (krPrincipal row) (krName row))) (SyncDir E)))
      (\<lambda>r d'. crash_safe ?S d' \<and> (r = Inr () \<longrightarrow> d' = put_placed d row data))"
    by (rule spec_done [where P = "\<lambda>r d'. crash_safe ?S d' \<and> (r = None \<longrightarrow> d' = put_placed d row data)"],
        rule spec_try [OF spec_rename [where Q = "\<lambda>r d'. crash_safe ?S d' \<and> (r = None \<longrightarrow> d' = put_placed d row data)"]])
      (use put_placed_settled(1) [OF assms(1)] put_inserted_safe [OF assms(1)] put_staged_bytes [of d row data]
        in \<open>auto simp: put_placed_def put_inserted_def intro!: spec_sync\<close>)
  have "InsertKey (dkTables d) row = Inr (key_stored (dkTables d) row)" using assms(1) by (simp add: InsertKey_stored puttable_def)
  then show ?thesis
    using placed safe [OF put_discarded_stands [OF assms(1)]] safe [OF put_staged_stands [OF assms(1)]] put_inserted_safe [OF assms(1)] assms(2)
    by (auto simp: put_inserted_def intro!: spec_then_table spec_then_RemoveFile spec_return spec_step)
qed

lemma spec_then_stage:
  assumes "\<And>e. Q (Inl e) d" and "R (ensured l d)" and "\<And>e. Q (Inl e) (ensured l d)"
    and "R (ensured l d\<lparr>dkFiles := aput f data (dkFiles (ensured l d))\<rparr>)" and "\<And>e. Q (Inl e) (ensured l d\<lparr>dkFiles := aput f data (dkFiles (ensured l d))\<rparr>)"
    and "spec R (ensured l d\<lparr>dkFiles := aput f data (dkFiles (ensured l d))\<rparr>) (k ()) Q"
  shows "spec R d (s_attempt (done_of (s_try (EnsurePrivateDir E l) (ReplaceFile E f data))) k) Q"
  unfolding s_attempt_def done_of_def s_try_def State_Monad.bind_assoc
  using assms
  by (auto intro!: spec_then_ensure spec_then_replace spec_return split: option.split)

lemma spec_putSSHKey:
  fixes pr key
  defines "row \<equiv> \<lparr>krPrincipal = pr, krName = skName key, krType = skType key, krFingerprint = skFingerprint key\<rparr>"
  assumes "settled d" and "SafeName pr 128" and "validSSHKeyName (skName key)" and "length data \<le> max_key_bytes" and "honest E"
  shows "spec (crash_safe (put_states d row data)) d (putSSHKey E pr key data)
    (\<lambda>r d'. crash_safe (put_states d row data) d' \<and> (r = Inr () \<longrightarrow> puttable d row data \<and> d' = put_placed d row data))"
proof (cases "GetKey (dkTables d) pr (skName key)")
  case None
  let ?S = "put_states d row data"
  have put: "puttable d row data" using assms None by (simp add: puttable_def)
  have safe: "crash_safe ?S x" if "stands d x" for x using that by (auto simp: stands_def crash_safe_def put_states_def)
  have d: "crash_safe ?S d" "crash_safe ?S (ensured [pr, ''keys''] d)"
    using assms(2) by (auto intro!: safe same_keys_stands simp: settled_def)
  note staged = safe [OF put_staged_stands [OF put]]
  have free: "bytes d pr (skName key) = None"
    using recoverable_key [of d "skName key" pr] assms(2,4) None by (simp add: settled_def key_recoverable_def)
  show ?thesis
    unfolding putSSHKey_def Let_def row_def [symmetric]
    using d staged spec_weaken [OF spec_put_commit [OF put assms(6)]] None free put
    by (auto simp: keyMetadata_def put_staged_def Let_def row_def intro!: spec_locked spec_then_query spec_then_lstat spec_then_stage)
next
  case (Some row')
  with assms show ?thesis
    unfolding putSSHKey_def
    by (auto simp: keyMetadata_def crash_safe_def put_states_def settled_def intro!: spec_locked spec_then_query spec_return)
qed

section \<open>Deleting a key\<close>

definition buried :: "disk \<Rightarrow> string \<Rightarrow> string \<Rightarrow> string \<Rightarrow> disk" where
  "buried d p n data = d\<lparr>dkFiles := aput (tombstone p n) data (adel (key_file p n) (dkFiles d))\<rparr>"

lemma buried_tables [simp]: "dkTables (buried d p n data) = dkTables d"
  by (simp add: buried_def)

lemma buried_bytes:
  "bytes (buried d p n data) q f = (if (q, f) = (p, deletePrefix @ n) then Some data else if (q, f) = (p, n) then None else bytes d q f)"
  by (simp add: buried_def tombstone_def)

lemma buried_stands:
  assumes "settled d" and "validSSHKeyName n" and "bytes d p n = Some data"
  shows "stands d (buried d p n data)"
proof -
  have d: "recoverable d" "\<And>q. tidy d q" using assms(1) by (simp_all add: settled_def)
  from recoverable_key [OF d(1) assms(2), of p] assms(3) obtain row where row: "GetKey (dkTables d) p n = Some row"
    by (auto simp: key_recoverable_def split: option.splits)
  have stage: "bytes (buried d p n data) p (sshPutStage n row) = None"
    using tidy_bytes(2) [OF d(2) assms(2)] by (simp add: buried_bytes name_clash)
  have local: "key_bytes (buried d p n data) q m = key_bytes d q m \<and> key_recoverable (buried d p n data) q m" if m: "validSSHKeyName m" for q m
  proof (cases "(q, m) = (p, n)")
    case True
    with row stage settled_bytes [OF assms(1,2), of p] assms(3) show ?thesis
      by (simp add: key_bytes_def key_recoverable_def buried_bytes)
  next
    case False
    then have "bytes (buried d p n data) q m = bytes d q m" "\<And>row'. GetKey (dkTables d) q m = Some row' \<Longrightarrow>
        bytes (buried d p n data) q (deletePrefix @ m) = bytes d q (deletePrefix @ m)
        \<and> bytes (buried d p n data) q (sshPutStage m row') = bytes d q (sshPutStage m row')"
      using assms(2) m by (auto simp: buried_bytes name_clash)
    from key_local [OF buried_tables this] recoverable_key [OF d(1) m] show ?thesis by simp
  qed
  have "key_bytes (buried d p n data) = key_bytes d" by (rule key_bytes_cong [OF d(1)]) (use local in auto)
  moreover have "placed (buried d p n data)"
    using d(1) assms(3) placed_move [of d p n data] by (simp add: recoverable_def buried_def tombstone_def)
  ultimately show ?thesis using local d(1) by (simp add: stands_def recoverable_def)
qed

lemma clear_key_keeps:
  "clear_key pr n hs t = Inr t' \<Longrightarrow> tables_ok t \<Longrightarrow> tables_ok t' \<and> stKeys t' = stKeys t"
proof (induction hs arbitrary: t)
  case (Cons h hs)
  have replace: "tables_ok t1 \<and> stKeys t1 = stKeys t" if "replaceHost t pr (h\<lparr>hKey := []\<rparr>) = Inr t1" for t1
    using that Cons.prems(2) by (auto simp: replaceHost_def UpdateHost_def tables_ok_def Let_def split: if_splits)
  show ?case
  proof (cases "hKey h = n")
    case True
    with Cons.prems obtain t1 where t1: "replaceHost t pr (h\<lparr>hKey := []\<rparr>) = Inr t1" "clear_key pr n hs t1 = Inr t'" by (auto split: sum.splits)
    with Cons.IH [OF t1(2)] replace show ?thesis by auto
  qed (use Cons in auto)
qed simp

lemma delete_key_rows_ok:
  assumes "delete_key_rows pr n t = Inr t'" and "tables_ok t"
  shows "tables_ok t'" "GetKey t' q m = (if (q, m) = (pr, n) then None else GetKey t q m)"
proof -
  from assms(1) obtain hosts t1 where t1: "clear_key pr n hosts t = Inr t1"
    and t': "t' = t1\<lparr>stKeys := filter (\<lambda>k. \<not> (krPrincipal k = pr \<and> krName k = n)) (stKeys t1)\<rparr>"
    by (auto simp: delete_key_rows_def DeleteKey_def Let_def split: if_splits sum.splits)
  note keep = clear_key_keeps [OF t1 assms(2)]
  then show "tables_ok t'" by (auto simp: t' tables_ok_def)
  have "find P (filter R xs) = find (\<lambda>x. P x \<and> R x) xs" for P R and xs :: "keyRow list" by (induction xs) auto
  then have "GetKey t' q m = find (\<lambda>k. (krPrincipal k = q \<and> krName k = m) \<and> \<not> (krPrincipal k = pr \<and> krName k = n)) (stKeys t)"
    using keep by (simp add: t' GetKey_def)
  also have "\<dots> = (if (q, m) = (pr, n) then None else GetKey t q m)"
    by (auto simp: GetKey_def find_None_iff intro!: arg_cong2 [where f = find])
  finally show "GetKey t' q m = (if (q, m) = (pr, n) then None else GetKey t q m)" .
qed

lemma delete_changes: "delete_key_rows pr n t = Inr t' \<Longrightarrow> tables_ok t \<Longrightarrow> t' \<noteq> t"
  using delete_key_rows_ok(2) [of pr n t t' pr n] by (auto simp: delete_key_rows_def keyMetadata_def split: if_splits)

definition delete_states :: "disk \<Rightarrow> string \<Rightarrow> string \<Rightarrow> (ssh_tables \<times> (string \<Rightarrow> string \<Rightarrow> string option)) set" where
  "delete_states d p n = insert (dkTables d, key_bytes d)
     {(t, (key_bytes d)(p := (key_bytes d p)(n := None))) | t. delete_key_rows p n (dkTables d) = Inr t}"

lemma deleted_safe:
  assumes "settled d" and "validSSHKeyName n" and "bytes d p n = Some data" and "same_keys (buried d p n data) x"
    and "delete_key_rows p n (dkTables d) = Inr t"
  shows "crash_safe (delete_states d p n) (x\<lparr>dkTables := t\<rparr>)"
proof -
  have buried: "stands d (buried d p n data)" by (rule buried_stands [OF assms(1-3)])
  then have x: "stands d x" using same_keys_stands [OF _ assms(4)] stands_trans by (auto simp: stands_def)
  then have "tables_ok (dkTables d)" by (auto simp: stands_def recoverable_def)
  note rows = delete_key_rows_ok [OF assms(5) this]
  have "dkTables x = dkTables d" using x by (simp add: stands_def)
  have gone: "bytes x p n = None" using assms(4) by (simp add: same_keys_def buried_bytes)
  have bytes: "key_bytes (x\<lparr>dkTables := t\<rparr>) q m = (if (q, m) = (p, n) then None else key_bytes x q m)" for q m
    using \<open>dkTables x = dkTables d\<close> by (simp add: key_bytes_def rows(2) cong: option.case_cong)
  have "key_recoverable (x\<lparr>dkTables := t\<rparr>) q m" if "validSSHKeyName m" for q m
    using recoverable_key [of x m q] x that gone bytes [of q m]
    by (cases "GetKey (dkTables d) q m") (auto simp: key_recoverable_def rows(2) stands_def)
  with x rows(1) have "recoverable (x\<lparr>dkTables := t\<rparr>)" by (auto simp: recoverable_def stands_def placed_def)
  moreover have "key_bytes (x\<lparr>dkTables := t\<rparr>) = (key_bytes d)(p := (key_bytes d p)(n := None))"
    using bytes x by (auto simp: fun_eq_iff stands_def)
  ultimately show ?thesis using assms(5) by (auto simp: crash_safe_def delete_states_def)
qed

lemma unburied_stands:
  assumes "settled d" and "validSSHKeyName n" and "bytes d p n = Some data" and "same_keys (buried d p n data) x"
    and "alookup (dkFiles x) (tombstone p n) = Some data'"
  shows "stands d (x\<lparr>dkFiles := aput (key_file p n) data' (adel (tombstone p n) (dkFiles x))\<rparr>)"
proof -
  have x: "stands d x"
    using buried_stands [OF assms(1-3)] same_keys_stands [OF _ assms(4)] stands_trans by (auto simp: stands_def)
  from assms(1) have "recoverable d" by (simp add: settled_def)
  from recoverable_key [OF this assms(2), of p] assms(3) obtain row where "GetKey (dkTables d) p n = Some row"
    by (auto simp: key_recoverable_def split: option.splits)
  with x assms(5) have "settles {(p, deletePrefix @ n)} x (x\<lparr>dkFiles := aput (key_file p n) data' (adel (tombstone p n) (dkFiles x))\<rparr>)"
    unfolding tombstone_def by (intro promote_settles) (auto simp: stands_def)
  with x show ?thesis using stands_trans kept_stands settles_kept by blast
qed

lemma spec_stageSSHDelete:
  assumes "settled d" and "validSSHKeyName n"
  shows "spec (stands d) d (stageSSHDelete E p n)
    (\<lambda>r d'. stands d d' \<and> (r = None \<longrightarrow> (\<exists>data. bytes d p n = Some data \<and> d' = buried d p n data)))"
proof -
  have d: "stands d d" using assms(1) by (simp add: stands_def settled_def)
  have undo: "spec (stands d) (buried d p n data) (do {
      restored \<leftarrow> s_try (os_rename E (tombstone p n) (key_file p n)) (SyncDir E);
      State_Monad.return (join_errors [Some e, restored]) })
      (\<lambda>r d'. stands d d' \<and> (r = None \<longrightarrow> (\<exists>data. bytes d p n = Some data \<and> d' = buried d p n data)))"
    if "bytes d p n = Some data" for data e
    by (rule spec_bind [where P = "\<lambda>_ d'. stands d d'"],
        rule spec_try [OF spec_rename [where Q = "\<lambda>_ d'. stands d d'"]])
      (use unburied_stands [OF assms that same_keys_refl] buried_stands [OF assms that] in \<open>auto intro!: spec_sync spec_return\<close>)
  have move: "spec (stands d) d (s_try (os_rename E (key_file p n) (tombstone p n)) (do {
               synced \<leftarrow> SyncDir E;
               (case synced of
                  None \<Rightarrow> State_Monad.return None
                | Some e \<Rightarrow> do {
                    restored \<leftarrow> s_try (os_rename E (tombstone p n) (key_file p n)) (SyncDir E);
                    State_Monad.return (join_errors [Some e, restored]) }) }))
      (\<lambda>r d'. stands d d' \<and> (r = None \<longrightarrow> (\<exists>data. bytes d p n = Some data \<and> d' = buried d p n data)))"
    unfolding SyncDir_def
    by (rule spec_try [OF spec_rename [where Q = "\<lambda>r d'. stands d d' \<and> (r = None \<longrightarrow> (\<exists>data. bytes d p n = Some data \<and> d' = buried d p n data))"]])
      (use d buried_stands [OF assms] undo in \<open>auto simp: buried_def SyncDir_def intro!: spec_then_ask spec_return split: option.split\<close>)
  show ?thesis
    unfolding stageSSHDelete_def
    by (rule spec_bind [OF spec_read [where Q = "\<lambda>_ d'. d' = d"]]; auto split: sum.split)
      (use d move in \<open>auto intro!: spec_return spec_bind [OF spec_lstat [where Q = "\<lambda>_ d'. d' = d"]] split: sum.split bool.split\<close>)
qed

lemma spec_abort_delete:
  assumes "settled d" and "validSSHKeyName n" and "bytes d p n = Some data" and "same_keys (buried d p n data) x"
  shows "spec (stands d) x (finishSSHDelete E p n False) (\<lambda>_ d'. stands d d')"
proof -
  have x: "stands d x"
    using buried_stands [OF assms(1-3)] same_keys_stands [OF _ assms(4)] stands_trans by (auto simp: stands_def)
  show ?thesis
    unfolding finishSSHDelete_def SyncDir_def
    by simp (rule spec_bind [OF spec_lstat [where Q = "\<lambda>_ d'. d' = x"]];
      use x unburied_stands [OF assms] in \<open>auto intro!: spec_return spec_then_ask spec_bind [OF spec_rename [where Q = "\<lambda>_ d'. stands d d'"]] split: sum.split bool.split\<close>)
qed

lemma spec_finish_delete:
  assumes "settled d" and "validSSHKeyName n" and "bytes d p n = Some data" and "same_keys (buried d p n data) x"
    and "delete_key_rows p n (dkTables d) = Inr t" and "honest E"
  shows "spec (crash_safe (delete_states d p n)) (x\<lparr>dkTables := t\<rparr>) (finishSSHDelete E p n True)
    (\<lambda>r d'. crash_safe (delete_states d p n) d' \<and> (r = None \<longrightarrow> settled d' \<and> dkTables d' = t))"
proof -
  let ?S = "delete_states d p n" and ?x = "x\<lparr>dkTables := t\<rparr>"
  have safe: "crash_safe ?S ?x" by (rule deleted_safe [OF assms(1-5)])
  from assms(1) have "tables_ok (dkTables d)" by (simp add: settled_def recoverable_def)
  note rows = delete_key_rows_ok(2) [OF assms(5) this]
  let ?d' = "?x\<lparr>dkFiles := adel (tombstone p n) (dkFiles ?x)\<rparr>"
  have step: "settles {(p, deletePrefix @ n)} ?x ?d'"
    using tombstone_discard [of ?x n p] safe assms(2) rows [of p n] by (simp add: crash_safe_def tombstone_def)
  have "settled ?d'"
  proof (rule promoted_settled [OF step assms(1)])
    show "(q, f) = (p, deletePrefix @ n) \<or> bytes d q f \<noteq> None" if "bytes ?x q f \<noteq> None" for q f
      using that assms(4) by (auto simp: same_keys_def buried_bytes split: if_splits)
  qed
  moreover have "crash_safe ?S ?d'" using stands_crash_safe [OF kept_stands [OF settles_kept [OF step]] safe] .
  moreover have "alookup (dkFiles ?x) (tombstone p n) \<noteq> None"
    using assms(4) buried_bytes [of d p n data p "deletePrefix @ n"] by (simp add: same_keys_def tombstone_def)
  ultimately show ?thesis
    unfolding finishSSHDelete_def using safe assms(6) by (auto intro!: spec_RemoveFile)
qed

text \<open>What a run of the deletion may end in.\<close>

definition delete_answer :: "disk \<Rightarrow> string \<Rightarrow> string \<Rightarrow> unit res \<Rightarrow> disk \<Rightarrow> bool" where
  "delete_answer d p n r d' \<longleftrightarrow>
     crash_safe (delete_states d p n) d' \<and> (r = Inr () \<longrightarrow> settled d' \<and> delete_key_rows p n (dkTables d) = Inr (dkTables d'))"

lemma delete_safe: "stands d x \<Longrightarrow> crash_safe (delete_states d p n) x"
  by (auto simp: stands_def crash_safe_def delete_states_def)

lemma spec_staged_delete:
  assumes "settled d" and "validSSHKeyName n" and "honest E" and "bytes d p n = Some data"
  shows "spec (crash_safe (delete_states d p n)) (buried d p n data)
    (mutate_staged E p (delete_key_rows p n) (Some (finishSSHDelete E p n)) previous) (delete_answer d p n)"
proof -
  let ?S = "delete_states d p n" and ?d = "buried d p n data"
  have same: "crash_safe ?S x" if "same_keys ?d x" for x
    using buried_stands [OF assms(1,2,4)] same_keys_stands [OF _ that] by (auto intro!: delete_safe simp: stands_def)
  have tx: "spec (crash_safe ?S) ?d (mutate_tx E p (delete_key_rows p n)) (tx_answer E p (delete_key_rows p n) ?d)"
    by (rule spec_mutate_tx) (use same deleted_safe [OF assms(1,2,4)] in auto)
  have abort: "spec (crash_safe ?S) x (finishSSHDelete E p n False) (\<lambda>_ d'. crash_safe ?S d')" if "same_keys ?d x" for x
    by (rule spec_weaken [OF spec_abort_delete [OF assms(1,2,4) that]]) (auto intro: delete_safe)
  have finish: "spec (crash_safe ?S) x (done_of (finishSSHDelete E p n True)) (delete_answer d p n)"
    if "committed E p (delete_key_rows p n) ?d x" for x
  proof -
    from that obtain d0 t where x: "same_keys ?d d0" "delete_key_rows p n (dkTables d) = Inr t" "x = d0\<lparr>dkTables := t\<rparr>"
      by (auto simp: committed_def)
    from spec_done [OF spec_finish_delete [OF assms(1,2,4) x(1,2) assms(3)], of "delete_answer d p n"] x(2,3) show ?thesis
      by (auto simp: delete_answer_def)
  qed
  show ?thesis
    unfolding mutate_staged_def
    by (rule spec_bind [OF tx])
      (use finish same assms(3) in \<open>auto simp: delete_answer_def intro!: spec_return spec_bind [OF spec_restore_config [of ?d]] spec_bind [OF abort]
        split: prod.split option.split\<close>)
qed

lemma spec_deleteSSHKey:
  assumes "settled d" and "validSSHKeyName n" and "honest E"
  shows "spec (crash_safe (delete_states d p n)) d (deleteSSHKey E p n) (delete_answer d p n)"
proof -
  let ?S = "delete_states d p n"
  have d: "crash_safe ?S d" using assms(1) by (intro delete_safe) (simp add: stands_def settled_def)
  have stage: "spec (crash_safe ?S) d (stageSSHDelete E p n)
      (\<lambda>r d'. crash_safe ?S d' \<and> (r = None \<longrightarrow> (\<exists>data. bytes d p n = Some data \<and> d' = buried d p n data)))"
    by (rule spec_weaken [OF spec_stageSSHDelete [OF assms(1,2)]]) (auto intro: delete_safe)
  have enter: "spec (crash_safe ?S) d (s_attempt (done_of (stageSSHDelete E p n)) k) (delete_answer d p n)"
    if "\<And>data. bytes d p n = Some data \<Longrightarrow> spec (crash_safe ?S) (buried d p n data) (k ()) (delete_answer d p n)" for k
    by (rule spec_attempt [OF spec_done [OF stage,
        where Q = "\<lambda>r d'. crash_safe ?S d' \<and> (r = Inr () \<longrightarrow> (\<exists>data. bytes d p n = Some data \<and> d' = buried d p n data))"]])
      (use that in \<open>auto simp: delete_answer_def\<close>)
  have read: "spec (crash_safe ?S) d (ReadPrivateFile E l bound) (\<lambda>_ d'. d' = d)" for l bound by (rule spec_read) auto
  have "delete_answer d p n (Inl e) d" for e using d by (simp add: delete_answer_def)
  then show ?thesis
    unfolding deleteSSHKey_def mutateHosts_def
    by (auto intro!: spec_locked spec_bind [OF read] spec_return enter spec_staged_delete assms split: sum.split)
qed

section \<open>Requests\<close>

datatype ssh_request =
    WriteKey string string
  | DeleteKeyOf string
  | AddHost string string string
  | ReplaceHost string string string
  | RemoveHost string

definition unit_answer :: "'a res sprog \<Rightarrow> unit res sprog" where
  "unit_answer m = s_attempt m (\<lambda>_. State_Monad.return (Inr ()))"

fun serve :: "ssh_env \<Rightarrow> Principal \<Rightarrow> ssh_request \<Rightarrow> unit res sprog" where
  "serve E pr (WriteKey name key) = unit_answer (writeSSHKey E pr name key)"
| "serve E pr (DeleteKeyOf name) = service_deleteSSHKey E pr name"
| "serve E pr (AddHost name command key) = unit_answer (service_addHost E pr name command key)"
| "serve E pr (ReplaceHost name command key) = unit_answer (service_updateHost E pr name command key)"
| "serve E pr (RemoveHost name) = removeHost E pr name"

text \<open>
  The specification of a request on the rows and the keys alone: no files, no order of steps, no faults.
\<close>

type_synonym ssh_state = "ssh_tables \<times> (string \<Rightarrow> string \<Rightarrow> string option)"

definition add_rows :: "string \<Rightarrow> HostEntry \<Rightarrow> ssh_tables \<Rightarrow> ssh_tables res" where
  "add_rows dir host t =
     (case resolveSSHCredential t dir host of
        Inl e \<Rightarrow> Inl e
      | Inr resolved \<Rightarrow>
          (case InsertHost t dir resolved of
             Inl e \<Rightarrow> Inl (if IsConstraint e then APIError ''ssh_host_exists'' (hName host @ '' is already configured.'') 409 else e)
           | Inr t' \<Rightarrow> Inr t'))"

definition replace_rows :: "string \<Rightarrow> HostEntry \<Rightarrow> ssh_tables \<Rightarrow> ssh_tables res" where
  "replace_rows dir host t =
     (case resolveSSHCredential t dir host of Inl e \<Rightarrow> Inl e | Inr resolved \<Rightarrow> replaceHost t dir resolved)"

definition remove_rows :: "string \<Rightarrow> string \<Rightarrow> ssh_tables \<Rightarrow> ssh_tables res" where
  "remove_rows dir name t =
     (case DeleteHost t dir name of (rows, t') \<Rightarrow> if rows = 0 then Inl (hostNotFound name) else Inr t')"

definition on_rows :: "(ssh_tables \<Rightarrow> ssh_tables res) \<Rightarrow> ssh_state \<Rightarrow> ssh_state res" where
  "on_rows f s = (case f (fst s) of Inl e \<Rightarrow> Inl e | Inr t \<Rightarrow> Inr (t, snd s))"

fun effect :: "ssh_env \<Rightarrow> Principal \<Rightarrow> ssh_request \<Rightarrow> ssh_state \<Rightarrow> ssh_state res" where
  "effect E pr (WriteKey name key) s =
     (let dir = PrincipalDirName pr; id = trim_space name
      in if \<not> validSSHKeyName id then Inl errInvalidSSHKeyName
         else (case InspectPrivateKey E key of
                 Inl _ \<Rightarrow> Inl (APIError ''invalid_ssh_key'' ''The file is not an SSH private key.'' 400)
               | Inr (ktype, fingerprint) \<Rightarrow>
                   (case InsertKey (fst s) \<lparr>krPrincipal = dir, krName = id, krType = ktype, krFingerprint = fingerprint\<rparr> of
                      Inl _ \<Rightarrow> Inl errSSHKeyExists
                    | Inr t \<Rightarrow> Inr (t, (snd s)(dir := (snd s dir)(id := Some (trim_line_ends key @ [nl])))))))"
| "effect E pr (DeleteKeyOf name) s =
     (let dir = PrincipalDirName pr
      in if \<not> validSSHKeyName name then Inl errInvalidSSHKeyName
         else (case delete_key_rows dir name (fst s) of
                 Inl e \<Rightarrow> Inl e
               | Inr t \<Rightarrow> Inr (t, (snd s)(dir := (snd s dir)(name := None)))))"
| "effect E pr (AddHost name command key) s =
     (case hostWithCredential (trim_space name) command key of
        Inl e \<Rightarrow> Inl e
      | Inr host \<Rightarrow> on_rows (add_rows (PrincipalDirName pr) host) s)"
| "effect E pr (ReplaceHost name command key) s =
     (case hostWithCredential name command key of
        Inl e \<Rightarrow> Inl e
      | Inr host \<Rightarrow> on_rows (replace_rows (PrincipalDirName pr) host) s)"
| "effect E pr (RemoveHost name) s =
     (if \<not> ValidAlias name then Inl ErrInvalidAlias else on_rows (remove_rows (PrincipalDirName pr) name) s)"

definition state_of :: "disk \<Rightarrow> ssh_state" where
  "state_of d = (dkTables d, key_bytes d)"

definition outcomes :: "ssh_env \<Rightarrow> Principal \<Rightarrow> ssh_request \<Rightarrow> disk \<Rightarrow> ssh_state set" where
  "outcomes E pr req d = insert (state_of d) {s. effect E pr req (state_of d) = Inr s}"

text \<open>A run keeps to the outcomes, and a request answered without an error took effect.\<close>

definition request_answer :: "ssh_env \<Rightarrow> Principal \<Rightarrow> ssh_request \<Rightarrow> disk \<Rightarrow> unit res \<Rightarrow> disk \<Rightarrow> bool" where
  "request_answer E pr req d r d' \<longleftrightarrow>
     crash_safe (outcomes E pr req d) d' \<and> (r = Inr () \<longrightarrow> settled d' \<and> effect E pr req (state_of d) = Inr (state_of d'))"

lemma crash_safe_mono: "crash_safe S d \<Longrightarrow> S \<subseteq> T \<Longrightarrow> crash_safe T d"
  by (auto simp: crash_safe_def)

lemma crash_safe_start: "settled d \<Longrightarrow> crash_safe (outcomes E pr req d) d"
  by (simp add: crash_safe_def outcomes_def settled_def state_of_def)

lemma request_refused: "settled d \<Longrightarrow> spec (crash_safe (outcomes E pr req d)) d (State_Monad.return (Inl e)) (request_answer E pr req d)"
  by (rule spec_return) (simp add: request_answer_def crash_safe_start)

lemma spec_unit_answer:
  assumes "spec R d m (\<lambda>r d'. case r of Inl e \<Rightarrow> Q (Inl e) d' | Inr _ \<Rightarrow> Q (Inr ()) d')"
  shows "spec R d (unit_answer m) Q"
  unfolding unit_answer_def by (rule spec_attempt [OF assms]) (auto intro!: spec_return)

subsection \<open>Hosts\<close>

lemma row_changes_ok:
  assumes "tables_ok t" and "SafeName dir 128"
  shows "add_rows dir host t = Inr t' \<Longrightarrow> tables_ok t' \<and> stKeys t' = stKeys t"
    and "replace_rows dir host t = Inr t' \<Longrightarrow> tables_ok t' \<and> stKeys t' = stKeys t"
    and "remove_rows dir name t = Inr t' \<Longrightarrow> tables_ok t' \<and> stKeys t' = stKeys t"
  using assms
  by (auto simp: add_rows_def replace_rows_def remove_rows_def resolveSSHCredential_def InsertHost_def replaceHost_def UpdateHost_def
      DeleteHost_def tables_ok_def Let_def split: if_splits sum.splits)

lemma spec_host_rows:
  assumes "settled d" and "honest E" and "\<And>t. f (dkTables d) = Inr t \<Longrightarrow> tables_ok t \<and> stKeys t = stKeys (dkTables d)"
    and "effect E pr req (state_of d) = on_rows f (state_of d)"
  shows "spec (crash_safe (outcomes E pr req d)) d (mutateHosts E dir f None) (request_answer E pr req d)"
proof (rule spec_weaken [OF spec_mutateHosts [of E d "crash_safe (outcomes E pr req d)" f dir]])
  from assms(1) have d: "recoverable d" by (simp add: settled_def)
  show same: "crash_safe (outcomes E pr req d) x" if "same_keys d x" for x
    using stands_crash_safe [OF same_keys_stands [OF d that] crash_safe_start [OF assms(1)]] .
  have changed: "crash_safe (outcomes E pr req d) (x\<lparr>dkTables := t\<rparr>) \<and> effect E pr req (state_of d) = Inr (state_of (x\<lparr>dkTables := t\<rparr>))"
    if "same_keys d x" "f (dkTables d) = Inr t" for x t
    using host_change_crash_safe [OF d that(1)] assms(3) [OF that(2)] that(2) assms(4)
    by (auto simp: crash_safe_def outcomes_def state_of_def on_rows_def)
  then show "crash_safe (outcomes E pr req d) (x\<lparr>dkTables := t\<rparr>)" if "same_keys d x" "f (dkTables d) = Inr t" for x t
    using that by blast
  have tidy: "settled (x\<lparr>dkTables := t\<rparr>)" if "same_keys d x" "f (dkTables d) = Inr t" for x t
    using same_keys_settled [OF assms(1) that(1)] host_change_crash_safe(1) [OF d that(1)] assms(3) [OF that(2)]
    by (auto simp: settled_def tidy_def)
  show "request_answer E pr req d r d'" if "mutated E dir f d r d'" for r :: "unit res" and d'
    using that same changed tidy by (cases r) (auto simp: request_answer_def committed_def)
qed fact

lemma host_programs:
  "addHost E dir host = s_attempt (mutateHosts E dir (add_rows dir host) None) (\<lambda>_. State_Monad.return (Inr host))"
  "updateHost E dir host = s_attempt (mutateHosts E dir (replace_rows dir host) None) (\<lambda>_. State_Monad.return (Inr host))"
  "deleteHost E dir name = mutateHosts E dir (remove_rows dir name) None"
  by (simp_all add: addHost_def updateHost_def deleteHost_def putHost_def add_rows_def [abs_def] replace_rows_def [abs_def] remove_rows_def [abs_def])

lemma unit_attempt: "unit_answer (s_attempt m (\<lambda>_. State_Monad.return (Inr x))) = unit_answer m"
  unfolding unit_answer_def s_attempt_def State_Monad.bind_assoc
  by (rule arg_cong [where f = "State_Monad.bind m"]) (auto split: sum.split)

lemma unit_answer_unit [simp]: "unit_answer (m :: unit res sprog) = m"
proof -
  have "s_attempt m (\<lambda>_. State_Monad.return (Inr ())) = State_Monad.bind m State_Monad.return"
    unfolding s_attempt_def by (rule arg_cong [where f = "State_Monad.bind m"]) (auto split: sum.split)
  then show ?thesis by (simp add: unit_answer_def)
qed

definition request_bounded :: "ssh_request \<Rightarrow> bool" where
  "request_bounded req = (case req of WriteKey name key \<Rightarrow> length key < max_key_bytes | _ \<Rightarrow> True)"

lemma trim_line_ends_length: "length (trim_line_ends s) \<le> length s"
  using length_dropWhile_le [of _ "rev s"] by (simp add: trim_line_ends_def)

lemma spec_write_key:
  assumes "settled d" and "honest E" and "length key < max_key_bytes"
  shows "spec (crash_safe (outcomes E pr (WriteKey name key) d)) d (serve E pr (WriteKey name key)) (request_answer E pr (WriteKey name key) d)"
proof (cases "validSSHKeyName (trim_space name)")
  case False
  with request_refused [OF assms(1)] show ?thesis by (auto simp: writeSSHKey_def unit_answer_def s_attempt_def)
next
  case True
  show ?thesis
  proof (cases "InspectPrivateKey E key")
    case (Inl e)
    with True request_refused [OF assms(1)] show ?thesis by (simp add: writeSSHKey_def unit_answer_def s_attempt_def)
  next
    case (Inr public)
    then obtain ktype fingerprint where public: "InspectPrivateKey E key = Inr (ktype, fingerprint)" by (cases public) auto
    let ?key = "\<lparr>skName = trim_space name, skType = ktype, skFingerprint = fingerprint\<rparr>"
    let ?row = "\<lparr>krPrincipal = PrincipalDirName pr, krName = trim_space name, krType = ktype, krFingerprint = fingerprint\<rparr>"
    let ?data = "trim_line_ends key @ [nl]"
    have size: "length ?data \<le> max_key_bytes" using trim_line_ends_length [of key] assms(3) by simp
    have program: "serve E pr (WriteKey name key) = putSSHKey E (PrincipalDirName pr) ?key ?data"
      using True public by (simp add: writeSSHKey_def Let_def unit_attempt)
    from True size assms(1,2) have "spec (crash_safe (put_states d ?row ?data)) d (putSSHKey E (PrincipalDirName pr) ?key ?data)
        (\<lambda>r d'. crash_safe (put_states d ?row ?data) d' \<and> (r = Inr () \<longrightarrow> puttable d ?row ?data \<and> d' = put_placed d ?row ?data))"
      using spec_putSSHKey [of d "PrincipalDirName pr" ?key ?data E] PrincipalDirName_safe by simp
    moreover have "put_states d ?row ?data \<subseteq> outcomes E pr (WriteKey name key) d"
      using True public by (auto simp: put_states_def outcomes_def state_of_def Let_def)
    moreover have "request_answer E pr (WriteKey name key) d (Inr ()) (put_placed d ?row ?data)" if "puttable d ?row ?data"
      using put_placed_settled [OF that] put_placed_state [OF that] True public that calculation(2)
      by (auto simp: request_answer_def state_of_def Let_def intro: crash_safe_mono)
    ultimately show ?thesis unfolding program
      by (elim spec_weaken) (auto simp: request_answer_def dest: crash_safe_mono)
  qed
qed

lemma spec_serve:
  assumes "settled d" and "honest E" and "request_bounded req"
  shows "spec (crash_safe (outcomes E pr req d)) d (serve E pr req) (request_answer E pr req d)"
proof (cases req)
  case (WriteKey name key)
  with assms spec_write_key show ?thesis by (simp add: request_bounded_def)
next
  case (DeleteKeyOf name)
  have "delete_states d (PrincipalDirName pr) name \<subseteq> outcomes E pr req d" if "validSSHKeyName name"
    using that by (auto simp: DeleteKeyOf delete_states_def outcomes_def state_of_def Let_def)
  then have "spec (crash_safe (outcomes E pr req d)) d (deleteSSHKey E (PrincipalDirName pr) name) (request_answer E pr req d)" if "validSSHKeyName name"
    by (intro spec_weaken [OF spec_deleteSSHKey [OF assms(1) that assms(2)]])
      (use that delete_changes [of _ _ "dkTables d"] assms(1) in
        \<open>auto simp: delete_answer_def request_answer_def crash_safe_def DeleteKeyOf delete_states_def Let_def state_of_def settled_def recoverable_def\<close>)
  with request_refused [OF assms(1)] show ?thesis by (auto simp: DeleteKeyOf service_deleteSSHKey_def)
next
  case (AddHost name command key)
  show ?thesis
  proof (cases "hostWithCredential (trim_space name) command key")
    case (Inr host)
    with AddHost assms(1) show ?thesis
      using spec_host_rows [OF assms(1,2), of "add_rows (PrincipalDirName pr) host" pr req]
        row_changes_ok(1) [OF _ PrincipalDirName_safe, of "dkTables d" pr host]
      by (simp add: service_addHost_def host_programs unit_attempt settled_def recoverable_def)
  qed (use AddHost request_refused [OF assms(1)] in \<open>simp add: service_addHost_def unit_answer_def s_attempt_def\<close>)
next
  case (ReplaceHost name command key)
  show ?thesis
  proof (cases "hostWithCredential name command key")
    case (Inr host)
    with ReplaceHost assms(1) show ?thesis
      using spec_host_rows [OF assms(1,2), of "replace_rows (PrincipalDirName pr) host" pr req]
        row_changes_ok(2) [OF _ PrincipalDirName_safe, of "dkTables d" pr host]
      by (simp add: service_updateHost_def host_programs unit_attempt settled_def recoverable_def)
  qed (use ReplaceHost request_refused [OF assms(1)] in \<open>simp add: service_updateHost_def unit_answer_def s_attempt_def\<close>)
next
  case (RemoveHost name)
  show ?thesis
  proof (cases "ValidAlias name")
    case True
    with RemoveHost assms(1) show ?thesis
      using spec_host_rows [OF assms(1,2), of "remove_rows (PrincipalDirName pr) name" pr req]
        row_changes_ok(3) [OF _ PrincipalDirName_safe, of "dkTables d" pr name]
      by (simp add: removeHost_def host_programs settled_def recoverable_def)
  qed (use RemoveHost request_refused [OF assms(1)] in \<open>simp add: removeHost_def\<close>)
qed

section \<open>Crashes\<close>

definition fresh_world :: "disk \<Rightarrow> ssh_world" where
  "fresh_world d = \<lparr>swDisk = d, swHistory = [d], swTick = 0\<rparr>"


section \<open>Requests when nothing fails\<close>

lemmas run_defs = s_attempt_def s_locked_def s_ask_def s_query_def s_disk_def s_change_def s_try_def done_of_def os_lstat_def
  EnsurePrivateDir_def ReplaceFile_def SyncDir_def os_rename_def os_remove_def RemoveFile_def ReadPrivateFile_def

lemma calm_put:
  assumes "calm E" and "settled (swDisk w)" and "validSSHKeyName (skName key)" and "GetKey (dkTables (swDisk w)) pr (skName key) = None"
  shows "fst (run_state (putSSHKey E pr key data) w) = Inr ()"
proof -
  have "bytes (swDisk w) pr (skName key) = None"
    using recoverable_key [of "swDisk w" "skName key" pr] assms(2-4) by (simp add: settled_def key_recoverable_def)
  moreover have "[pr, ''keys''] \<in> (\<lambda>n. take n [pr, ''keys'']) ` {0..<3}" by (auto intro!: image_eqI [of _ _ 2])
  ultimately show ?thesis
    using assms(4) by (simp add: putSSHKey_def run_defs calmD [OF assms(1)] keyMetadata_def InsertKey_def Let_def key_file_def)
qed

lemma calm_put_refused:
  assumes "calm E" and "GetKey (dkTables (swDisk w)) pr (skName key) \<noteq> None"
  shows "swDisk (snd (run_state (putSSHKey E pr key data) w)) = swDisk w"
  using assms(2) by (auto simp: putSSHKey_def run_defs calmD [OF assms(1)] keyMetadata_def)

definition config_readable :: "disk \<Rightarrow> string \<Rightarrow> bool" where
  "config_readable d p = (case alookup (dkFiles d) (config_file p) of None \<Rightarrow> True | Some data \<Rightarrow> length data \<le> maxSSHConfigBytes)"

lemma calm_mutate:
  assumes "calm E" and "config_readable (swDisk w) pr" and "f (dkTables (swDisk w)) = Inr t" and "tables_ok t"
  shows "fst (run_state (mutateHosts E pr f None) w) = Inr ()"
proof -
  obtain hosts where "hostsIn t pr = Inr hosts" using hostsIn_total [OF assms(4)] by blast
  moreover have "[pr] \<in> (\<lambda>n. take n [pr]) ` {0..<2}" by (auto intro!: image_eqI [of _ _ 1])
  ultimately show ?thesis
    using assms(2,3) by (auto simp: mutateHosts_def mutate_staged_def mutate_tx_def run_defs calmD [OF assms(1)] config_readable_def
      config_file_def missing_def split: option.splits)
qed

lemma calm_delete:
  assumes "calm E" and "config_readable (swDisk w) pr" and "settled (swDisk w)" and "validSSHKeyName n"
    and "delete_key_rows pr n (dkTables (swDisk w)) = Inr t"
  shows "fst (run_state (deleteSSHKey E pr n) w) = Inr ()"
proof -
  let ?d = "swDisk w"
  have d: "recoverable ?d" "tidy ?d pr" using assms(3) by (simp_all add: settled_def)
  then have "tables_ok t" using delete_key_rows_ok(1) [OF assms(5)] by (simp add: recoverable_def)
  then obtain hosts where "hostsIn t pr = Inr hosts" using hostsIn_total by blast
  moreover have "[pr] \<in> (\<lambda>n. take n [pr]) ` {0..<2}" by (auto intro!: image_eqI [of _ _ 1])
  moreover obtain data where "bytes ?d pr n = Some data"
    using assms(5) recoverable_key [OF d(1) assms(4), of pr] settled_bytes [OF assms(3,4), of pr]
    by (auto simp: delete_key_rows_def keyMetadata_def key_recoverable_def split: if_splits)
  moreover have "length data \<le> max_key_bytes" using recoverable_size [OF d(1)] calculation(3) .
  moreover have "bytes ?d pr (deletePrefix @ n) = None" using tidy_bytes(1) [OF d(2) assms(4)] .
  ultimately show ?thesis
    using assms(2,5)
    by (auto simp: deleteSSHKey_def mutateHosts_def mutate_staged_def mutate_tx_def stageSSHDelete_def finishSSHDelete_def run_defs calmD [OF assms(1)] config_readable_def
      config_file_def missing_def tombstone_def key_file_def split: option.splits)
qed

lemma calm_delete_missing:
  assumes "calm E" and "config_readable (swDisk w) pr" and "bytes (swDisk w) pr n = None"
  shows "fst (run_state (deleteSSHKey E pr n) w) = Inl (missing (key_file pr n))" "swDisk (snd (run_state (deleteSSHKey E pr n) w)) = swDisk w"
  using assms(2,3)
  by (auto simp: deleteSSHKey_def mutateHosts_def stageSSHDelete_def run_defs calmD [OF assms(1)] config_readable_def missing_def split: option.splits)

text \<open>A key with a row can always be deleted: its references are in rows that are there.\<close>

abbreviation host_names :: "ssh_tables \<Rightarrow> string \<Rightarrow> string set" where
  "host_names t pr \<equiv> {n. \<exists>payload. (pr, n, payload) \<in> set (stHosts t)}"

lemma map_res_set: "map_res f xs = Inr ys \<Longrightarrow> y \<in> set ys \<Longrightarrow> \<exists>x \<in> set xs. f x = Inr y"
  by (induction xs arbitrary: ys) (auto split: sum.splits)

lemma hostsIn_names: "hostsIn t pr = Inr hosts \<Longrightarrow> h \<in> set hosts \<Longrightarrow> hName h \<in> host_names t pr"
proof -
  assume "hostsIn t pr = Inr hosts" "h \<in> set hosts"
  from map_res_set [OF this [unfolded hostsIn_def]] obtain n payload where "(n, payload) \<in> set (ListHosts t pr)"
    "DecodePayload (\<lambda>h. hName h = n) (''SSH host '' @ n) payload = Inr h" by auto
  then show ?thesis by (cases payload) (auto simp: ListHosts_def DecodePayload_def split: if_splits)
qed

lemma replaceHost_names: "hName h \<in> host_names t pr \<Longrightarrow> \<exists>t'. replaceHost t pr h = Inr t' \<and> host_names t' q = host_names t q"
  by (auto simp: replaceHost_def UpdateHost_def Let_def image_iff filter_empty_conv split: prod.splits; force)

lemma clear_key_total: "(\<And>h. h \<in> set hs \<Longrightarrow> hName h \<in> host_names t pr) \<Longrightarrow> \<exists>t'. clear_key pr n hs t = Inr t'"
proof (induction hs arbitrary: t)
  case (Cons h hs)
  show ?case
  proof (cases "hKey h = n")
    case True
    from Cons.prems [of h] obtain t1 where t1: "replaceHost t pr (h\<lparr>hKey := []\<rparr>) = Inr t1" "host_names t1 pr = host_names t pr"
      using replaceHost_names [where h = "h\<lparr>hKey := []\<rparr>" and t = t and pr = pr and q = pr] by auto
    with Cons.IH [of t1] Cons.prems True show ?thesis by auto
  qed (use Cons in auto)
qed simp

lemma delete_key_rows_total:
  assumes "tables_ok t" and "GetKey t pr n \<noteq> None"
  shows "\<exists>t'. delete_key_rows pr n t = Inr t'"
proof -
  obtain hosts where hosts: "hostsIn t pr = Inr hosts" using hostsIn_total [OF assms(1)] by blast
  then obtain t1 where t1: "clear_key pr n hosts t = Inr t1" using clear_key_total [where hs = hosts and t = t and pr = pr] hostsIn_names by blast
  then have "stKeys t1 = stKeys t" using clear_key_keeps assms(1) by blast
  with assms(2) have "filter (\<lambda>k. krPrincipal k = pr \<and> krName k = n) (stKeys t1) \<noteq> []"
    by (auto simp: GetKey_def filter_empty_conv find_None_iff)
  with hosts t1 assms(2) show ?thesis by (auto simp: delete_key_rows_def keyMetadata_def DeleteKey_def Let_def)
qed

lemma calm_serves:
  assumes "settled d" and "calm E" and "config_readable d (PrincipalDirName pr)" and "effect E pr req (state_of d) = Inr s"
  shows "fst (run_state (serve E pr req) (fresh_world d)) = Inr ()"
proof -
  have w: "swDisk (fresh_world d) = d" by (simp add: fresh_world_def)
  have ok: "tables_ok (dkTables d)" using assms(1) by (simp add: settled_def recoverable_def)
  have hosts: "fst (run_state (mutateHosts E (PrincipalDirName pr) f None) (fresh_world d)) = Inr ()"
    if "on_rows f (state_of d) = Inr s" "\<And>t. f (dkTables d) = Inr t \<Longrightarrow> tables_ok t" for f
    using that calm_mutate [OF assms(2), of "fresh_world d" "PrincipalDirName pr" f] assms(3) w
    by (auto simp: on_rows_def state_of_def split: sum.splits)
  note changes = row_changes_ok [OF ok PrincipalDirName_safe]
  show ?thesis
  proof (cases req)
    case (WriteKey name key)
    with assms(4) show ?thesis
      using calm_put [OF assms(2), of "fresh_world d"] w assms(1)
      by (auto simp: Let_def state_of_def writeSSHKey_def unit_attempt InsertKey_def split: if_splits sum.splits)
  next
    case (DeleteKeyOf name)
    with assms show ?thesis
      using calm_delete [OF assms(2), of "fresh_world d" "PrincipalDirName pr" name] w
      by (auto simp: Let_def state_of_def service_deleteSSHKey_def split: if_splits sum.splits)
  next
    case (AddHost name command key)
    with assms(4) hosts changes show ?thesis
      by (auto simp: service_addHost_def host_programs unit_attempt split: sum.splits)
  next
    case (ReplaceHost name command key)
    with assms(4) hosts changes show ?thesis
      by (auto simp: service_updateHost_def host_programs unit_attempt split: sum.splits)
  next
    case (RemoveHost name)
    with assms(4) hosts changes show ?thesis
      by (auto simp: removeHost_def host_programs split: if_splits)
  qed
qed

lemma unit_refused: "unit_answer (State_Monad.return (Inl e)) = State_Monad.return (Inl e)"
  by (simp add: unit_answer_def s_attempt_def)

lemma calm_refusal_settled:
  assumes "settled d" and "calm E" and "config_readable d (PrincipalDirName pr)" and "effect E pr req (state_of d) = Inl e"
  shows "settled (swDisk (snd (run_state (serve E pr req) (fresh_world d))))"
proof -
  have w: "swDisk (fresh_world d) = d" by (simp add: fresh_world_def)
  have ok: "tables_ok (dkTables d)" using assms(1) by (simp add: settled_def recoverable_def)
  have honest: "honest E" using assms(2) by (simp add: honest_def calmD)
  have hosts: "settled (swDisk (snd (run_state (mutateHosts E (PrincipalDirName pr) f None) (fresh_world d))))"
    if "on_rows f (state_of d) = Inl e" for f
  proof -
    from that have "f (dkTables d) = Inl e" by (auto simp: on_rows_def state_of_def split: sum.splits)
    then have "spec (\<lambda>_. True) d (mutateHosts E (PrincipalDirName pr) f None) (\<lambda>_ d'. same_keys d d')"
      by (intro spec_weaken [OF spec_mutateHosts [of E d "\<lambda>_. True" f, OF honest]])
        (auto simp: mutated_def committed_def split: sum.splits)
    with same_keys_settled [OF assms(1)] w show ?thesis by (fastforce simp: spec_def)
  qed
  show ?thesis
  proof (cases req)
    case (WriteKey name key)
    with assms show ?thesis
      using calm_put_refused [OF assms(2), of "fresh_world d" "PrincipalDirName pr"] w
      by (auto simp: Let_def state_of_def writeSSHKey_def unit_attempt InsertKey_def unit_refused split: if_splits sum.splits)
  next
    case (DeleteKeyOf name)
    show ?thesis
    proof (cases "validSSHKeyName name")
      case True
      with assms(4) DeleteKeyOf have "\<nexists>t. delete_key_rows (PrincipalDirName pr) name (dkTables d) = Inr t"
        by (auto simp: state_of_def Let_def split: sum.splits)
      then have "GetKey (dkTables d) (PrincipalDirName pr) name = None" using delete_key_rows_total [OF ok] by blast
      with recoverable_key [of d name "PrincipalDirName pr"] assms(1) True have "bytes d (PrincipalDirName pr) name = None"
        by (simp add: settled_def key_recoverable_def)
      with DeleteKeyOf True w assms(1,3) calm_delete_missing(2) [OF assms(2), of "fresh_world d" "PrincipalDirName pr" name] show ?thesis
        by (simp add: service_deleteSSHKey_def)
    qed (use DeleteKeyOf w assms(1) in \<open>simp add: service_deleteSSHKey_def\<close>)
  next
    case (AddHost name command key)
    with assms(1,4) hosts w show ?thesis
      by (auto simp: service_addHost_def host_programs unit_attempt unit_refused split: sum.splits)
  next
    case (ReplaceHost name command key)
    with assms(1,4) hosts w show ?thesis
      by (auto simp: service_updateHost_def host_programs unit_attempt unit_refused split: sum.splits)
  next
    case (RemoveHost name)
    with assms(1,4) hosts w show ?thesis by (auto simp: removeHost_def host_programs split: if_splits)
  qed
qed

text \<open>
  C16: When nothing fails, a request on hosts or keys does exactly what its specification on rows and keys says: it succeeds
  when the specification gives a result, and then the disk stands for that result; otherwise it answers an error and the
  rows and keys are as they were. Either way the disk is settled.
\<close>

theorem serve_refines:
  assumes "settled d" and "calm E" and "request_bounded req" and "config_readable d (PrincipalDirName pr)"
    and "run_state (serve E pr req) (fresh_world d) = (r, w)"
  shows "settled (swDisk w) \<and> (case effect E pr req (state_of d) of
        Inl _ \<Rightarrow> (\<exists>e. r = Inl e) \<and> state_of (swDisk w) = state_of d
      | Inr s \<Rightarrow> r = Inr () \<and> state_of (swDisk w) = s)"
proof -
  have honest: "honest E" using assms(2) by (simp add: honest_def calmD)
  from spec_serve [OF assms(1) honest assms(3)] have "spec (crash_safe (outcomes E pr req d)) (swDisk (fresh_world d)) (serve E pr req) (request_answer E pr req d)"
    by (simp add: fresh_world_def)
  from specD [OF this assms(5)] have answer: "request_answer E pr req d r (swDisk w)" by blast
  show ?thesis
  proof (cases "effect E pr req (state_of d)")
    case (Inl e)
    then have "r \<noteq> Inr ()" "state_of (swDisk w) = state_of d"
      using answer by (auto simp: request_answer_def crash_safe_def outcomes_def state_of_def)
    then have "(\<exists>e. r = Inl e) \<and> state_of (swDisk w) = state_of d" by (cases r) auto
    with Inl calm_refusal_settled [OF assms(1,2,4) Inl] assms(5) show ?thesis by simp
  next
    case (Inr s)
    with calm_serves [OF assms(1,2,4) Inr] assms(5) answer show ?thesis by (simp add: request_answer_def)
  qed
qed

text \<open>
  C40: Deleting a key that is not stored answers the opaque internal error, not the missing key the specification answers:
  the key's file is read before its row is looked up.
\<close>

theorem unknown_key_deletion:
  assumes "settled d" and "calm E" and "config_readable d (PrincipalDirName pr)" and "validSSHKeyName name"
    and "GetKey (dkTables d) (PrincipalDirName pr) name = None"
  shows "\<exists>e. fst (run_state (service_deleteSSHKey E pr name) (fresh_world d)) = Inl e
    \<and> For e = APIError ''internal_error'' ''internal error'' 500 \<and> effect E pr (DeleteKeyOf name) (state_of d) = Inl errSSHKeyNotFound"
proof -
  have w: "swDisk (fresh_world d) = d" by (simp add: fresh_world_def)
  have "bytes d (PrincipalDirName pr) name = None"
    using recoverable_key [of d name "PrincipalDirName pr"] assms(1,4,5) by (simp add: settled_def key_recoverable_def)
  with calm_delete_missing(1) [OF assms(2), of "fresh_world d" "PrincipalDirName pr" name] assms(3,4) w
  have "fst (run_state (service_deleteSSHKey E pr name) (fresh_world d)) = Inl (missing (key_file (PrincipalDirName pr) name))"
    by (simp add: service_deleteSSHKey_def)
  with assms(4,5) show ?thesis by (simp add: missing_def For_def delete_key_rows_def keyMetadata_def state_of_def Let_def)
qed

section \<open>Witnesses\<close>

definition quiet_env :: ssh_env where
  "quiet_env =
     \<lparr>sePrincipalDir = ''/state'', seFault = \<lambda>_. None, seSync = \<lambda>_. None, seLock = \<lambda>_. None, seBegin = \<lambda>_. None, seQuery = \<lambda>_. None,
      seCommit = \<lambda>_. None, seRollback = \<lambda>_. None, seParse = \<lambda>_. Signer ''ssh-ed25519'' ''SHA256:0''\<rparr>"

definition empty_disk :: disk where
  "empty_disk = \<lparr>dkTables = \<lparr>stHosts = [], stKeys = []\<rparr>, dkFiles = [], dkDirs = [[]]\<rparr>"

definition sample_owner :: Principal where
  "sample_owner = \<lparr>Subject = ''alice'', Tenant = ''example''\<rparr>"

definition sample_row :: keyRow where
  "sample_row = \<lparr>krPrincipal = PrincipalDirName sample_owner, krName = ''laptop'', krType = ''ssh-ed25519'', krFingerprint = ''SHA256:0''\<rparr>"

lemma quiet_env_calm: "calm quiet_env"
  by (simp add: calm_def quiet_env_def)

lemma quiet_env_honest: "honest quiet_env"
  by (simp add: honest_def quiet_env_def)

lemma empty_disk_settled: "settled empty_disk"
  by (simp add: settled_def recoverable_def tables_ok_def placed_def key_recoverable_def tidy_def GetKey_def empty_disk_def)

lemma laptop_key: "validSSHKeyName ''laptop''" "trim_space ''laptop'' = ''laptop''" "trim_line_ends ''KEY'' @ [nl] = ''KEY'' @ [nl]"
  by code_simp+

lemma staged_in_history:
  "put_staged empty_disk sample_row (''KEY'' @ [nl]) \<in>
     set (swHistory (snd (run_state (serve quiet_env sample_owner (WriteKey ''laptop'' ''KEY'')) (fresh_world empty_disk))))"
  by (simp add: laptop_key writeSSHKey_def putSSHKey_def InspectPrivateKey_def Let_def unit_answer_def s_attempt_def s_locked_def s_ask_def
      s_query_def s_disk_def s_change_def s_try_def done_of_def os_lstat_def EnsurePrivateDir_def ReplaceFile_def SyncDir_def os_rename_def
      quiet_env_def empty_disk_def fresh_world_def keyMetadata_def GetKey_def InsertKey_def put_staged_def ensured_def sample_row_def key_file_def)


theorem serve_refines_witness:
  "\<exists>r w. run_state (serve quiet_env sample_owner (WriteKey ''laptop'' ''KEY'')) (fresh_world empty_disk) = (r, w)
     \<and> settled (swDisk w) \<and> r = Inr ()"
proof -
  obtain r w where run: "run_state (serve quiet_env sample_owner (WriteKey ''laptop'' ''KEY'')) (fresh_world empty_disk) = (r, w)" by fastforce
  have "config_readable empty_disk (PrincipalDirName sample_owner)" by (simp add: config_readable_def empty_disk_def)
  from serve_refines [OF empty_disk_settled quiet_env_calm _ this run] have "settled (swDisk w) \<and> r = Inr ()"
    by (simp add: request_bounded_def max_key_bytes_def laptop_key InspectPrivateKey_def InsertKey_def GetKey_def state_of_def Let_def
        quiet_env_def empty_disk_def)
  with run show ?thesis by blast
qed

theorem unknown_key_deletion_witness:
  "\<exists>e. fst (run_state (service_deleteSSHKey quiet_env sample_owner ''laptop'') (fresh_world empty_disk)) = Inl e
     \<and> For e = APIError ''internal_error'' ''internal error'' 500"
  using unknown_key_deletion [OF empty_disk_settled quiet_env_calm _ laptop_key(1), of sample_owner]
  by (auto simp: config_readable_def empty_disk_def GetKey_def)

end
