(* ===== verification/GoUrl.thy ===== *)
theory GoUrl
  imports Security
begin

text \<open>
  \<^verbatim>\<open>url.Parse\<close> of \<^verbatim>\<open>net/url\<close> on byte strings: scheme, authority, path, query and fragment, with the errors that make it
  refuse a reference, and \<^verbatim>\<open>URL.String\<close> of a URL with a host, no user and no fragment. IPv6 zones are not kept.
\<close>

section \<open>Escapes\<close>

definition hex_pair :: "char \<Rightarrow> char \<Rightarrow> char option" where
  "hex_pair a b =
     (case (hex_val a, hex_val b) of
        (Some h, Some l) \<Rightarrow> Some (char_of (16 * h + l))
      | _ \<Rightarrow> None)"

text \<open>The bytes a host may hold as they are, and the rule for escapes in it: only bytes above \<open>0x7F\<close>, and \<^verbatim>\<open>%25\<close>.\<close>

definition host_byte :: "char \<Rightarrow> bool" where
  "host_byte c \<longleftrightarrow> is_alnum c \<or> c \<in> set ''-_.~!$&'' \<or> c \<in> set [CHR 0x27] \<or> c \<in> set ''()*+,;=:[]<>'' \<or> c = CHR 0x22
     \<or> 128 \<le> (of_char c :: nat)"

definition host_kept :: "char \<Rightarrow> bool" where
  "host_kept c \<longleftrightarrow> host_byte c \<and> (of_char c :: nat) < 128"

definition hex_upper :: "nat \<Rightarrow> char" where
  "hex_upper d = (if d < 10 then digit_char d else char_of (55 + d))"

fun unescape_host :: "string \<Rightarrow> string option" where
  "unescape_host [] = Some []"
| "unescape_host (c # s) =
     (if c = CHR ''%'' then
        (case s of
           a # b # t \<Rightarrow>
             (case (hex_val a, hex_pair a b) of
                (Some h, Some x) \<Rightarrow>
                  if h < 8 \<and> (a \<noteq> CHR ''2'' \<or> b \<noteq> CHR ''5'') then None else map_option ((#) x) (unescape_host t)
              | _ \<Rightarrow> None)
         | _ \<Rightarrow> None)
      else if host_byte c then map_option ((#) c) (unescape_host s)
      else None)"

text \<open>\<^verbatim>\<open>unescape\<close> of a path, a user name or a fragment.\<close>

fun unescape_path :: "string \<Rightarrow> string option" where
  "unescape_path [] = Some []"
| "unescape_path (c # s) =
     (if c = CHR ''%'' then
        (case s of
           a # b # t \<Rightarrow> (case hex_pair a b of None \<Rightarrow> None | Some x \<Rightarrow> map_option ((#) x) (unescape_path t))
         | _ \<Rightarrow> None)
      else map_option ((#) c) (unescape_path s))"

section \<open>References\<close>

record url =
  uScheme :: string
  uOpaque :: string
  uUser :: "string option"
  uHost :: string
  uPath :: string
  uRawPath :: string
  uForceQuery :: bool
  uQuery :: string
  uFragment :: string

text \<open>\<^verbatim>\<open>escape\<close> of a path and of a host; \<^verbatim>\<open>setPath\<close> keeps the escaped form when it is not the usual one.\<close>

definition path_byte :: "char \<Rightarrow> bool" where
  "path_byte c \<longleftrightarrow> is_alnum c \<or> c \<in> set ''-_.~$&+,/:;=@''"

definition percent :: "char \<Rightarrow> string" where
  "percent c = [CHR ''%'', hex_upper (of_char c div 16), hex_upper (of_char c mod 16)]"

definition escape :: "(char \<Rightarrow> bool) \<Rightarrow> string \<Rightarrow> string" where
  "escape keep s = concat (map (\<lambda>c. if keep c then [c] else percent c) s)"

definition set_path :: "string \<Rightarrow> url \<Rightarrow> url option" where
  "set_path raw u =
     (case unescape_path raw of
        None \<Rightarrow> None
      | Some p \<Rightarrow> Some (u\<lparr>uPath := p, uRawPath := (if raw = escape path_byte p then [] else raw)\<rparr>))"

definition valid_encoded :: "string \<Rightarrow> bool" where
  "valid_encoded s = list_all (\<lambda>c. c \<in> set ''!()*[]%'' \<or> c = CHR 0x27 \<or> path_byte c) s"

definition EscapedPath :: "url \<Rightarrow> string" where
  "EscapedPath u =
     (if uRawPath u \<noteq> [] \<and> valid_encoded (uRawPath u) \<and> unescape_path (uRawPath u) = Some (uPath u) then uRawPath u
      else if uPath u = ''*'' then ''*''
      else escape path_byte (uPath u))"

text \<open>\<^verbatim>\<open>URL.String\<close>, where there is a host, no user and no fragment.\<close>

definition url_string :: "url \<Rightarrow> string" where
  "url_string u =
     (if uScheme u = [] then [] else uScheme u @ '':'')
     @ (if uOpaque u \<noteq> [] then uOpaque u
        else ''//'' @ escape host_kept (uHost u)
          @ (if EscapedPath u \<noteq> [] \<and> \<not> has_prefix (EscapedPath u) ''/'' then ''/'' else []) @ EscapedPath u)
     @ (if uForceQuery u \<or> uQuery u \<noteq> [] then CHR ''?'' # uQuery u else [])"

definition scheme_byte :: "char \<Rightarrow> bool" where
  "scheme_byte c \<longleftrightarrow> is_alnum c \<or> c \<in> set ''+-.''"

text \<open>\<^verbatim>\<open>getScheme\<close>: the scheme and the rest, or an error for a reference that begins with a colon.\<close>

definition get_scheme :: "string \<Rightarrow> (string \<times> string) option" where
  "get_scheme raw =
     (let scheme = takeWhile scheme_byte raw; rest = dropWhile scheme_byte raw
      in if raw \<noteq> [] \<and> hd raw = CHR '':'' then None
         else if scheme \<noteq> [] \<and> is_alpha (hd scheme) \<and> rest \<noteq> [] \<and> hd rest = CHR '':'' then Some (scheme, tl rest)
         else Some ([], raw))"

definition last_cut :: "char \<Rightarrow> string \<Rightarrow> (string \<times> string) option" where
  "last_cut c s =
     (if c \<in> set s then Some (rev (tl (dropWhile (\<lambda>x. x \<noteq> c) (rev s))), rev (takeWhile (\<lambda>x. x \<noteq> c) (rev s))) else None)"

text \<open>\<^verbatim>\<open>parseHost\<close>: a host has at most one colon, before its port, unless it is an address in brackets, which is kept as it is.\<close>

definition parse_url_host :: "string \<Rightarrow> string option" where
  "parse_url_host host =
     (if CHR ''['' \<in> set (tl host) then None
      else if has_prefix host ''['' then
        (case last_cut CHR '']'' host of
           None \<Rightarrow> None
         | Some (_, port) \<Rightarrow>
             if port = [] \<or> hd port = CHR '':'' \<and> list_all is_digit (tl port) then unescape_host host else None)
      else
        (case split_on CHR '':'' host of
           [_] \<Rightarrow> unescape_host host
         | [_, port] \<Rightarrow> if list_all is_digit port then unescape_host host else None
         | _ \<Rightarrow> None))"

definition user_byte :: "char \<Rightarrow> bool" where
  "user_byte c \<longleftrightarrow> is_alnum c \<or> c \<in> set ''-._:~!$&'' \<or> c = CHR 0x27 \<or> c \<in> set ''()*+,;=%@''"

definition parse_authority :: "string \<Rightarrow> (string option \<times> string) option" where
  "parse_authority authority =
     (case last_cut CHR ''@'' authority of
        None \<Rightarrow> map_option (Pair None) (parse_url_host authority)
      | Some (user, host) \<Rightarrow>
          if list_all user_byte user \<and> unescape_path user \<noteq> None then map_option (Pair (Some user)) (parse_url_host host)
          else None)"

definition parse_reference :: "string \<Rightarrow> url option" where
  "parse_reference raw =
     (if list_ex (\<lambda>c. of_char c < (32 :: nat) \<or> of_char c = (127 :: nat)) raw then None
      else if raw = ''*'' then
        Some \<lparr>uScheme = [], uOpaque = [], uUser = None, uHost = [], uPath = ''*'', uRawPath = [], uForceQuery = False, uQuery = [], uFragment = []\<rparr>
      else
        (case get_scheme raw of
           None \<Rightarrow> None
         | Some (scheme, afterScheme) \<Rightarrow>
             (let (rest, query, force) =
                    (case cut afterScheme ''?'' of None \<Rightarrow> (afterScheme, [], False) | Some (r, q) \<Rightarrow> (r, q, q = []));
                  base = \<lparr>uScheme = to_lower scheme, uOpaque = [], uUser = None, uHost = [], uPath = [], uRawPath = [],
                          uForceQuery = force, uQuery = query, uFragment = []\<rparr>
              in if \<not> has_prefix rest ''/'' \<and> scheme \<noteq> [] then Some (base\<lparr>uOpaque := rest\<rparr>)
                 else if \<not> has_prefix rest ''/'' \<and> CHR '':'' \<in> set (hd (split_on CHR ''/'' rest)) then None
                 else if (scheme \<noteq> [] \<or> \<not> has_prefix rest ''///'') \<and> has_prefix rest ''//'' then
                   (case parse_authority (takeWhile (\<lambda>c. c \<noteq> CHR ''/'') (drop 2 rest)) of
                      None \<Rightarrow> None
                    | Some (user, host) \<Rightarrow>
                        set_path (dropWhile (\<lambda>c. c \<noteq> CHR ''/'') (drop 2 rest)) (base\<lparr>uUser := user, uHost := host\<rparr>))
                 else set_path rest base)))"

definition url_parse :: "string \<Rightarrow> url option" where
  "url_parse raw =
     (case cut raw ''#'' of
        None \<Rightarrow> parse_reference raw
      | Some (reference, fragment) \<Rightarrow>
          (case parse_reference reference of
             None \<Rightarrow> None
           | Some u \<Rightarrow>
               if fragment = [] then Some u
               else map_option (\<lambda>f. u\<lparr>uFragment := f\<rparr>) (unescape_path fragment)))"

section \<open>Addresses\<close>

text \<open>\<^verbatim>\<open>URL.Hostname\<close>: the host without its port and without the brackets of an address.\<close>

definition Hostname :: "url \<Rightarrow> string" where
  "Hostname u =
     (let host = (case last_cut CHR '':'' (uHost u) of
                    Some (h, port) \<Rightarrow> if list_all is_digit port then h else uHost u
                  | None \<Rightarrow> uHost u)
      in if has_prefix host ''['' \<and> has_suffix host '']'' then butlast (tl host) else host)"

text \<open>\<^verbatim>\<open>net.ParseIP\<close>: an address as its eight groups, an IPv4 address in its mapped form. A zone is refused.\<close>

definition parse_octet :: "string \<Rightarrow> nat option" where
  "parse_octet s =
     (if all_digits s \<and> length s \<le> 3 \<and> (length s = 1 \<or> hd s \<noteq> CHR ''0'') \<and> digits_val s \<le> 255 then Some (digits_val s) else None)"

definition parse_ipv4 :: "string \<Rightarrow> (nat \<times> nat) option" where
  "parse_ipv4 s =
     (case map parse_octet (split_on CHR ''.'' s) of
        [Some a, Some b, Some c, Some d] \<Rightarrow> Some (256 * a + b, 256 * c + d)
      | _ \<Rightarrow> None)"

definition parse_group :: "string \<Rightarrow> nat option" where
  "parse_group s =
     (if s = [] \<or> 4 < length s then None
      else foldl (\<lambda>acc c. case (acc, hex_val c) of (Some n, Some h) \<Rightarrow> Some (16 * n + h) | _ \<Rightarrow> None) (Some 0) s)"

fun parse_groups :: "string list \<Rightarrow> nat list option" where
  "parse_groups [] = Some []"
| "parse_groups [s] =
     (if CHR ''.'' \<in> set s then map_option (\<lambda>(x, y). [x, y]) (parse_ipv4 s) else map_option (\<lambda>x. [x]) (parse_group s))"
| "parse_groups (s # ss) =
     (case parse_group s of None \<Rightarrow> None | Some x \<Rightarrow> map_option ((#) x) (parse_groups ss))"

definition address_groups :: "string \<Rightarrow> nat list option" where
  "address_groups s = (if s = [] then Some [] else parse_groups (split_on CHR '':'' s))"

definition parse_ipv6 :: "string \<Rightarrow> nat list option" where
  "parse_ipv6 s =
     (case cut s ''::'' of
        None \<Rightarrow> (case address_groups s of Some gs \<Rightarrow> if length gs = 8 then Some gs else None | None \<Rightarrow> None)
      | Some (l, r) \<Rightarrow>
          if CHR ''.'' \<in> set l then None
          else (case (address_groups l, address_groups r) of
                  (Some ls, Some rs) \<Rightarrow>
                    if length ls + length rs < 8 then Some (ls @ replicate (8 - length ls - length rs) 0 @ rs) else None
                | _ \<Rightarrow> None))"

definition ParseIP :: "string \<Rightarrow> nat list option" where
  "ParseIP s =
     (case dropWhile (\<lambda>c. c \<notin> set ''.:%'') s of
        [] \<Rightarrow> None
      | c # _ \<Rightarrow>
          if c = CHR ''.'' then map_option (\<lambda>(x, y). [0, 0, 0, 0, 0, 0xFFFF, x, y]) (parse_ipv4 s)
          else if c = CHR '':'' then parse_ipv6 s
          else None)"

definition IsLoopback :: "nat list \<Rightarrow> bool" where
  "IsLoopback gs \<longleftrightarrow>
     (if take 6 gs = [0, 0, 0, 0, 0, 0xFFFF] then (gs ! 6) div 256 = 127 else gs = [0, 0, 0, 0, 0, 0, 0, 1])"

end
