(* ===== verification/Router.thy ===== *)
theory Router
  imports GoUrl
begin

text \<open>
  \<^verbatim>\<open>internal/router\<close> and the handler shapes of \<^verbatim>\<open>internal/security/api.go\<close>: requests, the route registry over
  \<^verbatim>\<open>http.ServeMux\<close>, dispatch by method, and the answers a handler writes.
\<close>

section \<open>Requests and answers\<close>

type_synonym header = "(string \<times> string list) list"

record http_request =
  rqMethod :: string
  rqRequestURI :: string
  rqPath :: string
  rqEscapedPath :: string
  rqHeader :: header
  rqBody :: string
  rqContext :: "Principal option"

definition header_values :: "header \<Rightarrow> string \<Rightarrow> string list" where
  "header_values h key = (case alookup h key of None \<Rightarrow> [] | Some vs \<Rightarrow> vs)"

definition header_get :: "header \<Rightarrow> string \<Rightarrow> string" where
  "header_get h key = (case header_values h key of [] \<Rightarrow> [] | v # _ \<Rightarrow> v)"

definition header_set :: "string \<Rightarrow> string \<Rightarrow> header \<Rightarrow> header" where
  "header_set key v h = aput key [v] h"

definition header_add :: "string \<Rightarrow> string \<Rightarrow> header \<Rightarrow> header" where
  "header_add key v h = aput key (header_values h key @ [v]) h"

definition header_del :: "string \<Rightarrow> header \<Rightarrow> header" where
  "header_del key h = adel key h"

definition WithPrincipal :: "http_request \<Rightarrow> Principal \<Rightarrow> http_request" where
  "WithPrincipal request pr = request\<lparr>rqContext := Some pr\<rparr>"

text \<open>What a handler writes; an error is answered in its classified form.\<close>

datatype 'a reply =
    ErrorReply go_error
  | JSONReply nat 'a
  | CreatedReply string 'a
  | NoContentReply

definition WriteError :: "go_error \<Rightarrow> 'a reply" where
  "WriteError e = ErrorReply (For e)"

definition asPrincipal :: "(Principal \<Rightarrow> http_request \<Rightarrow> 'a res) \<Rightarrow> ('a \<Rightarrow> 'a reply) \<Rightarrow> http_request \<Rightarrow> 'a reply" where
  "asPrincipal produce respond request =
     (case PrincipalFromContext (rqContext request) of
        Inl e \<Rightarrow> WriteError e
      | Inr pr \<Rightarrow> (case produce pr request of Inl e \<Rightarrow> WriteError e | Inr v \<Rightarrow> respond v))"

definition AnswerAsPrincipal :: "nat \<Rightarrow> (Principal \<Rightarrow> http_request \<Rightarrow> 'a res) \<Rightarrow> http_request \<Rightarrow> 'a reply" where
  "AnswerAsPrincipal status produce = asPrincipal produce (JSONReply status)"

definition CreatedAsPrincipal :: "('a \<Rightarrow> string) \<Rightarrow> (Principal \<Rightarrow> http_request \<Rightarrow> 'a res) \<Rightarrow> http_request \<Rightarrow> 'a reply" where
  "CreatedAsPrincipal location produce = asPrincipal produce (\<lambda>v. CreatedReply (location v) v)"

definition NoContentAsPrincipal :: "(Principal \<Rightarrow> http_request \<Rightarrow> unit res) \<Rightarrow> http_request \<Rightarrow> unit reply" where
  "NoContentAsPrincipal act = asPrincipal act (\<lambda>_. NoContentReply)"

definition maxRequestBody :: nat where "maxRequestBody = 65536"

text \<open>\<^verbatim>\<open>DecodeStrict\<close> is the strict decoding of \<^verbatim>\<open>encoding/json\<close> into the wire type, without unknown fields and trailing data.\<close>

definition DecodeJSON :: "(string \<Rightarrow> 'a option) \<Rightarrow> http_request \<Rightarrow> 'a res" where
  "DecodeJSON decodeStrict request =
     (let data = take (maxRequestBody + 1) (rqBody request)
      in (case (if maxRequestBody < length data then None else decodeStrict data) of
            None \<Rightarrow> Inl (APIError ''invalid_json'' ''request body is invalid'' 400)
          | Some v \<Rightarrow> Inr v))"

section \<open>Patterns of \<^verbatim>\<open>http.ServeMux\<close>\<close>

text \<open>The patterns the subsystems register: literal segments and single wildcards. \<^verbatim>\<open>/\<close> is the fallback of the registry.\<close>

datatype pattern_segment = Literal string | Wildcard string

definition pattern_segment :: "string \<Rightarrow> pattern_segment" where
  "pattern_segment s =
     (if has_prefix s ''{'' \<and> has_suffix s ''}'' then Wildcard (butlast (tl s)) else Literal s)"

definition pattern_segments :: "string \<Rightarrow> pattern_segment list" where
  "pattern_segments p = map pattern_segment (split_on CHR ''/'' (tl p))"

definition wildcard_name :: "string \<Rightarrow> bool" where
  "wildcard_name s \<longleftrightarrow> s \<noteq> [] \<and> list_all (\<lambda>c. is_alnum c \<or> c = CHR ''_'') s \<and> \<not> is_digit (hd s)"

fun segment_ok :: "pattern_segment \<Rightarrow> bool" where
  "segment_ok (Literal s) \<longleftrightarrow> s \<noteq> [] \<and> list_all (\<lambda>c. c \<notin> set ''{}%'') s"
| "segment_ok (Wildcard s) \<longleftrightarrow> wildcard_name s"

definition simple_pattern :: "string \<Rightarrow> bool" where
  "simple_pattern p \<longleftrightarrow> has_prefix p ''/'' \<and> list_all segment_ok (pattern_segments p)"

text \<open>Two patterns conflict when they overlap and neither is more specific: registering both panics.\<close>

fun segment_covers :: "pattern_segment \<Rightarrow> pattern_segment \<Rightarrow> bool" where
  "segment_covers (Wildcard _) _ \<longleftrightarrow> True"
| "segment_covers (Literal s) (Literal t) \<longleftrightarrow> s = t"
| "segment_covers (Literal s) (Wildcard _) \<longleftrightarrow> False"

definition patterns_conflict :: "string \<Rightarrow> string \<Rightarrow> bool" where
  "patterns_conflict p q \<longleftrightarrow>
     (let ps = pattern_segments p; qs = pattern_segments q
      in length ps = length qs \<and> list_all2 (\<lambda>a b. segment_covers a b \<or> segment_covers b a) ps qs
         \<and> list_all2 segment_covers ps qs = list_all2 segment_covers qs ps)"

text \<open>\<^verbatim>\<open>firstSegment\<close>: the segments of a path, unescaped; a trailing slash is a segment of its own.\<close>

definition path_unescape :: "string \<Rightarrow> string" where
  "path_unescape s = (case unescape_path s of None \<Rightarrow> s | Some t \<Rightarrow> t)"

function path_segments :: "string \<Rightarrow> string list" where
  "path_segments p =
     (if p = [] then []
      else if p = ''/'' then [''/'']
      else path_unescape (takeWhile (\<lambda>c. c \<noteq> CHR ''/'') (tl p)) # path_segments (dropWhile (\<lambda>c. c \<noteq> CHR ''/'') (tl p)))"
  by pat_completeness auto
termination
  by (relation "measure length") (auto simp: neq_Nil_conv le_imp_less_Suc length_dropWhile_le)

declare path_segments.simps [simp del]

text \<open>\<^verbatim>\<open>routingNode.matchPath\<close>: a literal before a wildcard, with backtracking. An empty segment finds the wildcard's child.\<close>

definition literal_children :: "string \<Rightarrow> (pattern_segment list \<times> string) list \<Rightarrow> (pattern_segment list \<times> string) list" where
  "literal_children s ps = List.map_filter (\<lambda>(segs, p). case segs of
       Literal l # t \<Rightarrow> if l = s \<and> s \<noteq> [] then Some (t, p) else None
     | Wildcard _ # t \<Rightarrow> if s = [] then Some (t, p) else None
     | [] \<Rightarrow> None) ps"

definition wildcard_children :: "(pattern_segment list \<times> string) list \<Rightarrow> (pattern_segment list \<times> string) list" where
  "wildcard_children ps = List.map_filter (\<lambda>(segs, p). case segs of Wildcard _ # t \<Rightarrow> Some (t, p) | _ \<Rightarrow> None) ps"

fun mux_match :: "(pattern_segment list \<times> string) list \<Rightarrow> string list \<Rightarrow> (string \<times> string list) option" where
  "mux_match ps [] = (case find (\<lambda>(segs, p). segs = []) ps of None \<Rightarrow> None | Some (_, p) \<Rightarrow> Some (p, []))"
| "mux_match ps (s # ss) =
     (case mux_match (literal_children s ps) ss of
        Some r \<Rightarrow> Some r
      | None \<Rightarrow>
          if s = ''/'' then None
          else map_option (\<lambda>(p, vs). (p, s # vs)) (mux_match (wildcard_children ps) ss))"

definition cleanPath :: "string \<Rightarrow> string" where
  "cleanPath raw =
     (if raw = [] then ''/''
      else (let p = (if hd raw = CHR ''/'' then raw else CHR ''/'' # raw); np = path_clean p
            in if last p = CHR ''/'' \<and> np \<noteq> ''/'' then np @ ''/'' else np))"

section \<open>The registry\<close>

type_synonym 'h Routes = "(string \<times> (string \<times> 'h) list) list"

record 'h Registry =
  rgRoutes :: "'h Routes"

definition ErrNotFound :: go_error where
  "ErrNotFound = APIError ''not_found'' ''route not found'' 404"

definition errMethodNotAllowed :: go_error where
  "errMethodNotAllowed = APIError ''method_not_allowed'' ''method not allowed'' 405"

text \<open>
  \<^verbatim>\<open>New\<close>: \<open>None\<close> is a panic of \<^verbatim>\<open>mux.Handle\<close>, on a pattern that conflicts or is of no form the subsystems use.
\<close>

fun register_methods :: "string \<Rightarrow> (string \<times> 'h) list \<Rightarrow> (string \<times> 'h) list \<Rightarrow> (string \<times> 'h) list res" where
  "register_methods p registered [] = Inr registered"
| "register_methods p registered ((method, handler) # rest) =
     (if alookup registered method \<noteq> None then
        Inl (Plain (''route '' @ method @ '' '' @ p @ '' is registered twice''))
      else register_methods p (registered @ [(method, handler)]) rest)"

fun register_routes :: "'h Routes \<Rightarrow> 'h Routes \<Rightarrow> 'h Routes res option" where
  "register_routes routes [] = Some (Inr routes)"
| "register_routes routes ((p, handlers) # rest) =
     (if alookup routes p = None \<and> (\<not> simple_pattern p \<or> list_ex (\<lambda>(q, _). patterns_conflict p q) routes) then None
      else (case register_methods p (case alookup routes p of None \<Rightarrow> [] | Some hs \<Rightarrow> hs) handlers of
              Inl e \<Rightarrow> Some (Inl e)
            | Inr hs \<Rightarrow> register_routes (aput p hs routes) rest))"

definition New :: "'h Routes list \<Rightarrow> 'h Registry res option" where
  "New tables =
     (case register_routes [] (concat tables) of
        None \<Rightarrow> None
      | Some (Inl e) \<Rightarrow> Some (Inl e)
      | Some (Inr routes) \<Rightarrow> Some (Inr \<lparr>rgRoutes = routes\<rparr>))"

text \<open>
  \<^verbatim>\<open>mux.Handler\<close>: whether the answer is a redirect to the clean path, and the pattern with the values of its wildcards.
  No pattern is the fallback. A \<^verbatim>\<open>CONNECT\<close> request is matched as it is.
\<close>

definition mux_handler :: "'h Registry \<Rightarrow> http_request \<Rightarrow> bool \<times> (string \<times> string list) option" where
  "mux_handler r request =
     (let ps = map (\<lambda>(p, _). (pattern_segments p, p)) (rgRoutes r); escaped = rqEscapedPath request
      in if rqMethod request = ''CONNECT'' then
           (if escaped = [] then (True, None) else (False, mux_match ps (path_segments escaped)))
         else (cleanPath escaped \<noteq> escaped, mux_match ps (path_segments (cleanPath escaped))))"

definition Methods :: "'h Registry \<Rightarrow> http_request \<Rightarrow> string list option" where
  "Methods r request =
     (case mux_handler r request of
        (_, None) \<Rightarrow> None
      | (_, Some (p, _)) \<Rightarrow> map_option (\<lambda>handlers. sort (map fst handlers)) (alookup (rgRoutes r) p))"

text \<open>What serving a request comes to: a handler with the pattern and values it was found by, or an answer; \<open>Granted\<close> is the empty answer to a preflight.\<close>

datatype 'h served =
    Dispatched 'h string "string list" http_request
  | Refused go_error
  | NotAllowed "string list"
  | Granted
  | Redirected
  | BadRequest

definition route :: "(string \<times> 'h) list \<Rightarrow> string \<Rightarrow> string list \<Rightarrow> http_request \<Rightarrow> 'h served" where
  "route handlers p values request =
     (case alookup handlers (rqMethod request) of
        None \<Rightarrow> NotAllowed (sort (map fst handlers))
      | Some handler \<Rightarrow> Dispatched handler p values request)"

definition registry_ServeHTTP :: "'h Registry \<Rightarrow> http_request \<Rightarrow> 'h served" where
  "registry_ServeHTTP r request =
     (if rqRequestURI request = ''*'' then BadRequest
      else (case mux_handler r request of
              (True, _) \<Rightarrow> Redirected
            | (False, None) \<Rightarrow> Refused ErrNotFound
            | (False, Some (p, values)) \<Rightarrow>
                (case alookup (rgRoutes r) p of
                   None \<Rightarrow> Refused ErrNotFound
                 | Some handlers \<Rightarrow> route handlers p values request)))"

end
