(* ===== verification/Boundary.thy ===== *)
theory Boundary
  imports Router SessionTunnel
begin

text \<open>
  \<^verbatim>\<open>subsystems/oauth/middleware.go\<close>: the origin policy, preflight, the two bearer channels and the principal a handler
  is given.
\<close>

section \<open>Credentials of a request\<close>

definition ErrOriginNotAllowed :: go_error where
  "ErrOriginNotAllowed = APIError ''origin_not_allowed'' ''origin is not allowed'' 403"

definition webSocketBearerPrefix :: string where "webSocketBearerPrefix = ''bearer.''"

definition maxWebSocketCredentialProtocolBytes :: nat where
  "maxWebSocketCredentialProtocolBytes = (MaxCredentialBytes * 8 + 5) div 6"

record ('w, 'h) oauthBoundary =
  obNext :: "'h Registry"
  obValidate :: "string \<Rightarrow> ('w, Principal res) state"
  obOrigins :: Origins
  obPublicPaths :: "string list"
  obBrowserPaths :: "string list"

definition preflightHeadersAllowed :: "string \<Rightarrow> string list \<Rightarrow> bool" where
  "preflightHeadersAllowed raw allowed =
     list_all (\<lambda>h. let header = trim_space h in header = [] \<or> list_ex (equal_fold header) allowed) (split_on CHR '','' raw)"

definition controlWebSocketRoute :: "http_request \<Rightarrow> bool" where
  "controlWebSocketRoute request =
     (let prefix = ''/api/v1/hosts/''; segments = split_on CHR ''/'' (trim_prefix (rqPath request) prefix)
      in if rqMethod request \<noteq> ''GET'' \<or> rqEscapedPath request \<noteq> rqPath request then False
         else if \<not> has_prefix (rqPath request) prefix then False
         else length segments = 2 \<and> segments ! 1 = ''ssh'' \<and> ValidAlias (segments ! 0))"

text \<open>The protocols offered over all header lines, unless one is empty.\<close>

definition offered_protocols :: "string list \<Rightarrow> string list option" where
  "offered_protocols values =
     (let candidates = map trim_space (concat (map (split_on CHR '','') values))
      in if [] \<in> set candidates then None else Some candidates)"

text \<open>The loop over the protocols: the count of versions and of bearers, and the last bearer; \<open>None\<close> for any other protocol.\<close>

fun count_protocols :: "nat \<Rightarrow> nat \<Rightarrow> string \<Rightarrow> string list \<Rightarrow> (nat \<times> nat \<times> string) option" where
  "count_protocols versions bearers encoded [] = Some (versions, bearers, encoded)"
| "count_protocols versions bearers encoded (p # ps) =
     (if p = ControlWebSocketProtocol then count_protocols (versions + 1) bearers encoded ps
      else if has_prefix p webSocketBearerPrefix then
        count_protocols versions (bearers + 1) (trim_prefix p webSocketBearerPrefix) ps
      else None)"

text \<open>The token with the request that goes on without it, or the status of the refusal.\<close>

definition controlWebSocketAuthorization :: "http_request \<Rightarrow> nat + string \<times> http_request" where
  "controlWebSocketAuthorization request =
     (case offered_protocols (header_values (rqHeader request) ''Sec-WebSocket-Protocol'') of
        None \<Rightarrow> Inl 400
      | Some protocols \<Rightarrow>
          (case count_protocols 0 0 [] protocols of
             None \<Rightarrow> Inl 400
           | Some (versionCount, bearerCount, encoded) \<Rightarrow>
               if versionCount \<noteq> 1 \<or> bearerCount \<noteq> 1 \<or> length protocols \<noteq> 2 then Inl 400
               else if encoded = [] \<or> maxWebSocketCredentialProtocolBytes < length encoded then Inl 401
               else (case DecodeBase64URL encoded of
                       None \<Rightarrow> Inl 401
                     | Some decoded \<Rightarrow>
                         (let token = map char_of decoded
                          in if \<not> ValidCredential token then Inl 401
                             else Inr (token, request\<lparr>rqHeader :=
                               header_set ''Sec-WebSocket-Protocol'' ControlWebSocketProtocol
                                 (header_del ''Authorization'' (rqHeader request))\<rparr>)))))"

definition httpOAuthCredentials :: "header \<Rightarrow> string option" where
  "httpOAuthCredentials h =
     (if length (header_values h ''Authorization'') \<noteq> 1 then None
      else (case str_fields (header_get h ''Authorization'') of
              [scheme, token] \<Rightarrow> if equal_fold scheme ''Bearer'' \<and> ValidCredential token then Some token else None
            | _ \<Rightarrow> None))"

section \<open>The boundary\<close>

definition writeUnauthorized :: "header \<Rightarrow> header \<times> 'h served" where
  "writeUnauthorized out =
     (header_set ''WWW-Authenticate'' ''Bearer'' out, Refused (APIError ''unauthorized'' ''unauthorized'' 401))"

definition preflight :: "('w, 'h) oauthBoundary \<Rightarrow> http_request \<Rightarrow> bool \<Rightarrow> header \<Rightarrow> header \<times> 'h served" where
  "preflight b request public out =
     (let out = header_add ''Vary'' ''Access-Control-Request-Headers'' (header_add ''Vary'' ''Access-Control-Request-Method'' out)
      in (case Methods (obNext b) request of
            None \<Rightarrow> (out, Refused ErrNotFound)
          | Some methods \<Rightarrow>
              if header_get (rqHeader request) ''Access-Control-Request-Method'' \<notin> set methods then (out, NotAllowed methods)
              else
                (let (allowed, responseHeaders) =
                       (if public then ([''content-type''], ''Content-Type'')
                        else ([''authorization'', ''content-type'', ''if-none-match''], ''Authorization, Content-Type, If-None-Match''))
                 in if \<not> preflightHeadersAllowed (header_get (rqHeader request) ''Access-Control-Request-Headers'') allowed then
                      (out, Refused (APIError ''preflight_not_allowed'' ''preflight is not allowed'' 403))
                    else
                      (header_set ''Cache-Control'' ''no-store''
                         (header_set ''Access-Control-Allow-Headers'' responseHeaders
                           (header_set ''Access-Control-Allow-Methods'' (join '', '' methods) out)), Granted))))"

text \<open>The bearer of a protected request and the request that goes on, or the status that refuses it.\<close>

definition bearer :: "(http_request \<Rightarrow> bool) \<Rightarrow> http_request \<Rightarrow> nat + string \<times> http_request" where
  "bearer isUpgrade request =
     (if isUpgrade request \<and> controlWebSocketRoute request then controlWebSocketAuthorization request
      else (case httpOAuthCredentials (rqHeader request) of None \<Rightarrow> Inl 401 | Some token \<Rightarrow> Inr (token, request)))"

definition refused_identity :: "header \<Rightarrow> go_error \<Rightarrow> header \<times> 'h served" where
  "refused_identity out e =
     (let classified = For e
      in if error_code classified \<noteq> ''internal_error'' then
           (if error_status classified = 401 then header_set ''WWW-Authenticate'' ''Bearer'' out else out, Refused classified)
         else writeUnauthorized out)"

definition origin_headers :: "string \<Rightarrow> header" where
  "origin_headers origin =
     header_set ''Access-Control-Expose-Headers'' ''ETag, Location''
       (header_add ''Vary'' ''Origin'' (header_set ''Access-Control-Allow-Origin'' origin []))"

definition authenticated :: "(http_request \<Rightarrow> bool) \<Rightarrow> ('w, 'h) oauthBoundary \<Rightarrow> http_request \<Rightarrow> header \<Rightarrow> ('w, header \<times> 'h served) state" where
  "authenticated isUpgrade b request out =
     (case bearer isUpgrade request of
        Inl status \<Rightarrow>
          State_Monad.return
            (if status = 401 then writeUnauthorized out
             else (out, Refused (APIError ''invalid_websocket_auth'' ''WebSocket authentication is invalid'' status)))
      | Inr (token, forwarded) \<Rightarrow>
          do {
            validated \<leftarrow> obValidate b token;
            State_Monad.return
              (case validated of
                 Inl e \<Rightarrow> refused_identity out e
               | Inr pr \<Rightarrow> (out, registry_ServeHTTP (obNext b) (WithPrincipal forwarded pr)))
          })"

definition oauth_ServeHTTP :: "(http_request \<Rightarrow> bool) \<Rightarrow> ('w, 'h) oauthBoundary \<Rightarrow> http_request \<Rightarrow> ('w, header \<times> 'h served) state" where
  "oauth_ServeHTTP isUpgrade b request =
     (let public = rqEscapedPath request \<in> set (obPublicPaths b); browser = rqEscapedPath request \<in> set (obBrowserPaths b);
          origin = header_get (rqHeader request) ''Origin''; out = (if origin = [] then [] else origin_headers origin)
      in if origin \<noteq> [] \<and> \<not> Allowed (obOrigins b) origin then
           State_Monad.return ([], Refused ErrOriginNotAllowed)
         else if origin = [] \<and> browser then
           State_Monad.return ([], Refused (APIError ''origin_required'' ''browser origin is required'' 403))
         else if rqMethod request = ''OPTIONS'' \<and> origin \<noteq> [] \<and> header_get (rqHeader request) ''Access-Control-Request-Method'' \<noteq> [] then
           State_Monad.return (preflight b request public out)
         else if public then State_Monad.return (out, registry_ServeHTTP (obNext b) request)
         else authenticated isUpgrade b request out)"

section \<open>Matching of literal paths\<close>

lemma literal_children_set:
  "(segs, p) \<in> set (literal_children s ps) \<longleftrightarrow>
     (if s = [] then \<exists>w. (Wildcard w # segs, p) \<in> set ps else (Literal s # segs, p) \<in> set ps)"
  by (force simp: literal_children_def map_filter_def split: list.splits pattern_segment.splits if_splits)

lemma mux_match_literal:
  "[] \<notin> set ss \<Longrightarrow> (map Literal ss, p) \<in> set ps \<Longrightarrow>
     \<exists>q. mux_match ps ss = Some (q, []) \<and> (map Literal ss, q) \<in> set ps"
proof (induction ss arbitrary: ps)
  case Nil
  then have "find (\<lambda>(segs, p). segs = []) ps \<noteq> None" by (auto simp: find_None_iff)
  then obtain segs q where found: "find (\<lambda>(segs, p). segs = []) ps = Some (segs, q)" by fastforce
  then have "segs = []" and "(segs, q) \<in> set ps" by (auto simp: find_Some_iff in_set_conv_nth)
  with found show ?case by simp
next
  case (Cons s ss)
  then have "(map Literal ss, p) \<in> set (literal_children s ps)" by (auto simp: literal_children_set)
  from Cons.IH [OF _ this] Cons.prems(1) show ?case by (auto simp: literal_children_set)
qed

text \<open>A path that is its own pattern, every segment a literal.\<close>

definition exact_path :: "string \<Rightarrow> bool" where
  "exact_path p \<longleftrightarrow> pattern_segments p = map Literal (path_segments p) \<and> [] \<notin> set (path_segments p)"

lemma pattern_segment_Literal: "pattern_segment s = Literal t \<Longrightarrow> s = t"
  by (auto simp: pattern_segment_def split: if_splits)

lemma pattern_segments_exact:
  assumes "pattern_segments p = map Literal ss" and "pattern_segments q = map Literal ss" and "has_prefix p ''/''" and "has_prefix q ''/''"
  shows "p = q"
proof -
  have lit: "map pattern_segment xs = map Literal ys \<Longrightarrow> xs = ys" for xs ys
    by (induction xs arbitrary: ys) (auto dest: pattern_segment_Literal)
  from assms(1, 2) have "split_on CHR ''/'' (tl p) = split_on CHR ''/'' (tl q)"
    by (auto simp: pattern_segments_def dest!: lit)
  from arg_cong [OF this, of "join ''/''"] have "tl p = tl q" by (simp add: join_split_on)
  with assms(3, 4) show ?thesis by (auto simp: has_prefix_iff)
qed

section \<open>The registered routes\<close>

definition registered :: "'h Registry \<Rightarrow> bool" where
  "registered r \<longleftrightarrow> distinct (map fst (rgRoutes r)) \<and> (\<forall>p \<in> fst ` set (rgRoutes r). simple_pattern p)"

lemma register_routes_wf:
  assumes "register_routes routes table = Some (Inr routes')" and "distinct (map fst routes)" and "\<forall>p \<in> fst ` set routes. simple_pattern p"
  shows "distinct (map fst routes') \<and> (\<forall>p \<in> fst ` set routes'. simple_pattern p) \<and> fst ` set routes' = fst ` set routes \<union> fst ` set table"
  using assms
proof (induction routes table rule: register_routes.induct)
  case (2 routes p handlers rest)
  from "2.prems"(1) obtain hs where ok: "alookup routes p = None \<longrightarrow> simple_pattern p"
    and next': "register_routes (aput p hs routes) rest = Some (Inr routes')"
    and reg: "register_methods p (case alookup routes p of None \<Rightarrow> [] | Some hs \<Rightarrow> hs) handlers = Inr hs"
    by (auto split: if_splits sum.splits option.splits)
  have keys: "fst ` set (aput p hs routes) = insert p (fst ` set routes)"
    by (metis dom_map_of_conv_image_fst dom_fun_upd update_conv' option.distinct(1))
  have "simple_pattern p" using ok "2.prems"(3) by (cases "alookup routes p") (auto dest!: alookup_in_set)
  with "2.IH" [OF _ reg next'] "2.prems" keys show ?case
    by (auto split: if_splits)
qed simp

lemma New_registered:
  assumes "New tables = Some (Inr r)"
  shows "registered r" and "fst ` set (rgRoutes r) = fst ` set (concat tables)"
proof -
  from assms obtain routes where routes: "register_routes [] (concat tables) = Some (Inr routes)" and r: "r = \<lparr>rgRoutes = routes\<rparr>"
    by (auto simp: New_def split: option.splits sum.splits)
  have "distinct (map fst ([] :: 'a Routes))" and "\<forall>p \<in> fst ` set ([] :: 'a Routes). simple_pattern p" by simp_all
  note wf = register_routes_wf [OF routes this]
  from wf [THEN conjunct1] wf [THEN conjunct2, THEN conjunct1] r show "registered r" by (simp add: registered_def)
  from wf r show "fst ` set (rgRoutes r) = fst ` set (concat tables)" by simp
qed


lemma dispatch_exact:
  assumes "registered r" and "rqEscapedPath request \<in> fst ` set (rgRoutes r)" and "exact_path (rqEscapedPath request)"
    and "registry_ServeHTTP r request = Dispatched h p vs request'"
  shows "p = rqEscapedPath request"
proof -
  let ?path = "rqEscapedPath request" and ?ps = "map (\<lambda>(p, _). (pattern_segments p, p)) (rgRoutes r)"
  from assms(4) have handler: "mux_handler r request = (False, Some (p, vs))"
    by (auto simp: registry_ServeHTTP_def route_def split: if_splits prod.splits option.splits bool.splits)
  then have matched: "mux_match ?ps (path_segments ?path) = Some (p, vs)"
    by (auto simp: mux_handler_def Let_def split: if_splits)
  from assms(2, 3) have "(map Literal (path_segments ?path), ?path) \<in> set ?ps" by (force simp: exact_path_def)
  from mux_match_literal [OF _ this] assms(3) matched have "(map Literal (path_segments ?path), p) \<in> set ?ps"
    by (simp add: exact_path_def)
  with assms show ?thesis
    by (intro pattern_segments_exact [of p "path_segments ?path"]) (force simp: exact_path_def registered_def simple_pattern_def)+
qed

section \<open>The WebSocket channel\<close>

lemma sextet_bytes:
  fixes w x y z :: nat
  assumes "w < 64" "x < 64"
  shows "w * 4 + x div 16 < 256" "w mod 16 * 16 + x div 4 < 256" "w mod 4 * 64 + x < 256"
proof -
  from assms have "x div 16 < 4" "x div 4 < 16" by auto
  moreover have "w mod 16 < 16" "w mod 4 < 4" by simp_all
  ultimately show "w * 4 + x div 16 < 256" "w mod 16 * 16 + x div 4 < 256" "w mod 4 * 64 + x < 256" using assms by linarith+
qed

lemma b64_unsextets_lt: "b64_unsextets vs = Some bs \<Longrightarrow> \<forall>v \<in> set vs. v < 64 \<Longrightarrow> b \<in> set bs \<Longrightarrow> b < 256"
  by (induction vs arbitrary: bs b rule: b64_unsextets.induct) (auto simp: sextet_bytes split: if_splits)

lemma b64_val_lt: "b64_val c = Some v \<Longrightarrow> v < 64"
  by (auto simp: b64_val_def Let_def split: if_splits)

lemma DecodeBase64URL_bytes: "DecodeBase64URL s = Some d \<longleftrightarrow> s = b64_encode d \<and> (\<forall>b \<in> set d. b < 256)"
proof
  assume decoded: "DecodeBase64URL s = Some d"
  let ?vs = "map b64_val (filter (\<lambda>c. c \<noteq> nl \<and> c \<noteq> cr) s)"
  from decoded have enc: "s = b64_encode d" and dec: "b64_unsextets (map the ?vs) = Some d" and none: "None \<notin> set ?vs"
    by (auto simp: DecodeBase64URL_def b64_decode_def Let_def split: option.splits if_splits)
  have "v < 64" if "v \<in> set (map the ?vs)" for v
  proof -
    from that obtain o' where "o' \<in> set ?vs" and v: "v = the o'" by (metis (no_types, lifting) imageE set_map)
    with none have "o' = Some v" by (cases o') auto
    with \<open>o' \<in> set ?vs\<close> show ?thesis by (auto dest: b64_val_lt [OF sym])
  qed
  with b64_unsextets_lt [OF dec] enc show "s = b64_encode d \<and> (\<forall>b \<in> set d. b < 256)" by blast
qed (simp add: DecodeBase64URL_iff)

lemma length_b64_sextets: "length (b64_sextets bs) = (length bs * 8 + 5) div 6"
  by (induction bs rule: b64_sextets.induct) simp_all

lemma length_b64_encode: "length (b64_encode bs) = (length bs * 8 + 5) div 6"
  by (simp add: b64_encode_def length_b64_sextets)

lemma two_protocols:
  "(\<exists>protocols. ps = Some protocols \<and> count_protocols 0 0 [] protocols = Some (1, 1, e) \<and> length protocols = 2) \<longleftrightarrow>
     ps = Some [ControlWebSocketProtocol, webSocketBearerPrefix @ e] \<or> ps = Some [webSocketBearerPrefix @ e, ControlWebSocketProtocol]"
  (is "?l \<longleftrightarrow> ?r")
proof
  have version: "\<not> has_prefix ControlWebSocketProtocol webSocketBearerPrefix"
    by (simp add: ControlWebSocketProtocol_def webSocketBearerPrefix_def)
  then have bearer: "webSocketBearerPrefix @ e \<noteq> ControlWebSocketProtocol" for e by (metis has_prefix_append)
  { assume ?l
    then obtain p q where "ps = Some [p, q]" and "count_protocols 0 0 [] [p, q] = Some (1, 1, e)"
      by (auto simp: length_Suc_conv numeral_2_eq_2)
    then show ?r by (auto simp: has_prefix_iff split: if_splits)
  }
  { assume ?r
    with bearer show ?l by auto
  }
qed

text \<open>A token in the subprotocol list, without the channels it came in.\<close>

definition without_bearer :: "http_request \<Rightarrow> http_request" where
  "without_bearer request =
     request\<lparr>rqHeader := header_set ''Sec-WebSocket-Protocol'' ControlWebSocketProtocol (header_del ''Authorization'' (rqHeader request))\<rparr>"

lemma websocket_accepts:
  "controlWebSocketAuthorization request = Inr (token, forwarded) \<longleftrightarrow>
     (\<exists>e. (offered_protocols (header_values (rqHeader request) ''Sec-WebSocket-Protocol'') = Some [ControlWebSocketProtocol, webSocketBearerPrefix @ e]
           \<or> offered_protocols (header_values (rqHeader request) ''Sec-WebSocket-Protocol'') = Some [webSocketBearerPrefix @ e, ControlWebSocketProtocol])
        \<and> e \<noteq> [] \<and> length e \<le> maxWebSocketCredentialProtocolBytes
        \<and> (\<exists>d. DecodeBase64URL e = Some d \<and> token = map char_of d) \<and> ValidCredential token \<and> forwarded = without_bearer request)"
  unfolding two_protocols [symmetric] controlWebSocketAuthorization_def without_bearer_def
  by (auto simp: Let_def split: option.splits if_splits)

text \<open>
  C18: the WebSocket channel accepts a token exactly when the offered subprotocols are the version and one bearer, in either
  order, whose suffix is the canonical base64url form of a valid credential. The bound on the encoded form refuses no valid
  credential, and the forwarded request offers the version alone and carries no authorization.
\<close>

theorem websocket_bearer_exact:
  "controlWebSocketAuthorization request = Inr (token, forwarded) \<longleftrightarrow>
     ValidCredential token
     \<and> offered_protocols (header_values (rqHeader request) ''Sec-WebSocket-Protocol'')
         \<in> {Some [ControlWebSocketProtocol, webSocketBearerPrefix @ b64_encode (map of_char token)],
            Some [webSocketBearerPrefix @ b64_encode (map of_char token), ControlWebSocketProtocol]}
     \<and> forwarded = request\<lparr>rqHeader := header_set ''Sec-WebSocket-Protocol'' ControlWebSocketProtocol
                                           (header_del ''Authorization'' (rqHeader request))\<rparr>"
  (is "_ \<longleftrightarrow> _ \<and> ?offered \<in> _ \<and> _")
proof -
  let ?e = "b64_encode (map of_char token)"
  have decoded: "(\<exists>d. DecodeBase64URL e = Some d \<and> token = map char_of d) \<longleftrightarrow> e = ?e" for e
  proof
    assume "\<exists>d. DecodeBase64URL e = Some d \<and> token = map char_of d"
    then obtain d where "e = b64_encode d" and lt: "\<forall>b \<in> set d. b < 256" and "token = map char_of d"
      by (auto simp: DecodeBase64URL_bytes)
    moreover from lt have "map (of_char :: char \<Rightarrow> nat) (map char_of d) = d" by (simp add: map_idI of_char_of)
    ultimately show "e = ?e" by simp
  next
    have char: "map char_of (map (of_char :: char \<Rightarrow> nat) token) = token" by (simp add: map_idI)
    have "DecodeBase64URL ?e = Some (map of_char token)" by (auto simp: DecodeBase64URL_bytes)
    moreover assume "e = ?e"
    ultimately show "\<exists>d. DecodeBase64URL e = Some d \<and> token = map char_of d" using char by metis
  qed
  have fits: "?e \<noteq> [] \<and> length ?e \<le> maxWebSocketCredentialProtocolBytes" if "ValidCredential token"
  proof -
    have "length ?e = (length token * 8 + 5) div 6" by (simp add: length_b64_encode)
    moreover from that have "1 \<le> length token" "length token \<le> MaxCredentialBytes"
      by (auto simp: ValidCredential_def Suc_le_eq)
    ultimately have "1 \<le> length ?e" and "length ?e \<le> maxWebSocketCredentialProtocolBytes"
      unfolding maxWebSocketCredentialProtocolBytes_def by (simp, simp add: div_le_mono)
    then show ?thesis by auto
  qed
  then show ?thesis unfolding websocket_accepts decoded without_bearer_def by auto
qed

section \<open>What reaches a handler\<close>

lemma http_bearer:
  "httpOAuthCredentials h = Some token \<longleftrightarrow>
     (\<exists>value scheme. header_values h ''Authorization'' = [value] \<and> str_fields value = [scheme, token]
        \<and> equal_fold scheme ''Bearer'' \<and> ValidCredential token)"
  by (auto simp: httpOAuthCredentials_def header_get_def length_Suc_conv split: list.splits if_splits)

lemma bearer_valid: "bearer isUpgrade request = Inr (token, forwarded) \<Longrightarrow> ValidCredential token"
  by (auto simp: bearer_def http_bearer websocket_accepts split: if_splits sum.splits option.splits)

text \<open>The token travels by one channel: the \<^verbatim>\<open>Authorization\<close> header of a plain request, or the subprotocols of an upgrade of the control route.\<close>

lemma bearer_channel:
  assumes "bearer isUpgrade request = Inr (token, forwarded)"
  shows "if isUpgrade request \<and> controlWebSocketRoute request then controlWebSocketAuthorization request = Inr (token, forwarded)
         else httpOAuthCredentials (rqHeader request) = Some token \<and> forwarded = request"
  using assms by (auto simp: bearer_def split: if_splits sum.splits option.splits)

lemma bearer_path:
  assumes "bearer isUpgrade request = Inr (token, forwarded)"
  shows "rqEscapedPath forwarded = rqEscapedPath request \<and> rqMethod forwarded = rqMethod request
    \<and> rqBody forwarded = rqBody request \<and> rqRequestURI forwarded = rqRequestURI request"
  using bearer_channel [OF assms] by (auto simp: websocket_accepts without_bearer_def split: if_splits)

text \<open>The public paths of a boundary are registered under their own names.\<close>

definition boundary_ok :: "('w, 'h) oauthBoundary \<Rightarrow> bool" where
  "boundary_ok b \<longleftrightarrow> registered (obNext b)
     \<and> (\<forall>path \<in> set (obPublicPaths b). exact_path path \<and> path \<in> fst ` set (rgRoutes (obNext b)))"

lemma not_dispatched [simp]:
  "snd (preflight b request public out) \<noteq> Dispatched h p vs request'"
  "snd (refused_identity out e) \<noteq> Dispatched h p vs request'"
  by (auto simp: preflight_def refused_identity_def writeUnauthorized_def Let_def split: option.splits)

lemma authenticated_dispatch:
  assumes "run_state (authenticated isUpgrade b request out) w = ((out', Dispatched h p vs request'), w')"
  obtains token forwarded pr where "bearer isUpgrade request = Inr (token, forwarded)"
    and "run_state (obValidate b token) w = (Inr pr, w')"
    and "registry_ServeHTTP (obNext b) (WithPrincipal forwarded pr) = Dispatched h p vs request'"
proof (cases "bearer isUpgrade request")
  case (Inl status)
  with assms show ?thesis by (auto simp: authenticated_def writeUnauthorized_def split: if_splits)
next
  case (Inr authorized)
  obtain token forwarded where authorized: "authorized = (token, forwarded)" by (cases authorized)
  obtain validated w1 where run: "run_state (obValidate b token) w = (validated, w1)" by (cases "run_state (obValidate b token) w")
  show ?thesis
  proof (cases validated)
    case (Inl e)
    with assms Inr authorized run not_dispatched(2) [of out e h p vs request'] show ?thesis by (simp add: authenticated_def)
  next
    case (Inr pr)
    with assms \<open>bearer isUpgrade request = Inr authorized\<close> authorized run that show ?thesis by (simp add: authenticated_def)
  qed
qed

lemma dispatched_request: "registry_ServeHTTP r request = Dispatched h p vs request' \<Longrightarrow> request' = request"
  by (auto simp: registry_ServeHTTP_def route_def split: if_splits prod.splits option.splits bool.splits)

lemma boundary_cases:
  assumes "run_state (oauth_ServeHTTP isUpgrade b request) w = ((out, Dispatched h p vs request'), w')"
  shows "Admits (obOrigins b) (header_get (rqHeader request) ''Origin'')"
    and "rqEscapedPath request \<in> set (obBrowserPaths b) \<Longrightarrow> Allowed (obOrigins b) (header_get (rqHeader request) ''Origin'')"
    and "if rqEscapedPath request \<in> set (obPublicPaths b) then registry_ServeHTTP (obNext b) request = Dispatched h p vs request' \<and> w' = w
         else \<exists>out'. run_state (authenticated isUpgrade b request out') w = ((out, Dispatched h p vs request'), w')"
  using assms
  by (auto simp: oauth_ServeHTTP_def Admits_def Let_def split: if_splits dest: arg_cong [where f = snd])

lemma boundary_authenticates:
  assumes "run_state (oauth_ServeHTTP isUpgrade b request) w = ((out, Dispatched h p vs request'), w')"
    and "boundary_ok b" and "p \<notin> set (obPublicPaths b)"
  obtains token forwarded pr where "bearer isUpgrade request = Inr (token, forwarded)"
    and "run_state (obValidate b token) w = (Inr pr, w')" and "request' = WithPrincipal forwarded pr"
    and "registry_ServeHTTP (obNext b) request' = Dispatched h p vs request'"
proof -
  have protected: "rqEscapedPath request \<notin> set (obPublicPaths b)"
  proof
    assume public: "rqEscapedPath request \<in> set (obPublicPaths b)"
    with boundary_cases(3) [OF assms(1)] have "registry_ServeHTTP (obNext b) request = Dispatched h p vs request'" by simp
    from dispatch_exact [OF _ _ _ this] assms(2) public have "p = rqEscapedPath request" by (simp add: boundary_ok_def)
    with public assms(3) show False by simp
  qed
  with boundary_cases(3) [OF assms(1)] obtain out' where "run_state (authenticated isUpgrade b request out') w = ((out, Dispatched h p vs request'), w')"
    by auto
  then obtain token forwarded pr where found: "bearer isUpgrade request = Inr (token, forwarded)" "run_state (obValidate b token) w = (Inr pr, w')"
    "registry_ServeHTTP (obNext b) (WithPrincipal forwarded pr) = Dispatched h p vs request'" by (rule authenticated_dispatch)
  with that found dispatched_request [OF found(3)] show ?thesis by simp
qed

text \<open>
  What the boundary relies on: a validator that keeps its state well formed and vouches for the principal it answers. A handler
  outside the public paths is then given a principal vouched for.
\<close>

locale authenticator =
  fixes validate :: "string \<Rightarrow> ('w, Principal res) state"
    and well_formed :: "'w \<Rightarrow> bool"
    and vouches :: "'w \<Rightarrow> string \<Rightarrow> Principal \<Rightarrow> bool"
  assumes validates: "well_formed w \<Longrightarrow> run_state (validate token) w = (Inr pr, w') \<Longrightarrow> well_formed w' \<and> vouches w' token pr"
begin

lemma dispatched_principal:
  assumes "run_state (oauth_ServeHTTP isUpgrade b request) w = ((out, Dispatched h p vs request'), w')"
    and "boundary_ok b" and "obValidate b = validate" and "p \<notin> set (obPublicPaths b)" and "well_formed w"
  obtains token forwarded pr where "bearer isUpgrade request = Inr (token, forwarded)" and "vouches w' token pr" and "well_formed w'"
    and "request' = WithPrincipal forwarded pr"
  using boundary_authenticates [OF assms(1, 2, 4)] validates [OF assms(5)] assms(3) by metis

end

section \<open>Preflight\<close>

lemma dispatched_iff:
  assumes "cleanPath (rqEscapedPath request) = rqEscapedPath request" and "rqRequestURI request \<noteq> ''*''" and "rqMethod request \<noteq> ''CONNECT''"
  shows "(\<exists>h p vs. registry_ServeHTTP r request = Dispatched h p vs request) \<longleftrightarrow>
           (\<exists>methods. Methods r request = Some methods \<and> rqMethod request \<in> set methods)"
  using assms
  by (auto simp: registry_ServeHTTP_def Methods_def mux_handler_def route_def Let_def map_of_eq_None_iff split: option.splits)
    (metis not_None_eq map_of_eq_None_iff fst_conv image_eqI)+

lemma Methods_method:
  assumes "rqMethod request \<noteq> ''CONNECT''" and "m \<noteq> ''CONNECT''"
  shows "Methods r (request\<lparr>rqMethod := m\<rparr>) = Methods r request"
  using assms by (simp add: Methods_def mux_handler_def)


definition page_boundary :: "(unit, nat) oauthBoundary" where
  "page_boundary = \<lparr>obNext = \<lparr>rgRoutes = [(''/api/v1/sessions'', [(''GET'', 0), (''POST'', 1)])]\<rparr>,
     obValidate = (\<lambda>_. State_Monad.return (Inl (Plain ''no token''))), obOrigins = [''https://app.org''], obPublicPaths = [], obBrowserPaths = []\<rparr>"

definition page_preflight :: http_request where
  "page_preflight = \<lparr>rqMethod = ''OPTIONS'', rqRequestURI = ''/api/v1/sessions'', rqPath = ''/api/v1/sessions'', rqEscapedPath = ''/api/v1/sessions'',
     rqHeader = [(''Origin'', [''https://app.org'']), (''Access-Control-Request-Method'', [''POST'']),
                 (''Access-Control-Request-Headers'', [''authorization, Content-Type''])], rqBody = [], rqContext = None\<rparr>"


end
