(* ===== verification/GoJson.thy ===== *)
theory GoJson
  imports Security
begin

text \<open>
  \<^verbatim>\<open>json.Unmarshal\<close> of \<^verbatim>\<open>encoding/json\<close> on byte strings: the grammar, the values, and the assignment of members to the
  fields of a struct. The fuel of the parser is twice the length of the text, which
  more fuel does not change.
\<close>

section \<open>Values\<close>

datatype json = JNull | JBool bool | JNumber string | JString string | JArray "json list" | JObject "(string \<times> json) list"

definition skip_blank :: "string \<Rightarrow> string" where
  "skip_blank s = dropWhile (\<lambda>c. c \<in> {CHR '' '', CHR 0x09, nl, cr}) s"

definition utf8_encode :: "nat \<Rightarrow> string" where
  "utf8_encode r =
     (if r < 0x80 then [char_of r]
      else if r < 0x800 then [char_of (0xC0 + r div 64), char_of (0x80 + r mod 64)]
      else if r < 0x10000 then [char_of (0xE0 + r div 4096), char_of (0x80 + r div 64 mod 64), char_of (0x80 + r mod 64)]
      else [char_of (0xF0 + r div 262144), char_of (0x80 + r div 4096 mod 64), char_of (0x80 + r div 64 mod 64), char_of (0x80 + r mod 64)])"

fun hex4 :: "string \<Rightarrow> (nat \<times> string) option" where
  "hex4 (a # b # c # d # s) =
     (case (hex_val a, hex_val b, hex_val c, hex_val d) of
        (Some w, Some x, Some y, Some z) \<Rightarrow> Some (4096 * w + 256 * x + 16 * y + z, s)
      | _ \<Rightarrow> None)"
| "hex4 _ = None"

text \<open>A pair of surrogates is one code point; a lone one is \<open>U+FFFD\<close>, and what follows it is read on its own.\<close>

definition unicode_escape :: "string \<Rightarrow> (string \<times> string) option" where
  "unicode_escape s =
     (case hex4 s of
        None \<Rightarrow> None
      | Some (r, rest) \<Rightarrow>
          if r < 0xD800 \<or> 0xDFFF < r then Some (utf8_encode r, rest)
          else if 0xDBFF < r \<or> \<not> has_prefix rest [CHR 0x5C, CHR ''u''] then Some (replacement_char, rest)
          else (case hex4 (drop 2 rest) of
                  None \<Rightarrow> None
                | Some (r2, rest2) \<Rightarrow>
                    if 0xDC00 \<le> r2 \<and> r2 \<le> 0xDFFF then
                      Some (utf8_encode (0x10000 + (r - 0xD800) * 1024 + (r2 - 0xDC00)), rest2)
                    else Some (replacement_char, rest)))"

definition simple_escape :: "char \<Rightarrow> string option" where
  "simple_escape c =
     (if c \<in> {CHR 0x22, CHR 0x5C, CHR ''/''} then Some [c]
      else if c = CHR ''b'' then Some [CHR 0x08]
      else if c = CHR ''f'' then Some [CHR 0x0C]
      else if c = CHR ''n'' then Some [nl]
      else if c = CHR ''r'' then Some [cr]
      else if c = CHR ''t'' then Some [CHR 0x09]
      else None)"

text \<open>One character of a string, and the rest of a string after its opening quote.\<close>

definition json_char :: "string \<Rightarrow> (string \<times> string) option" where
  "json_char s =
     (case s of
        [] \<Rightarrow> None
      | c # t \<Rightarrow>
          if c = CHR 0x5C then
            (case t of
               [] \<Rightarrow> None
             | e # u \<Rightarrow> if e = CHR ''u'' then unicode_escape u else map_option (\<lambda>x. (x, u)) (simple_escape e))
          else if (of_char c :: nat) < 32 then None
          else if rune_width s = 0 then Some (replacement_char, t)
          else Some (take (rune_width s) s, drop (rune_width s) s))"

fun json_string :: "nat \<Rightarrow> string \<Rightarrow> (string \<times> string) option" where
  "json_string 0 s = None"
| "json_string (Suc n) s =
     (if has_prefix s [CHR 0x22] then Some ([], tl s)
      else (case json_char s of
              None \<Rightarrow> None
            | Some (x, rest) \<Rightarrow> map_option (apfst ((@) x)) (json_string n rest)))"

definition optional_minus :: "string \<Rightarrow> string" where
  "optional_minus s = (if has_prefix s ''-'' then tl s else s)"

definition digits_then :: "string \<Rightarrow> string option" where
  "digits_then s = (if takeWhile is_digit s = [] then None else Some (dropWhile is_digit s))"

definition json_int :: "string \<Rightarrow> string option" where
  "json_int s = (if has_prefix s ''0'' then Some (tl s) else digits_then s)"

definition json_frac :: "string \<Rightarrow> string option" where
  "json_frac s = (if has_prefix s ''.'' then digits_then (tl s) else Some s)"

definition json_exp :: "string \<Rightarrow> string option" where
  "json_exp s =
     (case s of
        [] \<Rightarrow> Some []
      | c # t \<Rightarrow>
          if c \<in> {CHR ''e'', CHR ''E''} then digits_then (if has_prefix t ''+'' \<or> has_prefix t ''-'' then tl t else t) else Some s)"

definition json_number :: "string \<Rightarrow> (json \<times> string) option" where
  "json_number s =
     (case Option.bind (json_int (optional_minus s)) (\<lambda>t. Option.bind (json_frac t) json_exp) of
        None \<Rightarrow> None
      | Some rest \<Rightarrow> Some (JNumber (take (length s - length rest) s), rest))"

definition json_atom :: "string \<Rightarrow> (json \<times> string) option" where
  "json_atom s =
     (if has_prefix s ''null'' then Some (JNull, drop 4 s)
      else if has_prefix s ''true'' then Some (JBool True, drop 4 s)
      else if has_prefix s ''false'' then Some (JBool False, drop 5 s)
      else json_number s)"

definition maxNestingDepth :: nat where "maxNestingDepth = 10000"

text \<open>The elements after an opening bracket and the members after an opening brace, when there are any, with the depth at which they stand.\<close>

fun json_value :: "nat \<Rightarrow> nat \<Rightarrow> string \<Rightarrow> (json \<times> string) option"
  and json_elements :: "nat \<Rightarrow> nat \<Rightarrow> string \<Rightarrow> (json list \<times> string) option"
  and json_members :: "nat \<Rightarrow> nat \<Rightarrow> string \<Rightarrow> ((string \<times> json) list \<times> string) option" where
  "json_value 0 d s = None"
| "json_value (Suc n) d s =
     (case s of
        [] \<Rightarrow> None
      | c # t \<Rightarrow>
          if c = CHR 0x22 then map_option (apfst JString) (json_string n t)
          else if c = CHR ''['' then
            (if maxNestingDepth \<le> d then None
             else if has_prefix (skip_blank t) '']'' then Some (JArray [], tl (skip_blank t))
             else map_option (apfst JArray) (json_elements n (Suc d) (skip_blank t)))
          else if c = CHR ''{'' then
            (if maxNestingDepth \<le> d then None
             else if has_prefix (skip_blank t) ''}'' then Some (JObject [], tl (skip_blank t))
             else map_option (apfst JObject) (json_members n (Suc d) (skip_blank t)))
          else json_atom s)"
| "json_elements 0 d s = None"
| "json_elements (Suc n) d s =
     (case json_value n d s of
        None \<Rightarrow> None
      | Some (v, rest) \<Rightarrow>
          if has_prefix (skip_blank rest) '','' then
            map_option (apfst ((#) v)) (json_elements n d (skip_blank (tl (skip_blank rest))))
          else if has_prefix (skip_blank rest) '']'' then Some ([v], tl (skip_blank rest))
          else None)"
| "json_members 0 d s = None"
| "json_members (Suc n) d s =
     (if \<not> has_prefix s [CHR 0x22] then None
      else (case json_string n (tl s) of
              None \<Rightarrow> None
            | Some (key, afterKey) \<Rightarrow>
                if \<not> has_prefix (skip_blank afterKey) '':'' then None
                else (case json_value n d (skip_blank (tl (skip_blank afterKey))) of
                        None \<Rightarrow> None
                      | Some (v, rest) \<Rightarrow>
                          if has_prefix (skip_blank rest) '','' then
                            map_option (apfst ((#) (key, v))) (json_members n d (skip_blank (tl (skip_blank rest))))
                          else if has_prefix (skip_blank rest) ''}'' then Some ([(key, v)], tl (skip_blank rest))
                          else None)))"

definition json_parse :: "string \<Rightarrow> json option" where
  "json_parse s =
     (case json_value (Suc (2 * length s)) 0 (skip_blank s) of
        None \<Rightarrow> None
      | Some (v, rest) \<Rightarrow> if skip_blank rest = [] then Some v else None)"

section \<open>Fields of a struct\<close>

text \<open>
  A value decoded, and whether every value had the type of its field: a mismatch is an error, and decoding goes on.
  The members of a field are assigned in their order, names compared without case; null leaves a field as it is.
\<close>

definition members_of :: "string \<Rightarrow> (string \<times> json) list \<Rightarrow> json list" where
  "members_of name ms = map snd (filter (\<lambda>(key, _). equal_fold key name) ms)"

fun assign_string :: "string \<times> bool \<Rightarrow> json \<Rightarrow> string \<times> bool" where
  "assign_string (s, ok) (JString t) = (t, ok)"
| "assign_string (s, ok) JNull = (s, ok)"
| "assign_string (s, ok) _ = (s, False)"

definition string_field :: "string \<Rightarrow> (string \<times> json) list \<Rightarrow> string \<times> bool" where
  "string_field name ms = foldl assign_string ([], True) (members_of name ms)"

text \<open>\<^verbatim>\<open>strconv.ParseInt\<close> of a number's text, which has no sign but a minus.\<close>

definition json_int64 :: "string \<Rightarrow> int option" where
  "json_int64 t =
     (let digits = optional_minus t; n = int (digits_val digits); v = (if has_prefix t ''-'' then - n else n)
      in if all_digits digits \<and> - (2 ^ 63) \<le> v \<and> v < 2 ^ 63 then Some v else None)"

fun assign_int64 :: "int \<times> bool \<Rightarrow> json \<Rightarrow> int \<times> bool" where
  "assign_int64 (i, ok) (JNumber t) = (case json_int64 t of None \<Rightarrow> (i, False) | Some j \<Rightarrow> (j, ok))"
| "assign_int64 (i, ok) JNull = (i, ok)"
| "assign_int64 (i, ok) _ = (i, False)"

definition int64_field :: "string \<Rightarrow> (string \<times> json) list \<Rightarrow> int \<times> bool" where
  "int64_field name ms = foldl assign_int64 (0, True) (members_of name ms)"

text \<open>A field of a pointer type: null clears it, and a value that does not fit leaves it pointing to what was there, zero at first.\<close>

fun assign_int64_pointer :: "int option \<times> bool \<Rightarrow> json \<Rightarrow> int option \<times> bool" where
  "assign_int64_pointer (p, ok) JNull = (None, ok)"
| "assign_int64_pointer (p, ok) v = (case assign_int64 (case p of None \<Rightarrow> 0 | Some i \<Rightarrow> i, ok) v of (i, ok') \<Rightarrow> (Some i, ok'))"

definition int64_pointer_field :: "string \<Rightarrow> (string \<times> json) list \<Rightarrow> int option \<times> bool" where
  "int64_pointer_field name ms = foldl assign_int64_pointer (None, True) (members_of name ms)"

text \<open>The members of a struct value: null has none, and any other value that is no object is a mismatch.\<close>

fun object_members :: "json \<Rightarrow> (string \<times> json) list \<times> bool" where
  "object_members (JObject ms) = (ms, True)"
| "object_members JNull = ([], True)"
| "object_members _ = ([], False)"

section \<open>The fuel\<close>

lemma length_skip_blank: "length (skip_blank s) \<le> length s"
  by (simp add: skip_blank_def length_dropWhile_le)

lemma length_tl_skip_blank: "has_prefix (skip_blank s) [c] \<Longrightarrow> length (tl (skip_blank s)) < length s"
  using length_skip_blank [of s] by (cases "skip_blank s") auto

lemma hex4_rest: "hex4 s = Some (r, rest) \<Longrightarrow> length rest < length s"
  by (induction s rule: hex4.induct) (auto split: option.splits)

lemma unicode_escape_rest: "unicode_escape s = Some (x, rest) \<Longrightarrow> length rest < length s"
  by (auto simp: unicode_escape_def dest!: hex4_rest split: option.splits if_splits prod.splits)

lemma json_char_rest: "json_char s = Some (x, rest) \<Longrightarrow> length rest < length s"
  by (cases s) (auto simp: json_char_def simp del: rune_width.simps split: list.splits if_splits dest: unicode_escape_rest)

lemma json_string_rest: "json_string n s = Some (x, rest) \<Longrightarrow> length rest < length s"
proof (induction n s arbitrary: x rest rule: json_string.induct)
  case (2 n s)
  then show ?case
    by (cases s) (auto split: if_splits option.splits dest!: json_char_rest, fastforce)
qed simp

lemma json_string_fuel: "length s < n \<Longrightarrow> length s < m \<Longrightarrow> json_string n s = json_string m s"
proof (induction n s arbitrary: m rule: json_string.induct)
  case (2 n s)
  then obtain k where m: "m = Suc k" by (cases m) auto
  show ?case
  proof (cases "json_char s")
    case (Some r)
    obtain x rest where r: "r = (x, rest)" by (cases r)
    from json_char_rest [of s x rest] Some r have "length rest < length s" by simp
    with "2.IH" [OF _ Some r [symmetric], of k] "2.prems" m Some r show ?thesis by auto
  qed (simp add: m)
qed simp

lemma digits_then_rest: "digits_then s = Some rest \<Longrightarrow> length rest < length s"
  by (cases s) (auto simp: digits_then_def less_Suc_eq_le length_dropWhile_le split: if_splits)

lemma json_atom_rest: "json_atom s = Some (v, rest) \<Longrightarrow> length rest < length s"
proof -
  have int: "json_int t = Some u \<Longrightarrow> length u < length t" for t u
    by (cases t) (auto simp: json_int_def dest: digits_then_rest split: if_splits)
  have frac: "json_frac t = Some u \<Longrightarrow> length u \<le> length t" for t u
    by (cases t) (auto simp: json_frac_def dest!: digits_then_rest split: if_splits)
  have exp: "json_exp t = Some u \<Longrightarrow> length u \<le> length t" for t u
    by (cases t) (auto simp: json_exp_def dest!: digits_then_rest split: if_splits)
  have minus: "length (optional_minus t) \<le> length t" for t by (simp add: optional_minus_def)
  have "json_number s = Some (v, rest) \<Longrightarrow> length rest < length s"
    using minus [of s] by (force simp: json_number_def bind_eq_Some_conv dest!: int frac exp split: option.splits)
  then show "json_atom s = Some (v, rest) \<Longrightarrow> length rest < length s"
    by (auto simp: json_atom_def has_prefix_iff split: if_splits)
qed

lemma json_value_rest:
  "json_value n d s = Some (v, rest) \<Longrightarrow> length rest < length s"
  "json_elements n d s = Some (vs, rest) \<Longrightarrow> length rest < length s"
  "json_members n d s = Some (ms, rest) \<Longrightarrow> length rest < length s"
proof (induction n d s and n d s and n d s arbitrary: v rest and vs rest and ms rest rule: json_value_json_elements_json_members.induct)
  case (2 n d s)
  show ?case
  proof (cases s)
    case (Cons c t)
    note blank = length_skip_blank [of t] length_tl_skip_blank [of t "CHR '']''"] length_tl_skip_blank [of t "CHR ''}''"]
    have elements: "c = CHR ''['' \<Longrightarrow> \<not> maxNestingDepth \<le> d \<Longrightarrow> \<not> has_prefix (skip_blank t) '']'' \<Longrightarrow>
        json_elements n (Suc d) (skip_blank t) = Some (xs, rest) \<Longrightarrow> length rest < length (skip_blank t)" for xs
      by (rule "2.IH"(1) [OF Cons]) auto
    have members: "c = CHR ''{'' \<Longrightarrow> \<not> maxNestingDepth \<le> d \<Longrightarrow> \<not> has_prefix (skip_blank t) ''}'' \<Longrightarrow>
        json_members n (Suc d) (skip_blank t) = Some (xs, rest) \<Longrightarrow> length rest < length (skip_blank t)" for xs
      by (rule "2.IH"(2) [OF Cons]) auto
    from "2.prems" show ?thesis unfolding Cons using blank elements members
      by (fastforce split: if_splits dest: json_string_rest json_atom_rest)
  qed (use "2.prems" in simp)
next
  case (4 n d s)
  from "4.prems" obtain v r where v: "json_value n d s = Some (v, r)" by (auto split: option.splits)
  with "4.IH"(1) have "length r < length s" by simp
  moreover have "has_prefix (skip_blank r) '','' \<Longrightarrow> length (skip_blank (tl (skip_blank r))) < length r"
    using length_tl_skip_blank [of r "CHR '',''"] length_skip_blank [of "tl (skip_blank r)"] by simp
  ultimately show ?case
    using "4.prems" v length_tl_skip_blank [of r "CHR '']''"] "4.IH"(2) [OF v refl]
    by (fastforce split: if_splits)
next
  case (6 n d s)
  from "6.prems" obtain key k where key: "json_string n (tl s) = Some (key, k)" and quote: "has_prefix s [CHR 0x22]"
    by (auto split: option.splits if_splits)
  from "6.prems" key obtain v r where colon: "has_prefix (skip_blank k) '':''"
    and v: "json_value n d (skip_blank (tl (skip_blank k))) = Some (v, r)" by (auto split: option.splits if_splits)
  have "length k < length (tl s)" using json_string_rest [OF key] .
  moreover have "length (skip_blank (tl (skip_blank k))) < length k"
    using length_tl_skip_blank [OF colon] length_skip_blank [of "tl (skip_blank k)"] by simp
  moreover have "length r < length (skip_blank (tl (skip_blank k)))" using "6.IH"(1) [OF _ key refl _ v] quote colon by simp
  ultimately have r: "length r < length s" by (simp add: less_diff_conv)
  moreover have "has_prefix (skip_blank r) '','' \<Longrightarrow> length (skip_blank (tl (skip_blank r))) < length r"
    using length_tl_skip_blank [of r "CHR '',''"] length_skip_blank [of "tl (skip_blank r)"] by simp
  ultimately show ?case
    using "6.prems" v key quote colon length_tl_skip_blank [of r "CHR ''}''"] "6.IH"(2) [OF _ key refl _ v refl]
    by (auto split: if_splits) 
qed auto


lemma json_value_fuel:
  "2 * length s < n \<Longrightarrow> 2 * length s < m \<Longrightarrow> json_value n d s = json_value m d s"
  "Suc (2 * length s) < n \<Longrightarrow> Suc (2 * length s) < m \<Longrightarrow> json_elements n d s = json_elements m d s"
  "Suc (2 * length s) < n \<Longrightarrow> Suc (2 * length s) < m \<Longrightarrow> json_members n d s = json_members m d s"
proof (induction n d s and n d s and n d s arbitrary: m and m and m rule: json_value_json_elements_json_members.induct)
  case (2 n d s)
  from "2.prems" obtain k where m: "m = Suc k" by (cases m) auto
  show ?case
  proof (cases s)
    case (Cons c t)
    have fuel: "Suc (2 * length (skip_blank t)) < n" "Suc (2 * length (skip_blank t)) < k" "length t < n" "length t < k"
      using "2.prems" Cons m length_skip_blank [of t] by auto
    have elements: "c = CHR ''['' \<Longrightarrow> \<not> maxNestingDepth \<le> d \<Longrightarrow> \<not> has_prefix (skip_blank t) '']'' \<Longrightarrow>
        json_elements n (Suc d) (skip_blank t) = json_elements k (Suc d) (skip_blank t)"
      by (rule "2.IH"(1) [OF Cons _ _ _ _ fuel(1, 2)]) auto
    have members: "c = CHR ''{'' \<Longrightarrow> \<not> maxNestingDepth \<le> d \<Longrightarrow> \<not> has_prefix (skip_blank t) ''}'' \<Longrightarrow>
        json_members n (Suc d) (skip_blank t) = json_members k (Suc d) (skip_blank t)"
      by (rule "2.IH"(2) [OF Cons _ _ _ _ _ fuel(1, 2)]) auto
    show ?thesis unfolding Cons m using elements members json_string_fuel [OF fuel(3, 4)] by (simp split: if_splits)
  qed (simp add: m)
next
  case (4 n d s)
  from "4.prems" obtain k where m: "m = Suc k" by (cases m) auto
  have same: "json_value n d s = json_value k d s" using "4.IH"(1) [of k] "4.prems" m by simp
  show ?case
  proof (cases "json_value n d s")
    case (Some r)
    obtain v rest where r: "r = (v, rest)" by (cases r)
    from json_value_rest(1) Some r have "length rest < length s" by blast
    moreover have "has_prefix (skip_blank rest) '','' \<Longrightarrow> length (skip_blank (tl (skip_blank rest))) < length rest"
      using length_tl_skip_blank [of rest "CHR '',''"] length_skip_blank [of "tl (skip_blank rest)"] by simp
    ultimately have "has_prefix (skip_blank rest) '','' \<Longrightarrow>
        json_elements n d (skip_blank (tl (skip_blank rest))) = json_elements k d (skip_blank (tl (skip_blank rest)))"
      using "4.IH"(2) [OF Some r [symmetric], of k] "4.prems" m by simp
    with Some r same m show ?thesis by simp
  qed (use same m in simp)
next
  case (6 n d s)
  from "6.prems" obtain k where m: "m = Suc k" by (cases m) auto
  show ?case
  proof (cases "has_prefix s [CHR 0x22] \<and> json_string n (tl s) \<noteq> None")
    case True
    then obtain key rest where key: "json_string n (tl s) = Some (key, rest)" and quote: "has_prefix s [CHR 0x22]" by auto
    have "json_string n (tl s) = json_string k (tl s)" by (rule json_string_fuel) (use "6.prems" m in auto)
    with key have same: "json_string k (tl s) = Some (key, rest)" by simp
    let ?rest = "skip_blank (tl (skip_blank rest))"
    have shorter: "length rest < length (tl s)" using json_string_rest [OF key] .
    show ?thesis
    proof (cases "has_prefix (skip_blank rest) '':''")
      case colon: True
      have "length ?rest < length rest" using length_tl_skip_blank [OF colon] length_skip_blank [of "tl (skip_blank rest)"] by simp
      with shorter "6.prems" m have fuel: "2 * length ?rest < n" "2 * length ?rest < k" by auto
      have v: "json_value n d ?rest = json_value k d ?rest" using "6.IH"(1) [OF _ key refl _ fuel] quote colon by simp
      show ?thesis
      proof (cases "json_value n d ?rest")
        case (Some r)
        obtain x final where r: "r = (x, final)" by (cases r)
        from json_value_rest(1) Some r have "length final < length ?rest" by blast
        moreover have "has_prefix (skip_blank final) '','' \<Longrightarrow> length (skip_blank (tl (skip_blank final))) < length final"
          using length_tl_skip_blank [of final "CHR '',''"] length_skip_blank [of "tl (skip_blank final)"] by simp
        ultimately have "has_prefix (skip_blank final) '','' \<Longrightarrow>
            json_members n d (skip_blank (tl (skip_blank final))) = json_members k d (skip_blank (tl (skip_blank final)))"
          using "6.IH"(2) [OF _ key refl _ Some r [symmetric], of k] "6.prems" m quote colon fuel by simp
        with Some Some [unfolded v] r same m key quote colon show ?thesis by simp
      qed (use v m key quote colon same in simp)
    qed (use m key quote same in simp)
  next
    case False
    have "json_string n (tl s) = json_string k (tl s)" by (rule json_string_fuel) (use "6.prems" m in auto)
    with False m show ?thesis by (cases "json_string k (tl s)") auto
  qed
qed auto

text \<open>More fuel than the parser takes changes nothing.\<close>

lemma json_parse_fuel:
  assumes "2 * length s < n"
  shows "json_value n 0 (skip_blank s) = json_value (Suc (2 * length s)) 0 (skip_blank s)"
  using assms length_skip_blank [of s] by (intro json_value_fuel(1)) auto

end
