(* ===== verification/Http.thy ===== *)
theory Http
  imports Router GoJson
begin

text \<open>
  Outbound HTTP of \<^verbatim>\<open>internal/security/client.go\<close>. The network, the clock and the end of a request's context are read
  from an environment, in the order they are asked; the requests made and their answers are kept in a log.
\<close>

section \<open>The environment\<close>

text \<open>The body of a request is a form, a JSON value or nothing.\<close>

record http_call =
  hcMethod :: string
  hcURL :: string
  hcHeader :: header
  hcForm :: "(string \<times> string) list"
  hcJSON :: "json option"

type_synonym http_answer = "(nat \<times> string res) res"

record http_env =
  ieNow :: "nat \<Rightarrow> time"
  ieDo :: "nat \<Rightarrow> http_call \<Rightarrow> http_answer"
  ieContext :: "nat \<Rightarrow> go_error option"
  ieUserAgent :: string

record http_world =
  iwTick :: nat
  iwLog :: "(http_call \<times> http_answer) list"

definition http_tick :: "('w http_world_scheme, nat) state" where
  "http_tick = do { w \<leftarrow> State_Monad.get; _ \<leftarrow> State_Monad.set (w\<lparr>iwTick := Suc (iwTick w)\<rparr>); State_Monad.return (iwTick w) }"

definition clock :: "http_env \<Rightarrow> ('w http_world_scheme, time) state" where
  "clock E = do { t \<leftarrow> http_tick; State_Monad.return (ieNow E t) }"

definition client_Do :: "http_env \<Rightarrow> http_call \<Rightarrow> ('w http_world_scheme, http_answer) state" where
  "client_Do E call = do {
     t \<leftarrow> http_tick;
     _ \<leftarrow> State_Monad.update (\<lambda>w. w\<lparr>iwLog := iwLog w @ [(call, ieDo E t call)]\<rparr>);
     State_Monad.return (ieDo E t call) }"

section \<open>Outbound HTTP\<close>

record http_client =
  clTimeout :: duration
  clGuarded :: bool

definition BoundedClient :: "http_client option \<Rightarrow> duration \<Rightarrow> http_client" where
  "BoundedClient client fallback =
     (let bounded = (case client of None \<Rightarrow> \<lparr>clTimeout = 0, clGuarded = False\<rparr> | Some c \<Rightarrow> c)
      in if clTimeout bounded \<le> 0 \<or> fallback < clTimeout bounded then bounded\<lparr>clTimeout := fallback\<rparr> else bounded)"

definition GuardedClient :: "http_client option \<Rightarrow> duration \<Rightarrow> http_client" where
  "GuardedClient client fallback = (BoundedClient client fallback)\<lparr>clGuarded := True\<rparr>"

text \<open>Whether a redirect is followed, after the requests \<open>via\<close>; otherwise the redirect itself is the answer.\<close>

definition CheckRedirect :: "parsed_url option \<Rightarrow> parsed_url option list \<Rightarrow> bool" where
  "CheckRedirect request via \<longleftrightarrow> \<not> (5 \<le> length via \<or> via = [] \<or> \<not> SameOriginRedirect (hd via) request)"

definition Do :: "http_env \<Rightarrow> http_call \<Rightarrow> nat \<Rightarrow> ('w http_world_scheme, (string \<times> nat) res) state" where
  "Do E call limit = do {
     answer \<leftarrow> client_Do E call;
     State_Monad.return
       (case answer of
          Inl e \<Rightarrow> Inl e
        | Inr (status, Inl e) \<Rightarrow> Inl e
        | Inr (status, Inr stream) \<Rightarrow>
            (let body = take (limit + 1) stream
             in if limit < length body then Inl (Plain ''response body exceeds limit'') else Inr (body, status))) }"

definition NewRequest :: "http_env \<Rightarrow> string \<Rightarrow> string \<Rightarrow> string \<Rightarrow> (string \<times> string) list \<Rightarrow> http_call res" where
  "NewRequest E method endpoint authorization form =
     (case url_parse endpoint of
        None \<Rightarrow> Inl (Plain (''parse '' @ go_quote endpoint))
      | Some _ \<Rightarrow>
          (let h = header_set ''User-Agent'' (ieUserAgent E) (header_set ''Accept'' ''application/json'' [])
           in Inr \<lparr>hcMethod = method, hcURL = endpoint,
                   hcHeader = (if authorization \<noteq> [] then header_set ''Authorization'' authorization h else h), hcForm = form, hcJSON = None\<rparr>))"

definition PostForm :: "http_env \<Rightarrow> string \<Rightarrow> (string \<times> string) list \<Rightarrow> nat \<Rightarrow> ('w http_world_scheme, (string \<times> nat) res) state" where
  "PostForm E endpoint form limit =
     (case NewRequest E ''POST'' endpoint [] form of
        Inl e \<Rightarrow> State_Monad.return (Inl e)
      | Inr call \<Rightarrow> Do E (call\<lparr>hcHeader := header_set ''Content-Type'' ''application/x-www-form-urlencoded'' (hcHeader call)\<rparr>) limit)"

definition GetJSON :: "http_env \<Rightarrow> string \<Rightarrow> string \<Rightarrow> nat \<Rightarrow> (string \<Rightarrow> 'a option) \<Rightarrow> ('w http_world_scheme, 'a res) state" where
  "GetJSON E endpoint authorization limit decode =
     (case NewRequest E ''GET'' endpoint authorization [] of
        Inl e \<Rightarrow> State_Monad.return (Inl e)
      | Inr call \<Rightarrow> do {
          answer \<leftarrow> Do E call limit;
          State_Monad.return
            (case answer of
               Inl e \<Rightarrow> Inl e
             | Inr (body, status) \<Rightarrow>
                 if status < 200 \<or> 300 \<le> status then Inl (Plain (''HTTP '' @ nat_str status))
                 else (case decode body of None \<Rightarrow> Inl (Plain ''json'') | Some v \<Rightarrow> Inr v)) })"

section \<open>Errors and JSON answers\<close>

text \<open>\<^verbatim>\<open>errors.Is\<close>: the target is the error or one it wraps.\<close>

fun errors_Is :: "go_error \<Rightarrow> go_error \<Rightarrow> bool" where
  "errors_Is (Wrapf ts es) target = (Wrapf ts es = target \<or> list_ex id (map (\<lambda>e. errors_Is e target) es))"
| "errors_Is (Joined es) target = (Joined es = target \<or> list_ex id (map (\<lambda>e. errors_Is e target) es))"
| "errors_Is (SubmissionError e ambiguous) target = (SubmissionError e ambiguous = target \<or> errors_Is e target)"
| "errors_Is e target = (e = target)"

text \<open>Decoding of the JSON forms: \<open>None\<close> is an error of \<^verbatim>\<open>json.Unmarshal\<close>.\<close>

definition decode_struct :: "((string \<times> json) list \<Rightarrow> 'a \<times> bool) \<Rightarrow> string \<Rightarrow> 'a option" where
  "decode_struct read body =
     (case json_parse body of
        None \<Rightarrow> None
      | Some v \<Rightarrow>
          (let (ms, ok) = object_members v; (x, fieldsOk) = read ms in if ok \<and> fieldsOk then Some x else None))"

text \<open>\<^verbatim>\<open>DecodeStrict\<close>: no member beyond the fields, and nothing after the value.\<close>

definition DecodeStrict :: "string list \<Rightarrow> ((string \<times> json) list \<Rightarrow> 'a \<times> bool) \<Rightarrow> string \<Rightarrow> 'a option" where
  "DecodeStrict names read body =
     (case json_parse body of
        None \<Rightarrow> None
      | Some v \<Rightarrow>
          (let (ms, ok) = object_members v; (x, fieldsOk) = read ms
           in if ok \<and> fieldsOk \<and> list_all (\<lambda>(key, _). list_ex (equal_fold key) names) ms then Some x else None))"

end
