(* ===== verification/Identity.thy ===== *)
theory Identity
  imports Http
begin

text \<open>
  \<^verbatim>\<open>internal/identity\<close>: OIDC discovery and signing keys behind
  one cache with a shared refresh, ID token validation, the token grants, and the Custos resolution with its cache.
\<close>

section \<open>Signatures of \<^verbatim>\<open>crypto/rsa\<close>\<close>

record rsa_key =
  rkN :: nat
  rkE :: nat

definition bytes_val :: "nat list \<Rightarrow> nat" where
  "bytes_val bs = foldl (\<lambda>acc b. acc * 256 + b) 0 bs"

fun BitLen :: "nat \<Rightarrow> nat" where
  "BitLen n = (if n = 0 then 0 else Suc (BitLen (n div 2)))"

declare BitLen.simps [simp del]

definition key_size :: "rsa_key \<Rightarrow> nat" where
  "key_size key = (BitLen (rkN key) + 7) div 8"

text \<open>The encoding of a SHA-256 digest that a signature of \<open>k\<close> bytes must open to.\<close>

definition sha256_prefix :: "nat list" where
  "sha256_prefix = [0x30, 0x31, 0x30, 0x0D, 0x06, 0x09, 0x60, 0x86, 0x48, 0x01, 0x65, 0x03, 0x04, 0x02, 0x01, 0x05, 0x00, 0x04, 0x20]"

definition pkcs1v15_encode :: "nat \<Rightarrow> nat list \<Rightarrow> nat list" where
  "pkcs1v15_encode k digest = [0, 1] @ replicate (k - length digest - 22) 0xFF @ [0] @ sha256_prefix @ digest"

definition VerifyPKCS1v15 :: "rsa_key \<Rightarrow> nat list \<Rightarrow> nat list \<Rightarrow> bool" where
  "VerifyPKCS1v15 key digest signature \<longleftrightarrow>
     odd (rkN key) \<and> odd (rkE key) \<and> 2 \<le> rkE key \<and> rkE key < 2 ^ 31 \<and> 62 \<le> key_size key
     \<and> length signature = key_size key \<and> bytes_val signature < rkN key
     \<and> bytes_val signature ^ rkE key mod rkN key = bytes_val (pkcs1v15_encode (key_size key) digest)"

section \<open>Constants and wire types\<close>

definition maxOAuthResponse :: nat where "maxOAuthResponse = 65536"
definition maxOIDCResponse :: nat where "maxOIDCResponse = 262144"
definition oauthRequestTimeout :: duration where "oauthRequestTimeout = 15 * second"
definition oidcCacheTTL :: duration where "oidcCacheTTL = 5 * minute"
definition oidcUnknownKIDCooldown :: duration where "oidcUnknownKIDCooldown = 30 * second"
definition MinDeviceInterval :: int where "MinDeviceInterval = 5"
definition custosUserTTL :: duration where "custosUserTTL = 5 * minute"
definition maxCustosUsers :: nat where "maxCustosUsers = 1024"

text \<open>The sentinel errors, which \<^verbatim>\<open>errors.Is\<close> finds in what an error wraps.\<close>

definition ErrAuthorizationPending :: go_error where "ErrAuthorizationPending = Plain ''OIDC device authorization is pending''"
definition ErrGrantRejected :: go_error where "ErrGrantRejected = Plain ''OIDC grant was rejected''"
definition ErrTokenUnavailable :: go_error where "ErrTokenUnavailable = Plain ''OIDC token service is unavailable''"
definition ErrTokenInvalid :: go_error where "ErrTokenInvalid = Plain ''OIDC token response is invalid''"
definition ErrIdentityNotLinked :: go_error where "ErrIdentityNotLinked = Plain ''OIDC identity is not linked to a Custos user''"
definition ErrIdentityUnrecognized :: go_error where "ErrIdentityUnrecognized = Plain ''Custos did not recognize this identity''"

record Metadata =
  mdIssuer :: string
  mdJWKSURI :: string
  mdAuthorizationEndpoint :: string
  mdTokenEndpoint :: string
  mdDeviceEndpoint :: string

record oidcKey =
  jwkKty :: string
  jwkUse :: string
  jwkAlg :: string
  jwkKid :: string
  jwkN :: string
  jwkE :: string

record idTokenHeader =
  thAlg :: string
  thKid :: string
  thTyp :: string

record idTokenClaims =
  tcIssuer :: string
  tcAudience :: string
  tcExpires :: "int option"
  tcNotBefore :: "int option"
  tcSubject :: string

record Tokens =
  tkIDToken :: string
  tkRefreshToken :: string
  tkExpiresIn :: int

record DeviceAuthorization =
  daDeviceCode :: string
  daUserCode :: string
  daCompleteURI :: string
  daExpiresIn :: int
  daInterval :: int

record token_response =
  trError :: string
  trTokens :: Tokens

record custosMeResponse =
  meUserID :: string
  meCode :: string

definition metadata_fields :: "(string \<times> json) list \<Rightarrow> Metadata \<times> bool" where
  "metadata_fields ms =
     (let (a, oa) = string_field ''issuer'' ms; (b, ob) = string_field ''jwks_uri'' ms;
          (c, oc) = string_field ''authorization_endpoint'' ms; (d, od) = string_field ''token_endpoint'' ms;
          (e, oe) = string_field ''device_authorization_endpoint'' ms
      in (\<lparr>mdIssuer = a, mdJWKSURI = b, mdAuthorizationEndpoint = c, mdTokenEndpoint = d, mdDeviceEndpoint = e\<rparr>,
          oa \<and> ob \<and> oc \<and> od \<and> oe))"

definition key_fields :: "(string \<times> json) list \<Rightarrow> oidcKey \<times> bool" where
  "key_fields ms =
     (let (a, oa) = string_field ''kty'' ms; (b, ob) = string_field ''use'' ms; (c, oc) = string_field ''alg'' ms;
          (d, od) = string_field ''kid'' ms; (e, oe) = string_field ''n'' ms; (f, of') = string_field ''e'' ms
      in (\<lparr>jwkKty = a, jwkUse = b, jwkAlg = c, jwkKid = d, jwkN = e, jwkE = f\<rparr>, oa \<and> ob \<and> oc \<and> od \<and> oe \<and> of'))"

definition key_value :: "json \<Rightarrow> oidcKey \<times> bool" where
  "key_value v = (let (ms, ok) = object_members v; (k, fieldsOk) = key_fields ms in (k, ok \<and> fieldsOk))"

text \<open>Of repeated members \<^verbatim>\<open>keys\<close> the last one counts.\<close>

fun assign_keys :: "oidcKey list \<times> bool \<Rightarrow> json \<Rightarrow> oidcKey list \<times> bool" where
  "assign_keys (ks, ok) (JArray vs) = (map (fst \<circ> key_value) vs, ok \<and> list_all (snd \<circ> key_value) vs)"
| "assign_keys (ks, ok) JNull = ([], ok)"
| "assign_keys (ks, ok) _ = (ks, False)"

definition key_set_fields :: "(string \<times> json) list \<Rightarrow> oidcKey list \<times> bool" where
  "key_set_fields ms = foldl assign_keys ([], True) (members_of ''keys'' ms)"

definition header_fields :: "(string \<times> json) list \<Rightarrow> idTokenHeader \<times> bool" where
  "header_fields ms =
     (let (a, oa) = string_field ''alg'' ms; (b, ob) = string_field ''kid'' ms; (c, oc) = string_field ''typ'' ms
      in (\<lparr>thAlg = a, thKid = b, thTyp = c\<rparr>, oa \<and> ob \<and> oc))"

definition claims_fields :: "(string \<times> json) list \<Rightarrow> idTokenClaims \<times> bool" where
  "claims_fields ms =
     (let (a, oa) = string_field ''iss'' ms; (b, ob) = string_field ''aud'' ms; (c, oc) = int64_pointer_field ''exp'' ms;
          (d, od) = int64_pointer_field ''nbf'' ms; (e, oe) = string_field ''sub'' ms
      in (\<lparr>tcIssuer = a, tcAudience = b, tcExpires = c, tcNotBefore = d, tcSubject = e\<rparr>, oa \<and> ob \<and> oc \<and> od \<and> oe))"

definition device_fields :: "(string \<times> json) list \<Rightarrow> DeviceAuthorization \<times> bool" where
  "device_fields ms =
     (let (a, oa) = string_field ''device_code'' ms; (b, ob) = string_field ''user_code'' ms;
          (c, oc) = string_field ''verification_uri_complete'' ms; (d, od) = int64_field ''expires_in'' ms;
          (e, oe) = int64_field ''interval'' ms
      in (\<lparr>daDeviceCode = a, daUserCode = b, daCompleteURI = c, daExpiresIn = d, daInterval = e\<rparr>, oa \<and> ob \<and> oc \<and> od \<and> oe))"

definition token_response_fields :: "(string \<times> json) list \<Rightarrow> token_response \<times> bool" where
  "token_response_fields ms =
     (let (a, oa) = string_field ''error'' ms; (b, ob) = string_field ''id_token'' ms; (c, oc) = string_field ''refresh_token'' ms;
          (d, od) = int64_field ''expires_in'' ms
      in (\<lparr>trError = a, trTokens = \<lparr>tkIDToken = b, tkRefreshToken = c, tkExpiresIn = d\<rparr>\<rparr>, oa \<and> ob \<and> oc \<and> od))"

text \<open>The Custos answer is decoded as far as it goes: an error of \<^verbatim>\<open>json.Unmarshal\<close> is ignored.\<close>

fun assign_user :: "string \<Rightarrow> json \<Rightarrow> string" where
  "assign_user uid (JObject ms) = fst (foldl assign_string (uid, True) (members_of ''id'' ms))"
| "assign_user uid _ = uid"

definition decode_me :: "string \<Rightarrow> custosMeResponse" where
  "decode_me body =
     (case json_parse body of
        None \<Rightarrow> \<lparr>meUserID = [], meCode = []\<rparr>
      | Some v \<Rightarrow>
          (let ms = fst (object_members v)
           in \<lparr>meUserID = foldl assign_user [] (members_of ''user'' ms), meCode = fst (string_field ''code'' ms)\<rparr>))"

section \<open>State\<close>

record cachedOIDCKeys =
  ckMetadata :: Metadata
  ckKeys :: "(string \<times> rsa_key) list option"
  ckExpires :: time

text \<open>A refresh call is named by a number; \<open>odCalls\<close> keeps the outcomes of the calls that have ended.\<close>

record OIDC =
  odAuthority :: url
  odClientID :: string
  odCache :: cachedOIDCKeys
  odRefresh :: "nat option"
  odNextUnknownRefresh :: time
  odCalls :: "(nat \<times> go_error option) list"
  odNextCall :: nat

record cachedCustosUser =
  cuID :: string
  cuExpiresAt :: time

record Custos =
  csCache :: "(nat list \<times> cachedCustosUser) list"
  csEndpoint :: string

record identity_world = http_world +
  iwOIDC :: OIDC
  iwCustos :: Custos

type_synonym 'a identity_prog = "(identity_world, 'a) state"

text \<open>\<^verbatim>\<open>Unix\<close> counts seconds from 1970, a time counts nanoseconds from the year 1.\<close>

definition Unix :: "time \<Rightarrow> int" where
  "Unix t = t div second - 62135596800"

section \<open>OIDC\<close>

definition NewOIDC :: "string \<Rightarrow> string \<Rightarrow> OIDC res" where
  "NewOIDC issuer clientID =
     (case url_parse issuer of
        None \<Rightarrow> Inl (Plain ''OIDC issuer must be an HTTPS URL'')
      | Some parsed \<Rightarrow>
          if uScheme parsed \<noteq> ''https'' \<or> uHost parsed = [] \<or> uUser parsed \<noteq> None \<or> uQuery parsed \<noteq> [] \<or> uFragment parsed \<noteq> [] then
            Inl (Plain ''OIDC issuer must be an HTTPS URL'')
          else if \<not> ValidIdentityValue clientID then Inl (Plain ''OIDC client ID is invalid'')
          else Inr \<lparr>odAuthority = parsed, odClientID = clientID,
                    odCache = \<lparr>ckMetadata = \<lparr>mdIssuer = [], mdJWKSURI = [], mdAuthorizationEndpoint = [], mdTokenEndpoint = [], mdDeviceEndpoint = []\<rparr>,
                               ckKeys = None, ckExpires = 0\<rparr>,
                    odRefresh = None, odNextUnknownRefresh = 0, odCalls = [], odNextCall = 0\<rparr>)"

definition token_json :: "((string \<times> json) list \<Rightarrow> 'a \<times> bool) \<Rightarrow> string \<Rightarrow> 'a res" where
  "token_json read encoded =
     (case DecodeBase64URL encoded of
        None \<Rightarrow> Inl (Plain ''token encoding'')
      | Some decoded \<Rightarrow> (case decode_struct read (map char_of decoded) of None \<Rightarrow> Inl (Plain ''token JSON'') | Some v \<Rightarrow> Inr v))"

definition parseSignedIDToken :: "string \<Rightarrow> (idTokenHeader \<times> idTokenClaims \<times> string \<times> nat list) res" where
  "parseSignedIDToken token =
     (case split_on CHR ''.'' token of
        [p0, p1, p2] \<Rightarrow>
          if \<not> ValidCredential token \<or> MaxCredentialBytes < length p0 \<or> MaxCredentialBytes < length p1 \<or> MaxCredentialBytes < length p2 then
            Inl (Plain ''token format'')
          else
            (case token_json header_fields p0 of
               Inl _ \<Rightarrow> Inl (Plain ''token header'')
             | Inr th \<Rightarrow>
                 if thAlg th \<noteq> ''RS256'' \<or> \<not> ValidIdentityValue (thKid th) \<or> thTyp th \<noteq> [] \<and> thTyp th \<noteq> ''JWT'' then
                   Inl (Plain ''token header'')
                 else
                   (case token_json claims_fields p1 of
                      Inl e \<Rightarrow> Inl e
                    | Inr claims \<Rightarrow>
                        (case DecodeBase64URL p2 of
                           None \<Rightarrow> Inl (Plain ''token signature'')
                         | Some signature \<Rightarrow>
                             if signature = [] then Inl (Plain ''token signature'')
                             else Inr (th, claims, p0 @ ''.'' @ p1, signature))))
      | _ \<Rightarrow> Inl (Plain ''token format''))"

definition validateClaims :: "OIDC \<Rightarrow> time \<Rightarrow> idTokenClaims \<Rightarrow> string \<Rightarrow> unit res" where
  "validateClaims v now claims configuredIssuer =
     (case tcExpires claims of
        None \<Rightarrow> Inl (Plain ''ID token claims are invalid'')
      | Some expires \<Rightarrow>
          if tcIssuer claims \<noteq> configuredIssuer \<or> tcAudience claims \<noteq> odClientID v \<or> \<not> ValidIdentityValue (tcSubject claims) then
            Inl (Plain ''ID token claims are invalid'')
          else if expires \<le> Unix now then Inl (Plain ''ID token is outside its validity period'')
          else (case tcNotBefore claims of
                  Some notBefore \<Rightarrow> if Unix now < notBefore then Inl (Plain ''ID token is outside its validity period'') else Inr ()
                | None \<Rightarrow> Inr ()))"

text \<open>
  The locked sections of \<^verbatim>\<open>keys\<close> and \<^verbatim>\<open>runRefresh\<close>. A caller is answered from the cache, or waits for a call it joins or
  starts; a refresh ends with its outcome; and a caller leaves with what the call it waited for has left.
\<close>

datatype keys_entry = Cached cachedOIDCKeys | Joins nat | Starts nat

definition known_key :: "OIDC \<Rightarrow> string \<Rightarrow> rsa_key option" where
  "known_key v kid = (case ckKeys (odCache v) of None \<Rightarrow> None | Some ks \<Rightarrow> alookup ks kid)"

definition enter_keys :: "time \<Rightarrow> string \<Rightarrow> OIDC \<Rightarrow> keys_entry \<times> OIDC" where
  "enter_keys now unknownKID v =
     (let cached = (if unknownKID \<noteq> [] then known_key v unknownKID \<noteq> None \<or> odRefresh v = None \<and> now < odNextUnknownRefresh v
                    else ckKeys (odCache v) \<noteq> None \<and> now < ckExpires (odCache v))
      in if cached then (Cached (odCache v), v)
         else (case odRefresh v of
                 Some call \<Rightarrow> (Joins call, v)
               | None \<Rightarrow>
                   (Starts (odNextCall v),
                    v\<lparr>odRefresh := Some (odNextCall v), odNextCall := Suc (odNextCall v),
                      odNextUnknownRefresh := (if unknownKID \<noteq> [] then now + oidcUnknownKIDCooldown else odNextUnknownRefresh v)\<rparr>)))"

definition finish_refresh :: "time \<Rightarrow> (Metadata \<times> (string \<times> rsa_key) list) res \<Rightarrow> nat \<Rightarrow> OIDC \<Rightarrow> OIDC" where
  "finish_refresh now fetched call v =
     (let v1 = (case fetched of
                  Inl e \<Rightarrow> v\<lparr>odCalls := aput call (Some e) (odCalls v)\<rparr>
                | Inr (metadata, keys) \<Rightarrow>
                    v\<lparr>odCache := \<lparr>ckMetadata = metadata, ckKeys = Some keys, ckExpires = now + oidcCacheTTL\<rparr>,
                      odCalls := aput call None (odCalls v)\<rparr>)
      in if odRefresh v1 = Some call then v1\<lparr>odRefresh := None\<rparr> else v1)"

text \<open>A caller that waits for a call that has not ended is released by the end of its context.\<close>

definition leave_keys :: "nat \<Rightarrow> OIDC \<Rightarrow> cachedOIDCKeys res" where
  "leave_keys call v =
     (case alookup (odCalls v) call of
        Some (Some e) \<Rightarrow> Inl e
      | Some None \<Rightarrow> Inr (odCache v)
      | None \<Rightarrow> Inl DeadlineExceeded)"

text \<open>\<^verbatim>\<open>fetchMetadata\<close>: every endpoint a reference without a user, the issuer the configured one, all on its scheme and host.\<close>

definition trim_slashes :: "string \<Rightarrow> string" where
  "trim_slashes s = rev (dropWhile (\<lambda>c. c = CHR ''/'') (rev s))"

definition discovery_endpoint :: "url \<Rightarrow> string" where
  "discovery_endpoint authority =
     url_string (authority\<lparr>uPath := trim_slashes (uPath authority) @ ''/.well-known/openid-configuration''\<rparr>)"

definition discovery_endpoints :: "Metadata \<Rightarrow> string list" where
  "discovery_endpoints m =
     [mdIssuer m, mdJWKSURI m, mdAuthorizationEndpoint m, mdTokenEndpoint m]
     @ (if mdDeviceEndpoint m \<noteq> [] then [mdDeviceEndpoint m] else [])"

definition endpoint_ok :: "string \<Rightarrow> bool" where
  "endpoint_ok raw \<longleftrightarrow> raw \<noteq> [] \<and> (case url_parse raw of None \<Rightarrow> False | Some u \<Rightarrow> uUser u = None)"

definition on_authority :: "url \<Rightarrow> string \<Rightarrow> bool" where
  "on_authority authority raw \<longleftrightarrow>
     (case url_parse raw of None \<Rightarrow> False | Some u \<Rightarrow> uScheme u = uScheme authority \<and> uHost u = uHost authority)"

definition check_metadata :: "url \<Rightarrow> Metadata \<Rightarrow> Metadata res" where
  "check_metadata authority m =
     (if \<not> list_all endpoint_ok (discovery_endpoints m) then Inl (Plain ''OIDC discovery metadata is invalid'')
      else if mdIssuer m \<noteq> url_string authority then Inl (Plain ''OIDC discovery issuer does not match the configured issuer'')
      else if \<not> list_all (on_authority authority) (discovery_endpoints m) then
        Inl (Plain ''OIDC discovery endpoints do not match the configured issuer'')
      else Inr m)"

definition fetchMetadata :: "http_env \<Rightarrow> url \<Rightarrow> Metadata res identity_prog" where
  "fetchMetadata E authority = do {
     answer \<leftarrow> GetJSON E (discovery_endpoint authority) [] maxOIDCResponse (decode_struct metadata_fields);
     State_Monad.return
       (case answer of Inl _ \<Rightarrow> Inl (Plain ''fetch OIDC discovery metadata'') | Inr m \<Rightarrow> check_metadata authority m) }"

definition decode_key :: "oidcKey \<Rightarrow> rsa_key res" where
  "decode_key jwk =
     (case (b64_decode (jwkN jwk), b64_decode (jwkE jwk)) of
        (Some n, Some e) \<Rightarrow>
          if length n < 256 \<or> length e = 0 \<or> 4 < length e then Inl (Plain ''OIDC RSA key is invalid'')
          else if BitLen (bytes_val n) < 2048 \<or> bytes_val e < 3 \<or> even (bytes_val e) then Inl (Plain ''OIDC RSA key is invalid'')
          else Inr \<lparr>rkN = bytes_val n, rkE = bytes_val e\<rparr>
      | _ \<Rightarrow> Inl (Plain ''OIDC RSA key is invalid''))"

fun collect_keys :: "(string \<times> rsa_key) list \<Rightarrow> oidcKey list \<Rightarrow> (string \<times> rsa_key) list res" where
  "collect_keys keys [] = Inr keys"
| "collect_keys keys (jwk # rest) =
     (if jwkKty jwk \<noteq> ''RSA'' \<or> jwkUse jwk \<noteq> [] \<and> jwkUse jwk \<noteq> ''sig'' \<or> jwkAlg jwk \<noteq> [] \<and> jwkAlg jwk \<noteq> ''RS256'' then
        collect_keys keys rest
      else if \<not> ValidIdentityValue (jwkKid jwk) \<or> alookup keys (jwkKid jwk) \<noteq> None then Inl (Plain ''OIDC signing key is invalid'')
      else (case decode_key jwk of
              Inl e \<Rightarrow> Inl e
            | Inr key \<Rightarrow> collect_keys (aput (jwkKid jwk) key keys) rest))"

definition fetchKeys :: "http_env \<Rightarrow> string \<Rightarrow> (string \<times> rsa_key) list res identity_prog" where
  "fetchKeys E endpoint = do {
     answer \<leftarrow> GetJSON E endpoint [] maxOIDCResponse (decode_struct key_set_fields);
     State_Monad.return
       (case answer of
          Inl _ \<Rightarrow> Inl (Plain ''fetch OIDC signing keys'')
        | Inr jwks \<Rightarrow>
            (case collect_keys [] jwks of
               Inl e \<Rightarrow> Inl e
             | Inr keys \<Rightarrow> if keys = [] then Inl (Plain ''OIDC signing keys are empty'') else Inr keys)) }"

definition fetch_all :: "http_env \<Rightarrow> url \<Rightarrow> (Metadata \<times> (string \<times> rsa_key) list) res identity_prog" where
  "fetch_all E authority = do {
     metadata \<leftarrow> fetchMetadata E authority;
     (case metadata of
        Inl e \<Rightarrow> State_Monad.return (Inl e)
      | Inr m \<Rightarrow> do {
          keys \<leftarrow> fetchKeys E (mdJWKSURI m);
          State_Monad.return (case keys of Inl e \<Rightarrow> Inl e | Inr ks \<Rightarrow> Inr (m, ks)) }) }"

definition runRefresh :: "http_env \<Rightarrow> nat \<Rightarrow> unit identity_prog" where
  "runRefresh E call = do {
     w \<leftarrow> State_Monad.get;
     fetched \<leftarrow> fetch_all E (odAuthority (iwOIDC w));
     now \<leftarrow> (case fetched of Inl _ \<Rightarrow> State_Monad.return 0 | Inr _ \<Rightarrow> clock E);
     State_Monad.update (\<lambda>w. w\<lparr>iwOIDC := finish_refresh now fetched call (iwOIDC w)\<rparr>) }"

definition await :: "http_env \<Rightarrow> nat \<Rightarrow> cachedOIDCKeys res identity_prog" where
  "await E call = do {
     t \<leftarrow> http_tick;
     w \<leftarrow> State_Monad.get;
     State_Monad.return (case ieContext E t of Some e \<Rightarrow> Inl e | None \<Rightarrow> leave_keys call (iwOIDC w)) }"

definition keys :: "http_env \<Rightarrow> string \<Rightarrow> cachedOIDCKeys res identity_prog" where
  "keys E unknownKID = do {
     now \<leftarrow> clock E;
     w \<leftarrow> State_Monad.get;
     let (entry, v) = enter_keys now unknownKID (iwOIDC w);
     _ \<leftarrow> State_Monad.set (w\<lparr>iwOIDC := v\<rparr>);
     (case entry of
        Cached cache \<Rightarrow> State_Monad.return (Inr cache)
      | Joins call \<Rightarrow> await E call
      | Starts call \<Rightarrow> do { _ \<leftarrow> runRefresh E call; await E call }) }"

definition cache_key :: "cachedOIDCKeys \<Rightarrow> string \<Rightarrow> rsa_key option" where
  "cache_key cache kid = (case ckKeys cache of None \<Rightarrow> None | Some ks \<Rightarrow> alookup ks kid)"

definition check_token :: "http_env \<Rightarrow> idTokenClaims \<Rightarrow> string \<Rightarrow> nat list \<Rightarrow> cachedOIDCKeys \<Rightarrow> rsa_key \<Rightarrow> unit res identity_prog" where
  "check_token E claims signingInput signature cache key =
     (if \<not> VerifyPKCS1v15 key (sha256 signingInput) signature then State_Monad.return (Inl (Plain ''ID token signature is invalid''))
      else do {
        w \<leftarrow> State_Monad.get;
        now \<leftarrow> clock E;
        State_Monad.return (validateClaims (iwOIDC w) now claims (mdIssuer (ckMetadata cache))) })"

definition Validate :: "http_env \<Rightarrow> string \<Rightarrow> unit res identity_prog" where
  "Validate E token =
     (case parseSignedIDToken token of
        Inl _ \<Rightarrow> State_Monad.return (Inl (Plain ''ID token is invalid''))
      | Inr (th, claims, signingInput, signature) \<Rightarrow> do {
          known \<leftarrow> keys E [];
          (case known of
             Inl e \<Rightarrow> State_Monad.return (Inl e)
           | Inr cache \<Rightarrow>
               (case cache_key cache (thKid th) of
                  Some key \<Rightarrow> check_token E claims signingInput signature cache key
                | None \<Rightarrow> do {
                    refreshed \<leftarrow> keys E (thKid th);
                    (case refreshed of
                       Inl e \<Rightarrow> State_Monad.return (Inl e)
                     | Inr cache \<Rightarrow>
                         (case cache_key cache (thKid th) of
                            Some key \<Rightarrow> check_token E claims signingInput signature cache key
                          | None \<Rightarrow> State_Monad.return (Inl (Plain ''ID token signing key is unknown'')))) })) })"

definition Discovery :: "http_env \<Rightarrow> Metadata res identity_prog" where
  "Discovery E = do {
     cache \<leftarrow> keys E [];
     State_Monad.return (case cache of Inl e \<Rightarrow> Inl e | Inr c \<Rightarrow> Inr (ckMetadata c)) }"

section \<open>Grants\<close>

text \<open>What the token endpoint's answer comes to.\<close>

definition classify_tokens :: "string \<times> nat \<Rightarrow> Tokens res" where
  "classify_tokens = (\<lambda>(body, status).
     (case decode_struct token_response_fields body of
        None \<Rightarrow> Inl ErrTokenInvalid
      | Some response \<Rightarrow>
          (let tokens = trTokens response
           in if trError response = ''authorization_pending'' \<or> trError response = ''slow_down'' then Inl ErrAuthorizationPending
              else if trError response = ''invalid_grant'' \<or> trError response = ''expired_token'' \<or> trError response = ''access_denied'' then
                Inl ErrGrantRejected
              else if status < 200 \<or> 300 \<le> status \<or> trError response \<noteq> [] then Inl ErrTokenUnavailable
              else if \<not> ValidCredential (tkIDToken tokens) \<or> tkExpiresIn tokens \<le> 0 \<or> 86400 < tkExpiresIn tokens
                \<or> tkRefreshToken tokens \<noteq> [] \<and> \<not> ValidCredential (tkRefreshToken tokens) then Inl ErrTokenInvalid
              else Inr tokens)))"

definition redeem :: "http_env \<Rightarrow> string \<Rightarrow> (string \<times> string) list \<Rightarrow> Tokens res identity_prog" where
  "redeem E clientSecret form = do {
     found \<leftarrow> Discovery E;
     (case found of
        Inl _ \<Rightarrow> State_Monad.return (Inl ErrTokenUnavailable)
      | Inr metadata \<Rightarrow> do {
          w \<leftarrow> State_Monad.get;
          answer \<leftarrow> PostForm E (mdTokenEndpoint metadata)
            (aput ''client_secret'' clientSecret (aput ''client_id'' (odClientID (iwOIDC w)) form)) maxOAuthResponse;
          State_Monad.return
            (case answer of
               Inl e \<Rightarrow> Inl (Wrapf [[], '': ''] [ErrTokenUnavailable, e])
             | Inr r \<Rightarrow> classify_tokens r) }) }"

definition Exchange :: "http_env \<Rightarrow> string \<Rightarrow> string \<Rightarrow> string \<Rightarrow> string \<Rightarrow> Tokens res identity_prog" where
  "Exchange E clientSecret code verifier redirectURI =
     redeem E clientSecret
       [(''grant_type'', ''authorization_code''), (''code'', code), (''redirect_uri'', redirectURI), (''code_verifier'', verifier)]"

definition Refresh :: "http_env \<Rightarrow> string \<Rightarrow> string \<Rightarrow> Tokens res identity_prog" where
  "Refresh E clientSecret refreshToken =
     redeem E clientSecret [(''grant_type'', ''refresh_token''), (''refresh_token'', refreshToken)]"

definition RedeemDevice :: "http_env \<Rightarrow> string \<Rightarrow> string \<Rightarrow> Tokens res identity_prog" where
  "RedeemDevice E clientSecret deviceCode =
     redeem E clientSecret [(''grant_type'', ''urn:ietf:params:oauth:grant-type:device_code''), (''device_code'', deviceCode)]"

definition DeviceAuthorize :: "http_env \<Rightarrow> string \<Rightarrow> string \<Rightarrow> DeviceAuthorization res identity_prog" where
  "DeviceAuthorize E clientSecret scope = do {
     found \<leftarrow> Discovery E;
     (case found of
        Inl _ \<Rightarrow> State_Monad.return (Inl ErrTokenUnavailable)
      | Inr metadata \<Rightarrow> do {
          w \<leftarrow> State_Monad.get;
          answer \<leftarrow> PostForm E (mdDeviceEndpoint metadata)
            [(''client_id'', odClientID (iwOIDC w)), (''client_secret'', clientSecret), (''scope'', scope)] maxOAuthResponse;
          State_Monad.return
            (case answer of
               Inl _ \<Rightarrow> Inl ErrTokenUnavailable
             | Inr (body, status) \<Rightarrow>
                 (case (if status = 200 then decode_struct device_fields body else None) of
                    None \<Rightarrow> Inl ErrTokenUnavailable
                  | Some authorization \<Rightarrow>
                      if daDeviceCode authorization = [] then Inl ErrTokenUnavailable
                      else Inr (authorization\<lparr>daInterval := max (daInterval authorization) MinDeviceInterval\<rparr>))) }) }"

section \<open>Custos\<close>

definition NewCustos :: "string \<Rightarrow> Custos res" where
  "NewCustos baseURL =
     (case url_parse baseURL of
        None \<Rightarrow> Inl (Plain ''Custos URL must be an HTTPS URL, or HTTP on a loopback address'')
      | Some parsed \<Rightarrow>
          (let secure = uScheme parsed = ''https'' \<or>
                 uScheme parsed = ''http'' \<and> (case ParseIP (Hostname parsed) of None \<Rightarrow> False | Some ip \<Rightarrow> IsLoopback ip)
           in if baseURL \<noteq> trim_space baseURL \<or> \<not> secure \<or> uHost parsed = [] \<or> uUser parsed \<noteq> None \<or> uQuery parsed \<noteq> []
                 \<or> uFragment parsed \<noteq> [] \<or> uOpaque parsed \<noteq> [] then
                Inl (Plain ''Custos URL must be an HTTPS URL, or HTTP on a loopback address'')
              else Inr \<lparr>csCache = [], csEndpoint = url_string (parsed\<lparr>uPath := trim_slashes (uPath parsed) @ ''/me''\<rparr>)\<rparr>))"

definition store_user :: "nat list \<Rightarrow> cachedCustosUser \<Rightarrow> Custos \<Rightarrow> Custos" where
  "store_user key user r =
     (let cache = (if maxCustosUsers \<le> length (csCache r) then [] else csCache r) in r\<lparr>csCache := aput key user cache\<rparr>)"

text \<open>What a Custos answer comes to, and the resolution of a token that the cache does not know.\<close>

definition classify_me :: "string \<times> nat \<Rightarrow> string res" where
  "classify_me = (\<lambda>(body, status).
     (let response = decode_me body
      in if status = 401 then Inl (if meCode response = ''identity_not_linked'' then ErrIdentityNotLinked else ErrIdentityUnrecognized)
         else if status < 200 \<or> 300 \<le> status \<or> \<not> ValidIdentityValue (meUserID response) then
           Inl (Plain ''Custos identity resolution failed'')
         else Inr (meUserID response)))"

definition resolve_fresh :: "http_env \<Rightarrow> string \<Rightarrow> nat list \<Rightarrow> time \<Rightarrow> string res identity_prog" where
  "resolve_fresh E idToken key now = do {
     w \<leftarrow> State_Monad.get;
     (case NewRequest E ''GET'' (csEndpoint (iwCustos w)) (''Bearer '' @ idToken) [] of
        Inl e \<Rightarrow> State_Monad.return (Inl e)
      | Inr call \<Rightarrow> do {
          answer \<leftarrow> Do E call maxOAuthResponse;
          (case answer of
             Inl e \<Rightarrow> State_Monad.return (Inl (Wrapf [''resolve Custos identity: ''] [e]))
           | Inr r \<Rightarrow>
               (case classify_me r of
                  Inl e \<Rightarrow> State_Monad.return (Inl e)
                | Inr uid \<Rightarrow> do {
                    _ \<leftarrow> State_Monad.update (\<lambda>w. w\<lparr>iwCustos :=
                      store_user key \<lparr>cuID = uid, cuExpiresAt = now + custosUserTTL\<rparr> (iwCustos w)\<rparr>);
                    State_Monad.return (Inr uid) })) }) }"

definition Resolve :: "http_env \<Rightarrow> string \<Rightarrow> string res identity_prog" where
  "Resolve E idToken =
     (if \<not> ValidCredential idToken then State_Monad.return (Inl (Plain ''Custos identity token is invalid''))
      else do {
        now \<leftarrow> clock E;
        w \<leftarrow> State_Monad.get;
        (case alookup (csCache (iwCustos w)) (sha256 idToken) of
           Some cached \<Rightarrow>
             if now < cuExpiresAt cached then State_Monad.return (Inr (cuID cached)) else resolve_fresh E idToken (sha256 idToken) now
         | None \<Rightarrow> resolve_fresh E idToken (sha256 idToken) now) })"

section \<open>What the caches hold\<close>

definition key_ok :: "rsa_key \<Rightarrow> bool" where
  "key_ok key \<longleftrightarrow> 2048 \<le> BitLen (rkN key) \<and> odd (rkE key) \<and> 3 \<le> rkE key"

definition metadata_ok :: "url \<Rightarrow> Metadata \<Rightarrow> bool" where
  "metadata_ok authority m \<longleftrightarrow>
     mdIssuer m = url_string authority \<and> list_all endpoint_ok (discovery_endpoints m) \<and> list_all (on_authority authority) (discovery_endpoints m)"

definition fetched_ok :: "url \<Rightarrow> Metadata \<times> (string \<times> rsa_key) list \<Rightarrow> bool" where
  "fetched_ok authority = (\<lambda>(m, ks). metadata_ok authority m \<and> ks \<noteq> [] \<and> (\<forall>(kid, key) \<in> set ks. ValidIdentityValue kid \<and> key_ok key))"

definition cache_ok :: "url \<Rightarrow> cachedOIDCKeys \<Rightarrow> bool" where
  "cache_ok authority c \<longleftrightarrow> (\<exists>ks. ckKeys c = Some ks \<and> fetched_ok authority (ckMetadata c, ks))"

text \<open>
  The cache is empty or holds what a fetch of the authority gave; every call but the running one has ended, and one that ended
  well has filled the cache.
\<close>

definition oidc_ok :: "OIDC \<Rightarrow> bool" where
  "oidc_ok v \<longleftrightarrow>
     (ckKeys (odCache v) = None \<or> cache_ok (odAuthority v) (odCache v))
     \<and> (\<forall>call < odNextCall v. (alookup (odCalls v) call = None) = (odRefresh v = Some call))
     \<and> (\<forall>call \<ge> odNextCall v. alookup (odCalls v) call = None \<and> odRefresh v \<noteq> Some call)
     \<and> (\<forall>call. alookup (odCalls v) call = Some None \<longrightarrow> cache_ok (odAuthority v) (odCache v))"

lemma check_metadata_ok: "check_metadata authority m = Inr m' \<Longrightarrow> m' = m \<and> metadata_ok authority m"
  by (auto simp: check_metadata_def metadata_ok_def split: if_splits)

lemma decode_key_ok: "decode_key jwk = Inr key \<Longrightarrow> key_ok key"
  by (auto simp: decode_key_def key_ok_def split: option.splits if_splits)

lemma collect_keys_ok:
  "collect_keys ks jwks = Inr ks' \<Longrightarrow> \<forall>(kid, key) \<in> set ks. ValidIdentityValue kid \<and> key_ok key \<Longrightarrow>
     \<forall>(kid, key) \<in> set ks'. ValidIdentityValue kid \<and> key_ok key"
proof (induction ks jwks rule: collect_keys.induct)
  case (2 ks jwk rest)
  show ?case
  proof (cases "jwkKty jwk \<noteq> ''RSA'' \<or> jwkUse jwk \<noteq> [] \<and> jwkUse jwk \<noteq> ''sig'' \<or> jwkAlg jwk \<noteq> [] \<and> jwkAlg jwk \<noteq> ''RS256''")
    case False
    with "2.prems"(1) obtain key where kid: "ValidIdentityValue (jwkKid jwk)" "alookup ks (jwkKid jwk) = None" and key: "decode_key jwk = Inr key"
      and rest: "collect_keys (aput (jwkKid jwk) key ks) rest = Inr ks'" by (auto split: if_splits sum.splits)
    have "\<forall>(k, x) \<in> set (aput (jwkKid jwk) key ks). ValidIdentityValue k \<and> key_ok x"
      using aput_set_subset [of "jwkKid jwk" key ks] "2.prems"(2) kid decode_key_ok [OF key] by fastforce
    from "2.IH"(2) [OF False _ key rest this] kid show ?thesis by simp
  qed (use 2 in auto)
qed simp

lemma enter_keys_ok:
  assumes "oidc_ok v" and "enter_keys now kid v = (entry, v')"
  shows "oidc_ok v' \<and> odAuthority v' = odAuthority v \<and> odClientID v' = odClientID v
    \<and> (\<forall>call. entry = Starts call \<longrightarrow> odRefresh v' = Some call)"
  using assms by (auto simp: enter_keys_def oidc_ok_def Let_def less_Suc_eq split: if_splits option.splits)

lemma enter_keys_cached:
  assumes "oidc_ok v" and "enter_keys now kid v = (Cached c, v')"
  shows "c = odCache v \<and> (kid = [] \<longrightarrow> ckKeys c \<noteq> None)"
  using assms by (auto simp: enter_keys_def Let_def split: if_splits option.splits)

lemma finish_refresh_ok:
  assumes "oidc_ok v" and "odRefresh v = Some call" and "\<And>r. fetched = Inr r \<Longrightarrow> fetched_ok (odAuthority v) r"
  shows "oidc_ok (finish_refresh now fetched call v)"
    and "odAuthority (finish_refresh now fetched call v) = odAuthority v" and "odClientID (finish_refresh now fetched call v) = odClientID v"
  using assms
  by (auto simp: finish_refresh_def oidc_ok_def Let_def cache_ok_def split: sum.splits)

lemma leave_keys_ok: "oidc_ok v \<Longrightarrow> leave_keys call v = Inr c \<Longrightarrow> cache_ok (odAuthority v) c"
  by (auto simp: leave_keys_def oidc_ok_def split: option.splits)

section \<open>The invariant of the identity state\<close>

text \<open>
  A secret goes only to the authority (a request without a URL reaches no host), and a bearer only to the Custos endpoint.
\<close>

definition call_confined :: "url \<Rightarrow> string \<Rightarrow> http_call \<Rightarrow> bool" where
  "call_confined authority endpoint call \<longleftrightarrow>
     (alookup (hcForm call) ''client_secret'' \<noteq> None \<longrightarrow> hcURL call = [] \<or> on_authority authority (hcURL call))
     \<and> (header_values (hcHeader call) ''Authorization'' \<noteq> [] \<longrightarrow> hcURL call = endpoint)"

text \<open>An answer of Custos in the log: to a request with this bearer, that names this user.\<close>

definition answered :: "identity_world \<Rightarrow> string \<Rightarrow> string \<Rightarrow> bool" where
  "answered w token uid \<longleftrightarrow>
     (\<exists>call status stream. (call, Inr (status, Inr stream)) \<in> set (iwLog w) \<and> hcURL call = csEndpoint (iwCustos w)
        \<and> header_values (hcHeader call) ''Authorization'' = [''Bearer '' @ token]
        \<and> classify_me (stream, status) = Inr uid)"

definition custos_ok :: "identity_world \<Rightarrow> bool" where
  "custos_ok w \<longleftrightarrow>
     distinct (map fst (csCache (iwCustos w))) \<and> length (csCache (iwCustos w)) \<le> maxCustosUsers
     \<and> (\<forall>(key, user) \<in> set (csCache (iwCustos w)). \<exists>token. sha256 token = key \<and> answered w token (cuID user))"

definition identity_ok :: "url \<Rightarrow> string \<Rightarrow> string \<Rightarrow> identity_world \<Rightarrow> bool" where
  "identity_ok authority client endpoint w \<longleftrightarrow>
     odAuthority (iwOIDC w) = authority \<and> odClientID (iwOIDC w) = client \<and> csEndpoint (iwCustos w) = endpoint
     \<and> oidc_ok (iwOIDC w) \<and> list_all (call_confined authority endpoint \<circ> fst) (iwLog w) \<and> custos_ok w"

lemma custos_ok_oidc [simp]: "custos_ok (w\<lparr>iwOIDC := v\<rparr>) = custos_ok w" "custos_ok (w\<lparr>iwTick := t\<rparr>) = custos_ok w"
  by (simp_all add: custos_ok_def answered_def)

lemma keeps_http_tick [ensures_rules]: "keeps (identity_ok a c e) http_tick"
  by (rule ensuresI) (auto simp: http_tick_def identity_ok_def)

lemma keeps_clock [ensures_rules]: "ensures (identity_ok a c e) (clock E) (\<lambda>now. \<exists>t. now = ieNow E t)"
  by (rule ensuresI) (auto simp: clock_def http_tick_def identity_ok_def)

lemma answered_log: "answered w token uid \<Longrightarrow> answered (w\<lparr>iwTick := t, iwLog := iwLog w @ xs\<rparr>) token uid"
  by (fastforce simp: answered_def)

lemma keeps_client_Do: "call_confined a e call \<Longrightarrow> keeps (identity_ok a c e) (client_Do E call)"
proof (rule ensuresI, simp)
  fix w assume call: "call_confined a e call" and ok: "identity_ok a c e w"
  let ?w = "w\<lparr>iwTick := Suc (iwTick w), iwLog := iwLog w @ [(call, ieDo E (iwTick w) call)]\<rparr>"
  have "custos_ok ?w" using ok answered_log [of w] by (auto simp: identity_ok_def custos_ok_def) fastforce
  with ok call have "identity_ok a c e ?w" by (simp add: identity_ok_def)
  then show "identity_ok a c e (snd (run_state (client_Do E call) w))" by (simp add: client_Do_def http_tick_def)
qed

lemma keeps_Do: "call_confined a e call \<Longrightarrow> keeps (identity_ok a c e) (Do E call limit)"
  unfolding Do_def by (rule ensures_bind [OF keeps_client_Do]) (auto intro: ensures_return)

lemma NewRequest_confined:
  assumes "NewRequest E m url authorization form = Inr call"
  shows "hcURL call = url \<and> hcForm call = form \<and> header_values (hcHeader call) ''Authorization'' = (if authorization = [] then [] else [authorization])"
  using assms by (cases "authorization = []") (auto simp: NewRequest_def header_set_def header_values_def Let_def split: option.splits)

lemma keeps_GetJSON [ensures_rules]: "keeps (identity_ok a c e) (GetJSON E url [] limit decode)"
  unfolding GetJSON_def
  by (intro ensures_case_sum ensures_return TrueI ensures_bind [OF keeps_Do]) (auto simp: call_confined_def dest!: NewRequest_confined)

lemma keeps_PostForm:
  assumes "url = [] \<or> on_authority a url"
  shows "keeps (identity_ok a c e) (PostForm E url form limit)"
  unfolding PostForm_def using assms
  by (intro ensures_case_sum ensures_return TrueI keeps_Do)
    (auto simp: call_confined_def header_set_def header_values_def dest!: NewRequest_confined)

text \<open>Whatever else holds of the state, a fetch that succeeds has checked what it fetched.\<close>

lemma ensures_fetch_all:
  assumes "\<And>url. keeps P (GetJSON E url [] maxOIDCResponse (decode_struct metadata_fields))"
    and "\<And>url. keeps P (GetJSON E url [] maxOIDCResponse (decode_struct key_set_fields))"
  shows "ensures P (fetch_all E authority) (\<lambda>r. \<forall>x. r = Inr x \<longrightarrow> fetched_ok authority x)"
proof -
  have metadata: "ensures P (fetchMetadata E authority) (\<lambda>r. \<forall>m. r = Inr m \<longrightarrow> metadata_ok authority m)"
    unfolding fetchMetadata_def
    by (rule ensures_bind [OF assms(1)]) (auto intro!: ensures_return split: sum.splits dest: check_metadata_ok)
  have keys: "ensures P (fetchKeys E endpoint)
      (\<lambda>r. \<forall>ks. r = Inr ks \<longrightarrow> ks \<noteq> [] \<and> (\<forall>(kid, key) \<in> set ks. ValidIdentityValue kid \<and> key_ok key))" for endpoint
    unfolding fetchKeys_def
    by (rule ensures_bind [OF assms(2)]) (auto intro!: ensures_return split: sum.splits if_splits dest!: collect_keys_ok)
  show ?thesis
    unfolding fetch_all_def
    by (rule ensures_bind [OF metadata], intro ensures_case_sum ensures_return, simp)
      (rule ensures_bind [OF keys], auto intro!: ensures_return simp: fetched_ok_def split: sum.splits)
qed

lemmas keeps_fetch_all = ensures_fetch_all [OF keeps_GetJSON keeps_GetJSON]
  and fetch_all_ok = ensures_fetch_all [OF keeps_True keeps_True]

text \<open>A refresh runs between the entry that started it and the end it reports, with the refresh still its own.\<close>

definition refreshing :: "url \<Rightarrow> string \<Rightarrow> string \<Rightarrow> nat \<Rightarrow> identity_world \<Rightarrow> bool" where
  "refreshing a c e call w \<longleftrightarrow> identity_ok a c e w \<and> odRefresh (iwOIDC w) = Some call"

lemma frame_clock: "keeps (\<lambda>w. iwOIDC w = v) (clock E)"
  by (rule ensuresI) (simp add: clock_def http_tick_def)

lemma frame_GetJSON: "keeps (\<lambda>w. iwOIDC w = v) (GetJSON E url authorization limit decode)"
  by (rule ensuresI) (simp add: GetJSON_def Do_def client_Do_def http_tick_def split: sum.splits)

lemmas frame_fetch_all = ensures_fetch_all [OF frame_GetJSON frame_GetJSON]

lemma runRefresh_ok:
  assumes "refreshing a c e call w"
  shows "identity_ok a c e (snd (run_state (runRefresh E call) w))"
proof -
  obtain fetched w1 where fetch: "run_state (fetch_all E a) w = (fetched, w1)" by (cases "run_state (fetch_all E a) w")
  from assms have ok: "identity_ok a c e w" and call: "odRefresh (iwOIDC w) = Some call" by (simp_all add: refreshing_def)
  have ok1: "identity_ok a c e w1" and good: "\<And>x. fetched = Inr x \<Longrightarrow> fetched_ok a x"
    using ensuresD [OF keeps_fetch_all ok fetch] by auto
  have call1: "odRefresh (iwOIDC w1) = Some call" using ensuresD [OF frame_fetch_all refl fetch] call by simp
  obtain now w2 where now: "run_state (case fetched of Inl _ \<Rightarrow> State_Monad.return 0 | Inr _ \<Rightarrow> clock E) w1 = (now, w2)"
    and oidc: "iwOIDC w2 = iwOIDC w1" and ok2: "identity_ok a c e w2"
    using ensuresD [OF frame_clock refl, of E w1] ensuresD [OF keeps_clock ok1] ok1 by (cases fetched; cases "run_state (clock E) w1") auto
  let ?v = "finish_refresh now fetched call (iwOIDC w2)"
  have "oidc_ok ?v \<and> odAuthority ?v = a \<and> odClientID ?v = c"
    using finish_refresh_ok [of "iwOIDC w2" call fetched now] good ok2 call1 oidc by (simp add: identity_ok_def)
  then have "identity_ok a c e (w2\<lparr>iwOIDC := ?v\<rparr>)" using ok2 by (simp add: identity_ok_def)
  moreover have "snd (run_state (runRefresh E call) w) = w2\<lparr>iwOIDC := ?v\<rparr>"
    using ok fetch now by (simp add: runRefresh_def identity_ok_def)
  ultimately show ?thesis by simp
qed

lemma keeps_await: "ensures (identity_ok a c e) (await E call) (\<lambda>r. \<forall>x. r = Inr x \<longrightarrow> cache_ok a x)"
  by (rule ensuresI)
    (auto simp: await_def http_tick_def identity_ok_def dest: leave_keys_ok split: option.splits)

lemma keeps_keys: "ensures (identity_ok a c e) (keys E kid) (\<lambda>r. \<forall>x. r = Inr x \<longrightarrow> cache_ok a x \<or> kid \<noteq> [] \<and> ckKeys x = None)"
proof (rule ensuresI)
  fix w assume "identity_ok a c e w"
  obtain now w1 where now: "run_state (clock E) w = (now, w1)" by (cases "run_state (clock E) w")
  from ensuresD [OF keeps_clock \<open>identity_ok a c e w\<close> now] have ok: "identity_ok a c e w1" by simp
  obtain entry v where enter: "enter_keys now kid (iwOIDC w1) = (entry, v)" by (cases "enter_keys now kid (iwOIDC w1)")
  let ?w = "w1\<lparr>iwOIDC := v\<rparr>"
  have v: "oidc_ok v" "odAuthority v = a" "odClientID v = c" and starts: "\<And>call. entry = Starts call \<Longrightarrow> odRefresh v = Some call"
    using enter_keys_ok [OF _ enter] ok by (auto simp: identity_ok_def)
  then have ok': "identity_ok a c e ?w" using ok by (simp add: identity_ok_def)
  have run: "run_state (keys E kid) w = run_state (case entry of Cached cache \<Rightarrow> State_Monad.return (Inr cache) | Joins call \<Rightarrow> await E call
      | Starts call \<Rightarrow> do { _ \<leftarrow> runRefresh E call; await E call }) ?w"
    using now enter by (simp add: keys_def)
  show "identity_ok a c e (snd (run_state (keys E kid) w)) \<and> (\<forall>x. fst (run_state (keys E kid) w) = Inr x \<longrightarrow> cache_ok a x \<or> kid \<noteq> [] \<and> ckKeys x = None)"
  proof (cases entry)
    case (Cached cache)
    with enter_keys_cached [of "iwOIDC w1" now kid] enter ok have "cache = odCache (iwOIDC w1) \<and> (kid = [] \<longrightarrow> ckKeys cache \<noteq> None)"
      by (auto simp: identity_ok_def)
    with ok ok' run Cached show ?thesis by (auto simp: identity_ok_def oidc_ok_def)
  next
    case (Joins call)
    with run ok' keeps_await [of a c e E call] show ?thesis by (simp add: ensures_def)
  next
    case (Starts call)
    with starts ok' have "identity_ok a c e (snd (run_state (runRefresh E call) ?w))" by (intro runRefresh_ok) (simp add: refreshing_def)
    with run Starts keeps_await [of a c e E call] show ?thesis by (simp add: ensures_def split: prod.splits)
  qed
qed

section \<open>Operations keep the invariant\<close>

lemma metadata_endpoints:
  assumes "metadata_ok a m"
  shows "on_authority a (mdTokenEndpoint m)" and "mdDeviceEndpoint m = [] \<or> on_authority a (mdDeviceEndpoint m)"
    and "on_authority a (mdJWKSURI m)" and "mdIssuer m = url_string a"
  using assms by (auto simp: metadata_ok_def discovery_endpoints_def split: if_splits)

lemma keeps_Discovery: "ensures (identity_ok a c e) (Discovery E) (\<lambda>r. \<forall>m. r = Inr m \<longrightarrow> metadata_ok a m)"
  unfolding Discovery_def
  by (rule ensures_bind [OF keeps_keys]) (auto intro!: ensures_return simp: cache_ok_def fetched_ok_def split: sum.splits)

lemma keeps_redeem: "keeps (identity_ok a c e) (redeem E secret form)"
  unfolding redeem_def
  by (rule ensures_bind [OF keeps_Discovery], intro ensures_case_sum ensures_get_bind ensures_return ensures_bind [OF keeps_PostForm] TrueI)
    (auto dest: metadata_endpoints)

lemma keeps_DeviceAuthorize: "keeps (identity_ok a c e) (DeviceAuthorize E secret scope)"
  unfolding DeviceAuthorize_def
  by (rule ensures_bind [OF keeps_Discovery], intro ensures_case_sum ensures_get_bind ensures_return ensures_bind [OF keeps_PostForm] TrueI)
    (auto dest: metadata_endpoints)

lemma length_aput: "length (aput k v m) \<le> Suc (length m)"
  by (induction m) auto

lemma custos_ok_store:
  assumes "custos_ok w" and "answered w token uid"
  shows "custos_ok (w\<lparr>iwCustos := store_user (sha256 token) \<lparr>cuID = uid, cuExpiresAt = t\<rparr> (iwCustos w)\<rparr>)"
proof -
  let ?cache = "if maxCustosUsers \<le> length (csCache (iwCustos w)) then [] else csCache (iwCustos w)"
  let ?user = "\<lparr>cuID = uid, cuExpiresAt = t\<rparr>"
  have "length (aput (sha256 token) ?user ?cache) \<le> Suc (length ?cache)"
    by (rule length_aput)
  moreover have "Suc (length ?cache) \<le> maxCustosUsers" using assms(1) by (auto simp: custos_ok_def maxCustosUsers_def)
  ultimately have "length (aput (sha256 token) ?user ?cache) \<le> maxCustosUsers" by simp
  moreover have "distinct (map fst (aput (sha256 token) ?user ?cache))"
    using assms(1) by (auto simp: custos_ok_def intro: distinct_keys_aput)
  moreover have "\<exists>token. sha256 token = key \<and> answered w token (cuID user)" if "(key, user) \<in> set (aput (sha256 token) ?user ?cache)" for key user
  proof -
    from that aput_set_subset have "(key, user) \<in> insert (sha256 token, ?user) (set ?cache)" by fast
    then have "(key, user) = (sha256 token, ?user) \<or> (key, user) \<in> set (csCache (iwCustos w))" by (simp split: if_splits)
    with assms show ?thesis by (auto simp: custos_ok_def)
  qed
  ultimately show ?thesis by (auto simp: custos_ok_def store_user_def answered_def Let_def)
qed

text \<open>A token resolved is one the cache knows afterwards, under its digest, with this user.\<close>

lemma Do_answered:
  assumes "run_state (Do E call limit) w = (Inr (body, status), w')"
  shows "iwLog w' = iwLog w @ [(call, Inr (status, Inr body))] \<and> iwCustos w' = iwCustos w"
  using assms by (auto simp: Do_def client_Do_def http_tick_def Let_def split: sum.splits if_splits prod.splits)

lemma resolve_fresh_ok:
  assumes "identity_ok a c e w" and "token \<noteq> []" and "run_state (resolve_fresh E token (sha256 token) now) w = (r, w')"
  shows "identity_ok a c e w' \<and> (\<forall>uid. r = Inr uid \<longrightarrow> (\<exists>u. alookup (csCache (iwCustos w')) (sha256 token) = Some u \<and> cuID u = uid))"
proof (cases "NewRequest E ''GET'' (csEndpoint (iwCustos w)) (''Bearer '' @ token) []")
  case (Inl x)
  with assms show ?thesis by (auto simp: resolve_fresh_def)
next
  case (Inr call)
  from NewRequest_confined [OF Inr] have call: "hcURL call = e" "hcForm call = []" "header_values (hcHeader call) ''Authorization'' = [''Bearer '' @ token]"
    using assms(1) by (auto simp: identity_ok_def)
  then have confined: "call_confined a e call" by (simp add: call_confined_def)
  obtain answer w1 where do: "run_state (Do E call maxOAuthResponse) w = (answer, w1)" by (cases "run_state (Do E call maxOAuthResponse) w")
  from ensuresD [OF keeps_Do [OF confined] assms(1) do] have ok1: "identity_ok a c e w1" by simp
  show ?thesis
  proof (cases answer)
    case (Inl x)
    with assms(3) Inr do ok1 show ?thesis by (auto simp: resolve_fresh_def)
  next
    case answered: (Inr got)
    obtain body status where got: "got = (body, status)" by (cases got)
    note logged = Do_answered [OF do [unfolded answered got]]
    show ?thesis
    proof (cases "classify_me got")
      case (Inl x)
      with assms(3) Inr do answered ok1 show ?thesis by (auto simp: resolve_fresh_def)
    next
      case user: (Inr uid)
      have "answered w1 token uid"
        using logged call user got ok1 by (auto simp: answered_def identity_ok_def)
      from custos_ok_store [OF _ this] ok1
      have "identity_ok a c e (w1\<lparr>iwCustos := store_user (sha256 token) \<lparr>cuID = uid, cuExpiresAt = now + custosUserTTL\<rparr> (iwCustos w1)\<rparr>)"
        by (simp add: identity_ok_def store_user_def)
      with assms(3) Inr do answered user show ?thesis by (auto simp: resolve_fresh_def store_user_def Let_def)
    qed
  qed
qed

lemma Resolve_ok:
  assumes "identity_ok a c e w" and "run_state (Resolve E token) w = (r, w')"
  shows "identity_ok a c e w' \<and> (\<forall>uid. r = Inr uid \<longrightarrow> (\<exists>u. alookup (csCache (iwCustos w')) (sha256 token) = Some u \<and> cuID u = uid))"
proof (cases "ValidCredential token")
  case False
  with assms show ?thesis by (auto simp: Resolve_def)
next
  case True
  then have "token \<noteq> []" by (simp add: ValidCredential_def)
  obtain now w1 where now: "run_state (clock E) w = (now, w1)" by (cases "run_state (clock E) w")
  from ensuresD [OF keeps_clock assms(1) now] have ok1: "identity_ok a c e w1" by simp
  note fresh = resolve_fresh_ok [OF ok1 \<open>token \<noteq> []\<close>, of E now r w']
  show ?thesis
  proof (cases "alookup (csCache (iwCustos w1)) (sha256 token)")
    case None
    with True assms(2) now fresh show ?thesis by (simp add: Resolve_def)
  next
    case (Some user)
    with True assms(2) now fresh ok1 show ?thesis by (cases "now < cuExpiresAt user") (auto simp: Resolve_def)
  qed
qed

section \<open>Tokens\<close>

text \<open>
  What a token that is accepted shows: it is signed, in its exact form, by a key of the authority's key set, which the
  cache holds, and its claims name the authority and this client and hold at a time the clock gave.
\<close>

definition token_accepted :: "http_env \<Rightarrow> url \<Rightarrow> string \<Rightarrow> string \<Rightarrow> bool" where
  "token_accepted E authority client token \<longleftrightarrow>
     (\<exists>th claims signingInput signature cache key t.
        parseSignedIDToken token = Inr (th, claims, signingInput, signature)
        \<and> cache_ok authority cache \<and> cache_key cache (thKid th) = Some key
        \<and> VerifyPKCS1v15 key (sha256 signingInput) signature
        \<and> tcIssuer claims = url_string authority \<and> tcAudience claims = client \<and> ValidIdentityValue (tcSubject claims)
        \<and> (\<exists>expires. tcExpires claims = Some expires \<and> Unix (ieNow E t) < expires)
        \<and> (\<forall>notBefore. tcNotBefore claims = Some notBefore \<longrightarrow> notBefore \<le> Unix (ieNow E t)))"

lemma validateClaims_ok:
  "validateClaims v now claims issuer = Inr () \<longleftrightarrow>
     tcIssuer claims = issuer \<and> tcAudience claims = odClientID v \<and> ValidIdentityValue (tcSubject claims)
     \<and> (\<exists>expires. tcExpires claims = Some expires \<and> Unix now < expires)
     \<and> (\<forall>notBefore. tcNotBefore claims = Some notBefore \<longrightarrow> notBefore \<le> Unix now)"
  by (auto simp: validateClaims_def split: option.splits if_splits)

lemma keeps_check_token:
  assumes "parseSignedIDToken token = Inr (th, claims, signingInput, signature)" and "cache_ok a cache \<or> ckKeys cache = None"
    and "cache_key cache (thKid th) = Some key"
  shows "ensures (identity_ok a c e) (check_token E claims signingInput signature cache key) (\<lambda>r. r = Inr () \<longrightarrow> token_accepted E a c token)"
proof (rule ensuresI)
  fix w assume ok: "identity_ok a c e w"
  from assms(2, 3) have cache: "cache_ok a cache" by (auto simp: cache_key_def)
  then have issuer: "mdIssuer (ckMetadata cache) = url_string a" by (auto simp: cache_ok_def fetched_ok_def dest: metadata_endpoints)
  obtain now w1 where now: "run_state (clock E) w = (now, w1)" by (cases "run_state (clock E) w")
  from ensuresD [OF keeps_clock ok now] obtain t where ok1: "identity_ok a c e w1" and t: "now = ieNow E t" by auto
  have "token_accepted E a c token"
    if "VerifyPKCS1v15 key (sha256 signingInput) signature" and "validateClaims (iwOIDC w) now claims (mdIssuer (ckMetadata cache)) = Inr ()"
    unfolding token_accepted_def
    using that assms(1, 3) cache issuer t ok unfolding validateClaims_ok identity_ok_def
    by (intro exI [of _ th] exI [of _ claims] exI [of _ signingInput] exI [of _ signature] exI [of _ cache] exI [of _ key] exI [of _ t]) simp
  with ok ok1 now show "identity_ok a c e (snd (run_state (check_token E claims signingInput signature cache key) w))
      \<and> (fst (run_state (check_token E claims signingInput signature cache key) w) = Inr () \<longrightarrow> token_accepted E a c token)"
    by (simp add: check_token_def)
qed

lemma keeps_token_Validate: "ensures (identity_ok a c e) (Validate E token) (\<lambda>r. r = Inr () \<longrightarrow> token_accepted E a c token)"
  unfolding Validate_def
  by (intro ensures_case_sum ensures_case_prod ensures_return ensures_bind [OF keeps_keys] ensures_case_option keeps_check_token)
    (auto simp: cache_key_def)

section \<open>Interleaved refreshes\<close>

text \<open>
  The locked sections of any number of callers and of the refreshes they started, in any order, with the times at which
  a refresh was started for an unknown key.
\<close>

inductive oidc_step :: "OIDC \<times> time list \<times> time \<Rightarrow> OIDC \<times> time list \<times> time \<Rightarrow> bool" where
  enters: "enter_keys now kid v = (entry, v') \<Longrightarrow> before \<le> now \<Longrightarrow>
    oidc_step (v, starts, before) (v', if kid \<noteq> [] \<and> (\<exists>call. entry = Starts call) then starts @ [now] else starts, now)"
| finishes: "call < odNextCall v \<Longrightarrow> alookup (odCalls v) call = None \<Longrightarrow> fetched = fst (run_state (fetch_all E (odAuthority v)) w) \<Longrightarrow>
    before \<le> now \<Longrightarrow> oidc_step (v, starts, before) (finish_refresh now fetched call v, starts, now)"

text \<open>The starts recorded are spaced by the cooldown, which runs from the last of them.\<close>

definition spaced :: "OIDC \<Rightarrow> time list \<Rightarrow> bool" where
  "spaced v starts \<longleftrightarrow>
     (\<forall>i j. i < j \<longrightarrow> j < length starts \<longrightarrow> starts ! i + oidcUnknownKIDCooldown \<le> starts ! j)
     \<and> (\<forall>t \<in> set starts. t + oidcUnknownKIDCooldown \<le> odNextUnknownRefresh v)"

lemma enter_keys_spaced:
  assumes "spaced v starts" and "enter_keys now kid v = (entry, v')"
  shows "spaced v' (if kid \<noteq> [] \<and> (\<exists>call. entry = Starts call) then starts @ [now] else starts)"
proof (cases "kid \<noteq> [] \<and> (\<exists>call. entry = Starts call)")
  case True
  with assms(2) have free: "odNextUnknownRefresh v \<le> now" and "odNextUnknownRefresh v' = now + oidcUnknownKIDCooldown"
    by (auto simp: enter_keys_def Let_def split: if_splits option.splits)
  moreover have "0 \<le> oidcUnknownKIDCooldown" by (simp add: oidcUnknownKIDCooldown_def second_def)
  moreover have "t + oidcUnknownKIDCooldown \<le> now" if "t \<in> set starts" for t
    using that assms(1) free by (fastforce simp: spaced_def)
  ultimately show ?thesis using assms(1) True by (auto simp: spaced_def nth_append less_Suc_eq)
next
  case False
  with assms have "odNextUnknownRefresh v' = odNextUnknownRefresh v"
    by (auto simp: enter_keys_def Let_def split: if_splits option.splits)
  then show ?thesis using assms(1) unfolding if_not_P [OF False] by (simp add: spaced_def)
qed

lemma oidc_step_ok:
  assumes "oidc_step (v, starts, before) (v', starts', now)" and "oidc_ok v" and "spaced v starts"
  shows "oidc_ok v' \<and> spaced v' starts' \<and> odAuthority v' = odAuthority v \<and> before \<le> now"
  using assms(1)
proof cases
  case (enters kid entry)
  with enter_keys_ok [OF assms(2)] enter_keys_spaced [OF assms(3)] show ?thesis by simp
next
  case (finishes call fetched E w)
  have "odRefresh v = Some call" using assms(2) finishes by (auto simp: oidc_ok_def)
  moreover have "fetched_ok (odAuthority v) r" if "fetched = Inr r" for r
    using fetch_all_ok [of E "odAuthority v"] finishes that by (cases r) (simp add: ensures_def)
  ultimately have "oidc_ok v' \<and> odAuthority v' = odAuthority v" using finish_refresh_ok [OF assms(2)] finishes by simp
  moreover have "odNextUnknownRefresh v' = odNextUnknownRefresh v" using finishes by (simp add: finish_refresh_def Let_def split: sum.splits prod.splits)
  ultimately show ?thesis using assms(3) finishes by (simp add: spaced_def)
qed

lemma NewOIDC_ok:
  assumes "NewOIDC issuer client = Inr v"
  shows "oidc_ok v" and "spaced v []" and "uScheme (odAuthority v) = ''https''" and "url_parse issuer = Some (odAuthority v)" and "odClientID v = client"
  using assms by (auto simp: NewOIDC_def oidc_ok_def spaced_def split: option.splits if_splits)

lemma oidc_steps_ok:
  assumes "oidc_step\<^sup>*\<^sup>* (v0, [], t0) s" and "oidc_ok v0" and "spaced v0 []"
  shows "oidc_ok (fst s) \<and> spaced (fst s) (fst (snd s)) \<and> odAuthority (fst s) = odAuthority v0"
  using assms(1)
proof (induction rule: rtranclp_induct)
  case (step s s')
  then show ?case using oidc_step_ok [of "fst s" "fst (snd s)" "snd (snd s)" "fst s'" "fst (snd s')" "snd (snd s')"] by simp
qed (use assms in simp)


section \<open>Secrets and bearers\<close>

inductive identity_op :: "http_env \<Rightarrow> identity_world \<Rightarrow> identity_world \<Rightarrow> bool" for E where
  validate: "identity_op E w (snd (run_state (Validate E token) w))"
| discovery: "identity_op E w (snd (run_state (Discovery E) w))"
| exchange: "identity_op E w (snd (run_state (Exchange E secret code verifier redirectURI) w))"
| refresh: "identity_op E w (snd (run_state (Refresh E secret token) w))"
| device: "identity_op E w (snd (run_state (DeviceAuthorize E secret scope) w))"
| redeem_device: "identity_op E w (snd (run_state (RedeemDevice E secret deviceCode) w))"
| resolve: "identity_op E w (snd (run_state (Resolve E token) w))"

lemma identity_op_ok: "identity_op E w w' \<Longrightarrow> identity_ok a c e w \<Longrightarrow> identity_ok a c e w'"
proof (induction rule: identity_op.induct)
  case (resolve w token)
  then show ?case using Resolve_ok [of a c e w E token] by (cases "run_state (Resolve E token) w") auto
qed (auto simp: Exchange_def Refresh_def RedeemDevice_def
    dest: keepsD [OF keeps_redeem] keepsD [OF keeps_DeviceAuthorize] keepsD [OF ensures_weaken [OF keeps_token_Validate TrueI]]
      keepsD [OF ensures_weaken [OF keeps_Discovery TrueI]])

lemma identity_start:
  assumes "NewOIDC issuer client = Inr v" and "NewCustos url = Inr r"
  shows "identity_ok (odAuthority v) client (csEndpoint r) \<lparr>iwTick = t, iwLog = [], iwOIDC = v, iwCustos = r\<rparr>"
  using NewOIDC_ok [OF assms(1)] assms(2)
  by (auto simp: identity_ok_def custos_ok_def NewCustos_def Let_def split: option.splits if_splits)


definition silent_env :: http_env where
  "silent_env = \<lparr>ieNow = (\<lambda>_. 0), ieDo = (\<lambda>_ _. Inl (Plain ''no route to host'')), ieContext = (\<lambda>_. None), ieUserAgent = ''cs-plane''\<rparr>"

definition empty_metadata :: Metadata where
  "empty_metadata = \<lparr>mdIssuer = [], mdJWKSURI = [], mdAuthorizationEndpoint = [], mdTokenEndpoint = [], mdDeviceEndpoint = []\<rparr>"

definition issuer_url :: url where
  "issuer_url = \<lparr>uScheme = ''https'', uOpaque = [], uUser = None, uHost = ''i.org'', uPath = [], uRawPath = [], uForceQuery = False, uQuery = [], uFragment = []\<rparr>"

definition fresh_oidc :: OIDC where
  "fresh_oidc = \<lparr>odAuthority = issuer_url, odClientID = ''c'', odCache = \<lparr>ckMetadata = empty_metadata, ckKeys = None, ckExpires = 0\<rparr>,
     odRefresh = None, odNextUnknownRefresh = 0, odCalls = [], odNextCall = 0\<rparr>"

definition fresh_custos :: Custos where
  "fresh_custos = \<lparr>csCache = [], csEndpoint = ''https://custos.org/me''\<rparr>"

lemma fresh_clients: "NewOIDC ''https://i.org'' ''c'' = Inr fresh_oidc" "NewCustos ''https://custos.org'' = Inr fresh_custos" "url_parse ''https://i.org'' = Some issuer_url"
  by code_simp+



end
