(* ===== verification/SampleToken.thy ===== *)
theory SampleToken
  imports Boundary Identity
begin

text \<open>
  A signed ID token, a key set that signs it and an identity state that holds the key: the state the examples of the
  sign-in boundary start from.
\<close>

section \<open>A signed request\<close>

text \<open>
  A token with a signature that verifies under a key of exponent 3. The key is chosen after the encoded digest \<open>em\<close>: with a
  cube of the other parity just above it, their difference is an odd modulus under which the cube is \<open>em\<close>.
\<close>

lemma bytes_val_append: "bytes_val (xs @ ys) = bytes_val xs * 256 ^ length ys + bytes_val ys"
proof (induction ys rule: rev_induct)
  case (snoc y ys)
  have "bytes_val (xs @ ys @ [y]) = bytes_val (xs @ ys) * 256 + y" for xs by (simp add: bytes_val_def)
  from this [of xs] this [of "[]"] snoc show ?case by (simp add: algebra_simps)
qed (simp add: bytes_val_def)

lemma bytes_val_Cons: "bytes_val (x # xs) = x * 256 ^ length xs + bytes_val xs"
  using bytes_val_append [of "[x]" xs] by (simp add: bytes_val_def)

lemma bytes_val_lt: "\<forall>b \<in> set xs. b < 256 \<Longrightarrow> bytes_val xs < 256 ^ length xs"
proof (induction xs)
  case (Cons x xs)
  then have "bytes_val xs < 256 ^ length xs" and "x * 256 ^ length xs \<le> 255 * 256 ^ length xs" by simp_all
  then show ?case unfolding bytes_val_Cons length_Cons power_Suc by linarith
qed (simp add: bytes_val_def)

lemma bytes_val_be_bytes: "v < 256 ^ n \<Longrightarrow> bytes_val (be_bytes n v) = v"
proof (induction n arbitrary: v)
  case (Suc n)
  have "be_bytes (Suc n) v = (v div 256 ^ n mod 256) # be_bytes n (v mod 256 ^ n)"
  proof -
    have "v mod 256 ^ n div 256 ^ i mod 256 = v div 256 ^ i mod 256" if "i < n" for i
    proof -
      from that obtain k where "n = i + Suc k" using less_imp_Suc_add by force
      then have "256 ^ n = 256 ^ i * (256 * 256 ^ k :: nat)" by (simp add: power_add)
      then show ?thesis by (simp add: mod_mult2_eq mod_mod_cancel)
    qed
    then show ?thesis by (simp add: be_bytes_def)
  qed
  moreover have "v div 256 ^ n < 256" using Suc.prems by (simp add: less_mult_imp_div_less mult.commute)
  moreover have "v mod 256 ^ n < 256 ^ n" by simp
  ultimately show ?case using Suc.IH [of "v mod 256 ^ n"] div_mult_mod_eq [of v "256 ^ n"] by (simp add: bytes_val_Cons)
qed (simp add: be_bytes_def bytes_val_def)

lemma BitLen_bounds: "2 ^ a \<le> n \<Longrightarrow> n < 2 ^ b \<Longrightarrow> a < BitLen n \<and> BitLen n \<le> b"
proof (induction n arbitrary: a b rule: BitLen.induct)
  case (1 n)
  have pos: "n \<noteq> 0" using "1.prems"(1) by (metis not_one_le_zero one_le_numeral one_le_power order_trans le_zero_eq)
  have b: "b \<noteq> 0" using "1.prems" pos by (cases b) auto
  have upper: "BitLen n \<le> b"
  proof (cases "n = 1")
    case True
    with b show ?thesis by (simp add: BitLen.simps)
  next
    case False
    from b obtain b' where b': "b = Suc b'" by (cases b) auto
    have "2 ^ 0 \<le> n div 2" and "n div 2 < 2 ^ b'" using False pos "1.prems"(2) b' by auto
    from "1.IH" [OF pos this] b' pos show ?thesis by (simp add: BitLen.simps [of n])
  qed
  have "a < BitLen n"
  proof (cases a)
    case 0
    with pos show ?thesis by (simp add: BitLen.simps [of n])
  next
    case (Suc a')
    have "2 ^ a' \<le> n div 2" and "n div 2 < 2 ^ b" using "1.prems" Suc by auto
    from "1.IH" [OF pos this] Suc pos show ?thesis by (simp add: BitLen.simps [of n])
  qed
  with upper show ?case by simp
qed

definition signed_input :: string where
  "signed_input = ''eyJhbGciOiJSUzI1NiIsImtpZCI6ImsifQ.eyJpc3MiOiJodHRwczovL2kub3JnIiwiYXVkIjoiYyIsImV4cCI6OSwic3ViIjoidSJ9''"

definition encoded_digest :: nat where
  "encoded_digest = bytes_val (pkcs1v15_encode 257 (sha256 signed_input))"

definition cube_root :: nat where
  "cube_root = 2 ^ 685 + (1 - encoded_digest mod 2)"

definition sample_key :: rsa_key where
  "sample_key = \<lparr>rkN = cube_root ^ 3 - encoded_digest, rkE = 3\<rparr>"

definition sample_token :: string where
  "sample_token = signed_input @ CHR ''.'' # b64_encode (be_bytes 257 cube_root)"

lemma encoded_digest_bounds: "encoded_digest < 2 ^ 2041"
proof -
  let ?rest = "replicate 203 0xFF @ [0] @ sha256_prefix @ sha256 signed_input"
  have "\<forall>b \<in> set ?rest. b < 256" using sha256_lt by (auto simp: sha256_prefix_def)
  from bytes_val_lt [OF this] have "bytes_val ?rest < 256 ^ 255" by (simp add: sha256_prefix_def)
  moreover have "encoded_digest = 256 ^ 255 + bytes_val ?rest"
    by (simp add: encoded_digest_def pkcs1v15_encode_def bytes_val_Cons sha256_prefix_def del: replicate.simps)
  moreover have "(2 :: nat) ^ 2041 = 2 * 256 ^ 255" by simp
  ultimately show ?thesis by linarith
qed

lemma sample_key_bounds:
  "cube_root ^ 3 = rkN sample_key + encoded_digest" "2 ^ 2054 \<le> rkN sample_key" "rkN sample_key < 2 ^ 2056" "odd (rkN sample_key)"
  "cube_root < 2 ^ 686"
proof -
  have root: "2 ^ 685 \<le> cube_root" "cube_root \<le> 2 ^ 685 + 1" by (simp_all add: cube_root_def)
  from power_mono [OF root(1), of 3] power_mono [OF root(2), of 3] have cube: "2 ^ 2055 \<le> cube_root ^ 3" "cube_root ^ 3 \<le> (2 ^ 685 + 1) ^ 3"
    by (simp_all add: power_mult [symmetric])
  have small: "encoded_digest < 2 ^ 2041" by (rule encoded_digest_bounds)
  have powers: "(2 :: nat) ^ 2041 \<le> 2 ^ 2054" "(2 :: nat) ^ 2055 = 2 ^ 2054 + 2 ^ 2054" "(2 ^ 685 + 1 :: nat) ^ 3 < 2 ^ 2056" by simp_all
  show sum: "cube_root ^ 3 = rkN sample_key + encoded_digest" using cube small powers by (simp add: sample_key_def)
  show "2 ^ 2054 \<le> rkN sample_key" "rkN sample_key < 2 ^ 2056" using sum cube small powers by linarith+
  show "cube_root < 2 ^ 686" using root(2) by simp
  have "odd (cube_root ^ 3) = even encoded_digest" by (simp add: cube_root_def even_add mod_2_eq_odd)
  with sum show "odd (rkN sample_key)" by presburger
qed

lemma sample_key_size: "2048 \<le> BitLen (rkN sample_key)" "key_size sample_key = 257"
proof -
  from BitLen_bounds [OF sample_key_bounds(2, 3)] have "BitLen (rkN sample_key) \<in> {2055, 2056}" by auto
  then show "2048 \<le> BitLen (rkN sample_key)" "key_size sample_key = 257" by (auto simp: key_size_def)
qed

lemma sample_signature: "VerifyPKCS1v15 sample_key (sha256 signed_input) (be_bytes 257 cube_root)"
proof -
  have small: "encoded_digest < rkN sample_key" "cube_root < rkN sample_key"
    using encoded_digest_bounds sample_key_bounds(2, 5) less_le_trans [of _ "2 ^ 2041" "rkN sample_key"] less_le_trans [of _ "2 ^ 686" "rkN sample_key"]
      order_trans [of "2 ^ 2041" "2 ^ 2054" "rkN sample_key"] order_trans [of "2 ^ 686" "2 ^ 2054" "rkN sample_key"] by simp_all
  have "(2 :: nat) ^ 686 \<le> 256 ^ 257" by simp
  then have root: "bytes_val (be_bytes 257 cube_root) = cube_root"
    using sample_key_bounds(5) less_le_trans [of cube_root "2 ^ 686" "256 ^ 257"] by (intro bytes_val_be_bytes)
  have "cube_root ^ 3 mod rkN sample_key = encoded_digest" using sample_key_bounds(1) small(1) by simp
  then show ?thesis
    using sample_key_bounds(4) sample_key_size(2) small(2) root
    by (simp add: VerifyPKCS1v15_def encoded_digest_def [symmetric]) (simp add: sample_key_def)
qed

text \<open>Tokens of the base64url alphabet and dots are valid credentials.\<close>

definition token_char :: "char \<Rightarrow> bool" where
  "token_char c \<longleftrightarrow> is_alnum c \<or> c \<in> set ''-_.''"

lemma token_char_plain:
  assumes "token_char c"
  shows "\<not> space_byte c" "byte_in 0x21 0x7E c" "c \<noteq> CHR '',''"
  using assms by (auto simp: token_char_def is_alnum_iff space_byte_def space_encodings_def byte_in_def is_digit_def less_eq_char_def)

lemma token_ValidCredential:
  assumes "list_all token_char s" and "s \<noteq> []" and "length s \<le> MaxCredentialBytes"
  shows "ValidCredential s"
proof -
  have "utf8_valid s" using assms(1)
  proof (induction s)
    case (Cons c s)
    then have "rune_width (c # s) = 1" using token_char_plain(2) [of c] by (auto simp: byte_in_def)
    with Cons show ?case by (simp add: utf8_valid.simps [of "c # s"])
  qed simp
  moreover have "\<not> any_control_or_space s" using assms(1)
  proof (induction s)
    case (Cons c s)
    then have "space_width (c # s) = 0" using token_char_plain(1) [of c] by (simp add: space_width_fresh)
    with Cons token_char_plain(2) [of c] show ?case by (auto simp: control_or_space_at_def byte_in_def)
  qed simp
  ultimately show ?thesis using assms by (simp add: ValidCredential_def)
qed

lemma b64_char_token: "v < 64 \<Longrightarrow> token_char (b64_char v) \<and> b64_char v \<noteq> CHR ''.''"
proof -
  have "list_all (\<lambda>v. token_char (b64_char v) \<and> b64_char v \<noteq> CHR ''.'') [0..<64]" by code_simp
  then show "v < 64 \<Longrightarrow> token_char (b64_char v) \<and> b64_char v \<noteq> CHR ''.''" by (simp add: list_all_iff)
qed

lemma b64_encode_token: "\<forall>b \<in> set bs. b < 256 \<Longrightarrow> list_all token_char (b64_encode bs) \<and> CHR ''.'' \<notin> set (b64_encode bs)"
  using b64_char_token b64_sextets_lt [of bs] by (fastforce simp: b64_encode_def list_all_iff)

lemma sample_suffix:
  "list_all token_char (b64_encode (be_bytes 257 cube_root))" "CHR ''.'' \<notin> set (b64_encode (be_bytes 257 cube_root))"
  "DecodeBase64URL (b64_encode (be_bytes 257 cube_root)) = Some (be_bytes 257 cube_root)" "length (b64_encode (be_bytes 257 cube_root)) = 343"
proof -
  have bytes: "\<forall>b \<in> set (be_bytes 257 cube_root). b < 256" using be_bytes_lt by blast
  from b64_encode_token [OF bytes] bytes show "list_all token_char (b64_encode (be_bytes 257 cube_root))"
    "CHR ''.'' \<notin> set (b64_encode (be_bytes 257 cube_root))"
    "DecodeBase64URL (b64_encode (be_bytes 257 cube_root)) = Some (be_bytes 257 cube_root)" "length (b64_encode (be_bytes 257 cube_root)) = 343"
    by (simp_all add: DecodeBase64URL_bytes length_b64_encode)
qed

lemma signed_input_chars: "list_all token_char signed_input" "length signed_input = 103"
  unfolding signed_input_def by code_simp+

lemma sample_token_valid: "ValidCredential sample_token" "\<forall>c \<in> set sample_token. \<not> space_byte c" "sample_token \<noteq> []"
proof -
  have chars: "list_all token_char sample_token" using signed_input_chars(1) sample_suffix(1) by (simp add: sample_token_def token_char_def)
  then show "ValidCredential sample_token"
    by (rule token_ValidCredential) (simp_all add: sample_token_def MaxCredentialBytes_def sample_suffix(4) signed_input_chars(2))
  show "\<forall>c \<in> set sample_token. \<not> space_byte c" using chars token_char_plain(1) by (auto simp: list_all_iff)
  show "sample_token \<noteq> []" by (simp add: sample_token_def)
qed

lemma sample_token_parsed:
  "parseSignedIDToken sample_token =
     Inr (\<lparr>thAlg = ''RS256'', thKid = ''k'', thTyp = []\<rparr>,
          \<lparr>tcIssuer = ''https://i.org'', tcAudience = ''c'', tcExpires = Some 9, tcNotBefore = None, tcSubject = ''u''\<rparr>,
          signed_input, be_bytes 257 cube_root)"
proof -
  define p0 where "p0 = ''eyJhbGciOiJSUzI1NiIsImtpZCI6ImsifQ''"
  define p1 where "p1 = ''eyJpc3MiOiJodHRwczovL2kub3JnIiwiYXVkIjoiYyIsImV4cCI6OSwic3ViIjoidSJ9''"
  have header: "token_json header_fields p0 = Inr \<lparr>thAlg = ''RS256'', thKid = ''k'', thTyp = []\<rparr>" unfolding p0_def by code_simp
  have claims: "token_json claims_fields p1 =
      Inr \<lparr>tcIssuer = ''https://i.org'', tcAudience = ''c'', tcExpires = Some 9, tcNotBefore = None, tcSubject = ''u''\<rparr>"
    unfolding p1_def by code_simp
  have input: "signed_input = p0 @ ''.'' @ p1" by (simp add: signed_input_def p0_def p1_def)
  have fresh: "CHR ''.'' \<notin> set p0" "CHR ''.'' \<notin> set p1" by (simp_all add: p0_def p1_def)
  have "split_on CHR ''.'' sample_token = [p0, p1, b64_encode (be_bytes 257 cube_root)]"
    using fresh sample_suffix(2) by (simp add: sample_token_def input split_on_append split_on_fresh)
  moreover have "ValidIdentityValue ''k''" by code_simp
  moreover have "length p0 \<le> MaxCredentialBytes" "length p1 \<le> MaxCredentialBytes" by (simp_all add: p0_def p1_def MaxCredentialBytes_def)
  moreover have "be_bytes 257 cube_root \<noteq> []" by (metis length_be_bytes list.size(3) zero_neq_numeral)
  ultimately show ?thesis
    using header claims sample_token_valid(1) sample_suffix(3, 4) input by (simp add: parseSignedIDToken_def MaxCredentialBytes_def)
qed

definition sample_authority :: url where
  "sample_authority = \<lparr>uScheme = ''https'', uOpaque = [], uUser = None, uHost = ''i.org'', uPath = [], uRawPath = [], uForceQuery = False, uQuery = [], uFragment = []\<rparr>"

definition sample_metadata :: Metadata where
  "sample_metadata = \<lparr>mdIssuer = ''https://i.org'', mdJWKSURI = ''https://i.org/keys'', mdAuthorizationEndpoint = ''https://i.org/authorize'',
     mdTokenEndpoint = ''https://i.org/token'', mdDeviceEndpoint = []\<rparr>"

definition sample_oidc :: OIDC where
  "sample_oidc = \<lparr>odAuthority = sample_authority, odClientID = ''c'',
     odCache = \<lparr>ckMetadata = sample_metadata, ckKeys = Some [(''k'', sample_key)], ckExpires = 1\<rparr>,
     odRefresh = None, odNextUnknownRefresh = 0, odCalls = [], odNextCall = 0\<rparr>"

definition sample_custos :: Custos where
  "sample_custos = \<lparr>csCache = [], csEndpoint = ''https://custos.org/me''\<rparr>"

definition provider_world :: identity_world where
  "provider_world = \<lparr>iwTick = 0, iwLog = [], iwOIDC = sample_oidc, iwCustos = sample_custos\<rparr>"

definition sample_answer :: string where
  "sample_answer = ''{'' @ [CHR 0x22] @ ''user'' @ [CHR 0x22] @ '':{'' @ [CHR 0x22] @ ''id'' @ [CHR 0x22, CHR '':'', CHR 0x22] @ ''u'' @ [CHR 0x22] @ ''}}''"

definition provider_env :: http_env where
  "provider_env = \<lparr>ieNow = (\<lambda>_. 0), ieDo = (\<lambda>_ _. Inr (200, Inr sample_answer)), ieContext = (\<lambda>_. None), ieUserAgent = ''cs-plane''\<rparr>"

lemma sample_metadata_ok: "metadata_ok sample_authority sample_metadata" "ValidIdentityValue ''k'' \<and> ValidIdentityValue ''u''"
  unfolding metadata_ok_def by code_simp+

lemma provider_world_ok: "identity_ok sample_authority ''c'' ''https://custos.org/me'' provider_world"
  using sample_metadata_ok sample_key_size(1)
  by (simp add: identity_ok_def provider_world_def sample_oidc_def sample_custos_def oidc_ok_def cache_ok_def fetched_ok_def custos_ok_def)
    (simp add: key_ok_def sample_key_def)

lemma sample_request_parsed: "url_parse ''https://custos.org/me'' \<noteq> None" "classify_me (sample_answer, 200) = Inr ''u''" "length sample_answer \<le> maxOAuthResponse"
  unfolding sample_answer_def maxOAuthResponse_def by code_simp+

lemma sample_resolved:
  "\<exists>w. run_state (Validate provider_env sample_token) provider_world = (Inr (), w) \<and> (\<exists>w'. run_state (Resolve provider_env sample_token) w = (Inr ''u'', w'))"
proof -
  have claims: "validateClaims sample_oidc 0 \<lparr>tcIssuer = ''https://i.org'', tcAudience = ''c'', tcExpires = Some 9, tcNotBefore = None, tcSubject = ''u''\<rparr> ''https://i.org'' = Inr ()"
    using sample_metadata_ok(2) by (simp add: validateClaims_def sample_oidc_def Unix_def second_def)
  have valid: "run_state (Validate provider_env sample_token) provider_world = (Inr (), provider_world\<lparr>iwTick := 2\<rparr>)"
    using claims sample_signature
    by (simp add: Validate_def sample_token_parsed keys_def clock_def http_tick_def enter_keys_def check_token_def cache_key_def Let_def
        provider_world_def sample_oidc_def provider_env_def sample_metadata_def numeral_2_eq_2)
  obtain u where "url_parse ''https://custos.org/me'' = Some u" using sample_request_parsed(1) by blast
  then have "\<exists>w'. run_state (Resolve provider_env sample_token) (provider_world\<lparr>iwTick := 2\<rparr>) = (Inr ''u'', w')"
    using sample_token_valid(1) sample_request_parsed(2, 3)
    by (simp add: Resolve_def resolve_fresh_def clock_def http_tick_def NewRequest_def Do_def client_Do_def Let_def
        provider_world_def sample_custos_def provider_env_def)
  with valid show ?thesis by blast
qed

end
