(* ===== verification/SignIn.thy ===== *)
theory SignIn
  imports SampleToken
begin

text \<open>
  \<^verbatim>\<open>subsystems/oauth/signin.go\<close> and \<^verbatim>\<open>Service.validate\<close>: the sign-in routes over the identity clients, the principal a bearer
  resolves to, and the boundary the service puts before the registry.
\<close>

section \<open>The origin policy\<close>

definition validOrigin :: "string \<Rightarrow> unit res" where
  "validOrigin origin =
     (if origin = [] \<or> origin = ''*'' \<or> trim_space origin \<noteq> origin then Inl (Plain ''control origin is invalid'')
      else (case url_parse origin of
              None \<Rightarrow> Inl (Plain ''control origin is invalid'')
            | Some parsed \<Rightarrow>
                if uUser parsed \<noteq> None \<or> uHost parsed = [] \<or> uPath parsed \<noteq> [] \<or> uQuery parsed \<noteq> [] \<or> uFragment parsed \<noteq> [] then
                  Inl (Plain ''control origin is invalid'')
                else if uScheme parsed = ''https'' then Inr ()
                else if uScheme parsed = ''http'' \<and> (Hostname parsed = ''localhost''
                    \<or> (case ParseIP (Hostname parsed) of None \<Rightarrow> False | Some ip \<Rightarrow> IsLoopback ip)) then Inr ()
                else Inl (Plain ''control origin must use HTTPS or loopback HTTP'')))"

fun check_origins :: "string list \<Rightarrow> Origins \<Rightarrow> Origins res" where
  "check_origins [] origins = Inr origins"
| "check_origins (origin # rest) origins =
     (case validOrigin origin of Inl e \<Rightarrow> Inl e | Inr _ \<Rightarrow> check_origins rest (List.insert origin origins))"

definition NewOrigins :: "string list \<Rightarrow> Origins res" where
  "NewOrigins allowed =
     (case check_origins allowed [] of
        Inl e \<Rightarrow> Inl e
      | Inr origins \<Rightarrow> if origins = [] then Inl (Plain ''at least one control origin is required'') else Inr origins)"

section \<open>The service\<close>

definition signInScope :: string where "signInScope = ''openid email profile offline_access''"

definition custosTenant :: string where "custosTenant = ''custos''"

record Service =
  svClientID :: string
  svClientSecret :: string
  svOrigins :: Origins

definition NewService :: "string \<Rightarrow> string \<Rightarrow> string \<Rightarrow> string \<Rightarrow> Origins \<Rightarrow> (Service \<times> OIDC \<times> Custos) res" where
  "NewService custosURL issuer clientID clientSecret origins =
     (if trim_space clientSecret = [] \<or> origins = [] then Inl (Plain ''auth service dependencies are required'')
      else (case NewOIDC issuer clientID of
              Inl e \<Rightarrow> Inl e
            | Inr oidc \<Rightarrow>
                (case NewCustos custosURL of
                   Inl e \<Rightarrow> Inl e
                 | Inr custos \<Rightarrow>
                     Inr (\<lparr>svClientID = clientID, svClientSecret = clientSecret, svOrigins = origins\<rparr>, oidc, custos))))"

definition validate_principal :: "string res \<Rightarrow> Principal res" where
  "validate_principal resolved =
     (case resolved of
        Inr userID \<Rightarrow> Inr \<lparr>Subject = userID, Tenant = custosTenant\<rparr>
      | Inl e \<Rightarrow>
          if errors_Is e ErrIdentityNotLinked then
            Inl (APIError ''identity_not_linked'' ''OIDC identity is not linked to a Custos user'' 401)
          else if errors_Is e ErrIdentityUnrecognized then
            Inl (APIError ''identity_not_linked'' ''Custos did not recognize this identity'' 401)
          else Inl e)"

definition service_validate :: "http_env \<Rightarrow> string \<Rightarrow> Principal res identity_prog" where
  "service_validate E token = do {
     valid \<leftarrow> Validate E token;
     (case valid of
        Inl e \<Rightarrow> State_Monad.return (Inl e)
      | Inr _ \<Rightarrow> do {
          resolved \<leftarrow> Resolve E token;
          State_Monad.return (validate_principal resolved) }) }"

definition redirectOriginAllowed :: "string \<Rightarrow> Origins \<Rightarrow> bool" where
  "redirectOriginAllowed redirectURI origins \<longleftrightarrow>
     (case url_parse redirectURI of
        None \<Rightarrow> False
      | Some parsed \<Rightarrow>
          uScheme parsed \<noteq> [] \<and> uHost parsed \<noteq> [] \<and> uUser parsed = None \<and> Allowed origins (uScheme parsed @ ''://'' @ uHost parsed))"

section \<open>Handlers\<close>

record ExchangeRequest =
  exCode :: string
  exCodeVerifier :: string
  exRedirectURI :: string

record OAuthConfigResponse =
  ocIssuer :: string
  ocAuthorizationEndpoint :: string
  ocClientID :: string
  ocScope :: string

record DeviceResponse =
  drDeviceCode :: string
  drUserCode :: string
  drCompleteURI :: string
  drIntervalSeconds :: int

record TokenResponse =
  trIDToken :: string
  trRefreshToken :: string
  trExpiresInSeconds :: int

record DevicePoll =
  dpStatus :: string
  dpIntervalSeconds :: int
  dpTokens :: "TokenResponse option"

datatype oauth_body =
    ConfigBody OAuthConfigResponse
  | TokenBody TokenResponse
  | DeviceBody DeviceResponse
  | PollBody DevicePoll

definition exchange_fields :: "(string \<times> json) list \<Rightarrow> ExchangeRequest \<times> bool" where
  "exchange_fields ms =
     (let (a, oa) = string_field ''code'' ms; (b, ob) = string_field ''codeVerifier'' ms; (c, oc) = string_field ''redirectUri'' ms
      in (\<lparr>exCode = a, exCodeVerifier = b, exRedirectURI = c\<rparr>, oa \<and> ob \<and> oc))"

definition handleConfig :: "http_env \<Rightarrow> Service \<Rightarrow> http_request \<Rightarrow> oauth_body reply identity_prog" where
  "handleConfig E s request = do {
     found \<leftarrow> Discovery E;
     State_Monad.return
       (case found of
          Inl _ \<Rightarrow> WriteError (APIError ''upstream_unavailable'' ''the identity provider is unavailable'' 502)
        | Inr metadata \<Rightarrow>
            JSONReply 200 (ConfigBody \<lparr>ocIssuer = mdIssuer metadata, ocAuthorizationEndpoint = mdAuthorizationEndpoint metadata,
                                      ocClientID = svClientID s, ocScope = signInScope\<rparr>)) }"

definition tokenError :: "go_error \<Rightarrow> go_error" where
  "tokenError e =
     (if errors_Is e ErrGrantRejected then APIError ''invalid_grant'' ''the authorization code or refresh token was rejected'' 400
      else if errors_Is e ErrTokenInvalid then APIError ''upstream_invalid'' ''the identity provider returned an invalid response'' 502
      else APIError ''upstream_unavailable'' ''the identity provider is unavailable'' 502)"

definition tokenBody :: "Tokens \<Rightarrow> TokenResponse" where
  "tokenBody tokens =
     \<lparr>trIDToken = tkIDToken tokens, trRefreshToken = tkRefreshToken tokens, trExpiresInSeconds = tkExpiresIn tokens\<rparr>"

definition writeTokens :: "Tokens res \<Rightarrow> oauth_body reply" where
  "writeTokens r = (case r of Inl e \<Rightarrow> WriteError (tokenError e) | Inr tokens \<Rightarrow> JSONReply 200 (TokenBody (tokenBody tokens)))"

definition handleExchange :: "http_env \<Rightarrow> Service \<Rightarrow> http_request \<Rightarrow> oauth_body reply identity_prog" where
  "handleExchange E s request =
     (case DecodeJSON (DecodeStrict [''code'', ''codeVerifier'', ''redirectUri''] exchange_fields) request of
        Inl e \<Rightarrow> State_Monad.return (WriteError e)
      | Inr body \<Rightarrow>
          if exCode body = [] \<or> exCodeVerifier body = [] \<or> \<not> redirectOriginAllowed (exRedirectURI body) (svOrigins s) then
            State_Monad.return (WriteError (APIError ''invalid_grant'' ''the request is invalid'' 400))
          else do {
            tokens \<leftarrow> Exchange E (svClientSecret s) (exCode body) (exCodeVerifier body) (exRedirectURI body);
            State_Monad.return (writeTokens tokens) })"

definition handleRefresh :: "http_env \<Rightarrow> Service \<Rightarrow> http_request \<Rightarrow> oauth_body reply identity_prog" where
  "handleRefresh E s request =
     (case DecodeJSON (DecodeStrict [''refreshToken''] (string_field ''refreshToken'')) request of
        Inl e \<Rightarrow> State_Monad.return (WriteError e)
      | Inr refreshToken \<Rightarrow>
          if refreshToken = [] then State_Monad.return (WriteError (APIError ''invalid_json'' ''request body is invalid'' 400))
          else do {
            tokens \<leftarrow> Refresh E (svClientSecret s) refreshToken;
            State_Monad.return (writeTokens tokens) })"

definition handleDevice :: "http_env \<Rightarrow> Service \<Rightarrow> http_request \<Rightarrow> oauth_body reply identity_prog" where
  "handleDevice E s request = do {
     device \<leftarrow> DeviceAuthorize E (svClientSecret s) signInScope;
     State_Monad.return
       (case device of
          Inl e \<Rightarrow> WriteError (tokenError e)
        | Inr d \<Rightarrow>
            JSONReply 200 (DeviceBody \<lparr>drDeviceCode = daDeviceCode d, drUserCode = daUserCode d, drCompleteURI = daCompleteURI d,
                                      drIntervalSeconds = daInterval d\<rparr>)) }"

definition handleDevicePoll :: "http_env \<Rightarrow> Service \<Rightarrow> http_request \<Rightarrow> oauth_body reply identity_prog" where
  "handleDevicePoll E s request =
     (case DecodeJSON (DecodeStrict [''deviceCode''] (string_field ''deviceCode'')) request of
        Inl _ \<Rightarrow> State_Monad.return (WriteError (APIError ''invalid_json'' ''request body is invalid'' 400))
      | Inr deviceCode \<Rightarrow>
          if deviceCode = [] then State_Monad.return (WriteError (APIError ''invalid_json'' ''request body is invalid'' 400))
          else do {
            redeemed \<leftarrow> RedeemDevice E (svClientSecret s) deviceCode;
            State_Monad.return
              (case redeemed of
                 Inr tokens \<Rightarrow> JSONReply 200 (PollBody \<lparr>dpStatus = ''complete'', dpIntervalSeconds = 0, dpTokens = Some (tokenBody tokens)\<rparr>)
               | Inl e \<Rightarrow>
                   if errors_Is e ErrAuthorizationPending then
                     JSONReply 200 (PollBody \<lparr>dpStatus = ''pending'', dpIntervalSeconds = MinDeviceInterval, dpTokens = None\<rparr>)
                   else WriteError (tokenError e)) })"

section \<open>Routes\<close>

datatype sign_in_handler = HandleConfig | HandleExchange | HandleRefresh | HandleDevice | HandleDevicePoll

fun run_sign_in :: "http_env \<Rightarrow> Service \<Rightarrow> sign_in_handler \<Rightarrow> http_request \<Rightarrow> oauth_body reply identity_prog" where
  "run_sign_in E s HandleConfig = handleConfig E s"
| "run_sign_in E s HandleExchange = handleExchange E s"
| "run_sign_in E s HandleRefresh = handleRefresh E s"
| "run_sign_in E s HandleDevice = handleDevice E s"
| "run_sign_in E s HandleDevicePoll = handleDevicePoll E s"

text \<open>The table of the service's routes; \<open>wrap\<close> makes its handlers ones of the whole process.\<close>

definition oauth_Routes :: "(sign_in_handler \<Rightarrow> 'h) \<Rightarrow> 'h Routes" where
  "oauth_Routes wrap =
     [(''/api/v1/oauth/config'', [(''GET'', wrap HandleConfig)]),
      (''/api/v1/oauth/exchange'', [(''POST'', wrap HandleExchange)]),
      (''/api/v1/oauth/refresh'', [(''POST'', wrap HandleRefresh)]),
      (''/api/v1/oauth/device'', [(''POST'', wrap HandleDevice)]),
      (''/api/v1/oauth/device/poll'', [(''POST'', wrap HandleDevicePoll)])]"

definition Protect :: "http_env \<Rightarrow> Service \<Rightarrow> (sign_in_handler \<Rightarrow> 'h) \<Rightarrow> 'h Registry \<Rightarrow> (identity_world, 'h) oauthBoundary" where
  "Protect E s wrap next =
     \<lparr>obNext = next, obValidate = service_validate E, obOrigins = svOrigins s, obPublicPaths = map fst (oauth_Routes wrap),
      obBrowserPaths = [''/api/v1/oauth/config'', ''/api/v1/oauth/exchange'']\<rparr>"

section \<open>Errors of the sign-in routes\<close>

text \<open>The classified errors a sign-in route answers with.\<close>

definition sign_in_errors :: "go_error list" where
  "sign_in_errors =
     [APIError ''invalid_json'' ''request body is invalid'' 400,
      APIError ''invalid_grant'' ''the request is invalid'' 400,
      APIError ''invalid_grant'' ''the authorization code or refresh token was rejected'' 400,
      APIError ''upstream_invalid'' ''the identity provider returned an invalid response'' 502,
      APIError ''upstream_unavailable'' ''the identity provider is unavailable'' 502]"

lemma WriteError_api: "WriteError (APIError code message status) = ErrorReply (APIError code message status)"
  by (simp add: WriteError_def For_def)

lemma DecodeJSON_error: "DecodeJSON decode request = Inl e \<Longrightarrow> e = APIError ''invalid_json'' ''request body is invalid'' 400"
  by (auto simp: DecodeJSON_def Let_def split: option.splits)

lemma tokenError_cases: "tokenError e \<in> set sign_in_errors" "For (tokenError e) = tokenError e"
  by (simp_all add: tokenError_def sign_in_errors_def For_def)

lemma WriteError_tokenError: "WriteError (tokenError e) = ErrorReply (tokenError e)"
  by (simp add: WriteError_def tokenError_cases)

lemma writeTokens_error: "writeTokens r = ErrorReply e \<Longrightarrow> e \<in> set sign_in_errors"
  using tokenError_cases by (auto simp: writeTokens_def WriteError_tokenError split: sum.splits)

text \<open>
  C20: whatever the provider, the network and the request do, a sign-in route answers an error in one of five fixed forms:
  no detail of an upstream failure reaches the caller.
\<close>

theorem sign_in_errors_classified:
  assumes "run_state (run_sign_in E s handler request) w = (ErrorReply e, w')"
  shows "e \<in> set sign_in_errors"
proof (cases handler)
  case HandleConfig
  with assms show ?thesis
    by (auto simp: handleConfig_def WriteError_api sign_in_errors_def split: prod.splits sum.splits)
next
  case HandleExchange
  with assms show ?thesis
    by (auto simp: handleExchange_def WriteError_api sign_in_errors_def split: prod.splits sum.splits if_splits
        dest!: DecodeJSON_error dest: writeTokens_error [unfolded sign_in_errors_def])
next
  case HandleRefresh
  with assms show ?thesis
    by (auto simp: handleRefresh_def WriteError_api sign_in_errors_def split: prod.splits sum.splits if_splits
        dest!: DecodeJSON_error dest: writeTokens_error [unfolded sign_in_errors_def])
next
  case HandleDevice
  with assms tokenError_cases show ?thesis
    by (auto simp: handleDevice_def WriteError_tokenError split: prod.splits sum.splits)
next
  case HandleDevicePoll
  with assms tokenError_cases show ?thesis
    by (auto simp: handleDevicePoll_def WriteError_tokenError WriteError_api split: prod.splits sum.splits if_splits)
      (simp_all add: sign_in_errors_def)
qed

section \<open>The authenticated principal\<close>

lemma service_validate_ok:
  assumes "identity_ok a c e w" and "run_state (service_validate E token) w = (Inr pr, w')"
  shows "identity_ok a c e w' \<and> token_accepted E a c token
    \<and> (\<exists>userID token'. pr = \<lparr>Subject = userID, Tenant = custosTenant\<rparr> \<and> sha256 token' = sha256 token \<and> answered w' token' userID)"
proof -
  obtain valid w1 where valid: "run_state (Validate E token) w = (valid, w1)" by (cases "run_state (Validate E token) w")
  from ensuresD [OF keeps_token_Validate assms(1) valid] have ok1: "identity_ok a c e w1" and accepted: "valid = Inr () \<longrightarrow> token_accepted E a c token"
    by simp_all
  from assms(2) valid have "valid = Inr ()" by (cases valid) (auto simp: service_validate_def)
  obtain resolved where resolved: "run_state (Resolve E token) w1 = (resolved, w')" and pr: "validate_principal resolved = Inr pr"
    using assms(2) valid \<open>valid = Inr ()\<close> by (cases "run_state (Resolve E token) w1") (auto simp: service_validate_def)
  from pr obtain userID where "resolved = Inr userID" and pr: "pr = \<lparr>Subject = userID, Tenant = custosTenant\<rparr>"
    by (auto simp: validate_principal_def split: sum.splits if_splits)
  with Resolve_ok [OF ok1 resolved] obtain u where ok: "identity_ok a c e w'"
    and "alookup (csCache (iwCustos w')) (sha256 token) = Some u" and u: "cuID u = userID" by auto
  then have "(sha256 token, u) \<in> set (csCache (iwCustos w'))" by (auto dest: alookup_in_set)
  with ok u obtain token' where "sha256 token' = sha256 token" and "answered w' token' userID" by (fastforce simp: identity_ok_def custos_ok_def)
  with ok pr accepted \<open>valid = Inr ()\<close> show ?thesis by blast
qed

interpretation custos_authenticator: authenticator "service_validate E" "identity_ok a c e"
  "\<lambda>w token pr. token_accepted E a c token
     \<and> (\<exists>userID token'. pr = \<lparr>Subject = userID, Tenant = custosTenant\<rparr> \<and> sha256 token' = sha256 token \<and> answered w token' userID)"
  for E a c e
  by unfold_locales (use service_validate_ok in blast)

lemma answered_valid: "answered w token uid \<Longrightarrow> ValidIdentityValue uid"
  by (auto simp: answered_def classify_me_def Let_def split: if_splits)

lemma oauth_paths: "map fst (oauth_Routes wrap) = [''/api/v1/oauth/config'', ''/api/v1/oauth/exchange'', ''/api/v1/oauth/refresh'', ''/api/v1/oauth/device'', ''/api/v1/oauth/device/poll'']"
  by (simp add: oauth_Routes_def)

lemma oauth_paths_exact: "list_all exact_path [''/api/v1/oauth/config'', ''/api/v1/oauth/exchange'', ''/api/v1/oauth/refresh'', ''/api/v1/oauth/device'', ''/api/v1/oauth/device/poll'']"
  by code_simp

lemma Protect_ok:
  assumes "New tables = Some (Inr r)" and "oauth_Routes wrap \<in> set tables"
  shows "boundary_ok (Protect E s wrap r)"
proof -
  have "set (map fst (oauth_Routes wrap)) \<subseteq> fst ` set (concat tables)" using assms(2) by auto
  with New_registered [OF assms(1)] have "path \<in> fst ` set (rgRoutes r)" if "path \<in> set (map fst (oauth_Routes wrap))" for path using that by auto
  moreover have "exact_path path" if "path \<in> set (map fst (oauth_Routes wrap))" for path
    using that oauth_paths_exact unfolding oauth_paths list_all_iff by blast
  ultimately show ?thesis using New_registered(1) [OF assms(1)] by (simp add: boundary_ok_def Protect_def)
qed


section \<open>A request through the boundary\<close>

definition sample_tables :: "nat Routes list" where
  "sample_tables = [oauth_Routes (\<lambda>_. 0), [(''/api/v1/sessions'', [(''GET'', 1)])]]"

definition sample_registry :: "nat Registry" where
  "sample_registry = \<lparr>rgRoutes = concat sample_tables\<rparr>"

definition sample_service :: Service where
  "sample_service = \<lparr>svClientID = ''c'', svClientSecret = ''secret'', svOrigins = [''https://app.org'']\<rparr>"

definition signed_request :: http_request where
  "signed_request = \<lparr>rqMethod = ''GET'', rqRequestURI = ''/api/v1/sessions'', rqPath = ''/api/v1/sessions'', rqEscapedPath = ''/api/v1/sessions'',
     rqHeader = [(''Authorization'', [''Bearer '' @ sample_token])], rqBody = [], rqContext = None\<rparr>"

lemma sample_registered: "New sample_tables = Some (Inr sample_registry)"
  by code_simp

lemma sample_dispatch:
  "registry_ServeHTTP sample_registry (WithPrincipal signed_request pr)
     = Dispatched 1 ''/api/v1/sessions'' [] (WithPrincipal signed_request pr)"
proof -
  have handler: "mux_handler sample_registry \<lparr>rqMethod = ''GET'', rqRequestURI = ''/api/v1/sessions'', rqPath = ''/api/v1/sessions'', rqEscapedPath = ''/api/v1/sessions'',
     rqHeader = [], rqBody = [], rqContext = None\<rparr> = (False, Some (''/api/v1/sessions'', []))" by code_simp
  have "mux_handler sample_registry (WithPrincipal signed_request pr) = (False, Some (''/api/v1/sessions'', []))"
    using handler by (simp add: mux_handler_def WithPrincipal_def signed_request_def)
  then show ?thesis
    by (simp add: registry_ServeHTTP_def route_def WithPrincipal_def signed_request_def)
      (simp add: route_def sample_registry_def sample_tables_def oauth_Routes_def)
qed

lemma signed_bearer: "bearer (\<lambda>_. False) signed_request = Inr (sample_token, signed_request)"
proof -
  have "str_fields (''Bearer'' @ CHR '' '' # sample_token) = [''Bearer'', sample_token]"
    using sample_token_valid(2, 3) by (subst fields_word_blank) (simp_all add: fields_word space_byte_def space_encodings_def)
  then show ?thesis
    using sample_token_valid(1)
    by (simp add: bearer_def httpOAuthCredentials_def header_get_def header_values_def signed_request_def equal_fold_def)
qed


theorem sign_in_errors_classified_witness:
  "\<exists>e w'. run_state (run_sign_in provider_env sample_service HandleRefresh signed_request) provider_world = (ErrorReply e, w') \<and> e \<in> set sign_in_errors"
proof -
  have "json_parse [] = None" by code_simp
  then have "DecodeJSON (DecodeStrict [''refreshToken''] (string_field ''refreshToken'')) signed_request
      = Inl (APIError ''invalid_json'' ''request body is invalid'' 400)"
    by (simp add: DecodeJSON_def DecodeStrict_def signed_request_def)
  then have run: "run_state (run_sign_in provider_env sample_service HandleRefresh signed_request) provider_world
      = (ErrorReply (APIError ''invalid_json'' ''request body is invalid'' 400), provider_world)"
    by (simp add: handleRefresh_def WriteError_api)
  from sign_in_errors_classified [OF run] run show ?thesis by blast
qed

end
