(* ===== verification/Authorizer.thy ===== *)
theory Authorizer
  imports Http Devtunnel
begin

text \<open>
  \<^verbatim>\<open>internal/devtunnel/authorization.go\<close>: the device grants of Microsoft and GitHub. A \<^verbatim>\<open>DeviceAuthorization\<close> is shared by
  pointer and its device code is cleared in place; the operations return the authorization they leave behind.
\<close>

definition maxAuthorizationResponse :: nat where "maxAuthorizationResponse = 65536"
definition authorizationTimeout :: duration where "authorizationTimeout = 15 * second"
definition microsoftScheme :: string where "microsoftScheme = ''Bearer''"
definition deviceGrantType :: string where "deviceGrantType = ''urn:ietf:params:oauth:grant-type:device_code''"
definition maxTokenLifetime :: duration where "maxTokenLifetime = 24 * hour"
definition microsoftClientID :: string where "microsoftClientID = ''c0df98ca-23b4-4bce-bb9f-72039b28d3a5''"
definition githubClientID :: string where "githubClientID = ''Iv1.e7b89e013f801f03''"
definition deviceScope :: string where "deviceScope = ''openid profile offline_access 46da2f7e-b5ef-422a-88d4-2a7f9de6a0b2/.default''"
definition githubDeviceEndpoint :: string where "githubDeviceEndpoint = ''https://github.com/login/device/code''"
definition githubOAuthEndpoint :: string where "githubOAuthEndpoint = ''https://github.com/login/oauth/access_token''"
definition githubUserEndpoint :: string where "githubUserEndpoint = ''https://api.github.com/user''"
definition microsoftDeviceEndpoint :: string where
  "microsoftDeviceEndpoint = ''https://login.microsoftonline.com/common/oauth2/v2.0/devicecode''"
definition microsoftOAuthEndpoint :: string where
  "microsoftOAuthEndpoint = ''https://login.microsoftonline.com/common/oauth2/v2.0/token''"

definition ErrUnknownProvider :: go_error where "ErrUnknownProvider = Plain ''unknown Dev Tunnels authorization provider''"
definition ErrAuthorizationDenied :: go_error where "ErrAuthorizationDenied = Plain ''dev tunnels authorization denied''"
definition ErrAuthorizationExpired :: go_error where "ErrAuthorizationExpired = Plain ''dev tunnels authorization expired''"
definition ErrAuthorizationUnavailable :: go_error where "ErrAuthorizationUnavailable = Plain ''dev tunnels authorization unavailable''"
definition ErrAuthorizationInvalid :: go_error where "ErrAuthorizationInvalid = Plain ''invalid Dev Tunnels authorization response''"
definition ErrAuthorizationRejected :: go_error where "ErrAuthorizationRejected = Plain ''dev tunnels authorization rejected''"

record authorizationProvider =
  apName :: string
  apScheme :: string
  apDeviceEndpoint :: string
  apTokenEndpoint :: string
  apUserEndpoint :: string
  apClientID :: string
  apScope :: string

record DeviceAuthorization =
  daUserCode :: string
  daVerificationURI :: string
  daExpiresIn :: duration
  daInterval :: duration
  daProvider :: authorizationProvider
  daDeviceCode :: string

record AuthorizationTokens =
  atProvider :: string
  atScheme :: string
  atAccessToken :: string
  atRefreshToken :: string
  atAccount :: string
  atExpiresIn :: duration

datatype PollResult = StillPending duration | Completed AuthorizationTokens

type_synonym Authorizer = "(string \<times> authorizationProvider) list"

definition NewAuthorizer :: Authorizer where
  "NewAuthorizer =
     [(''microsoft'', \<lparr>apName = ''microsoft'', apScheme = microsoftScheme, apDeviceEndpoint = microsoftDeviceEndpoint,
        apTokenEndpoint = microsoftOAuthEndpoint, apUserEndpoint = [], apClientID = microsoftClientID, apScope = deviceScope\<rparr>),
      (''github'', \<lparr>apName = ''github'', apScheme = ''github'', apDeviceEndpoint = githubDeviceEndpoint,
        apTokenEndpoint = githubOAuthEndpoint, apUserEndpoint = githubUserEndpoint, apClientID = githubClientID, apScope = []\<rparr>)]"

definition Supports :: "Authorizer \<Rightarrow> string \<Rightarrow> bool" where
  "Supports a provider \<longleftrightarrow> alookup a provider \<noteq> None"

definition postForm :: "http_env \<Rightarrow> authorizationProvider \<Rightarrow> string \<Rightarrow> (string \<times> string) list \<Rightarrow> ('w http_world_scheme, string res) state" where
  "postForm E provider endpoint form = do {
     let form = aput ''client_id'' (apClientID provider) form;
     answer \<leftarrow> PostForm E endpoint (if apScope provider \<noteq> [] then aput ''scope'' (apScope provider) form else form) maxAuthorizationResponse;
     State_Monad.return
       (case answer of
          Inl _ \<Rightarrow> Inl ErrAuthorizationUnavailable
        | Inr (body, status) \<Rightarrow> if status < 200 \<or> 300 \<le> status then Inl ErrAuthorizationUnavailable else Inr body) }"

definition Clear :: "DeviceAuthorization \<Rightarrow> DeviceAuthorization" where
  "Clear a = a\<lparr>daDeviceCode := []\<rparr>"

record device_response =
  dvDeviceCode :: string
  dvUserCode :: string
  dvVerificationURI :: string
  dvExpiresIn :: int
  dvInterval :: int

definition device_response_fields :: "(string \<times> json) list \<Rightarrow> device_response \<times> bool" where
  "device_response_fields ms =
     (let (a, oa) = string_field ''device_code'' ms; (b, ob) = string_field ''user_code'' ms; (c, oc) = string_field ''verification_uri'' ms;
          (d, od) = int64_field ''expires_in'' ms; (e, oe) = int64_field ''interval'' ms
      in (\<lparr>dvDeviceCode = a, dvUserCode = b, dvVerificationURI = c, dvExpiresIn = d, dvInterval = e\<rparr>, oa \<and> ob \<and> oc \<and> od \<and> oe))"

definition verification_ok :: "string \<Rightarrow> bool" where
  "verification_ok raw \<longleftrightarrow>
     length raw \<le> 2048 \<and> (case url_parse raw of None \<Rightarrow> False
       | Some u \<Rightarrow> uScheme u = ''https'' \<and> uHost u \<noteq> [] \<and> uUser u = None \<and> uFragment u = [])"

definition check_device :: "authorizationProvider \<Rightarrow> string \<Rightarrow> DeviceAuthorization res" where
  "check_device provider body =
     (case decode_struct device_response_fields body of
        None \<Rightarrow> Inl ErrAuthorizationInvalid
      | Some r \<Rightarrow>
          if \<not> ValidCredential (dvDeviceCode r) \<or> 4096 < length (dvDeviceCode r) \<or> \<not> ValidCredential (dvUserCode r) \<or> 128 < length (dvUserCode r)
             \<or> dvExpiresIn r \<le> 0 \<or> 3600 < dvExpiresIn r \<or> dvInterval r < 0 \<or> 60 < dvInterval r \<or> \<not> verification_ok (dvVerificationURI r) then
            Inl ErrAuthorizationInvalid
          else
            (let interval = (if dvInterval r = 0 then 5 else dvInterval r)
             in Inr \<lparr>daUserCode = dvUserCode r, daVerificationURI = dvVerificationURI r, daExpiresIn = dur_mul (dvExpiresIn r) second,
                     daInterval = dur_mul interval second, daProvider = provider, daDeviceCode = dvDeviceCode r\<rparr>))"

definition Start :: "http_env \<Rightarrow> Authorizer \<Rightarrow> string \<Rightarrow> ('w http_world_scheme, DeviceAuthorization res) state" where
  "Start E a providerName =
     (case alookup a providerName of
        None \<Rightarrow> State_Monad.return (Inl ErrUnknownProvider)
      | Some provider \<Rightarrow> do {
          answer \<leftarrow> postForm E provider (apDeviceEndpoint provider) [];
          State_Monad.return (case answer of Inl e \<Rightarrow> Inl e | Inr body \<Rightarrow> check_device provider body) })"

definition preferredUsername :: "string \<Rightarrow> string" where
  "preferredUsername idToken =
     (case split_on CHR ''.'' idToken of
        [_, p1, _] \<Rightarrow>
          if \<not> ValidCredential idToken \<or> MaxCredentialBytes < length p1 then []
          else (case DecodeBase64URL p1 of
                  None \<Rightarrow> []
                | Some decoded \<Rightarrow>
                    (case decode_struct (string_field ''preferred_username'') (map char_of decoded) of None \<Rightarrow> [] | Some name \<Rightarrow> name))
      | _ \<Rightarrow> [])"

record grant_response =
  grAccessToken :: string
  grRefreshToken :: string
  grIDToken :: string
  grExpiresIn :: int

definition grant_response_fields :: "(string \<times> json) list \<Rightarrow> grant_response \<times> bool" where
  "grant_response_fields ms =
     (let (a, oa) = string_field ''access_token'' ms; (b, ob) = string_field ''refresh_token'' ms; (c, oc) = string_field ''id_token'' ms;
          (d, od) = int64_field ''expires_in'' ms
      in (\<lparr>grAccessToken = a, grRefreshToken = b, grIDToken = c, grExpiresIn = d\<rparr>, oa \<and> ob \<and> oc \<and> od))"

text \<open>The error member of an answer, as far as it can be decoded.\<close>

definition oauth_error :: "string \<Rightarrow> string" where
  "oauth_error body =
     (case json_parse body of None \<Rightarrow> [] | Some v \<Rightarrow> fst (string_field ''error'' (fst (object_members v))))"

text \<open>What the token endpoint's answer to a poll comes to, before the account is looked up.\<close>

definition classify_poll :: "authorizationProvider \<Rightarrow> string \<times> nat \<Rightarrow> (duration + grant_response) res" where
  "classify_poll provider = (\<lambda>(body, status).
     (let e = oauth_error body
      in if status < 200 \<or> 300 \<le> status \<or> e \<noteq> [] then
           (if e = ''authorization_pending'' then Inr (Inl 0)
            else if e = ''slow_down'' then Inr (Inl (5 * second))
            else if e = ''access_denied'' then Inl ErrAuthorizationDenied
            else if e = ''expired_token'' then Inl ErrAuthorizationExpired
            else Inl ErrAuthorizationRejected)
         else
           (case decode_struct grant_response_fields body of
              None \<Rightarrow> Inl ErrAuthorizationInvalid
            | Some r \<Rightarrow>
                if \<not> ValidCredential (grAccessToken r) \<or> grRefreshToken r \<noteq> [] \<and> \<not> ValidCredential (grRefreshToken r)
                   \<or> grExpiresIn r < 0 \<or> grExpiresIn r = 0 \<and> apName provider \<noteq> ''github'' \<or> maxTokenLifetime div second < grExpiresIn r then
                  Inl ErrAuthorizationInvalid
                else Inr (Inr r))))"

definition find_account :: "http_env \<Rightarrow> authorizationProvider \<Rightarrow> grant_response \<Rightarrow> ('w http_world_scheme, string res) state" where
  "find_account E provider r =
     (if apName provider = ''github'' then do {
        user \<leftarrow> GetJSON E (apUserEndpoint provider) (microsoftScheme @ '' '' @ grAccessToken r) maxAuthorizationResponse
          (decode_struct (string_field ''login''));
        State_Monad.return (case user of Inl _ \<Rightarrow> Inl ErrAuthorizationInvalid | Inr login \<Rightarrow> Inr login) }
      else State_Monad.return (Inr (preferredUsername (grIDToken r))))"

text \<open>The time left to an authorization bounds the request; running out of it is an error of the network.\<close>

definition Poll :: "http_env \<Rightarrow> DeviceAuthorization \<Rightarrow> ('w http_world_scheme, PollResult res \<times> DeviceAuthorization) state" where
  "Poll E authorization =
     (let provider = daProvider authorization
      in if daDeviceCode authorization = [] then State_Monad.return (Inl ErrAuthorizationInvalid, authorization)
         else do {
           answer \<leftarrow> PostForm E (apTokenEndpoint provider)
             [(''grant_type'', deviceGrantType), (''client_id'', apClientID provider), (''device_code'', daDeviceCode authorization)]
             maxAuthorizationResponse;
           (case (case answer of Inl _ \<Rightarrow> Inl ErrAuthorizationUnavailable | Inr r \<Rightarrow> classify_poll provider r) of
              Inl e \<Rightarrow> State_Monad.return (Inl e, Clear authorization)
            | Inr (Inl slowDown) \<Rightarrow> State_Monad.return (Inr (StillPending slowDown), authorization)
            | Inr (Inr r) \<Rightarrow> do {
                found \<leftarrow> find_account E provider r;
                State_Monad.return
                  ((case found of
                      Inl e \<Rightarrow> Inl e
                    | Inr account \<Rightarrow>
                        if \<not> ValidIdentityValue account then Inl ErrAuthorizationInvalid
                        else Inr (Completed \<lparr>atProvider = apName provider, atScheme = apScheme provider, atAccessToken = grAccessToken r,
                               atRefreshToken = grRefreshToken r, atAccount = account, atExpiresIn = dur_mul (grExpiresIn r) second\<rparr>)),
                   Clear authorization) }) })"

definition refresh_response_fields :: "(string \<times> json) list \<Rightarrow> grant_response \<times> bool" where
  "refresh_response_fields ms =
     (let (a, oa) = string_field ''access_token'' ms; (b, ob) = string_field ''refresh_token'' ms; (d, od) = int64_field ''expires_in'' ms
      in (\<lparr>grAccessToken = a, grRefreshToken = b, grIDToken = [], grExpiresIn = d\<rparr>, oa \<and> ob \<and> od))"

definition check_refresh :: "authorizationProvider \<Rightarrow> string \<Rightarrow> string \<Rightarrow> AuthorizationTokens res" where
  "check_refresh provider refreshToken body =
     (case decode_struct refresh_response_fields body of
        None \<Rightarrow> Inl ErrAuthorizationInvalid
      | Some r \<Rightarrow>
          if \<not> ValidCredential (grAccessToken r) \<or> grRefreshToken r \<noteq> [] \<and> \<not> ValidCredential (grRefreshToken r)
             \<or> grExpiresIn r \<le> 0 \<or> maxTokenLifetime div second < grExpiresIn r then
            Inl ErrAuthorizationInvalid
          else Inr \<lparr>atProvider = apName provider, atScheme = apScheme provider, atAccessToken = grAccessToken r,
                     atRefreshToken = (if grRefreshToken r = [] then refreshToken else grRefreshToken r), atAccount = [],
                     atExpiresIn = dur_mul (grExpiresIn r) second\<rparr>)"

definition Refresh :: "http_env \<Rightarrow> Authorizer \<Rightarrow> string \<Rightarrow> string \<Rightarrow> ('w http_world_scheme, AuthorizationTokens res) state" where
  "Refresh E a providerName refreshToken =
     (case alookup a providerName of
        None \<Rightarrow> State_Monad.return (Inl ErrUnknownProvider)
      | Some provider \<Rightarrow>
          if \<not> ValidCredential refreshToken then State_Monad.return (Inl ErrAuthorizationInvalid)
          else do {
            answer \<leftarrow> postForm E provider (apTokenEndpoint provider) [(''grant_type'', ''refresh_token''), (''refresh_token'', refreshToken)];
            State_Monad.return (case answer of Inl e \<Rightarrow> Inl e | Inr body \<Rightarrow> check_refresh provider refreshToken body) })"

section \<open>The authorizer interface\<close>

text \<open>
  \<^verbatim>\<open>tunnelAuthorizer\<close> of \<^verbatim>\<open>subsystems/tunnel/tunnel.go\<close>: what the broker relies on. A call changes nothing of the caller's
  world but the clock and the log of requests; a started authorization has a device code; a poll leaves the
  authorization as it was while it is pending and cleared otherwise; only the device code it was given is sent.
\<close>

definition http_frame :: "('w http_world_scheme \<Rightarrow> bool) \<Rightarrow> bool" where
  "http_frame P \<longleftrightarrow> (\<forall>w t l. P w \<longrightarrow> P (w\<lparr>iwTick := t, iwLog := l\<rparr>))"

definition polls_with :: "DeviceAuthorization \<Rightarrow> http_call \<Rightarrow> bool" where
  "polls_with a call \<longleftrightarrow> hcMethod call = ''POST'' \<and> hcURL call = apTokenEndpoint (daProvider a)
     \<and> alookup (hcForm call) ''device_code'' = Some (daDeviceCode a)"

locale device_authorizer =
  fixes start_with :: "string \<Rightarrow> ('w http_world_scheme, DeviceAuthorization res) state"
    and poll_with :: "DeviceAuthorization \<Rightarrow> ('w http_world_scheme, PollResult res \<times> DeviceAuthorization) state"
    and refresh_with :: "string \<Rightarrow> string \<Rightarrow> ('w http_world_scheme, AuthorizationTokens res) state"
  assumes start_frame: "http_frame P \<Longrightarrow> ensures P (start_with name) (\<lambda>r. \<forall>a. r = Inr a \<longrightarrow> daDeviceCode a \<noteq> [])"
    and poll_frame: "http_frame P \<Longrightarrow> ensures P (poll_with a)
      (\<lambda>(r, left). left = (case r of Inr (StillPending _) \<Rightarrow> a | _ \<Rightarrow> Clear a))"
    and refresh_frame: "http_frame P \<Longrightarrow> keeps P (refresh_with name token)"
    and poll_sends: "run_state (poll_with a) w = ((Inr (Completed tokens), left), w')
      \<Longrightarrow> \<exists>call answer calls. iwLog w' = iwLog w @ (call, answer) # calls \<and> polls_with a call"
begin

lemma poll_left:
  assumes "run_state (poll_with a) w = ((r, left), w')"
  shows "left = (case r of Inr (StillPending _) \<Rightarrow> a | _ \<Rightarrow> Clear a)"
proof -
  have "ensures (\<lambda>_. True) (poll_with a) (\<lambda>(r, left). left = (case r of Inr (StillPending _) \<Rightarrow> a | _ \<Rightarrow> Clear a))"
    by (rule poll_frame) (simp add: http_frame_def)
  from ensuresD [OF this TrueI assms] show ?thesis by (simp del: split_paired_All)
qed

lemma poll_leaves: "run_state (poll_with a) w = ((r, left), w') \<Longrightarrow> left = a \<or> left = Clear a"
  by (drule poll_left) (simp split: sum.splits PollResult.splits)

lemma poll_spends: "run_state (poll_with a) w = ((r, left), w') \<Longrightarrow> \<nexists>d. r = Inr (StillPending d) \<Longrightarrow> daDeviceCode left = []"
  by (drule poll_left) (simp add: Clear_def split: sum.splits PollResult.splits)

end

lemma http_frameD: "http_frame P \<Longrightarrow> P w \<Longrightarrow> P (w\<lparr>iwTick := t, iwLog := l\<rparr>)"
  by (simp add: http_frame_def)

lemma frame_Do: "http_frame P \<Longrightarrow> keeps P (Do E call limit)"
  by (rule ensuresI) (auto simp: Do_def client_Do_def http_tick_def dest: http_frameD)

lemma frame_NewRequest_Do: "http_frame P \<Longrightarrow> keeps P (PostForm E url form limit)" "http_frame P \<Longrightarrow> keeps P (GetJSON E url bearer limit decode)"
  unfolding PostForm_def GetJSON_def
  by (intro ensures_case_sum ensures_return TrueI frame_Do ensures_bind [OF frame_Do]; assumption)+

lemma check_device_code: "check_device provider body = Inr a \<Longrightarrow> daDeviceCode a \<noteq> []"
  by (auto simp: check_device_def Let_def ValidCredential_def split: option.splits if_splits)

lemma frame_postForm: "http_frame P \<Longrightarrow> keeps P (postForm E provider endpoint form)"
  unfolding postForm_def Let_def by (intro ensures_bind [OF frame_NewRequest_Do(1)] ensures_return TrueI)

lemma Start_frame: "http_frame P \<Longrightarrow> ensures P (Start E a name) (\<lambda>r. \<forall>a. r = Inr a \<longrightarrow> daDeviceCode a \<noteq> [])"
  unfolding Start_def
  by (intro ensures_case_option ensures_bind [OF frame_postForm] ensures_return) (auto dest: check_device_code split: sum.splits)

lemma Refresh_frame: "http_frame P \<Longrightarrow> keeps P (Refresh E a name token)"
  unfolding Refresh_def by (intro ensures_case_option ensures_if ensures_bind [OF frame_postForm] ensures_return TrueI)

lemma find_account_frame: "http_frame P \<Longrightarrow> keeps P (find_account E provider r)"
  unfolding find_account_def by (intro ensures_if ensures_bind [OF frame_NewRequest_Do(2)] ensures_return TrueI)

lemma Clear_cleared: "daDeviceCode a = [] \<Longrightarrow> Clear a = a"
  by (simp add: Clear_def)

lemma Poll_frame:
  "http_frame P \<Longrightarrow> ensures P (Poll E a) (\<lambda>(r, left). left = (case r of Inr (StillPending _) \<Rightarrow> a | _ \<Rightarrow> Clear a))"
  unfolding Poll_def Let_def
  by (intro ensures_if ensures_bind [OF frame_NewRequest_Do(1)] ensures_case_sum ensures_bind [OF find_account_frame] ensures_return)
    (auto simp: Clear_cleared split: sum.splits)

lemma Do_logs: "run_state (Do E call limit) w = (r, w') \<Longrightarrow> \<exists>answer. iwLog w' = iwLog w @ [(call, answer)]"
  by (auto simp: Do_def client_Do_def http_tick_def)

lemma PostForm_logs:
  assumes "run_state (PostForm E url form limit) w = (Inr x, w')"
  shows "\<exists>call answer. iwLog w' = iwLog w @ [(call, answer)] \<and> hcMethod call = ''POST'' \<and> hcURL call = url \<and> hcForm call = form"
  using assms by (auto simp: PostForm_def NewRequest_def Let_def split: option.splits dest!: Do_logs)

lemma log_extends: "keeps (\<lambda>w. \<exists>l. iwLog w = l0 @ l) (find_account E provider r)"
proof -
  have "keeps (\<lambda>w. \<exists>l. iwLog w = l0 @ l) (GetJSON E url bearer limit decode)" for url bearer limit and decode :: "string \<Rightarrow> string option"
    by (rule ensuresI) (auto simp: GetJSON_def Do_def client_Do_def http_tick_def split: sum.splits)
  then show ?thesis unfolding find_account_def by (intro ensures_if ensures_bind [where R = "\<lambda>_. True"] ensures_return TrueI)
qed

lemma Poll_sends:
  assumes "run_state (Poll E a) w = ((Inr (Completed tokens), left), w')"
  shows "\<exists>call answer calls. iwLog w' = iwLog w @ (call, answer) # calls \<and> polls_with a call"
proof -
  obtain posted w1 where post: "run_state (PostForm E (apTokenEndpoint (daProvider a))
      [(''grant_type'', deviceGrantType), (''client_id'', apClientID (daProvider a)), (''device_code'', daDeviceCode a)] maxAuthorizationResponse) w = (posted, w1)"
    by fastforce
  with assms obtain x where x: "posted = Inr x" by (cases posted) (auto simp: Poll_def Let_def split: if_splits)
  from PostForm_logs [OF post [unfolded x]] obtain call answer where call: "iwLog w1 = iwLog w @ [(call, answer)]" "polls_with a call"
    by (auto simp: polls_with_def)
  obtain r where r: "classify_poll (daProvider a) x = Inr (Inr r)"
    using assms post x by (auto simp: Poll_def Let_def split: if_splits sum.splits)
  have "w' = snd (run_state (find_account E (daProvider a) r) w1)"
    using assms post x r by (auto simp: Poll_def Let_def split: if_splits sum.splits prod.splits)
  then have "\<exists>l. iwLog w' = iwLog w1 @ l" using keepsD [OF log_extends, of w1 "iwLog w1"] by simp
  with call show ?thesis by auto
qed

interpretation authorizer: device_authorizer "Start E a" "Poll E" "Refresh E a" for E a
  by unfold_locales (fact Start_frame Poll_frame Refresh_frame Poll_sends)+

end
