(* ===== verification/Broker.thy ===== *)
theory Broker
  imports Authorizer SessionStore
begin

text \<open>
  \<^verbatim>\<open>subsystems/tunnel/tunnel.go\<close>: device authorizations bound to principals, and the sealed link file of each principal.
  A device authorization is shared by pointer, so the memory keeps the authorizations by number. Wherever the broker's
  lock is released, the environment may let other requests run on the memory.
\<close>

section \<open>State\<close>

definition maxStoredCredential :: nat where "maxStoredCredential = 65536"
definition tunnelLinkRefreshWindow :: duration where "tunnelLinkRefreshWindow = 2 * minute"
definition maxLinkBrokerEntries :: nat where "maxLinkBrokerEntries = 256"
definition linkStartInterval :: duration where "linkStartInterval = second"
definition maxLinkPollInterval :: duration where "maxLinkPollInterval = 60 * second"
definition tunnelLinkFileName :: string where "tunnelLinkFileName = ''tunnel-link''"
definition tunnelLinkKeyFileName :: string where "tunnelLinkKeyFileName = ''tunnel-link.key''"

text \<open>\<^verbatim>\<open>^[A-Za-z0-9_-]{43}$\<close>\<close>

definition linkHandlePattern :: "string \<Rightarrow> bool" where
  "linkHandlePattern s \<longleftrightarrow> length s = 43 \<and> list_all (\<lambda>c. is_alnum c \<or> c \<in> set ''_-'') s"

record tunnelLink =
  tlProvider :: string
  tlScheme :: string
  tlAccessToken :: string
  tlRefreshToken :: string
  tlExpiresAt :: time
  tlAccount :: string
  tlLinkedAt :: time

record linkBrokerEntry =
  lePrincipal :: Principal
  leAuthorization :: nat
  leExpiresAt :: time
  leInterval :: duration
  leNextPoll :: time

record broker_memory =
  bmEntries :: "(string \<times> linkBrokerEntry) list"
  bmNextStart :: "(Principal \<times> time) list"
  bmAuthorizations :: "(nat \<times> DeviceAuthorization) list"
  bmNext :: nat

record broker_world = http_world +
  bwMemory :: broker_memory
  bwDirs :: "string list"
  bwFiles :: "(string \<times> string) list"

text \<open>
  \<open>beFault\<close> is a file operation that fails before it took effect, \<open>beSync\<close> one whose directory sync fails after it did.
  \<open>beRival\<close> is the key that another process installs meanwhile. \<open>beBox\<close> and \<open>beUnbox\<close> are \<^verbatim>\<open>Seal\<close> and \<^verbatim>\<open>Open\<close> of
  \<^verbatim>\<open>x/crypto/nacl/secretbox\<close>, with key and nonce; the plaintext is the JSON text of a link, kept as the value it decodes to.
\<close>

record broker_env =
  beHttp :: http_env
  beOthers :: "nat \<Rightarrow> broker_memory \<Rightarrow> broker_memory"
  beFault :: "nat \<Rightarrow> go_error option"
  beSync :: "nat \<Rightarrow> go_error option"
  beRandom :: "nat \<Rightarrow> nat \<Rightarrow> nat list"
  beTemp :: "nat \<Rightarrow> string"
  beRival :: "nat \<Rightarrow> string option"
  beBox :: "string \<Rightarrow> string \<Rightarrow> tunnelLink payload \<Rightarrow> string"
  beUnbox :: "string \<Rightarrow> string \<Rightarrow> string \<Rightarrow> tunnelLink payload option"

record broker_service =
  bsStateDir :: string
  bsPrincipalDir :: string
  bsBox :: string
  bsAuthorizer :: Authorizer

type_synonym 'a broker_prog = "(broker_world, 'a) state"

record TunnelLinkStatus =
  lsLinked :: bool
  lsProvider :: string
  lsAccount :: string
  lsLinkedAt :: time

record TunnelLinkStart =
  lnHandle :: string
  lnUserCode :: string
  lnVerificationURI :: string
  lnExpiresInSeconds :: int
  lnIntervalSeconds :: int

record TunnelLinkPoll =
  lpStatus :: string
  lpIntervalSeconds :: int
  lpLink :: TunnelLinkStatus

definition no_link_status :: TunnelLinkStatus where
  "no_link_status = \<lparr>lsLinked = False, lsProvider = [], lsAccount = [], lsLinkedAt = 0\<rparr>"

definition link_status :: "tunnelLink \<Rightarrow> TunnelLinkStatus" where
  "link_status l = \<lparr>lsLinked = True, lsProvider = tlProvider l, lsAccount = tlAccount l, lsLinkedAt = tlLinkedAt l\<rparr>"

section \<open>Files\<close>

fun not_exist :: "go_error \<Rightarrow> bool" where
  "not_exist (NotExist m) = True"
| "not_exist (Wrapf ts es) = list_ex id (map not_exist es)"
| "not_exist (Joined es) = list_ex id (map not_exist es)"
| "not_exist _ = False"

definition absent :: "string \<Rightarrow> go_error" where
  "absent path = NotExist (''open '' @ path @ '': no such file or directory'')"

definition file_ask :: "(nat \<Rightarrow> 'a) \<Rightarrow> 'a broker_prog" where
  "file_ask f = do { t \<leftarrow> http_tick; State_Monad.return (f t) }"

definition attempt :: "broker_env \<Rightarrow> go_error option broker_prog \<Rightarrow> go_error option broker_prog" where
  "attempt E m = do { fault \<leftarrow> file_ask (beFault E); (case fault of Some e \<Rightarrow> State_Monad.return (Some e) | None \<Rightarrow> m) }"

definition link_PrivateDir :: "broker_env \<Rightarrow> string \<Rightarrow> go_error option broker_prog" where
  "link_PrivateDir E dir = attempt E (do {
     w \<leftarrow> State_Monad.get;
     State_Monad.return (if dir \<in> set (bwDirs w) then None else Some (absent dir)) })"

definition link_EnsurePrivateDir :: "broker_env \<Rightarrow> string \<Rightarrow> go_error option broker_prog" where
  "link_EnsurePrivateDir E dir = attempt E (do {
     _ \<leftarrow> State_Monad.update (\<lambda>w. w\<lparr>bwDirs := List.insert dir (bwDirs w)\<rparr>);
     State_Monad.return None })"

definition link_ReadPrivateFile :: "broker_env \<Rightarrow> string \<Rightarrow> nat \<Rightarrow> string res broker_prog" where
  "link_ReadPrivateFile E path limit = do {
     fault \<leftarrow> file_ask (beFault E);
     w \<leftarrow> State_Monad.get;
     State_Monad.return
       (case fault of
          Some e \<Rightarrow> Inl e
        | None \<Rightarrow>
            (case alookup (bwFiles w) path of
               None \<Rightarrow> Inl (absent path)
             | Some data \<Rightarrow> if limit < length data then Inl (Plain (path @ '' is not a private file owned by this user'')) else Inr data)) }"

definition link_SyncDir :: "broker_env \<Rightarrow> go_error option broker_prog" where
  "link_SyncDir E = file_ask (beSync E)"

text \<open>A temporary file that could not be written is removed again.\<close>

definition writeTemp :: "broker_env \<Rightarrow> string \<Rightarrow> string \<Rightarrow> string \<Rightarrow> string res broker_prog" where
  "writeTemp E dir pattern data = do {
     name \<leftarrow> file_ask (\<lambda>t. path_join [dir, pattern @ beTemp E t]);
     failed \<leftarrow> attempt E (do {
       _ \<leftarrow> State_Monad.update (\<lambda>w. w\<lparr>bwFiles := aput name data (bwFiles w)\<rparr>);
       State_Monad.return None });
     State_Monad.return (case failed of Some e \<Rightarrow> Inl e | None \<Rightarrow> Inr name) }"

definition file_Remove :: "broker_env \<Rightarrow> string \<Rightarrow> go_error option broker_prog" where
  "file_Remove E path = attempt E (do {
     w \<leftarrow> State_Monad.get;
     (if alookup (bwFiles w) path = None then State_Monad.return (Some (absent path))
      else do { _ \<leftarrow> State_Monad.set (w\<lparr>bwFiles := adel path (bwFiles w)\<rparr>); State_Monad.return None }) })"

definition link_RemoveFile :: "broker_env \<Rightarrow> string \<Rightarrow> go_error option broker_prog" where
  "link_RemoveFile E path = do {
     removed \<leftarrow> file_Remove E path;
     (case removed of
        Some e \<Rightarrow> State_Monad.return (if not_exist e then None else Some e)
      | None \<Rightarrow> link_SyncDir E) }"

text \<open>A link replaces a regular file by a rename; its temporary file is not kept apart, since nothing reads it.\<close>

definition link_ReplaceFile :: "broker_env \<Rightarrow> string \<Rightarrow> string \<Rightarrow> go_error option broker_prog" where
  "link_ReplaceFile E path data = attempt E (do {
     _ \<leftarrow> State_Monad.update (\<lambda>w. w\<lparr>bwFiles := aput path data (bwFiles w)\<rparr>);
     link_SyncDir E })"

section \<open>The secret box\<close>

definition Seal :: "broker_env \<Rightarrow> string \<Rightarrow> string \<Rightarrow> tunnelLink payload \<Rightarrow> string" where
  "Seal E key nonce plaintext = nonce @ beBox E key nonce plaintext"

definition Open :: "broker_env \<Rightarrow> string \<Rightarrow> string \<Rightarrow> tunnelLink payload res" where
  "Open E key sealed =
     (if length sealed < 24 then Inl (Plain ''sealed secret is truncated'')
      else (case beUnbox E key (take 24 sealed) (drop 24 sealed) of
              None \<Rightarrow> Inl (Plain ''sealed secret could not be opened'')
            | Some plaintext \<Rightarrow> Inr plaintext))"

definition random_bytes :: "broker_env \<Rightarrow> nat \<Rightarrow> string broker_prog" where
  "random_bytes E n = file_ask (\<lambda>t. map char_of (beRandom E n t))"

definition rivals :: "broker_env \<Rightarrow> string \<Rightarrow> unit broker_prog" where
  "rivals E path = do {
     key \<leftarrow> file_ask (beRival E);
     State_Monad.update (\<lambda>w. case key of None \<Rightarrow> w
       | Some k \<Rightarrow> if alookup (bwFiles w) path = None then w\<lparr>bwFiles := aput path k (bwFiles w)\<rparr> else w) }"

definition read_key :: "broker_env \<Rightarrow> string \<Rightarrow> string res broker_prog" where
  "read_key E path = do {
     data \<leftarrow> link_ReadPrivateFile E path 32;
     State_Monad.return
       (case data of Inl e \<Rightarrow> Inl e | Inr key \<Rightarrow> if length key \<noteq> 32 then Inl (Plain ''secretbox key file is invalid'') else Inr key) }"

text \<open>\<^verbatim>\<open>os.Link\<close>: whether the candidate was installed, or a key was there already.\<close>

definition file_Link :: "broker_env \<Rightarrow> string \<Rightarrow> string \<Rightarrow> bool res broker_prog" where
  "file_Link E name path = do {
     fault \<leftarrow> file_ask (beFault E);
     w \<leftarrow> State_Monad.get;
     (case fault of
        Some e \<Rightarrow> State_Monad.return (Inl e)
      | None \<Rightarrow>
          (case alookup (bwFiles w) path of
             Some _ \<Rightarrow> State_Monad.return (Inr False)
           | None \<Rightarrow>
               (case alookup (bwFiles w) name of
                  None \<Rightarrow> State_Monad.return (Inl (absent name))
                | Some data \<Rightarrow> do { _ \<leftarrow> State_Monad.set (w\<lparr>bwFiles := aput path data (bwFiles w)\<rparr>); State_Monad.return (Inr True) }))) }"

text \<open>The installation of a candidate that has been written; the deferred removal follows every failure.\<close>

definition install_key :: "broker_env \<Rightarrow> string \<Rightarrow> string \<Rightarrow> string \<Rightarrow> string res broker_prog" where
  "install_key E path candidate name = do {
     _ \<leftarrow> rivals E path;
     linked \<leftarrow> file_Link E name path;
     (case linked of
        Inl e \<Rightarrow> State_Monad.return (Inl e)
      | Inr installed \<Rightarrow> do {
          removed \<leftarrow> file_Remove E name;
          (case removed of
             Some e \<Rightarrow> State_Monad.return (Inl e)
           | None \<Rightarrow> do {
               synced \<leftarrow> link_SyncDir E;
               (case synced of
                  Some e \<Rightarrow> State_Monad.return (Inl e)
                | None \<Rightarrow> if installed then State_Monad.return (Inr candidate) else read_key E path) }) }) }"

definition LoadOrCreateSecretBox :: "broker_env \<Rightarrow> string \<Rightarrow> string \<Rightarrow> string res broker_prog" where
  "LoadOrCreateSecretBox E dir file = do {
     let path = path_join [dir, file];
     _ \<leftarrow> rivals E path;
     found \<leftarrow> read_key E path;
     (case found of
        Inr key \<Rightarrow> State_Monad.return (Inr key)
      | Inl e \<Rightarrow>
          if \<not> not_exist e then State_Monad.return (Inl e)
          else do {
            private \<leftarrow> link_PrivateDir E dir;
            (case private of
               Some e \<Rightarrow> State_Monad.return (Inl e)
             | None \<Rightarrow> do {
                 candidate \<leftarrow> random_bytes E 32;
                 written \<leftarrow> writeTemp E dir ''.secretbox-'' candidate;
                 (case written of
                    Inl e \<Rightarrow> State_Monad.return (Inl e)
                  | Inr name \<Rightarrow> do {
                      result \<leftarrow> install_key E path candidate name;
                      _ \<leftarrow> file_Remove E name;
                      State_Monad.return result }) }) }) }"

definition withCredentialLock :: "broker_env \<Rightarrow> 'a res broker_prog \<Rightarrow> 'a res broker_prog" where
  "withCredentialLock E body = do {
     fault \<leftarrow> file_ask (beFault E);
     (case fault of Some e \<Rightarrow> State_Monad.return (Inl e) | None \<Rightarrow> body) }"

section \<open>Links\<close>

definition link_dir :: "broker_service \<Rightarrow> Principal \<Rightarrow> string" where
  "link_dir s pr = path_join [bsPrincipalDir s, PrincipalDirName pr]"

definition linkPath :: "broker_service \<Rightarrow> Principal \<Rightarrow> string" where
  "linkPath s pr = path_join [bsPrincipalDir s, PrincipalDirName pr, tunnelLinkFileName]"

definition loadLink :: "broker_env \<Rightarrow> broker_service \<Rightarrow> Principal \<Rightarrow> tunnelLink option res broker_prog" where
  "loadLink E s pr = do {
     dir \<leftarrow> link_PrivateDir E (link_dir s pr);
     (case dir of
        Some e \<Rightarrow> State_Monad.return (if not_exist e then Inr None else Inl e)
      | None \<Rightarrow> do {
          sealed \<leftarrow> link_ReadPrivateFile E (linkPath s pr) maxStoredCredential;
          State_Monad.return
            (case sealed of
               Inl e \<Rightarrow> if not_exist e then Inr None else Inl e
             | Inr data \<Rightarrow>
                 (case Open E (bsBox s) data of
                    Inl e \<Rightarrow> Inl e
                  | Inr (Malformed _) \<Rightarrow> Inl (Plain ''stored tunnel link is invalid'')
                  | Inr (Json link) \<Rightarrow> Inr (Some link))) }) }"

definition saveLink :: "broker_env \<Rightarrow> broker_service \<Rightarrow> Principal \<Rightarrow> tunnelLink \<Rightarrow> go_error option broker_prog" where
  "saveLink E s pr link = do {
     dir \<leftarrow> link_EnsurePrivateDir E (link_dir s pr);
     (case dir of
        Some e \<Rightarrow> State_Monad.return (Some e)
      | None \<Rightarrow> do {
          nonce \<leftarrow> random_bytes E 24;
          link_ReplaceFile E (linkPath s pr) (Seal E (bsBox s) nonce (Json link)) }) }"

section \<open>The memory\<close>

definition clear_at :: "nat \<Rightarrow> broker_memory \<Rightarrow> broker_memory" where
  "clear_at p m =
     m\<lparr>bmAuthorizations := (case alookup (bmAuthorizations m) p of None \<Rightarrow> bmAuthorizations m | Some a \<Rightarrow> aput p (Clear a) (bmAuthorizations m))\<rparr>"

definition deleteLocked :: "string \<Rightarrow> broker_memory \<Rightarrow> broker_memory" where
  "deleteLocked handle m =
     (case alookup (bmEntries m) handle of
        None \<Rightarrow> m
      | Some entry \<Rightarrow> (clear_at (leAuthorization entry) m)\<lparr>bmEntries := adel handle (bmEntries m)\<rparr>)"

definition cleanupLocked :: "time \<Rightarrow> broker_memory \<Rightarrow> broker_memory" where
  "cleanupLocked now m =
     (let m1 = foldl (\<lambda>m (handle, entry). if now < leExpiresAt entry then m else deleteLocked handle m) m (bmEntries m)
      in m1\<lparr>bmNextStart := filter (\<lambda>(_, next). now < next) (bmNextStart m1)\<rparr>)"

text \<open>The locked sections of \<^verbatim>\<open>start\<close>: the admission of a start, and the entry of an authorization that was started.\<close>

definition admit_start :: "time \<Rightarrow> Principal \<Rightarrow> broker_memory \<Rightarrow> go_error option \<times> broker_memory" where
  "admit_start now pr m0 =
     (let m = cleanupLocked now m0
      in if (case alookup (bmNextStart m) pr of None \<Rightarrow> now < 0 | Some next \<Rightarrow> now < next) then
           (Some (APIError ''rate_limited'' ''request rate exceeded'' 429), m)
         else if maxLinkBrokerEntries \<le> length (bmEntries m) then
           (Some (APIError ''broker_capacity'' ''authorization service is busy'' 503), m)
         else (None, m\<lparr>bmNextStart := aput pr (now + linkStartInterval) (bmNextStart m)\<rparr>))"

definition enter_link :: "string \<Rightarrow> Principal \<Rightarrow> DeviceAuthorization \<Rightarrow> time \<Rightarrow> broker_memory \<Rightarrow> go_error option \<times> broker_memory" where
  "enter_link handle pr authorization now m =
     (if maxLinkBrokerEntries \<le> length (bmEntries m) then (Some (APIError ''broker_capacity'' ''authorization service is busy'' 503), m)
      else
        (None, m\<lparr>bmEntries := aput handle \<lparr>lePrincipal = pr, leAuthorization = bmNext m, leExpiresAt = now + daExpiresIn authorization,
                     leInterval = daInterval authorization, leNextPoll = now + daInterval authorization\<rparr> (bmEntries m),
                 bmAuthorizations := aput (bmNext m) authorization (bmAuthorizations m), bmNext := Suc (bmNext m)\<rparr>))"

text \<open>The locked sections of a poll: its admission, with the number of the authorization and the time left, and its end.\<close>

definition admit_poll :: "time \<Rightarrow> Principal \<Rightarrow> string \<Rightarrow> broker_memory \<Rightarrow> (nat \<times> duration) res \<times> broker_memory" where
  "admit_poll now pr handle m =
     (case alookup (bmEntries m) handle of
        None \<Rightarrow> (Inl (APIError ''not_found'' ''authorization was not found'' 404), m)
      | Some entry \<Rightarrow>
          if lePrincipal entry \<noteq> pr then (Inl (APIError ''not_found'' ''authorization was not found'' 404), m)
          else if \<not> now < leExpiresAt entry then
            (Inl (APIError ''authorization_expired'' ''authorization expired'' 410), deleteLocked handle m)
          else if now < leNextPoll entry then (Inl (APIError ''rate_limited'' ''polling too quickly'' 429), m)
          else (Inr (leAuthorization entry, time_sub (leExpiresAt entry) now), m))"

definition finishPoll :: "time \<Rightarrow> string \<Rightarrow> bool \<Rightarrow> duration \<Rightarrow> broker_memory \<Rightarrow> duration \<times> broker_memory" where
  "finishPoll now handle remove slowDown m =
     (case alookup (bmEntries m) handle of
        None \<Rightarrow> (0, m)
      | Some entry \<Rightarrow>
          if remove then (0, deleteLocked handle m)
          else
            (let interval = min (dur_add (leInterval entry) slowDown) maxLinkPollInterval
             in (interval, m\<lparr>bmEntries := aput handle (entry\<lparr>leInterval := interval, leNextPoll := now + interval\<rparr>) (bmEntries m)\<rparr>)))"

definition Close :: "broker_memory \<Rightarrow> broker_memory" where
  "Close m = (foldl (\<lambda>m (handle, _). deleteLocked handle m) m (bmEntries m))\<lparr>bmNextStart := []\<rparr>"

section \<open>Requests\<close>

definition authorizationError :: "go_error \<Rightarrow> go_error" where
  "authorizationError e =
     (if errors_Is e ErrUnknownProvider then APIError ''unknown_provider'' ''sign-in provider is not offered'' 400
      else if errors_Is e ErrAuthorizationDenied then APIError ''authorization_denied'' ''authorization was denied'' 403
      else if errors_Is e ErrAuthorizationExpired then APIError ''authorization_expired'' ''authorization expired'' 410
      else if errors_Is e ErrAuthorizationUnavailable then APIError ''upstream_unavailable'' ''authorization service is unavailable'' 502
      else if errors_Is e ErrAuthorizationRejected then APIError ''upstream_failure'' ''authorization service rejected the request'' 502
      else APIError ''upstream_invalid'' ''authorization service returned an invalid response'' 502)"

definition broker_clock :: "broker_env \<Rightarrow> time broker_prog" where
  "broker_clock E = clock (beHttp E)"

definition others :: "broker_env \<Rightarrow> unit broker_prog" where
  "others E = do { t \<leftarrow> http_tick; State_Monad.update (\<lambda>w. w\<lparr>bwMemory := beOthers E t (bwMemory w)\<rparr>) }"

definition broker_locked :: "(broker_memory \<Rightarrow> 'a \<times> broker_memory) \<Rightarrow> 'a broker_prog" where
  "broker_locked f = do {
     w \<leftarrow> State_Monad.get;
     let (x, m) = f (bwMemory w);
     _ \<leftarrow> State_Monad.set (w\<lparr>bwMemory := m\<rparr>);
     State_Monad.return x }"

definition broker_status :: "broker_env \<Rightarrow> broker_service \<Rightarrow> Principal \<Rightarrow> TunnelLinkStatus res broker_prog" where
  "broker_status E s pr = do {
     found \<leftarrow> loadLink E s pr;
     State_Monad.return
       (case found of Inl e \<Rightarrow> Inl e | Inr None \<Rightarrow> Inr no_link_status | Inr (Some link) \<Rightarrow> Inr (link_status link)) }"

definition broker_start :: "broker_env \<Rightarrow> broker_service \<Rightarrow> Principal \<Rightarrow> string \<Rightarrow> TunnelLinkStart res broker_prog" where
  "broker_start E s pr providerName =
     (if \<not> Supports (bsAuthorizer s) providerName then State_Monad.return (Inl (authorizationError ErrUnknownProvider))
      else do {
        now \<leftarrow> broker_clock E;
        refused \<leftarrow> broker_locked (admit_start now pr);
        (case refused of
           Some e \<Rightarrow> State_Monad.return (Inl e)
         | None \<Rightarrow> do {
             started \<leftarrow> Start (beHttp E) (bsAuthorizer s) providerName;
             (case started of
                Inl e \<Rightarrow> State_Monad.return (Inl (authorizationError e))
              | Inr authorization \<Rightarrow> do {
                  raw \<leftarrow> file_ask (beRandom E 32);
                  let handle = b64_encode raw;
                  now \<leftarrow> broker_clock E;
                  _ \<leftarrow> others E;
                  full \<leftarrow> broker_locked (enter_link handle pr authorization now);
                  State_Monad.return
                    (case full of
                       Some e \<Rightarrow> Inl e
                     | None \<Rightarrow>
                         Inr \<lparr>lnHandle = handle, lnUserCode = daUserCode authorization, lnVerificationURI = daVerificationURI authorization,
                              lnExpiresInSeconds = daExpiresIn authorization div second, lnIntervalSeconds = daInterval authorization div second\<rparr>) }) }) })"

definition poll_provider :: "broker_env \<Rightarrow> nat \<Rightarrow> PollResult res broker_prog" where
  "poll_provider E p = do {
     w \<leftarrow> State_Monad.get;
     (case alookup (bmAuthorizations (bwMemory w)) p of
        None \<Rightarrow> State_Monad.return (Inl ErrAuthorizationInvalid)
      | Some authorization \<Rightarrow> do {
          (result, left) \<leftarrow> Poll (beHttp E) authorization;
          _ \<leftarrow> others E;
          _ \<leftarrow> broker_locked (\<lambda>m. ((), if left = authorization then m else clear_at p m));
          _ \<leftarrow> others E;
          State_Monad.return result }) }"

definition new_link :: "AuthorizationTokens \<Rightarrow> time \<Rightarrow> tunnelLink" where
  "new_link tokens now =
     \<lparr>tlProvider = atProvider tokens, tlScheme = atScheme tokens, tlAccessToken = atAccessToken tokens, tlRefreshToken = atRefreshToken tokens,
      tlExpiresAt = (if 0 < atExpiresIn tokens then now + atExpiresIn tokens else 0), tlAccount = atAccount tokens, tlLinkedAt = now\<rparr>"

definition pollCredentialLocked :: "broker_env \<Rightarrow> broker_service \<Rightarrow> Principal \<Rightarrow> string \<Rightarrow> TunnelLinkPoll res broker_prog" where
  "pollCredentialLocked E s pr handle = do {
     now \<leftarrow> broker_clock E;
     admitted \<leftarrow> broker_locked (admit_poll now pr handle);
     (case admitted of
        Inl e \<Rightarrow> State_Monad.return (Inl e)
      | Inr (p, remaining) \<Rightarrow> do {
          _ \<leftarrow> others E;
          result \<leftarrow> poll_provider E p;
          (case result of
             Inl e \<Rightarrow> do {
               _ \<leftarrow> broker_locked (finishPoll 0 handle True 0);
               State_Monad.return (Inl (authorizationError e)) }
           | Inr (StillPending slowDown) \<Rightarrow> do {
               now \<leftarrow> broker_clock E;
               interval \<leftarrow> broker_locked (finishPoll now handle False slowDown);
               State_Monad.return (Inr \<lparr>lpStatus = ''pending'', lpIntervalSeconds = interval div second, lpLink = no_link_status\<rparr>) }
           | Inr (Completed tokens) \<Rightarrow> do {
               _ \<leftarrow> broker_locked (finishPoll 0 handle True 0);
               now \<leftarrow> broker_clock E;
               let link = new_link tokens now;
               saved \<leftarrow> saveLink E s pr link;
               State_Monad.return
                 (case saved of Some e \<Rightarrow> Inl e | None \<Rightarrow> Inr \<lparr>lpStatus = ''linked'', lpIntervalSeconds = 0, lpLink = link_status link\<rparr>) }) }) }"

definition broker_poll :: "broker_env \<Rightarrow> broker_service \<Rightarrow> Principal \<Rightarrow> string \<Rightarrow> TunnelLinkPoll res broker_prog" where
  "broker_poll E s pr handle =
     (if \<not> linkHandlePattern handle then State_Monad.return (Inl (APIError ''not_found'' ''authorization was not found'' 404))
      else withCredentialLock E (pollCredentialLocked E s pr handle))"

definition refresh_due :: "time \<Rightarrow> tunnelLink \<Rightarrow> bool" where
  "refresh_due now link \<longleftrightarrow> tlRefreshToken link \<noteq> [] \<and> tlExpiresAt link \<noteq> 0 \<and> tlExpiresAt link < now + tunnelLinkRefreshWindow"

definition broker_Credential :: "broker_env \<Rightarrow> broker_service \<Rightarrow> Principal \<Rightarrow> Credential res broker_prog" where
  "broker_Credential E s pr = withCredentialLock E (do {
     found \<leftarrow> loadLink E s pr;
     (case found of
        Inl e \<Rightarrow> State_Monad.return (Inl e)
      | Inr None \<Rightarrow> State_Monad.return (Inr no_credential)
      | Inr (Some link) \<Rightarrow> do {
          now \<leftarrow> broker_clock E;
          (if \<not> refresh_due now link then State_Monad.return (Inr \<lparr>credScheme = tlScheme link, credToken = tlAccessToken link\<rparr>)
           else do {
             refreshed \<leftarrow> Refresh (beHttp E) (bsAuthorizer s) (tlProvider link) (tlRefreshToken link);
             (case refreshed of
                Inl _ \<Rightarrow> State_Monad.return (Inl (APIError ''upstream_unavailable'' ''the Dev Tunnels link could not be refreshed'' 502))
              | Inr tokens \<Rightarrow> do {
                  now \<leftarrow> broker_clock E;
                  let link = link\<lparr>tlAccessToken := atAccessToken tokens, tlRefreshToken := atRefreshToken tokens,
                                  tlExpiresAt := now + atExpiresIn tokens\<rparr>;
                  saved \<leftarrow> saveLink E s pr link;
                  State_Monad.return
                    (case saved of Some e \<Rightarrow> Inl e | None \<Rightarrow> Inr \<lparr>credScheme = tlScheme link, credToken = tlAccessToken link\<rparr>) }) }) }) })"

definition broker_delete :: "broker_env \<Rightarrow> broker_service \<Rightarrow> Principal \<Rightarrow> unit res broker_prog" where
  "broker_delete E s pr = withCredentialLock E (do {
     dir \<leftarrow> link_PrivateDir E (link_dir s pr);
     (case dir of
        Some e \<Rightarrow> State_Monad.return (if not_exist e then Inr () else Inl e)
      | None \<Rightarrow> do {
          removed \<leftarrow> link_RemoveFile E (linkPath s pr);
          State_Monad.return (case removed of Some e \<Rightarrow> Inl e | None \<Rightarrow> Inr ()) }) })"

definition newService :: "string \<Rightarrow> string \<Rightarrow> string \<Rightarrow> Authorizer \<Rightarrow> broker_service \<times> broker_memory" where
  "newService stateDir principalDir box authorizer =
     (\<lparr>bsStateDir = stateDir, bsPrincipalDir = principalDir, bsBox = box, bsAuthorizer = authorizer\<rparr>,
      \<lparr>bmEntries = [], bmNextStart = [], bmAuthorizations = [], bmNext = 0\<rparr>)"

definition broker_NewService :: "broker_env \<Rightarrow> string \<Rightarrow> string \<Rightarrow> (broker_service \<times> broker_memory) res broker_prog" where
  "broker_NewService E stateDir principalDir =
     (if stateDir = [] \<or> principalDir = [] then State_Monad.return (Inl (Plain ''tunnel broker directories are required''))
      else do {
        state \<leftarrow> link_EnsurePrivateDir E stateDir;
        (case state of
           Some e \<Rightarrow> State_Monad.return (Inl e)
         | None \<Rightarrow> do {
             principals \<leftarrow> link_EnsurePrivateDir E principalDir;
             (case principals of
                Some e \<Rightarrow> State_Monad.return (Inl e)
              | None \<Rightarrow> do {
                  box \<leftarrow> LoadOrCreateSecretBox E stateDir tunnelLinkKeyFileName;
                  State_Monad.return
                    (case box of Inl e \<Rightarrow> Inl e | Inr key \<Rightarrow> Inr (newService stateDir principalDir key NewAuthorizer)) }) }) })"

section \<open>Routes\<close>

datatype tunnel_body = StatusBody TunnelLinkStatus | StartBody TunnelLinkStart | LinkPollBody TunnelLinkPoll

datatype tunnel_handler = GetTunnel | DeleteTunnel | StartAuthorization | PollAuthorization

text \<open>The handler shapes of \<open>Router\<close> on programs.\<close>

definition answer_as :: "(Principal \<Rightarrow> 'a res broker_prog) \<Rightarrow> ('a \<Rightarrow> tunnel_body reply) \<Rightarrow> http_request \<Rightarrow> tunnel_body reply broker_prog" where
  "answer_as produce respond request =
     (case PrincipalFromContext (rqContext request) of
        Inl e \<Rightarrow> State_Monad.return (WriteError e)
      | Inr pr \<Rightarrow> do {
          r \<leftarrow> produce pr;
          State_Monad.return (case r of Inl e \<Rightarrow> WriteError e | Inr v \<Rightarrow> respond v) })"

definition StartLinkRequest :: "http_request \<Rightarrow> string res" where
  "StartLinkRequest request = DecodeJSON (DecodeStrict [''provider''] (string_field ''provider'')) request"

fun run_tunnel :: "broker_env \<Rightarrow> broker_service \<Rightarrow> tunnel_handler \<Rightarrow> string list \<Rightarrow> http_request \<Rightarrow> tunnel_body reply broker_prog" where
  "run_tunnel E s GetTunnel values request = answer_as (broker_status E s) (\<lambda>v. JSONReply 200 (StatusBody v)) request"
| "run_tunnel E s DeleteTunnel values request = answer_as (broker_delete E s) (\<lambda>_. NoContentReply) request"
| "run_tunnel E s StartAuthorization values request =
     answer_as (\<lambda>pr. case StartLinkRequest request of
         Inl e \<Rightarrow> State_Monad.return (Inl e)
       | Inr provider \<Rightarrow> broker_start E s pr provider) (\<lambda>v. JSONReply 200 (StartBody v)) request"
| "run_tunnel E s PollAuthorization values request =
     answer_as (\<lambda>pr. broker_poll E s pr (hd values)) (\<lambda>v. JSONReply 200 (LinkPollBody v)) request"

definition tunnel_Routes :: "(tunnel_handler \<Rightarrow> 'h) \<Rightarrow> 'h Routes" where
  "tunnel_Routes wrap =
     [(''/api/v1/tunnel'', [(''GET'', wrap GetTunnel), (''DELETE'', wrap DeleteTunnel)]),
      (''/api/v1/tunnel/authorizations'', [(''POST'', wrap StartAuthorization)]),
      (''/api/v1/tunnel/authorizations/{handle}/poll'', [(''POST'', wrap PollAuthorization)])]"

end
