(* ===== verification/BrokerMem.thy ===== *)
theory BrokerMem
  imports Broker
begin

text \<open>
  The broker's memory for every interleaving of its locked sections: the bound on pending authorizations, who holds a device
  code, and the rate of starts.
\<close>

section \<open>Locked sections\<close>

datatype broker_section =
    AdmitStart time Principal
  | EnterLink string Principal DeviceAuthorization time
  | AdmitPoll time Principal string
  | ClearAuthorization nat
  | FinishPoll time string bool duration
  | CloseBroker

fun perform :: "broker_section \<Rightarrow> broker_memory \<Rightarrow> broker_memory" where
  "perform (AdmitStart now pr) m = snd (admit_start now pr m)"
| "perform (EnterLink handle pr authorization now) m = snd (enter_link handle pr authorization now m)"
| "perform (AdmitPoll now pr handle) m = snd (admit_poll now pr handle m)"
| "perform (ClearAuthorization p) m = clear_at p m"
| "perform (FinishPoll now handle remove slowDown) m = snd (finishPoll now handle remove slowDown m)"
| "perform CloseBroker m = Close m"

text \<open>Handles are drawn at random: the ones entered come from a given set, and each is new.\<close>

fun admissible :: "string set \<Rightarrow> broker_section \<Rightarrow> broker_memory \<Rightarrow> bool" where
  "admissible H (EnterLink handle pr authorization now) m \<longleftrightarrow> handle \<in> H \<and> alookup (bmEntries m) handle = None"
| "admissible H _ m \<longleftrightarrow> True"

inductive mem_step :: "string set \<Rightarrow> broker_memory \<Rightarrow> broker_memory \<Rightarrow> bool" for H where
  performs: "admissible H sec m \<Longrightarrow> mem_step H m (perform sec m)"

section \<open>The invariant\<close>

definition pending :: "broker_memory \<Rightarrow> nat set" where
  "pending m = leAuthorization ` ran (alookup (bmEntries m))"

definition broker_ok :: "string set \<Rightarrow> broker_memory \<Rightarrow> bool" where
  "broker_ok H m \<longleftrightarrow>
     length (bmEntries m) \<le> maxLinkBrokerEntries \<and> distinct (map fst (bmEntries m)) \<and> fst ` set (bmEntries m) \<subseteq> H
     \<and> (\<forall>p\<in>pending m. alookup (bmAuthorizations m) p \<noteq> None)
     \<and> (\<forall>p a. alookup (bmAuthorizations m) p = Some a \<longrightarrow> p < bmNext m \<and> (daDeviceCode a \<noteq> [] \<longrightarrow> p \<in> pending m))"

lemma broker_okI:
  assumes "length (bmEntries m) \<le> maxLinkBrokerEntries" "distinct (map fst (bmEntries m))" "fst ` set (bmEntries m) \<subseteq> H"
    and "\<And>p. p \<in> pending m \<Longrightarrow> alookup (bmAuthorizations m) p \<noteq> None"
    and "\<And>p a. alookup (bmAuthorizations m) p = Some a \<Longrightarrow> p < bmNext m \<and> (daDeviceCode a \<noteq> [] \<longrightarrow> p \<in> pending m)"
  shows "broker_ok H m"
  using assms by (simp add: broker_ok_def)

lemma broker_okD:
  assumes "broker_ok H m"
  shows "length (bmEntries m) \<le> maxLinkBrokerEntries" "distinct (map fst (bmEntries m))" "fst ` set (bmEntries m) \<subseteq> H"
    and "p \<in> pending m \<Longrightarrow> alookup (bmAuthorizations m) p \<noteq> None"
    and "alookup (bmAuthorizations m) p = Some a \<Longrightarrow> p < bmNext m \<and> (daDeviceCode a \<noteq> [] \<longrightarrow> p \<in> pending m)"
  using assms by (simp_all add: broker_ok_def)

text \<open>What becomes of an authorization that is there: it stays, or its device code is cleared.\<close>

definition codes_kept :: "broker_memory \<Rightarrow> broker_memory \<Rightarrow> bool" where
  "codes_kept m m' \<longleftrightarrow> (\<forall>p a. alookup (bmAuthorizations m) p = Some a \<longrightarrow>
     alookup (bmAuthorizations m') p = Some a \<or> alookup (bmAuthorizations m') p = Some (Clear a))"

lemma Clear_Clear [simp]: "Clear (Clear a) = Clear a" "daDeviceCode (Clear a) = []"
  by (simp_all add: Clear_def)

lemma codes_kept_refl [simp]: "codes_kept m m"
  by (simp add: codes_kept_def)

lemma codes_kept_trans [trans]: "codes_kept m m' \<Longrightarrow> codes_kept m' m'' \<Longrightarrow> codes_kept m m''"
  unfolding codes_kept_def by (metis Clear_Clear(1))

lemma clear_at_simps [simp]:
  "bmEntries (clear_at p m) = bmEntries m" "bmNextStart (clear_at p m) = bmNextStart m" "bmNext (clear_at p m) = bmNext m"
  "alookup (bmAuthorizations (clear_at p m)) q = (if q = p then map_option Clear (alookup (bmAuthorizations m) q) else alookup (bmAuthorizations m) q)"
  by (auto simp: clear_at_def split: option.splits)

lemma clear_at_ok: "broker_ok H m \<Longrightarrow> broker_ok H (clear_at p m)"
  by (auto simp: broker_ok_def pending_def split: if_splits)

lemma kept_clear_at [simp]: "codes_kept m (clear_at p m)"
  by (auto simp: codes_kept_def)

lemma deleteLocked_entries: "bmEntries (deleteLocked h m) = adel h (bmEntries m)"
  by (auto simp: deleteLocked_def split: option.splits intro: delete_id [symmetric] simp: map_of_eq_None_iff)

lemma deleteLocked_simps [simp]: "bmNextStart (deleteLocked h m) = bmNextStart m" "bmNext (deleteLocked h m) = bmNext m"
  by (auto simp: deleteLocked_def split: option.splits)

lemma kept_deleteLocked [simp]: "codes_kept m (deleteLocked h m)"
  using kept_clear_at by (simp add: deleteLocked_def codes_kept_def split: option.splits)

lemma deleteLocked_ok:
  assumes "broker_ok H m"
  shows "broker_ok H (deleteLocked h m)"
proof (cases "alookup (bmEntries m) h")
  case (Some entry)
  have small: "length (adel h (bmEntries m)) \<le> length (bmEntries m)" by (rule length_delete_le)
  have kept_pending: "p \<in> pending (deleteLocked h m)" if "p \<in> pending m" "p \<noteq> leAuthorization entry" for p
  proof -
    from that(1) obtain k e where "alookup (bmEntries m) k = Some e" "p = leAuthorization e" by (auto simp: pending_def ran_def)
    with that(2) Some have "alookup (bmEntries (deleteLocked h m)) k = Some e" by (auto simp: deleteLocked_entries)
    with \<open>p = leAuthorization e\<close> show ?thesis by (auto simp: pending_def intro: ranI)
  qed
  have fewer: "pending (deleteLocked h m) \<subseteq> pending m" by (auto simp: pending_def deleteLocked_entries ran_def split: if_splits)
  have auths: "bmAuthorizations (deleteLocked h m) = bmAuthorizations (clear_at (leAuthorization entry) m)"
    using Some by (simp add: deleteLocked_def)
  note ok = broker_okD [OF assms]
  have auth: "p < bmNext m \<and> (daDeviceCode a \<noteq> [] \<longrightarrow> p \<in> pending (deleteLocked h m))"
    if look: "alookup (bmAuthorizations (deleteLocked h m)) p = Some a" for p a
  proof (cases "p = leAuthorization entry")
    case True
    with look ok(5) show ?thesis by (auto simp: auths)
  next
    case False
    with look ok(5) kept_pending show ?thesis by (simp add: auths)
  qed
  have there: "alookup (bmAuthorizations (deleteLocked h m)) p \<noteq> None" if "p \<in> pending (deleteLocked h m)" for p
    using ok(4) [of p] fewer that by (auto simp: auths)
  show ?thesis
  proof (rule broker_okI)
    show "fst ` set (bmEntries (deleteLocked h m)) \<subseteq> H"
      using image_mono [OF adel_set_subset, of fst h "bmEntries m"] ok(3) unfolding deleteLocked_entries by (rule subset_trans)
  qed (use ok(1, 2) small auth there in \<open>simp_all add: deleteLocked_entries\<close>)
qed (use assms in \<open>simp add: deleteLocked_def\<close>)

lemma fold_deleteLocked_nextStart:
  "bmNextStart (foldl (\<lambda>m (handle, entry). if keep entry then m else deleteLocked handle m) m es) = bmNextStart m"
  by (induction es arbitrary: m) (auto split: if_splits)

lemma fold_deleteLocked:
  "broker_ok H m \<Longrightarrow> broker_ok H (foldl (\<lambda>m (handle, entry). if keep entry then m else deleteLocked handle m) m es)
    \<and> codes_kept m (foldl (\<lambda>m (handle, entry). if keep entry then m else deleteLocked handle m) m es)
    \<and> bmNextStart (foldl (\<lambda>m (handle, entry). if keep entry then m else deleteLocked handle m) m es) = bmNextStart m"
proof (induction es arbitrary: m)
  case (Cons e es)
  obtain h entry where e: "e = (h, entry)" by (cases e)
  show ?case
    using Cons.IH [of m] Cons.IH [OF deleteLocked_ok [OF Cons.prems, of h]] Cons.prems codes_kept_trans [OF kept_deleteLocked [of m h]]
    by (simp add: e)
qed simp

lemma next_start_irrelevant [simp]:
  "broker_ok H (m\<lparr>bmNextStart := x\<rparr>) = broker_ok H m" "codes_kept m (m'\<lparr>bmNextStart := x\<rparr>) = codes_kept m m'"
  by (simp_all add: broker_ok_def pending_def codes_kept_def)

lemma cleanupLocked_ok: "broker_ok H m \<Longrightarrow> broker_ok H (cleanupLocked now m) \<and> codes_kept m (cleanupLocked now m)"
  using fold_deleteLocked [of H m "\<lambda>entry. now < leExpiresAt entry" "bmEntries m"] by (simp add: cleanupLocked_def Let_def)

lemma cleanupLocked_nextStart: "bmNextStart (cleanupLocked now m) = filter (\<lambda>(_, next). now < next) (bmNextStart m)"
  using fold_deleteLocked_nextStart [of "\<lambda>entry. now < leExpiresAt entry" m "bmEntries m"] by (simp add: cleanupLocked_def Let_def)

lemma Close_ok: "broker_ok H m \<Longrightarrow> broker_ok H (Close m) \<and> codes_kept m (Close m)"
  using fold_deleteLocked [of H m "\<lambda>_. False" "bmEntries m"] by (simp add: Close_def)

lemma admit_start_ok: "broker_ok H m \<Longrightarrow> broker_ok H (snd (admit_start now pr m)) \<and> codes_kept m (snd (admit_start now pr m))"
  using cleanupLocked_ok [of H m now] by (simp add: admit_start_def Let_def)

lemma enter_link_ok:
  assumes "broker_ok H m" and "handle \<in> H" and "alookup (bmEntries m) handle = None"
  shows "broker_ok H (snd (enter_link handle pr a now m)) \<and> codes_kept m (snd (enter_link handle pr a now m))"
proof (cases "maxLinkBrokerEntries \<le> length (bmEntries m)")
  case False
  let ?m = "snd (enter_link handle pr a now m)"
  have new: "handle \<notin> fst ` set (bmEntries m)" using assms(3) by (simp add: map_of_eq_None_iff)
  then have entries: "length (bmEntries ?m) \<le> maxLinkBrokerEntries" "distinct (map fst (bmEntries ?m))" "fst ` set (bmEntries ?m) \<subseteq> H"
    using False assms(1, 2) by (auto simp: enter_link_def aput_new broker_ok_def)
  have pend: "pending ?m = insert (bmNext m) (pending m)"
    using False assms(3) by (simp add: enter_link_def pending_def update_conv')
  have auth: "alookup (bmAuthorizations ?m) p = (if p = bmNext m then Some a else alookup (bmAuthorizations m) p)" for p
    using False by (simp add: enter_link_def)
  have fresh: "alookup (bmAuthorizations m) p = Some b \<Longrightarrow> p < bmNext m" for p b using assms(1) by (simp add: broker_ok_def)
  then have "codes_kept m ?m" by (auto simp: codes_kept_def auth dest: fresh)
  moreover have "bmNext ?m = Suc (bmNext m)" using False by (simp add: enter_link_def)
  with entries pend have "broker_ok H ?m"
    using broker_okD(4, 5) [OF assms(1)] by (intro broker_okI) (auto simp: auth less_Suc_eq split: if_splits)
  ultimately show ?thesis by simp
qed (use assms in \<open>simp add: enter_link_def\<close>)

lemma admit_poll_ok: "broker_ok H m \<Longrightarrow> broker_ok H (snd (admit_poll now pr h m)) \<and> codes_kept m (snd (admit_poll now pr h m))"
  by (simp add: admit_poll_def deleteLocked_ok split: option.splits)

lemma aput_present: "alookup m k \<noteq> None \<Longrightarrow> map fst (aput k v m) = map fst m"
  by (auto simp: map_of_eq_None_iff update_keys intro: image_eqI)

lemma pending_same: "f h = Some e \<Longrightarrow> g e' = g e \<Longrightarrow> g ` ran (f(h \<mapsto> e')) = g ` ran f"
  by (auto simp: ran_def image_iff) (metis option.inject)+

lemma finishPoll_ok:
  assumes "broker_ok H m"
  shows "broker_ok H (snd (finishPoll now h remove slow m)) \<and> codes_kept m (snd (finishPoll now h remove slow m))"
proof (cases "alookup (bmEntries m) h")
  case (Some entry)
  show ?thesis
  proof (cases remove)
    case False
    let ?m = "snd (finishPoll now h remove slow m)"
    have keys: "map fst (bmEntries ?m) = map fst (bmEntries m)"
      using Some False by (simp add: finishPoll_def Let_def aput_present)
    then have "length (bmEntries ?m) = length (bmEntries m)" "fst ` set (bmEntries ?m) = fst ` set (bmEntries m)"
      by (metis length_map, metis list.set_map)
    moreover have "pending ?m = pending m" using Some False by (simp add: finishPoll_def Let_def pending_def update_conv' pending_same)
    moreover have "bmNext ?m = bmNext m" "bmAuthorizations ?m = bmAuthorizations m" using Some False by (simp_all add: finishPoll_def Let_def)
    ultimately show ?thesis using assms keys by (simp add: broker_ok_def codes_kept_def)
  qed (use Some assms in \<open>simp add: finishPoll_def deleteLocked_ok\<close>)
qed (use assms in \<open>simp add: finishPoll_def\<close>)

lemma perform_ok: "broker_ok H m \<Longrightarrow> admissible H sec m \<Longrightarrow> broker_ok H (perform sec m) \<and> codes_kept m (perform sec m)"
  by (cases sec) (simp_all add: admit_start_ok enter_link_ok admit_poll_ok clear_at_ok finishPoll_ok Close_ok)

lemma mem_steps_ok: "(mem_step H)\<^sup>*\<^sup>* m m' \<Longrightarrow> broker_ok H m \<Longrightarrow> broker_ok H m' \<and> codes_kept m m'"
  by (induction rule: rtranclp_induct) (auto elim!: mem_step.cases dest: perform_ok intro: codes_kept_trans)

lemma admissible_mono: "admissible H sec m \<Longrightarrow> H \<subseteq> H' \<Longrightarrow> admissible H' sec m"
  by (cases sec) auto

lemma mem_step_mono: "mem_step H m m' \<Longrightarrow> H \<subseteq> H' \<Longrightarrow> mem_step H' m m'"
  by (auto elim!: mem_step.cases intro!: mem_step.performs intro: admissible_mono)

lemma mem_steps_mono: "(mem_step H)\<^sup>*\<^sup>* m m' \<Longrightarrow> H \<subseteq> H' \<Longrightarrow> (mem_step H')\<^sup>*\<^sup>* m m'"
  by (erule rtranclp_mono [THEN predicate2D, rotated]) (auto intro: mem_step_mono)

lemma Close_empties: "broker_ok H m \<Longrightarrow> bmEntries (Close m) = [] \<and> (\<forall>p a. alookup (bmAuthorizations (Close m)) p = Some a \<longrightarrow> daDeviceCode a = [])"
proof -
  assume ok: "broker_ok H m"
  have "bmEntries (foldl (\<lambda>m (handle, _). deleteLocked handle m) m' es) = filter (\<lambda>(k, _). k \<notin> fst ` set es) (bmEntries m')" for m' and es :: "(string \<times> linkBrokerEntry) list"
    by (induction es arbitrary: m') (auto simp: deleteLocked_entries AList.delete_eq filter_filter split_def intro!: arg_cong [where f = "\<lambda>f. filter f _"])
  then have "bmEntries (Close m) = []" by (force simp: Close_def filter_empty_conv)
  with broker_okD(5) [OF Close_ok [OF ok, THEN conjunct1]] show ?thesis by (auto simp: pending_def)
qed

section \<open>Requests\<close>

definition interferes :: "string set \<Rightarrow> broker_env \<Rightarrow> bool" where
  "interferes H E \<longleftrightarrow> (\<forall>t m. (mem_step H)\<^sup>*\<^sup>* m (beOthers E t m))"

definition draws :: "broker_env \<Rightarrow> string set" where
  "draws E = range (\<lambda>t. b64_encode (beRandom E 32 t))"

inductive broker_op :: "broker_env \<Rightarrow> broker_service \<Rightarrow> broker_world \<Rightarrow> broker_world \<Rightarrow> bool" for E s where
  "broker_op E s w (snd (run_state (broker_status E s pr) w))"
| "broker_op E s w (snd (run_state (broker_start E s pr providerName) w))"
| "broker_op E s w (snd (run_state (broker_poll E s pr handle) w))"
| "broker_op E s w (snd (run_state (broker_Credential E s pr) w))"
| "broker_op E s w (snd (run_state (broker_delete E s pr) w))"
| "broker_op E s w (w\<lparr>bwMemory := Close (bwMemory w)\<rparr>)"

text \<open>Files and clocks are no part of the memory.\<close>

named_theorems on_memory "programs that leave the broker's memory alone"

lemma frame_memory: "http_frame (\<lambda>w. Q (bwMemory w))"
  by (simp add: http_frame_def)

lemma memory_file_ask [on_memory]: "keeps (\<lambda>w. Q (bwMemory w)) (file_ask f)"
  by (rule ensuresI) (simp add: file_ask_def http_tick_def)

lemma memory_clock [on_memory]: "keeps (\<lambda>w. Q (bwMemory w)) (broker_clock E)"
  by (rule ensuresI) (simp add: broker_clock_def clock_def http_tick_def)

lemma memory_attempt: "keeps (\<lambda>w. Q (bwMemory w)) m \<Longrightarrow> keeps (\<lambda>w. Q (bwMemory w)) (attempt E m)"
  unfolding attempt_def by (intro ensures_bind [OF memory_file_ask] ensures_case_option ensures_return TrueI)

lemma memory_PrivateDir [on_memory]: "keeps (\<lambda>w. Q (bwMemory w)) (link_PrivateDir E dir)"
  unfolding link_PrivateDir_def by (intro memory_attempt ensures_get_bind ensures_return TrueI)

lemma memory_EnsurePrivateDir [on_memory]: "keeps (\<lambda>w. Q (bwMemory w)) (link_EnsurePrivateDir E dir)"
  unfolding link_EnsurePrivateDir_def by (intro memory_attempt ensures_bind [where R = "\<lambda>_. True", OF ensures_update] ensures_return TrueI) simp

lemma memory_ReadPrivateFile [on_memory]: "keeps (\<lambda>w. Q (bwMemory w)) (link_ReadPrivateFile E path limit)"
  unfolding link_ReadPrivateFile_def by (intro ensures_bind [OF memory_file_ask] ensures_get_bind ensures_return TrueI)

lemma memory_ReplaceFile [on_memory]: "keeps (\<lambda>w. Q (bwMemory w)) (link_ReplaceFile E path data)"
  unfolding link_ReplaceFile_def link_SyncDir_def by (intro memory_attempt ensures_bind [where R = "\<lambda>_. True", OF ensures_update] memory_file_ask TrueI) simp

lemma memory_RemoveFile [on_memory]: "keeps (\<lambda>w. Q (bwMemory w)) (link_RemoveFile E path)"
proof -
  have "keeps (\<lambda>w. Q (bwMemory w)) (file_Remove E path)"
    unfolding file_Remove_def by (intro memory_attempt) (rule ensuresI, simp)
  then show ?thesis
    unfolding link_RemoveFile_def link_SyncDir_def by (intro ensures_bind [where R = "\<lambda>_. True"] ensures_case_option ensures_return memory_file_ask TrueI)
qed

lemma memory_loadLink [on_memory]: "keeps (\<lambda>w. Q (bwMemory w)) (loadLink E s pr)"
  unfolding loadLink_def
  by (intro ensures_bind [OF memory_PrivateDir] ensures_bind [OF memory_ReadPrivateFile] ensures_case_option ensures_return TrueI)

lemma memory_saveLink [on_memory]: "keeps (\<lambda>w. Q (bwMemory w)) (saveLink E s pr link)"
  unfolding saveLink_def random_bytes_def
  by (intro ensures_bind [OF memory_EnsurePrivateDir] ensures_bind [OF memory_file_ask] ensures_case_option ensures_return memory_ReplaceFile TrueI)

lemma memory_lock: "keeps (\<lambda>w. Q (bwMemory w)) m \<Longrightarrow> keeps (\<lambda>w. Q (bwMemory w)) (withCredentialLock E m)"
  unfolding withCredentialLock_def by (intro ensures_bind [OF memory_file_ask] ensures_case_option ensures_return TrueI)

lemma memory_status: "keeps (\<lambda>w. Q (bwMemory w)) (broker_status E s pr)"
  unfolding broker_status_def by (intro ensures_bind [OF memory_loadLink] ensures_return TrueI)

lemma memory_Credential: "keeps (\<lambda>w. Q (bwMemory w)) (broker_Credential E s pr)"
  unfolding broker_Credential_def Let_def
  by (intro memory_lock ensures_bind [OF memory_loadLink] ensures_bind [OF memory_clock] ensures_bind [OF authorizer.refresh_frame [OF frame_memory]]
      ensures_bind [OF memory_saveLink] ensures_case_sum ensures_case_option ensures_if ensures_return TrueI)

lemma memory_delete: "keeps (\<lambda>w. Q (bwMemory w)) (broker_delete E s pr)"
  unfolding broker_delete_def
  by (intro memory_lock ensures_bind [OF memory_PrivateDir] ensures_bind [OF memory_RemoveFile] ensures_case_option ensures_return TrueI)

text \<open>The memory goes through steps of the locked sections, of this request or of others.\<close>

lemma steps_others: "interferes H E \<Longrightarrow> keeps (\<lambda>w. (mem_step H)\<^sup>*\<^sup>* m0 (bwMemory w)) (others E)"
  by (rule ensuresI) (auto simp: others_def http_tick_def interferes_def intro: rtranclp_trans)

lemma steps_locked:
  assumes "\<And>m. snd (f m) = m \<or> mem_step H m (snd (f m))"
  shows "keeps (\<lambda>w. (mem_step H)\<^sup>*\<^sup>* m0 (bwMemory w)) (broker_locked f)"
proof (rule ensuresI)
  fix w :: broker_world assume "(mem_step H)\<^sup>*\<^sup>* m0 (bwMemory w)"
  with assms [of "bwMemory w"] show "(mem_step H)\<^sup>*\<^sup>* m0 (bwMemory (snd (run_state (broker_locked f) w))) \<and> True"
    by (cases "f (bwMemory w)") (auto simp: broker_locked_def intro: rtranclp.rtrancl_into_rtrancl)
qed

lemma section_steps:
  "mem_step H m (snd (admit_start now pr m))" "mem_step H m (snd (admit_poll now pr handle m))"
  "mem_step H m (snd (finishPoll now handle remove slowDown m))" "mem_step H m (clear_at p m)" "mem_step H m (Close m)"
  using mem_step.performs [of H "AdmitStart now pr" m] mem_step.performs [of H "AdmitPoll now pr handle" m]
    mem_step.performs [of H "FinishPoll now handle remove slowDown" m] mem_step.performs [of H "ClearAuthorization p" m]
    mem_step.performs [of H CloseBroker m] by simp_all

lemma ensures_case_poll:
  "(\<And>d. r = StillPending d \<Longrightarrow> ensures P (f d) Q) \<Longrightarrow> (\<And>t. r = Completed t \<Longrightarrow> ensures P (g t) Q)
    \<Longrightarrow> ensures P (case r of StillPending d \<Rightarrow> f d | Completed t \<Rightarrow> g t) Q"
  by (cases r) simp_all

lemma steps_poll_provider: "interferes H E \<Longrightarrow> keeps (\<lambda>w. (mem_step H)\<^sup>*\<^sup>* m0 (bwMemory w)) (poll_provider E p)"
  unfolding poll_provider_def
  by (intro ensures_get_bind ensures_case_option ensures_bind [OF authorizer.poll_frame [OF frame_memory]] ensures_case_prod ensures_bind [OF steps_others]
      ensures_bind [OF steps_locked] ensures_return TrueI) (simp_all add: section_steps)

lemma steps_pollCredentialLocked:
  "interferes H E \<Longrightarrow> keeps (\<lambda>w. (mem_step H)\<^sup>*\<^sup>* m0 (bwMemory w)) (pollCredentialLocked E s pr handle)"
  unfolding pollCredentialLocked_def Let_def
  by (intro ensures_bind [OF memory_clock] ensures_bind [OF steps_locked] ensures_bind [OF steps_others] ensures_bind [OF steps_poll_provider]
      ensures_bind [OF memory_saveLink] ensures_case_sum ensures_case_prod ensures_case_poll ensures_return TrueI) (simp_all add: section_steps)

lemma steps_poll: "interferes H E \<Longrightarrow> keeps (\<lambda>w. (mem_step H)\<^sup>*\<^sup>* m0 (bwMemory w)) (broker_poll E s pr handle)"
  unfolding broker_poll_def by (intro ensures_if ensures_return TrueI memory_lock steps_pollCredentialLocked)

text \<open>A start ends with the entry of its handle, which no other request draws.\<close>

definition leads :: "('s \<Rightarrow> bool) \<Rightarrow> ('s, 'a) state \<Rightarrow> ('s \<Rightarrow> bool) \<Rightarrow> bool" where
  "leads P m Q \<longleftrightarrow> (\<forall>s. P s \<longrightarrow> Q (snd (run_state m s)))"

lemma leads_bind: "ensures P m R \<Longrightarrow> (\<And>x. R x \<Longrightarrow> leads P (f x) Q) \<Longrightarrow> leads P (State_Monad.bind m f) Q"
  by (auto simp: leads_def ensures_def split: prod.splits)

lemma leads_return: "(\<And>s. P s \<Longrightarrow> Q s) \<Longrightarrow> leads P (State_Monad.return x) Q"
  by (simp add: leads_def)

lemma leads_cases:
  "(b \<Longrightarrow> leads P m Q) \<Longrightarrow> (\<not> b \<Longrightarrow> leads P n Q) \<Longrightarrow> leads P (if b then m else n) Q"
  "(r = None \<Longrightarrow> leads P m Q) \<Longrightarrow> (\<And>x. r = Some x \<Longrightarrow> leads P (f x) Q) \<Longrightarrow> leads P (case r of None \<Rightarrow> m | Some x \<Rightarrow> f x) Q"
  "(\<And>e. q = Inl e \<Longrightarrow> leads P (g e) Q) \<Longrightarrow> (\<And>x. q = Inr x \<Longrightarrow> leads P (h x) Q) \<Longrightarrow> leads P (case q of Inl e \<Rightarrow> g e | Inr x \<Rightarrow> h x) Q"
  by (auto split: option.splits sum.splits)

lemma leads_locked: "(\<And>w. P w \<Longrightarrow> Q (w\<lparr>bwMemory := snd (f (bwMemory w))\<rparr>)) \<Longrightarrow> leads P (State_Monad.bind (broker_locked f) (\<lambda>x. State_Monad.return (g x))) Q"
  by (simp add: leads_def broker_locked_def split_def Let_def)

lemma random_draws: "ensures (\<lambda>w. Q (bwMemory w)) (file_ask (beRandom E 32)) (\<lambda>raw. b64_encode raw \<in> draws E)"
  by (rule ensuresI) (simp add: file_ask_def http_tick_def draws_def)

lemma steps_enter:
  assumes "(mem_step H)\<^sup>*\<^sup>* m0 m" and "broker_ok H m0" and "handle \<in> D" and "D \<inter> H = {}"
  shows "(mem_step (H \<union> D))\<^sup>*\<^sup>* m0 (snd (enter_link handle pr a now m))"
proof -
  have "fst ` set (bmEntries m) \<subseteq> H" using mem_steps_ok [OF assms(1, 2)] broker_okD(3) by blast
  with assms(3, 4) have "alookup (bmEntries m) handle = None" by (auto simp: map_of_eq_None_iff)
  with assms(3) have "mem_step (H \<union> D) m (snd (enter_link handle pr a now m))"
    using mem_step.performs [of "H \<union> D" "EnterLink handle pr a now" m] by simp
  with mem_steps_mono [OF assms(1), of "H \<union> D"] show ?thesis by (simp add: rtranclp.rtrancl_into_rtrancl)
qed

lemma steps_start:
  assumes "interferes H E" and "broker_ok H m0" and "draws E \<inter> H = {}"
  shows "leads (\<lambda>w. (mem_step H)\<^sup>*\<^sup>* m0 (bwMemory w)) (broker_start E s pr providerName) (\<lambda>w. (mem_step (H \<union> draws E))\<^sup>*\<^sup>* m0 (bwMemory w))"
proof -
  have weaker: "(mem_step H)\<^sup>*\<^sup>* m0 m \<Longrightarrow> (mem_step (H \<union> draws E))\<^sup>*\<^sup>* m0 m" for m by (erule mem_steps_mono) simp
  have admits: "keeps (\<lambda>w. (mem_step H)\<^sup>*\<^sup>* m0 (bwMemory w)) (broker_locked (admit_start now pr))" for now
    by (rule steps_locked) (simp add: section_steps)
  show ?thesis
    unfolding broker_start_def Let_def
    by (intro leads_cases leads_return leads_bind [OF memory_clock] leads_bind [OF admits] leads_bind [OF authorizer.start_frame [OF frame_memory]]
        leads_bind [OF random_draws] leads_bind [OF steps_others [OF assms(1)]] leads_locked)
      (simp_all add: weaker steps_enter assms(2, 3))
qed

lemma broker_op_steps:
  assumes "broker_op E s w w'" and "interferes H E" and "broker_ok H (bwMemory w)" and "draws E \<inter> H = {}"
  shows "(mem_step (H \<union> draws E))\<^sup>*\<^sup>* (bwMemory w) (bwMemory w')"
  using assms(1)
proof cases
  case (1 pr)
  then show ?thesis using keepsD [OF memory_status [of "\<lambda>m. m = bwMemory w"]] by simp
next
  case (2 pr name)
  then show ?thesis using steps_start [OF assms(2, 3, 4)] by (simp add: leads_def)
next
  case (3 pr handle)
  have "(mem_step H)\<^sup>*\<^sup>* (bwMemory w) (bwMemory w')" unfolding 3 by (rule keepsD [OF steps_poll [OF assms(2)]]) simp
  then show ?thesis by (rule mem_steps_mono) simp
next
  case (4 pr)
  then show ?thesis using keepsD [OF memory_Credential [of "\<lambda>m. m = bwMemory w"]] by simp
next
  case (5 pr)
  then show ?thesis using keepsD [OF memory_delete [of "\<lambda>m. m = bwMemory w"]] by simp
next
  case 6
  then show ?thesis by (simp add: section_steps r_into_rtranclp)
qed

lemma broker_ok_mono: "broker_ok H m \<Longrightarrow> H \<subseteq> H' \<Longrightarrow> broker_ok H' m"
  by (auto simp: broker_ok_def)

text \<open>
  C8: a broker request that runs while others go through their locked sections in any order takes the memory only
  through such sections itself, and so in turn is a request the others may run beside. It keeps at most 256 pending authorizations
  under distinct handles, and a device code is held only by an authorization that is pending; \<^verbatim>\<open>Close\<close> leaves none.
  The hypothesis is that handles, drawn at random from 32 bytes, do not repeat.
\<close>

theorem broker_rely_guarantee:
  assumes "interferes H E" and "draws E \<inter> H = {}" and "broker_ok H (bwMemory w)" and "broker_op E s w w'"
  shows "(mem_step (H \<union> draws E))\<^sup>*\<^sup>* (bwMemory w) (bwMemory w')
    \<and> length (bmEntries (bwMemory w')) \<le> 256 \<and> distinct (map fst (bmEntries (bwMemory w')))
    \<and> (\<forall>p a. alookup (bmAuthorizations (bwMemory w')) p = Some a \<longrightarrow> daDeviceCode a = []
        \<or> (\<exists>handle entry. alookup (bmEntries (bwMemory w')) handle = Some entry \<and> leAuthorization entry = p))
    \<and> broker_ok (H \<union> draws E) (bwMemory w')
    \<and> (\<forall>p a. alookup (bmAuthorizations (Close (bwMemory w'))) p = Some a \<longrightarrow> daDeviceCode a = [])"
proof -
  note steps = broker_op_steps [OF assms(4, 1, 3, 2)]
  have ok: "broker_ok (H \<union> draws E) (bwMemory w')"
    using mem_steps_ok [OF steps] broker_ok_mono [OF assms(3)] by blast
  then have "daDeviceCode a = [] \<or> (\<exists>handle entry. alookup (bmEntries (bwMemory w')) handle = Some entry \<and> leAuthorization entry = p)"
    if "alookup (bmAuthorizations (bwMemory w')) p = Some a" for p a
    using that broker_okD(5) [OF ok that] by (auto simp: pending_def ran_def)
  with steps ok broker_okD(1, 2) [OF ok] Close_empties [OF ok] show ?thesis by (simp add: maxLinkBrokerEntries_def)
qed

end
