(* ===== verification/BrokerSafety.thy ===== *)
theory BrokerSafety
  imports BrokerMem
begin

text \<open>
  What the broker's requests answer and store: links are bound to the principal that started their authorization, a
  credential handed out is the one on disk, starts are rate limited, and processes agree on the key of the box.
\<close>

section \<open>Stored links\<close>

text \<open>What is relied on of \<^verbatim>\<open>secretbox\<close> and \<^verbatim>\<open>crypto/rand\<close>: a box opens under its key and nonce, and reads fill the buffer.\<close>

definition box_law :: "broker_env \<Rightarrow> bool" where
  "box_law E \<longleftrightarrow> (\<forall>key nonce plaintext. length nonce = 24 \<longrightarrow> beUnbox E key nonce (beBox E key nonce plaintext) = Some plaintext)
     \<and> (\<forall>n t. length (beRandom E n t) = n)"

definition stored_link :: "broker_env \<Rightarrow> broker_service \<Rightarrow> Principal \<Rightarrow> broker_world \<Rightarrow> tunnelLink option" where
  "stored_link E s pr w =
     (case alookup (bwFiles w) (linkPath s pr) of
        None \<Rightarrow> None
      | Some data \<Rightarrow> (case Open E (bsBox s) data of Inr (Json link) \<Rightarrow> Some link | _ \<Rightarrow> None))"

definition files_but :: "string \<Rightarrow> broker_world \<Rightarrow> broker_world \<Rightarrow> bool" where
  "files_but path w w' \<longleftrightarrow> (\<forall>p. p \<noteq> path \<longrightarrow> alookup (bwFiles w') p = alookup (bwFiles w) p)"

lemma bind_run:
  assumes "run_state (State_Monad.bind m f) w = (r, w')"
  obtains x w1 where "run_state m w = (x, w1)" and "run_state (f x) w1 = (r, w')"
  using assms by (auto split: prod.splits)

lemma Open_Seal: "box_law E \<Longrightarrow> length nonce = 24 \<Longrightarrow> Open E key (Seal E key nonce x) = Inr x"
  by (simp add: Open_def Seal_def box_law_def)

lemma attempt_run:
  assumes "run_state (attempt E m) w = (None, w')"
  shows "run_state m (w\<lparr>iwTick := Suc (iwTick w)\<rparr>) = (None, w')"
  using assms by (auto simp: attempt_def file_ask_def http_tick_def split: option.splits)

lemma saveLink_run:
  assumes "box_law E" and "run_state (saveLink E s pr link) w = (None, w')"
  shows "stored_link E s pr w' = Some link \<and> files_but (linkPath s pr) w w' \<and> bwMemory w' = bwMemory w \<and> iwLog w' = iwLog w"
proof -
  from assms(2) obtain d w1 where d: "run_state (link_EnsurePrivateDir E (link_dir s pr)) w = (d, w1)"
      and rest: "run_state (case d of Some e \<Rightarrow> State_Monad.return (Some e)
        | None \<Rightarrow> do { nonce \<leftarrow> random_bytes E 24; link_ReplaceFile E (linkPath s pr) (Seal E (bsBox s) nonce (Json link)) }) w1 = (None, w')"
    unfolding saveLink_def by (rule bind_run)
  from rest have "d = None" by (cases d) auto
  with d have w1: "bwFiles w1 = bwFiles w" "bwMemory w1 = bwMemory w" "iwLog w1 = iwLog w"
    unfolding link_EnsurePrivateDir_def by (auto dest!: attempt_run)
  define nonce where "nonce = map char_of (beRandom E 24 (iwTick w1))"
  have len: "length nonce = 24" using assms(1) by (simp add: nonce_def box_law_def)
  from rest \<open>d = None\<close> have "run_state (link_ReplaceFile E (linkPath s pr) (Seal E (bsBox s) nonce (Json link))) (w1\<lparr>iwTick := Suc (iwTick w1)\<rparr>) = (None, w')"
    by (simp add: random_bytes_def file_ask_def http_tick_def nonce_def)
  then have "bwFiles w' = aput (linkPath s pr) (Seal E (bsBox s) nonce (Json link)) (bwFiles w1) \<and> bwMemory w' = bwMemory w1 \<and> iwLog w' = iwLog w1"
    unfolding link_ReplaceFile_def by (auto simp: link_SyncDir_def file_ask_def http_tick_def dest!: attempt_run)
  with w1 Open_Seal [OF assms(1) len] show ?thesis by (simp add: stored_link_def files_but_def)
qed

lemma loadLink_frame: "run_state (loadLink E s pr) w = (r, w') \<Longrightarrow> bwFiles w' = bwFiles w \<and> bwMemory w' = bwMemory w \<and> iwLog w' = iwLog w"
  by (auto simp: loadLink_def link_PrivateDir_def link_ReadPrivateFile_def attempt_def file_ask_def http_tick_def split: option.splits if_splits)

lemma loadLink_stored: "run_state (loadLink E s pr) w = (Inr (Some link), w') \<Longrightarrow> stored_link E s pr w = Some link"
  by (auto simp: loadLink_def link_PrivateDir_def link_ReadPrivateFile_def attempt_def file_ask_def http_tick_def stored_link_def
      split: option.splits if_splits sum.splits payload.splits)

lemma frame_files: "http_frame (\<lambda>w. bwFiles w = F \<and> bwMemory w = M)"
  by (simp add: http_frame_def)

lemma postForm_logs:
  assumes "run_state (postForm E provider endpoint form) w = (Inr body, w')" and "form = aput k v form'" and "k \<noteq> ''client_id''" and "k \<noteq> ''scope''"
  shows "\<exists>call answer. iwLog w' = iwLog w @ [(call, answer)] \<and> hcURL call = endpoint \<and> alookup (hcForm call) k = Some v"
  using assms by (auto simp: postForm_def Let_def split: prod.splits sum.splits if_splits dest!: PostForm_logs)

definition refreshes_with :: "broker_service \<Rightarrow> tunnelLink \<Rightarrow> http_call \<Rightarrow> bool" where
  "refreshes_with s link call \<longleftrightarrow> (\<exists>provider. alookup (bsAuthorizer s) (tlProvider link) = Some provider
     \<and> hcURL call = apTokenEndpoint provider \<and> alookup (hcForm call) ''refresh_token'' = Some (tlRefreshToken link))"

lemma Refresh_logs:
  assumes "run_state (Refresh E (bsAuthorizer s) (tlProvider link) (tlRefreshToken link)) w = (Inr tokens, w')"
  shows "\<exists>call answer. iwLog w' = iwLog w @ [(call, answer)] \<and> refreshes_with s link call"
proof -
  from assms obtain provider body where provider: "alookup (bsAuthorizer s) (tlProvider link) = Some provider"
      and post: "run_state (postForm E provider (apTokenEndpoint provider) [(''grant_type'', ''refresh_token''), (''refresh_token'', tlRefreshToken link)]) w = (Inr body, w')"
    by (auto simp: Refresh_def split: option.splits if_splits prod.splits sum.splits)
  from postForm_logs [OF post, of "''refresh_token''" "tlRefreshToken link" "[(''grant_type'', ''refresh_token'')]"] provider show ?thesis
    by (auto simp: refreshes_with_def)
qed

section \<open>Credentials\<close>

definition link_credential :: "tunnelLink \<Rightarrow> Credential" where
  "link_credential link = \<lparr>credScheme = tlScheme link, credToken = tlAccessToken link\<rparr>"

text \<open>The link that a refresh leaves: the same account and provider, with new tokens.\<close>

definition renewed :: "tunnelLink \<Rightarrow> tunnelLink \<Rightarrow> bool" where
  "renewed old link \<longleftrightarrow> tlProvider link = tlProvider old \<and> tlScheme link = tlScheme old \<and> tlAccount link = tlAccount old \<and> tlLinkedAt link = tlLinkedAt old
     \<and> ValidCredential (tlAccessToken link)"

lemma check_refresh_token: "check_refresh provider old body = Inr tokens \<Longrightarrow> ValidCredential (atAccessToken tokens)"
  by (auto simp: check_refresh_def split: option.splits if_splits)

lemma Refresh_token: "run_state (Refresh E a name token) w = (Inr tokens, w') \<Longrightarrow> ValidCredential (atAccessToken tokens)"
  by (auto simp: Refresh_def split: option.splits if_splits prod.splits sum.splits dest: check_refresh_token)

lemma lock_run:
  assumes "run_state (withCredentialLock E m) w = (Inr x, w')"
  shows "run_state m (w\<lparr>iwTick := Suc (iwTick w)\<rparr>) = (Inr x, w')"
  using assms by (auto simp: withCredentialLock_def file_ask_def http_tick_def split: option.splits)

lemma clock_run: "run_state (broker_clock E) w = (ieNow (beHttp E) (iwTick w), w\<lparr>iwTick := Suc (iwTick w)\<rparr>)"
  by (simp add: broker_clock_def clock_def http_tick_def)

lemma stored_link_frame: "bwFiles w' = bwFiles w \<Longrightarrow> stored_link E s pr w' = stored_link E s pr w"
  by (simp add: stored_link_def)

lemma Credential_refreshed:
  assumes "box_law E" and "run_state (Refresh (beHttp E) (bsAuthorizer s) (tlProvider old) (tlRefreshToken old)) w = (Inr tokens, w1)"
    and "run_state (saveLink E s pr link) (w1\<lparr>iwTick := Suc (iwTick w1)\<rparr>) = (None, w')"
    and "link = old\<lparr>tlAccessToken := atAccessToken tokens, tlRefreshToken := atRefreshToken tokens, tlExpiresAt := e\<rparr>"
  shows "stored_link E s pr w' = Some link \<and> files_but (linkPath s pr) w w' \<and> renewed old link
    \<and> (\<exists>call answer. iwLog w' = iwLog w @ [(call, answer)] \<and> refreshes_with s old call)"
proof -
  have "bwFiles w1 = bwFiles w"
    using ensuresD [OF authorizer.refresh_frame [OF frame_files [of "bwFiles w" "bwMemory w"]] _ assms(2)] by simp
  with saveLink_run [OF assms(1, 3)] Refresh_logs [OF assms(2)] Refresh_token [OF assms(2)] assms(4) show ?thesis
    by (auto simp: files_but_def renewed_def)
qed


section \<open>Polls\<close>

lemma admit_poll_admits:
  assumes "admit_poll now pr handle m = (Inr (p, remaining), m')"
  shows "m' = m \<and> (\<exists>entry. alookup (bmEntries m) handle = Some entry \<and> lePrincipal entry = pr \<and> leAuthorization entry = p)"
  using assms by (auto simp: admit_poll_def split: option.splits if_splits)

lemma admit_poll_foreign:
  assumes "\<forall>entry. alookup (bmEntries m) handle = Some entry \<longrightarrow> lePrincipal entry \<noteq> pr"
  shows "admit_poll now pr handle m = (Inl (APIError ''not_found'' ''authorization was not found'' 404), m)"
  using assms by (auto simp: admit_poll_def split: option.splits)

lemma Poll_tokens:
  "run_state (Poll E a) w = ((Inr (Completed tokens), left), w')
    \<Longrightarrow> daDeviceCode a \<noteq> [] \<and> atProvider tokens = apName (daProvider a) \<and> atScheme tokens = apScheme (daProvider a)"
  by (auto simp: Poll_def Let_def split: if_splits sum.splits prod.splits)

lemma locked_run: "run_state (broker_locked f) w = (fst (f (bwMemory w)), w\<lparr>bwMemory := snd (f (bwMemory w))\<rparr>)"
  by (simp add: broker_locked_def split_def Let_def)

lemma others_run: "run_state (others E) w = ((), w\<lparr>iwTick := Suc (iwTick w), bwMemory := beOthers E (iwTick w) (bwMemory w)\<rparr>)"
  by (simp add: others_def http_tick_def)

lemma poll_provider_run:
  assumes "run_state (poll_provider E p) w = (Inr (Completed tokens), w')" and "alookup (bmAuthorizations (bwMemory w)) p = Some b"
  shows "daDeviceCode b \<noteq> [] \<and> atProvider tokens = apName (daProvider b) \<and> atScheme tokens = apScheme (daProvider b) \<and> bwFiles w' = bwFiles w
    \<and> (\<exists>call answer calls. iwLog w' = iwLog w @ (call, answer) # calls \<and> polls_with b call)"
proof -
  obtain result left w1 where poll: "run_state (Poll (beHttp E) b) w = ((result, left), w1)" by (metis surj_pair)
  with assms have "result = Inr (Completed tokens)" "bwFiles w' = bwFiles w1" "iwLog w' = iwLog w1"
    by (auto simp: poll_provider_def others_run locked_run)
  moreover have "bwFiles w1 = bwFiles w"
    using ensuresD [OF authorizer.poll_frame [OF frame_files [of "bwFiles w" "bwMemory w"]] _ poll] by simp
  ultimately show ?thesis using Poll_tokens [of "beHttp E" b w tokens left w1] authorizer.poll_sends [of "beHttp E" b w tokens left w1] poll by auto
qed

lemma kept_device_code:
  "codes_kept m m' \<Longrightarrow> alookup (bmAuthorizations m) p = Some a \<Longrightarrow> alookup (bmAuthorizations m') p = Some b \<Longrightarrow> daDeviceCode b \<noteq> [] \<Longrightarrow> b = a"
  unfolding codes_kept_def by (metis Clear_Clear(2) option.inject)

text \<open>What a poll that links a principal has done: the authorization polled is the one the handle was entered for.\<close>

definition linked_by :: "broker_env \<Rightarrow> broker_service \<Rightarrow> Principal \<Rightarrow> string \<Rightarrow> broker_world \<Rightarrow> broker_world \<Rightarrow> TunnelLinkPoll \<Rightarrow> bool" where
  "linked_by E s pr handle w w' answered \<longleftrightarrow>
     (\<exists>entry a tokens now call answer calls.
        alookup (bmEntries (bwMemory w)) handle = Some entry \<and> lePrincipal entry = pr
      \<and> alookup (bmAuthorizations (bwMemory w)) (leAuthorization entry) = Some a
      \<and> iwLog w' = iwLog w @ (call, answer) # calls \<and> polls_with a call
      \<and> atProvider tokens = apName (daProvider a) \<and> atScheme tokens = apScheme (daProvider a)
      \<and> stored_link E s pr w' = Some (new_link tokens now) \<and> lpLink answered = link_status (new_link tokens now)
      \<and> files_but (linkPath s pr) w w' \<and> alookup (bmEntries (bwMemory w')) handle = None)"

lemma pollCredentialLocked_linked:
  assumes "interferes H E" and "broker_ok H (bwMemory w)" and "box_law E"
    and "run_state (pollCredentialLocked E s pr handle) w = (Inr answered, w')" and "lpStatus answered = ''linked''"
  shows "linked_by E s pr handle w w' answered"
proof -
  let ?now = "ieNow (beHttp E) (iwTick w)" and ?w = "w\<lparr>iwTick := Suc (iwTick w)\<rparr>"
  obtain admitted m1 where admit: "admit_poll ?now pr handle (bwMemory w) = (admitted, m1)" by fastforce
  with assms(4) obtain p remaining where pr: "admitted = Inr (p, remaining)"
    by (cases admitted) (auto simp: pollCredentialLocked_def clock_run locked_run)
  from admit_poll_admits [OF admit [unfolded pr]] obtain entry where m1: "m1 = bwMemory w"
      and entry: "alookup (bmEntries (bwMemory w)) handle = Some entry" "lePrincipal entry = pr" "leAuthorization entry = p" by blast
  let ?m2 = "beOthers E (Suc (iwTick w)) (bwMemory w)"
  let ?w2 = "w\<lparr>iwTick := Suc (Suc (iwTick w)), bwMemory := ?m2\<rparr>"
  have kept: "codes_kept (bwMemory w) ?m2" using assms(1, 2) mem_steps_ok [of H "bwMemory w" ?m2] by (simp add: interferes_def)
  obtain result w3 where poll: "run_state (poll_provider E p) ?w2 = (result, w3)" by fastforce
  obtain tokens where tokens: "result = Inr (Completed tokens)"
    using assms(4, 5) admit pr m1 poll
    by (auto simp: pollCredentialLocked_def clock_run locked_run others_run split: sum.splits PollResult.splits prod.splits)
  obtain a where a: "alookup (bmAuthorizations (bwMemory w)) p = Some a" using broker_okD(4) [OF assms(2), of p] entry by (auto simp: pending_def intro: ranI)
  with kept obtain b where b: "alookup (bmAuthorizations ?m2) p = Some b" by (auto simp: codes_kept_def)
  note polled = poll_provider_run [OF poll [unfolded tokens], of b]
  have "b = a" using kept_device_code [OF kept a b] polled b by simp
  let ?w4 = "w3\<lparr>bwMemory := deleteLocked handle (bwMemory w3)\<rparr>"
  let ?link = "new_link tokens (ieNow (beHttp E) (iwTick w3))"
  have finish: "snd (finishPoll 0 handle True 0 m) = deleteLocked handle m" for m
    by (simp add: finishPoll_def deleteLocked_def split: option.splits)
  obtain saved w5 where save: "run_state (saveLink E s pr ?link) (?w4\<lparr>iwTick := Suc (iwTick w3)\<rparr>) = (saved, w5)" by fastforce
  with assms(4) admit pr m1 poll tokens have finished: "saved = None" "w5 = w'" "lpLink answered = link_status ?link"
    by (auto simp: pollCredentialLocked_def clock_run locked_run others_run finish Let_def split: option.splits)
  from polled b \<open>b = a\<close> obtain call answer calls where call: "iwLog w3 = iwLog w @ (call, answer) # calls" "polls_with a call"
      and tokens_of: "atProvider tokens = apName (daProvider a)" "atScheme tokens = apScheme (daProvider a)" and files: "bwFiles w3 = bwFiles w" by auto
  from saveLink_run [OF assms(3) save [unfolded finished]]
  have "stored_link E s pr w' = Some ?link" "files_but (linkPath s pr) w w'" "alookup (bmEntries (bwMemory w')) handle = None" "iwLog w' = iwLog w3"
    by (simp_all add: files_but_def files deleteLocked_entries)
  with call tokens_of finished(3) entry a show ?thesis
    unfolding linked_by_def by (intro exI [of _ entry] exI [of _ a] exI [of _ tokens] exI [of _ "ieNow (beHttp E) (iwTick w3)"] exI [of _ call] exI [of _ answer] exI [of _ calls]) simp
qed


section \<open>The rate of starts\<close>

fun admitted_start :: "broker_section \<Rightarrow> broker_memory \<Rightarrow> (Principal \<times> time) list" where
  "admitted_start (AdmitStart now pr) m = (if fst (admit_start now pr m) = None then [(pr, now)] else [])"
| "admitted_start _ m = []"

fun starts :: "broker_section list \<Rightarrow> broker_memory \<Rightarrow> (Principal \<times> time) list" where
  "starts [] m = []"
| "starts (sec # secs) m = admitted_start sec m @ starts secs (perform sec m)"

fun start_time :: "broker_section \<Rightarrow> time option" where
  "start_time (AdmitStart now pr) = Some now"
| "start_time _ = None"

text \<open>A principal's last start is remembered until the next one is due.\<close>

definition remembers :: "broker_memory \<Rightarrow> time \<Rightarrow> Principal \<times> time \<Rightarrow> bool" where
  "remembers m now = (\<lambda>(pr, t). t + linkStartInterval \<le> now \<or> (\<exists>next. alookup (bmNextStart m) pr = Some next \<and> t + linkStartInterval \<le> next))"

definition spaced_starts :: "Principal \<times> time \<Rightarrow> Principal \<times> time \<Rightarrow> bool" where
  "spaced_starts x y \<longleftrightarrow> fst x = fst y \<longrightarrow> snd x + linkStartInterval \<le> snd y"

lemma alookup_filter: "distinct (map fst xs) \<Longrightarrow> alookup (filter (\<lambda>(_, v). P v) xs) k = (case alookup xs k of Some v \<Rightarrow> if P v then Some v else None | None \<Rightarrow> None)"
  by (induction xs) (force simp: map_of_eq_None_iff split: option.splits)+

lemma admit_start_nextStart:
  assumes "distinct (map fst (bmNextStart m))"
  shows "distinct (map fst (bmNextStart (snd (admit_start now pr m))))
    \<and> (fst (admit_start now pr m) = None \<longrightarrow> (\<forall>next. alookup (bmNextStart m) pr = Some next \<longrightarrow> next \<le> now)
        \<and> alookup (bmNextStart (snd (admit_start now pr m))) pr = Some (now + linkStartInterval))
    \<and> (\<forall>q. q \<noteq> pr \<or> fst (admit_start now pr m) \<noteq> None \<longrightarrow>
         alookup (bmNextStart (snd (admit_start now pr m))) q = (case alookup (bmNextStart m) q of Some v \<Rightarrow> if now < v then Some v else None | None \<Rightarrow> None))"
  using assms alookup_filter [OF assms, of "\<lambda>v. now < v"] distinct_map_filter [of fst "bmNextStart m"]
  by (auto simp: admit_start_def Let_def cleanupLocked_nextStart simp del: map_of_eq_Some_iff Some_eq_map_of_iff split: option.splits if_splits)

lemma perform_nextStart: "start_time sec = None \<Longrightarrow> sec \<noteq> CloseBroker \<Longrightarrow> bmNextStart (perform sec m) = bmNextStart m"
  by (cases sec) (auto simp: enter_link_def admit_poll_def finishPoll_def Let_def split: option.splits if_splits)

text \<open>One section keeps a start in memory, and admits none of the same principal too early.\<close>

lemma perform_remembers:
  assumes "distinct (map fst (bmNextStart m))" and "remembers m now x" and "sec \<noteq> CloseBroker" and "\<And>t. start_time sec = Some t \<Longrightarrow> now \<le> t"
  shows "remembers (perform sec m) (case start_time sec of None \<Rightarrow> now | Some t \<Rightarrow> t) x \<and> list_all (spaced_starts x) (admitted_start sec m)"
proof (cases "start_time sec")
  case None
  moreover from None have "admitted_start sec m = []" by (cases sec) auto
  ultimately show ?thesis using assms(2) perform_nextStart [OF None assms(3), of m] by (simp add: remembers_def)
next
  case (Some t)
  then obtain pr where sec: "sec = AdmitStart t pr" by (cases sec) auto
  with assms(2, 4) admit_start_nextStart [OF assms(1), of t pr] Some show ?thesis
    by (cases x; cases "fst x = pr"; cases "fst (admit_start t pr m) = None")
      (auto simp: remembers_def spaced_starts_def simp del: map_of_eq_Some_iff Some_eq_map_of_iff split: option.splits if_splits)
qed

lemma perform_distinct: "distinct (map fst (bmNextStart m)) \<Longrightarrow> distinct (map fst (bmNextStart (perform sec m)))"
  using admit_start_nextStart perform_nextStart [of sec m] by (cases sec) (auto simp: Close_def)

lemma starts_after:
  assumes "distinct (map fst (bmNextStart m))" and "remembers m now x" and "CloseBroker \<notin> set secs"
    and "sorted (now # List.map_filter start_time secs)"
  shows "list_all (spaced_starts x) (starts secs m)"
  using assms
proof (induction secs arbitrary: m now)
  case (Cons sec secs)
  have step: "remembers (perform sec m) (case start_time sec of None \<Rightarrow> now | Some t \<Rightarrow> t) x \<and> list_all (spaced_starts x) (admitted_start sec m)"
    using Cons.prems by (intro perform_remembers) (auto simp: List.map_filter_simps)
  moreover have "sorted ((case start_time sec of None \<Rightarrow> now | Some t \<Rightarrow> t) # List.map_filter start_time secs)"
    using Cons.prems(4) by (auto simp: List.map_filter_simps split: option.splits)
  ultimately show ?case using Cons.IH [OF perform_distinct [OF Cons.prems(1)], of sec] Cons.prems(3) by (auto simp del: sorted_wrt.simps)
qed simp

lemma starts_spaced:
  assumes "distinct (map fst (bmNextStart m))" and "CloseBroker \<notin> set secs" and "sorted (List.map_filter start_time secs)"
  shows "sorted_wrt spaced_starts (starts secs m)"
  using assms
proof (induction secs arbitrary: m)
  case (Cons sec secs)
  note dist = perform_distinct [OF Cons.prems(1), of sec]
  have rest: "sorted_wrt spaced_starts (starts secs (perform sec m))"
    using Cons.IH [OF dist] Cons.prems by (auto simp: List.map_filter_simps split: option.splits)
  show ?case
  proof (cases "admitted_start sec m")
    case (Cons x xs)
    then obtain now pr where x: "sec = AdmitStart now pr" "x = (pr, now)" "xs = []" "fst (admit_start now pr m) = None"
      by (cases sec) (auto split: if_splits)
    then have "remembers (perform sec m) now x" using admit_start_nextStart [OF Cons.prems(1), of now pr] by (auto simp: remembers_def)
    then show ?thesis using starts_after [OF dist, of now x secs] Cons.prems Cons rest x by (auto simp: List.map_filter_simps list_all_iff)
  qed (use rest in simp)
qed simp


section \<open>The key of the box\<close>

definition temporary :: "broker_env \<Rightarrow> string \<Rightarrow> nat \<Rightarrow> string" where
  "temporary E dir t = path_join [dir, ''.secretbox-'' @ beTemp E t]"

lemma read_key_run: "run_state (read_key E path) w = (Inr key, w') \<Longrightarrow> alookup (bwFiles w') path = Some key \<and> length key = 32 \<and> bwFiles w' = bwFiles w"
  by (auto simp: read_key_def link_ReadPrivateFile_def file_ask_def http_tick_def split: option.splits if_splits)

lemma read_key_frame: "run_state (read_key E path) w = (r, w') \<Longrightarrow> bwFiles w' = bwFiles w"
  by (auto simp: read_key_def link_ReadPrivateFile_def file_ask_def http_tick_def split: option.splits if_splits)

lemma Remove_frame: "run_state (file_Remove E name) w = (r, w') \<Longrightarrow> path \<noteq> name \<Longrightarrow> alookup (bwFiles w') path = alookup (bwFiles w) path"
  by (auto simp: file_Remove_def attempt_def file_ask_def http_tick_def split: option.splits if_splits)

lemma Sync_frame: "run_state (link_SyncDir E) w = (r, w') \<Longrightarrow> bwFiles w' = bwFiles w"
  by (auto simp: link_SyncDir_def file_ask_def http_tick_def)

lemma writeTemp_run:
  assumes "run_state (writeTemp E dir ''.secretbox-'' candidate) w = (Inr name, w')" and "\<And>t. temporary E dir t \<noteq> path"
  shows "name \<noteq> path \<and> alookup (bwFiles w') name = Some candidate \<and> alookup (bwFiles w') path = alookup (bwFiles w) path"
  using assms(1) assms(2) [of "iwTick w"] by (auto simp: writeTemp_def attempt_def file_ask_def http_tick_def temporary_def split: option.splits)

lemma rivals_run:
  assumes "run_state (rivals E path) w = (u, w')"
  shows "(\<forall>p. p \<noteq> path \<longrightarrow> alookup (bwFiles w') p = alookup (bwFiles w) p) \<and> (\<forall>k. alookup (bwFiles w) path = Some k \<longrightarrow> alookup (bwFiles w') path = Some k)"
  using assms by (auto simp: rivals_def file_ask_def http_tick_def split: option.splits)

lemma Link_run:
  assumes "run_state (file_Link E name path) w = (Inr installed, w')" and "alookup (bwFiles w) name = Some data"
  shows "(installed \<longrightarrow> alookup (bwFiles w) path = None \<and> alookup (bwFiles w') path = Some data) \<and> (\<not> installed \<longrightarrow> bwFiles w' = bwFiles w)"
  using assms by (auto simp: file_Link_def file_ask_def http_tick_def split: option.splits)

lemma install_key_run:
  assumes "run_state (install_key E path candidate name) w = (Inr key, w')" and "name \<noteq> path" and "alookup (bwFiles w) name = Some candidate"
    and "length candidate = 32"
  shows "alookup (bwFiles w') path = Some key \<and> length key = 32 \<and> (\<forall>k. alookup (bwFiles w) path = Some k \<longrightarrow> k = key)"
proof -
  obtain w1 where rival: "run_state (rivals E path) w = ((), w1)" by (metis old.unit.exhaust surj_pair)
  obtain linked w2 where link: "run_state (file_Link E name path) w1 = (linked, w2)" by fastforce
  obtain installed where inst: "linked = Inr installed" using assms(1) rival link by (cases linked) (auto simp: install_key_def)
  obtain removed w3 where remove: "run_state (file_Remove E name) w2 = (removed, w3)" by fastforce
  obtain synced w4 where sync: "run_state (link_SyncDir E) w3 = (synced, w4)" by fastforce
  have rest: "run_state (if installed then State_Monad.return (Inr candidate) else read_key E path) w4 = (Inr key, w')"
    using assms(1) rival link inst remove sync by (auto simp: install_key_def split: option.splits)
  note one = rivals_run [OF rival]
  have two: "alookup (bwFiles w4) path = alookup (bwFiles w2) path"
    using Sync_frame [OF sync] Remove_frame [OF remove] assms(2) by auto
  have three: "(installed \<longrightarrow> alookup (bwFiles w1) path = None \<and> alookup (bwFiles w2) path = Some candidate) \<and> (\<not> installed \<longrightarrow> bwFiles w2 = bwFiles w1)"
    using Link_run [OF link [unfolded inst], of candidate] one assms(2, 3) by simp
  show ?thesis
  proof (cases installed)
    case True
    with rest one two three assms(4) show ?thesis by auto
  next
    case False
    with rest have read: "run_state (read_key E path) w4 = (Inr key, w')" by simp
    from read_key_run [OF read] one two three False show ?thesis by auto
  qed
qed

text \<open>
  C27: when a process has loaded or created the key of the secret box, the key file holds that key, and a key that
  was there before is the one returned, so processes that race to create it end with the same one. The hypotheses are
  that random reads fill their buffer and that the temporary file is not the key file.
\<close>

theorem secret_box_agreed:
  assumes "box_law E" and "\<And>t. temporary E dir t \<noteq> path_join [dir, file]" and "run_state (LoadOrCreateSecretBox E dir file) w = (Inr key, w')"
  shows "alookup (bwFiles w') (path_join [dir, file]) = Some key \<and> length key = 32
    \<and> (\<forall>k. alookup (bwFiles w) (path_join [dir, file]) = Some k \<longrightarrow> k = key)"
proof -
  let ?path = "path_join [dir, file]"
  obtain w1 where rival: "run_state (rivals E ?path) w = ((), w1)" by (metis old.unit.exhaust surj_pair)
  note one = rivals_run [OF rival]
  obtain found w2 where read: "run_state (read_key E ?path) w1 = (found, w2)" by fastforce
  show ?thesis
  proof (cases found)
    case (Inr k)
    with assms(3) rival read have "k = key" "w' = w2" by (auto simp: LoadOrCreateSecretBox_def Let_def)
    with read_key_run [OF read [unfolded Inr]] one show ?thesis by auto
  next
    case (Inl e)
    obtain checked w3 where priv: "run_state (link_PrivateDir E dir) w2 = (checked, w3)" by fastforce
    obtain candidate w4 where random: "run_state (random_bytes E 32) w3 = (candidate, w4)" by fastforce
    obtain written w5 where temp: "run_state (writeTemp E dir ''.secretbox-'' candidate) w4 = (written, w5)" by fastforce
    obtain name result w6 w7 r where name: "written = Inr name" and install: "run_state (install_key E ?path candidate name) w5 = (result, w6)"
        and remove: "run_state (file_Remove E name) w6 = (r, w7)" and final: "result = Inr key" "w7 = w'"
      using assms(3) rival read Inl priv random temp
      by (auto simp: LoadOrCreateSecretBox_def Let_def split: if_splits option.splits sum.splits prod.splits)
    have same: "bwFiles w4 = bwFiles w1" "length candidate = 32"
      using read_key_frame [OF read] priv random assms(1)
      by (auto simp: link_PrivateDir_def attempt_def random_bytes_def file_ask_def http_tick_def box_law_def split: option.splits)
    from writeTemp_run [OF temp [unfolded name] assms(2)] install_key_run [OF install [unfolded final]] same
    have "alookup (bwFiles w6) ?path = Some key \<and> length key = 32 \<and> (\<forall>k. alookup (bwFiles w1) ?path = Some k \<longrightarrow> k = key)" "name \<noteq> ?path" by auto
    with Remove_frame [OF remove, of ?path] final one show ?thesis by auto
  qed
qed

end
