(* ===== verification/BrokerSample.thy ===== *)
theory BrokerSample
  imports BrokerSafety
begin

text \<open>A service with a linked and a pending principal, over answers of the providers written out, on which the properties of the broker are applied.\<close>

section \<open>A sample environment\<close>

text \<open>A box whose contents can be read: each field is written with a mark before every character.\<close>

definition marked :: "string \<Rightarrow> string" where
  "marked s = concat (map (\<lambda>c. [CHR ''c'', c]) s) @ ''e''"

fun unmarked :: "string \<Rightarrow> string \<times> string" where
  "unmarked (k # c # s) = (if k = CHR ''c'' then apfst ((#) c) (unmarked s) else ([], c # s))"
| "unmarked (k # []) = ([], [])"
| "unmarked [] = ([], [])"

definition marked_int :: "int \<Rightarrow> string" where
  "marked_int i = marked ((if i < 0 then CHR ''-'' else CHR ''+'') # replicate (nat \<bar>i\<bar>) CHR ''1'')"

definition unmarked_int :: "string \<Rightarrow> int \<times> string" where
  "unmarked_int s = apfst (\<lambda>d. (if hd d = CHR ''-'' then - int (length (tl d)) else int (length (tl d)))) (unmarked s)"

lemma unmarked_marked [simp]: "unmarked (marked s @ rest) = (s, rest)"
proof (induction s)
  case Nil
  then show ?case by (cases rest) (simp_all add: marked_def)
qed (simp add: marked_def)

lemma unmarked_int_marked [simp]: "unmarked_int (marked_int i @ rest) = (i, rest)"
  by (simp add: unmarked_int_def marked_int_def)

definition sample_box :: "string \<Rightarrow> string \<Rightarrow> tunnelLink payload \<Rightarrow> string" where
  "sample_box key nonce plaintext =
     (case plaintext of
        Malformed s \<Rightarrow> CHR ''m'' # marked s
      | Json l \<Rightarrow> CHR ''j'' # marked (tlProvider l) @ marked (tlScheme l) @ marked (tlAccessToken l) @ marked (tlRefreshToken l)
          @ marked_int (tlExpiresAt l) @ marked (tlAccount l) @ marked_int (tlLinkedAt l))"

definition sample_unbox :: "string \<Rightarrow> string \<Rightarrow> string \<Rightarrow> tunnelLink payload option" where
  "sample_unbox key nonce boxed =
     (case boxed of
        [] \<Rightarrow> None
      | k # s \<Rightarrow>
          if k = CHR ''m'' then Some (Malformed (fst (unmarked s)))
          else
            (let (provider, s) = unmarked s; (scheme, s) = unmarked s; (access, s) = unmarked s; (refresh, s) = unmarked s;
                 (expires, s) = unmarked_int s; (account, s) = unmarked s; (linked, s) = unmarked_int s
             in Some (Json \<lparr>tlProvider = provider, tlScheme = scheme, tlAccessToken = access, tlRefreshToken = refresh,
                            tlExpiresAt = expires, tlAccount = account, tlLinkedAt = linked\<rparr>)))"

lemma sample_unbox_box: "sample_unbox key nonce (sample_box key nonce x) = Some x"
  using unmarked_marked [of _ "[]"] unmarked_int_marked [of _ "[]"]
  by (cases x) (simp_all add: sample_unbox_def sample_box_def)

definition token_body :: string where
  "token_body = [CHR ''{'', CHR 0x22] @ ''access_token'' @ [CHR 0x22, CHR '':'', CHR 0x22, CHR ''a'', CHR 0x22, CHR '','', CHR 0x22] @ ''expires_in''
     @ [CHR 0x22, CHR '':'', CHR ''6'', CHR ''0'', CHR ''}'']"

definition login_body :: string where
  "login_body = [CHR ''{'', CHR 0x22] @ ''login'' @ [CHR 0x22, CHR '':'', CHR 0x22, CHR ''u'', CHR 0x22, CHR ''}'']"

definition sample_http :: http_env where
  "sample_http = \<lparr>ieNow = (\<lambda>_. second), ieDo = (\<lambda>_ call. Inr (200, Inr (if hcMethod call = ''POST'' then token_body else login_body))),
     ieContext = (\<lambda>_. None), ieUserAgent = ''cs-plane''\<rparr>"

definition sample_broker_env :: broker_env where
  "sample_broker_env = \<lparr>beHttp = sample_http, beOthers = (\<lambda>_ m. m), beFault = (\<lambda>_. None), beSync = (\<lambda>_. None), beRandom = (\<lambda>n _. replicate n 0),
     beTemp = (\<lambda>_. ''1''), beRival = (\<lambda>_. None), beBox = sample_box, beUnbox = sample_unbox\<rparr>"

definition sample_service :: broker_service where
  "sample_service = fst (newService ''/s'' ''/p'' (replicate 32 CHR 0x00) NewAuthorizer)"

lemma sample_laws: "box_law sample_broker_env" "interferes H sample_broker_env" "draws sample_broker_env = {b64_encode (replicate 32 0)}"
  by (auto simp: box_law_def interferes_def draws_def sample_broker_env_def sample_unbox_box)

definition github :: authorizationProvider where
  "github = the (alookup NewAuthorizer ''github'')"

definition microsoft :: authorizationProvider where
  "microsoft = the (alookup NewAuthorizer ''microsoft'')"

lemma sample_answers:
  "classify_poll github (token_body, 200) = Inr (Inr \<lparr>grAccessToken = ''a'', grRefreshToken = [], grIDToken = [], grExpiresIn = 60\<rparr>)"
  "check_refresh microsoft ''r'' token_body = Inr \<lparr>atProvider = ''microsoft'', atScheme = ''Bearer'', atAccessToken = ''a'', atRefreshToken = ''r'',
      atAccount = [], atExpiresIn = 60 * second\<rparr>"
  "decode_struct (string_field ''login'') login_body = Some ''u''"
  "ValidIdentityValue ''u''" "ValidCredential ''r''"
  by code_simp+

lemma sample_urls: "url_parse githubOAuthEndpoint \<noteq> None" "url_parse githubUserEndpoint \<noteq> None" "url_parse microsoftOAuthEndpoint \<noteq> None"
  by code_simp+

definition sample_link :: tunnelLink where
  "sample_link = \<lparr>tlProvider = ''microsoft'', tlScheme = ''Bearer'', tlAccessToken = ''o'', tlRefreshToken = ''r'', tlExpiresAt = 1, tlAccount = ''u'', tlLinkedAt = 0\<rparr>"

definition sample_principal :: Principal where
  "sample_principal = \<lparr>Subject = ''u'', Tenant = ''t''\<rparr>"

definition sample_authorization :: DeviceAuthorization where
  "sample_authorization = \<lparr>daUserCode = ''c'', daVerificationURI = ''https://github.com/login/device'', daExpiresIn = 60 * second, daInterval = second,
     daProvider = github, daDeviceCode = ''d''\<rparr>"

definition sample_handle :: string where
  "sample_handle = replicate 43 CHR ''h''"

definition sample_memory :: broker_memory where
  "sample_memory = snd (enter_link sample_handle sample_principal sample_authorization 0 (snd (newService [] [] [] [])))"

definition sample_broker :: broker_world where
  "sample_broker = \<lparr>iwTick = 0, iwLog = [], bwMemory = sample_memory, bwDirs = [link_dir sample_service sample_principal],
     bwFiles = [(linkPath sample_service sample_principal, Seal sample_broker_env (bsBox sample_service) (replicate 24 CHR 0x00) (Json sample_link))]\<rparr>"

lemma sample_Do:
  "fst (run_state (Do sample_http call maxAuthorizationResponse) w) = Inr (if hcMethod call = ''POST'' then token_body else login_body, 200)"
  by (auto simp: Do_def client_Do_def http_tick_def sample_http_def Let_def min_def maxAuthorizationResponse_def token_body_def login_body_def)

lemma sample_post: "url_parse url \<noteq> None \<Longrightarrow> fst (run_state (PostForm sample_http url form maxAuthorizationResponse) w) = Inr (token_body, 200)"
  by (auto simp: PostForm_def NewRequest_def Let_def sample_Do)

lemma fst_run: "fst (run_state m w) = x \<Longrightarrow> \<exists>w'. run_state m w = (x, w')"
  by (cases "run_state m w") simp

lemma sample_get:
  assumes "url_parse url \<noteq> None"
  shows "fst (run_state (GetJSON sample_http url bearer maxAuthorizationResponse (decode_struct (string_field ''login''))) w) = Inr ''u''"
proof -
  from assms obtain call where call: "NewRequest sample_http ''GET'' url bearer [] = Inr call" "hcMethod call = ''GET''"
    by (auto simp: NewRequest_def Let_def)
  then obtain w' where "run_state (Do sample_http call maxAuthorizationResponse) w = (Inr (login_body, 200), w')"
    using fst_run [OF sample_Do [of call w]] by auto
  with call(1) sample_answers(3) show ?thesis by (simp add: GetJSON_def)
qed

lemma provider_fields: "apName github = ''github''" "apTokenEndpoint github = githubOAuthEndpoint" "apUserEndpoint github = githubUserEndpoint"
  "apTokenEndpoint microsoft = microsoftOAuthEndpoint" "apName microsoft = ''microsoft''"
  by (simp_all add: github_def microsoft_def NewAuthorizer_def)

lemma sample_Poll: "\<exists>tokens left w'. run_state (Poll sample_http sample_authorization) w = ((Inr (Completed tokens), left), w')"
proof -
  obtain w1 where "run_state (PostForm sample_http githubOAuthEndpoint
      [(''grant_type'', deviceGrantType), (''client_id'', apClientID github), (''device_code'', ''d'')] maxAuthorizationResponse) w = (Inr (token_body, 200), w1)"
    using fst_run [OF sample_post [OF sample_urls(1)]] by blast
  moreover obtain w2 where "run_state (GetJSON sample_http githubUserEndpoint (microsoftScheme @ '' '' @ ''a'') maxAuthorizationResponse
      (decode_struct (string_field ''login''))) w1 = (Inr ''u'', w2)"
    using fst_run [OF sample_get [OF sample_urls(2)]] by blast
  ultimately show ?thesis using sample_answers(1, 4) by (simp add: Poll_def sample_authorization_def provider_fields find_account_def)
qed

lemma sample_saveLink: "fst (run_state (saveLink sample_broker_env s pr link) w) = None"
  by (simp add: saveLink_def link_EnsurePrivateDir_def link_ReplaceFile_def link_SyncDir_def attempt_def random_bytes_def file_ask_def http_tick_def sample_broker_env_def)

lemma sample_entry:
  "alookup (bmEntries sample_memory) sample_handle = Some \<lparr>lePrincipal = sample_principal, leAuthorization = 0, leExpiresAt = 60 * second, leInterval = second, leNextPoll = second\<rparr>"
  "alookup (bmAuthorizations sample_memory) 0 = Some sample_authorization"
  by (simp_all add: sample_memory_def enter_link_def newService_def maxLinkBrokerEntries_def sample_authorization_def)

lemma sample_memory_ok: "sample_handle \<in> H \<Longrightarrow> broker_ok H sample_memory"
  unfolding sample_memory_def
  by (intro enter_link_ok [THEN conjunct1]) (auto simp: broker_ok_def newService_def pending_def)

lemma sample_linked: "\<exists>answered w'. run_state (broker_poll sample_broker_env sample_service sample_principal sample_handle) sample_broker = (Inr answered, w')
    \<and> lpStatus answered = ''linked''"
proof -
  let ?w = "sample_broker\<lparr>iwTick := Suc (Suc (Suc 0))\<rparr>"
  obtain tokens left w1 where poll: "run_state (Poll sample_http sample_authorization) ?w = ((Inr (Completed tokens), left), w1)"
    using sample_Poll by blast
  have provider: "\<exists>w2. run_state (poll_provider sample_broker_env 0) ?w = (Inr (Completed tokens), w2)"
    using poll sample_entry(2) by (simp add: poll_provider_def sample_broker_def sample_broker_env_def others_run locked_run)
  then obtain w2 where w2: "run_state (poll_provider sample_broker_env 0) ?w = (Inr (Completed tokens), w2)" by blast
  have admit: "admit_poll second sample_principal sample_handle sample_memory = (Inr (0, 59 * second), sample_memory)"
    using sample_entry(1) by (simp add: admit_poll_def time_sub_def second_def)
  have clock: "run_state (broker_clock sample_broker_env) w = (second, w\<lparr>iwTick := Suc (iwTick w)\<rparr>)" for w
    by (simp add: clock_run sample_broker_env_def sample_http_def)
  have pattern: "linkHandlePattern sample_handle" by code_simp
  have env: "beFault sample_broker_env t = None" "beOthers sample_broker_env t m = m" for t m by (simp_all add: sample_broker_env_def)
  let ?link = "new_link tokens second" and ?w3 = "w2\<lparr>bwMemory := snd (finishPoll 0 sample_handle True 0 (bwMemory w2)), iwTick := Suc (iwTick w2)\<rparr>"
  obtain w4 where "run_state (saveLink sample_broker_env sample_service sample_principal ?link) ?w3 = (None, w4)"
    using fst_run [OF sample_saveLink] by blast
  then show ?thesis
    using w2 by (simp add: broker_poll_def pattern withCredentialLock_def file_ask_def http_tick_def pollCredentialLocked_def clock locked_run others_run env
        admit sample_broker_def Let_def)
qed

text \<open>Applications of the broker's properties to the sample.\<close>

theorem broker_rely_guarantee_witness:
  "\<exists>w'. broker_op sample_broker_env sample_service sample_broker w' \<and> length (bmEntries (bwMemory w')) \<le> 256 \<and> broker_ok (insert sample_handle (draws sample_broker_env)) (bwMemory w')"
proof -
  have op: "broker_op sample_broker_env sample_service sample_broker (snd (run_state (broker_start sample_broker_env sample_service sample_principal ''github'') sample_broker))"
    by (rule broker_op.intros)
  have "b64_encode (replicate 32 0) \<noteq> sample_handle" by code_simp
  then have fresh: "draws sample_broker_env \<inter> {sample_handle} = {}" by (simp add: sample_laws(3))
  have "broker_ok {sample_handle} (bwMemory sample_broker)" by (simp add: sample_broker_def sample_memory_ok)
  from broker_rely_guarantee [OF sample_laws(2) fresh this op] op show ?thesis by (intro exI conjI) auto
qed



lemma sample_key_paths: "path_join [''/s'', ''tunnel-link.key''] = ''/s/tunnel-link.key''" "path_join [''/s'', ''.secretbox-1''] = ''/s/.secretbox-1''"
  by code_simp+

theorem secret_box_agreed_witness:
  "\<exists>key w'. run_state (LoadOrCreateSecretBox sample_broker_env ''/s'' tunnelLinkKeyFileName) (sample_broker\<lparr>bwDirs := [''/s''], bwFiles := []\<rparr>) = (Inr key, w')
     \<and> alookup (bwFiles w') ''/s/tunnel-link.key'' = Some key \<and> length key = 32"
proof -
  let ?w = "sample_broker\<lparr>bwDirs := [''/s''], bwFiles := []\<rparr>"
  have path: "path_join [''/s'', tunnelLinkKeyFileName] = ''/s/tunnel-link.key''" by (simp add: tunnelLinkKeyFileName_def sample_key_paths)
  have temp: "temporary sample_broker_env ''/s'' t = ''/s/.secretbox-1''" for t by (simp add: temporary_def sample_broker_env_def sample_key_paths)
  obtain w' where run: "run_state (LoadOrCreateSecretBox sample_broker_env ''/s'' tunnelLinkKeyFileName) ?w = (Inr (map char_of (replicate 32 (0 :: nat))), w')"
    by (simp add: LoadOrCreateSecretBox_def path rivals_def read_key_def link_ReadPrivateFile_def link_PrivateDir_def writeTemp_def random_bytes_def install_key_def
        file_Link_def file_Remove_def link_SyncDir_def attempt_def file_ask_def http_tick_def sample_broker_env_def sample_key_paths Let_def absent_def)
  from secret_box_agreed [OF sample_laws(1) _ run] temp path show ?thesis using run by (intro exI conjI) (auto simp: sample_key_paths)
qed

lemma sample_load: "\<exists>w'. run_state (loadLink sample_broker_env sample_service sample_principal) (sample_broker\<lparr>iwTick := t\<rparr>) = (Inr (Some sample_link), w')"
proof -
  let ?data = "Seal sample_broker_env (bsBox sample_service) (replicate 24 CHR 0x00) (Json sample_link)"
  have "length ?data \<le> maxStoredCredential"
    by (simp add: Seal_def sample_broker_env_def sample_box_def sample_link_def marked_def marked_int_def maxStoredCredential_def)
  moreover have "Open sample_broker_env (bsBox sample_service) ?data = Inr (Json sample_link)" by (rule Open_Seal [OF sample_laws(1)]) simp
  moreover have "beFault sample_broker_env t = None" for t by (simp add: sample_broker_env_def)
  ultimately show ?thesis
    by (simp add: loadLink_def link_PrivateDir_def link_ReadPrivateFile_def attempt_def file_ask_def http_tick_def sample_broker_def)
qed

lemma sample_Refresh:
  "\<exists>tokens w'. run_state (Refresh sample_http NewAuthorizer ''microsoft'' ''r'') w = (Inr tokens, w')"
proof -
  have provider: "alookup NewAuthorizer ''microsoft'' = Some microsoft" by (simp add: microsoft_def NewAuthorizer_def)
  have "fst (run_state (postForm sample_http microsoft microsoftOAuthEndpoint form) w) = Inr token_body" for form
    using sample_post [OF sample_urls(3), of "if apScope microsoft \<noteq> [] then aput ''scope'' (apScope microsoft) (aput ''client_id'' (apClientID microsoft) form)
      else aput ''client_id'' (apClientID microsoft) form" w] by (simp add: postForm_def Let_def split_def)
  from fst_run [OF this] obtain w' where "run_state (postForm sample_http microsoft microsoftOAuthEndpoint [(''grant_type'', ''refresh_token''), (''refresh_token'', ''r'')]) w = (Inr token_body, w')"
    by blast
  with provider sample_answers(2, 5) show ?thesis by (simp add: Refresh_def provider_fields)
qed


end
