(* ===== verification/TunnelClient.thy ===== *)
theory TunnelClient
  imports Http Devtunnel
begin

text \<open>
  The management client of \<^verbatim>\<open>internal/devtunnel/devtunnel.go\<close>: the URLs it asks, the answers it accepts, and where a
  redirect may carry a credential.
\<close>

section \<open>Time stamps\<close>

text \<open>
  \<^verbatim>\<open>Time.UnmarshalJSON\<close>: a time in the form of RFC 3339, in nanoseconds since the first of January of year 1, the zero time. A
  fraction is cut off at nanoseconds. The texts have no escapes.
\<close>

definition is_leap :: "int \<Rightarrow> bool" where
  "is_leap y \<longleftrightarrow> y mod 4 = 0 \<and> (y mod 100 \<noteq> 0 \<or> y mod 400 = 0)"

definition month_days :: "int \<Rightarrow> int list" where
  "month_days y = [31, if is_leap y then 29 else 28, 31, 30, 31, 30, 31, 31, 30, 31, 30, 31]"

definition civil_days :: "int \<Rightarrow> int \<Rightarrow> int \<Rightarrow> int" where
  "civil_days y m d = 365 * (y - 1) + (y - 1) div 4 - (y - 1) div 100 + (y - 1) div 400 + sum_list (take (nat (m - 1)) (month_days y)) + d - 1"

definition two_digits :: "nat \<Rightarrow> nat \<Rightarrow> string \<Rightarrow> int option" where
  "two_digits low high s = (if length s = 2 \<and> list_all is_digit s \<and> low \<le> digits_val s \<and> digits_val s \<le> high then Some (int (digits_val s)) else None)"

definition zone_seconds :: "string \<Rightarrow> int option" where
  "zone_seconds s =
     (if s = ''Z'' then Some 0
      else if length s = 6 \<and> (hd s = CHR ''+'' \<or> hd s = CHR ''-'') \<and> s ! 3 = CHR '':'' then
        (case (two_digits 0 23 (take 2 (drop 1 s)), two_digits 0 59 (drop 4 s)) of
           (Some h, Some m) \<Rightarrow> Some ((if hd s = CHR ''-'' then - 1 else 1) * (h * 3600 + m * 60))
         | _ \<Rightarrow> None)
      else None)"

definition fraction :: "string \<Rightarrow> (int \<times> string) option" where
  "fraction s =
     (if has_prefix s ''.'' then
        (let digits = takeWhile is_digit (tl s)
         in if digits = [] then None
            else Some (int (digits_val (take 9 (digits @ replicate 9 CHR ''0''))), dropWhile is_digit (tl s)))
      else Some (0, s))"

definition parse_time :: "string \<Rightarrow> time option" where
  "parse_time s =
     (if length s < 20 \<or> \<not> list_all is_digit (take 4 s) \<or> s ! 4 \<noteq> CHR ''-'' \<or> s ! 7 \<noteq> CHR ''-'' \<or> s ! 10 \<noteq> CHR ''T''
         \<or> s ! 13 \<noteq> CHR '':'' \<or> s ! 16 \<noteq> CHR '':'' then None
      else
        (let y = int (digits_val (take 4 s))
         in (case (two_digits 1 12 (take 2 (drop 5 s)), two_digits 0 23 (take 2 (drop 11 s)), two_digits 0 59 (take 2 (drop 14 s)),
                   two_digits 0 59 (take 2 (drop 17 s)), fraction (drop 19 s)) of
               (Some m, Some h, Some mi, Some sec, Some (nanos, zone)) \<Rightarrow>
                 (case (two_digits 1 (nat (month_days y ! nat (m - 1))) (take 2 (drop 8 s)), zone_seconds zone) of
                    (Some d, Some offset) \<Rightarrow>
                      Some ((civil_days y m d * 86400 + h * 3600 + mi * 60 + sec - offset) * second + nanos)
                  | _ \<Rightarrow> None)
             | _ \<Rightarrow> None)))"

section \<open>Answers\<close>

definition apiVersion :: string where "apiVersion = ''2023-09-27-preview''"
definition maxDevTunnelBody :: nat where "maxDevTunnelBody = 65536"
definition maxTunnelURI :: nat where "maxTunnelURI = 2048"
definition maxTunnelPorts :: nat where "maxTunnelPorts = 256"
definition maxPortForwardingURIs :: nat where "maxPortForwardingURIs = 16"
definition devTunnelTimeout :: duration where "devTunnelTimeout = 15 * second"

record tunnelPortResponse =
  tpPortNumber :: nat
  tpDescription :: string
  tpProtocol :: string
  tpPortForwardingURIs :: "string list"

record tunnelResponse =
  tsTunnelID :: string
  tsClusterID :: string
  tsAccessTokens :: "(string \<times> string) list"
  tsPorts :: "tunnelPortResponse list"
  tsExpiration :: time

fun assign_uint16 :: "nat \<times> bool \<Rightarrow> json \<Rightarrow> nat \<times> bool" where
  "assign_uint16 (n, ok) (JNumber t) = (if all_digits t \<and> digits_val t < 65536 then (digits_val t, ok) else (n, False))"
| "assign_uint16 (n, ok) JNull = (n, ok)"
| "assign_uint16 (n, ok) _ = (n, False)"

fun assign_strings :: "string list \<times> bool \<Rightarrow> json \<Rightarrow> string list \<times> bool" where
  "assign_strings (xs, ok) (JArray vs) =
     (map (\<lambda>v. fst (assign_string ([], True) v)) vs, ok \<and> list_all (\<lambda>v. snd (assign_string ([], True) v)) vs)"
| "assign_strings (xs, ok) JNull = ([], ok)"
| "assign_strings (xs, ok) _ = (xs, False)"

text \<open>Members of a map are added to it under their exact names.\<close>

fun assign_map :: "(string \<times> string) list \<times> bool \<Rightarrow> json \<Rightarrow> (string \<times> string) list \<times> bool" where
  "assign_map (m, ok) (JObject ms) =
     foldl (\<lambda>(m, ok) (k, v). case assign_string ([], True) v of (x, good) \<Rightarrow> (if good then aput k x m else m, ok \<and> good)) (m, ok) ms"
| "assign_map (m, ok) JNull = ([], ok)"
| "assign_map (m, ok) _ = (m, False)"

fun assign_time :: "time \<times> bool \<Rightarrow> json \<Rightarrow> time \<times> bool" where
  "assign_time (t, ok) (JString s) = (case parse_time s of None \<Rightarrow> (t, False) | Some u \<Rightarrow> (u, ok))"
| "assign_time (t, ok) JNull = (t, ok)"
| "assign_time (t, ok) _ = (t, False)"

definition port_fields :: "(string \<times> json) list \<Rightarrow> tunnelPortResponse \<times> bool" where
  "port_fields ms =
     (let (a, oa) = foldl assign_uint16 (0, True) (members_of ''portNumber'' ms); (b, ob) = string_field ''description'' ms;
          (c, oc) = string_field ''protocol'' ms; (d, od) = foldl assign_strings ([], True) (members_of ''portForwardingUris'' ms)
      in (\<lparr>tpPortNumber = a, tpDescription = b, tpProtocol = c, tpPortForwardingURIs = d\<rparr>, oa \<and> ob \<and> oc \<and> od))"

definition port_value :: "json \<Rightarrow> tunnelPortResponse \<times> bool" where
  "port_value v = (let (ms, ok) = object_members v; (p, fieldsOk) = port_fields ms in (p, ok \<and> fieldsOk))"

fun assign_ports :: "tunnelPortResponse list \<times> bool \<Rightarrow> json \<Rightarrow> tunnelPortResponse list \<times> bool" where
  "assign_ports (ps, ok) (JArray vs) = (map (fst \<circ> port_value) vs, ok \<and> list_all (snd \<circ> port_value) vs)"
| "assign_ports (ps, ok) JNull = ([], ok)"
| "assign_ports (ps, ok) _ = (ps, False)"

definition tunnel_fields :: "(string \<times> json) list \<Rightarrow> tunnelResponse \<times> bool" where
  "tunnel_fields ms =
     (let (a, oa) = string_field ''tunnelId'' ms; (b, ob) = string_field ''clusterId'' ms;
          (c, oc) = foldl assign_map ([], True) (members_of ''accessTokens'' ms); (d, od) = foldl assign_ports ([], True) (members_of ''ports'' ms);
          (e, oe) = foldl assign_time (0, True) (members_of ''expiration'' ms)
      in (\<lparr>tsTunnelID = a, tsClusterID = b, tsAccessTokens = c, tsPorts = d, tsExpiration = e\<rparr>, oa \<and> ob \<and> oc \<and> od \<and> oe))"

definition origin_of :: "url \<Rightarrow> parsed_url" where
  "origin_of u = \<lparr>Scheme = uScheme u, UserInfo = uUser u, Host = uHost u\<rparr>"

definition safeRedirect :: "url option \<Rightarrow> url option \<Rightarrow> bool" where
  "safeRedirect from to \<longleftrightarrow>
     SameOriginRedirect (map_option origin_of from) (map_option origin_of to)
     \<or> (case (from, to) of
          (Some f, Some t) \<Rightarrow> uScheme f = ''https'' \<and> uScheme t = ''https'' \<and> uUser f = None \<and> uUser t = None
            \<and> uHost f = Hostname f \<and> uHost t = Hostname t \<and> isAPIHost (Hostname f) \<and> isAPIHost (Hostname t)
        | _ \<Rightarrow> False)"

definition ValidatePublicURI :: "string \<Rightarrow> go_error option" where
  "ValidatePublicURI raw =
     (if raw = [] \<or> maxTunnelURI < length raw then Some (Plain ''Dev Tunnel public URI is invalid'')
      else (case url_parse raw of
              None \<Rightarrow> Some (Plain ''Dev Tunnel public URI is invalid'')
            | Some parsed \<Rightarrow>
                (let host = to_lower (Hostname parsed); suffix = ''.devtunnels.ms''
                 in if uScheme parsed \<noteq> ''https'' \<or> uUser parsed \<noteq> None \<or> uHost parsed = [] \<or> uHost parsed \<noteq> Hostname parsed
                       \<or> uQuery parsed \<noteq> [] \<or> uFragment parsed \<noteq> [] \<or> (uPath parsed \<noteq> [] \<and> uPath parsed \<noteq> ''/'')
                       \<or> length host \<le> length suffix \<or> 253 < length host \<or> \<not> has_suffix host suffix then
                      Some (Plain ''Dev Tunnel public URI is invalid'')
                    else None)))"

definition HTTPURI :: "tunnel_Record \<Rightarrow> nat \<Rightarrow> string res" where
  "HTTPURI r portNumber =
     (case find (\<lambda>port. prPortNumber port = portNumber) (trPorts r) of
        None \<Rightarrow> Inl (Plain ''Dev Tunnel port is unavailable'')
      | Some port \<Rightarrow>
          if prProtocol port \<noteq> ''http'' \<or> prPortNumber port = 0 \<or> length (prPortForwardingURIs port) \<noteq> 1 then Inl (Plain ''Dev Tunnel port is invalid'')
          else
            (let uri = trim_suffix (hd (prPortForwardingURIs port)) ''/''
             in (case ValidatePublicURI uri of Some e \<Rightarrow> Inl e | None \<Rightarrow> Inr uri)))"

fun uris_ok :: "string list \<Rightarrow> string list \<Rightarrow> bool" where
  "uris_ok seen [] \<longleftrightarrow> True"
| "uris_ok seen (candidate # rest) \<longleftrightarrow> ValidatePublicURI candidate = None \<and> candidate \<notin> set seen \<and> uris_ok (seen @ [candidate]) rest"

definition port_ok :: "tunnelPortResponse \<Rightarrow> bool" where
  "port_ok port \<longleftrightarrow>
     tpPortNumber port \<noteq> 0 \<and> tpProtocol port \<in> set [''auto'', ''tcp'', ''udp'', ''ssh'', ''rdp'', ''http'', ''https'']
     \<and> length (tpDescription port) \<le> 1024 \<and> \<not> list_ex (\<lambda>c. of_char c < (0x20 :: nat) \<or> of_char c = (0x7F :: nat)) (tpDescription port)
     \<and> length (tpPortForwardingURIs port) \<le> maxPortForwardingURIs"

fun collect_ports :: "PortRecord list \<Rightarrow> tunnelPortResponse list \<Rightarrow> PortRecord list res" where
  "collect_ports ports [] = Inr ports"
| "collect_ports ports (port # rest) =
     (if \<not> port_ok port then Inl (Plain ''Dev Tunnel response port is invalid'')
      else if list_ex (\<lambda>seen. prPortNumber seen = tpPortNumber port) ports then Inl (Plain ''Dev Tunnel response has duplicate ports'')
      else if \<not> uris_ok [] (tpPortForwardingURIs port) then Inl (Plain ''Dev Tunnel response port is invalid'')
      else collect_ports (ports @ [\<lparr>prPortNumber = tpPortNumber port, prProtocol = tpProtocol port,
             prPortForwardingURIs = tpPortForwardingURIs port\<rparr>]) rest)"

definition validateTunnelPorts :: "tunnelPortResponse list \<Rightarrow> PortRecord list res" where
  "validateTunnelPorts values =
     (if maxTunnelPorts < length values then Inl (Plain ''Dev Tunnel response has too many ports'') else collect_ports [] values)"

section \<open>Requests\<close>

text \<open>\<^verbatim>\<open>url.PathEscape\<close> and \<^verbatim>\<open>Values.Encode\<close>, which sorts the names.\<close>

definition PathEscape :: "string \<Rightarrow> string" where
  "PathEscape s = escape (\<lambda>c. is_alnum c \<or> c \<in> set ''-_.~$&+:=@'') s"

definition QueryEscape :: "string \<Rightarrow> string" where
  "QueryEscape s = concat (map (\<lambda>c. if is_alnum c \<or> c \<in> set ''-_.~'' then [c] else if c = CHR '' '' then ''+'' else percent c) s)"

definition values_Encode :: "(string \<times> string list) list \<Rightarrow> string" where
  "values_Encode vs = join ''&'' (concat (map (\<lambda>(k, xs). map (\<lambda>x. QueryEscape k @ ''='' @ QueryEscape x) xs) (sort_key fst vs)))"

definition globalHost :: string where "globalHost = ''global.rel.tunnels.api.visualstudio.com''"

definition trim_right_slashes :: "string \<Rightarrow> string" where
  "trim_right_slashes s = rev (dropWhile (\<lambda>c. c = CHR ''/'') (rev s))"

definition tunnelURL :: "url \<Rightarrow> string \<Rightarrow> string \<Rightarrow> bool \<Rightarrow> bool \<Rightarrow> string" where
  "tunnelURL baseURL tunnelID clusterID includeTokens includePorts =
     (let endpoint = (if clusterID \<noteq> [] \<and> Hostname baseURL = globalHost then baseURL\<lparr>uHost := clusterID @ ''.rel.tunnels.api.visualstudio.com''\<rparr> else baseURL);
          query = [(''api-version'', [apiVersion])] @ (if includeTokens then [(''tokenScopes'', [''host'', ''connect''])] else [])
            @ (if includePorts then [(''includePorts'', [''true''])] else [])
      in url_string (endpoint\<lparr>uPath := trim_right_slashes (uPath endpoint) @ ''/tunnels/'' @ PathEscape tunnelID, uQuery := values_Encode query\<rparr>))"

definition client_do :: "http_env \<Rightarrow> http_call \<Rightarrow> string \<Rightarrow> string \<Rightarrow> ('w http_world_scheme, (string \<times> nat) res) state" where
  "client_do E request token action = do {
     answer \<leftarrow> Do E request maxDevTunnelBody;
     State_Monad.return (case answer of Inl e \<Rightarrow> Inl (Redact action e [token]) | Inr r \<Rightarrow> Inr r) }"

definition token_of :: "tunnelResponse \<Rightarrow> string \<Rightarrow> string" where
  "token_of result name = (case alookup (tsAccessTokens result) name of None \<Rightarrow> [] | Some t \<Rightarrow> t)"

definition check_record :: "string \<Rightarrow> bool \<Rightarrow> string \<times> nat \<Rightarrow> tunnel_Record res" where
  "check_record expectedID requireTokens = (\<lambda>(body, status).
     (if status < 200 \<or> 300 \<le> status then Inl (Plain (''Dev Tunnel request failed: HTTP '' @ nat_str status))
      else (case decode_struct tunnel_fields body of
              None \<Rightarrow> Inl (Plain ''parse Dev Tunnel response'')
            | Some result \<Rightarrow>
                if tsTunnelID result \<noteq> expectedID \<or> \<not> ValidClusterID (tsClusterID result) \<or> tsExpiration result = 0 then
                  Inl (Plain ''Dev Tunnel response identity is invalid'')
                else if requireTokens \<and> (\<not> ValidCredential (token_of result ''host'') \<or> \<not> ValidCredential (token_of result ''connect'')) then
                  Inl (Plain ''Dev Tunnel response omitted required access tokens'')
                else (case validateTunnelPorts (tsPorts result) of
                        Inl e \<Rightarrow> Inl e
                      | Inr ports \<Rightarrow> Inr \<lparr>trID = tsTunnelID result, trClusterID = tsClusterID result, trConnectToken = token_of result ''connect'',
                          trHostToken = token_of result ''host'', trPorts = ports, trExpiresAt = tsExpiration result\<rparr>))))"

definition doRecord :: "http_env \<Rightarrow> http_call \<Rightarrow> string \<Rightarrow> string \<Rightarrow> bool \<Rightarrow> ('w http_world_scheme, tunnel_Record res) state" where
  "doRecord E request token expectedID requireTokens = do {
     answer \<leftarrow> client_do E request token ''request Dev Tunnel'';
     State_Monad.return (case answer of Inl e \<Rightarrow> Inl e | Inr r \<Rightarrow> check_record expectedID requireTokens r) }"

definition createTunnelBody :: "tunnel_CreateRequest \<Rightarrow> json" where
  "createTunnelBody req =
     JObject ([(''tunnelId'', JString (tcTunnelID req)), (''customExpiration'', JNumber (nat_str (tcDurationSeconds req))),
        (''options'', JObject [(''isInspectionEnabled'', JBool False)])]
       @ (if tcPorts req = [] then []
          else [(''ports'', JArray (map (\<lambda>spec. JObject [(''portNumber'', JNumber (nat_str (psPortNumber spec))), (''protocol'', JString ''http''),
                 (''description'', JString (psDescription spec))]) (tcPorts req)))]))"

definition bearer_of :: "string \<Rightarrow> string \<Rightarrow> string" where
  "bearer_of scheme token = (if scheme = [] then ''Bearer'' else scheme) @ '' '' @ token"

definition client_Create :: "http_env \<Rightarrow> url \<Rightarrow> tunnel_CreateRequest \<Rightarrow> ('w http_world_scheme, tunnel_Record res) state" where
  "client_Create E baseURL req =
     (if tcDurationSeconds req < MinDurationSeconds \<or> MaxDurationSeconds < tcDurationSeconds req then
        State_Monad.return (Inl (Plain ''Dev Tunnel create request is invalid''))
      else
        (case NewRequest E ''PUT'' (tunnelURL baseURL (tcTunnelID req) [] True False) (bearer_of (tcScheme req) (tcOAuthToken req)) [] of
           Inl e \<Rightarrow> State_Monad.return (Inl e)
         | Inr request \<Rightarrow>
             doRecord E (request\<lparr>hcHeader := header_set ''Content-Type'' ''application/json;charset=UTF-8'' (header_set ''If-None-Match'' ''*'' (hcHeader request)),
               hcJSON := Some (createTunnelBody req)\<rparr>) (tcOAuthToken req) (tcTunnelID req) True))"

definition client_Get :: "http_env \<Rightarrow> url \<Rightarrow> tunnel_GetRequest \<Rightarrow> ('w http_world_scheme, tunnel_Record res) state" where
  "client_Get E baseURL req =
     (case NewRequest E ''GET'' (tunnelURL baseURL (tgTunnelID req) (tgClusterID req) False True) (''tunnel '' @ tgAccessToken req) [] of
        Inl e \<Rightarrow> State_Monad.return (Inl e)
      | Inr request \<Rightarrow> doRecord E request (tgAccessToken req) (tgTunnelID req) False)"

definition client_Delete :: "http_env \<Rightarrow> url \<Rightarrow> tunnel_DeleteRequest \<Rightarrow> ('w http_world_scheme, go_error option) state" where
  "client_Delete E baseURL req =
     (case NewRequest E ''DELETE'' (tunnelURL baseURL (tdTunnelID req) (tdClusterID req) False False) (bearer_of (tdScheme req) (tdOAuthToken req)) [] of
        Inl e \<Rightarrow> State_Monad.return (Some e)
      | Inr request \<Rightarrow> do {
          answer \<leftarrow> client_do E request (tdOAuthToken req) ''delete Dev Tunnel'';
          State_Monad.return
            (case answer of
               Inl e \<Rightarrow> Some e
             | Inr (_, status) \<Rightarrow>
                 if status = 404 \<or> 200 \<le> status \<and> status < 300 then None else Some (Plain (''delete Dev Tunnel: HTTP '' @ nat_str status))) })"

definition NewClient :: "string \<Rightarrow> url res" where
  "NewClient baseURL =
     (case url_parse baseURL of
        None \<Rightarrow> Inl (Plain ''Dev Tunnels base URL must be a recognized HTTPS management endpoint'')
      | Some parsed \<Rightarrow>
          if uScheme parsed \<noteq> ''https'' \<or> uUser parsed \<noteq> None \<or> uHost parsed = [] \<or> uHost parsed \<noteq> Hostname parsed
             \<or> uQuery parsed \<noteq> [] \<or> uFragment parsed \<noteq> [] \<or> \<not> isAPIHost (Hostname parsed) \<or> (uPath parsed \<noteq> [] \<and> uPath parsed \<noteq> ''/'') then
            Inl (Plain ''Dev Tunnels base URL must be a recognized HTTPS management endpoint'')
          else Inr parsed)"

text \<open>
  The client's \<^verbatim>\<open>CheckRedirect\<close>: the request that follows a redirect, with the credential of the first one, or \<open>None\<close> when
  the redirect itself is the answer.
\<close>

definition client_redirect :: "http_call \<Rightarrow> http_call list \<Rightarrow> http_call option" where
  "client_redirect request via =
     (if via = [] \<or> 5 \<le> length via \<or> \<not> safeRedirect (url_parse (hcURL (hd via))) (url_parse (hcURL request)) then None
      else Some (request\<lparr>hcHeader := header_set ''Authorization'' (header_get (hcHeader (hd via)) ''Authorization'') (hcHeader request)\<rparr>))"

section \<open>Management hosts\<close>

definition plain_byte :: "char \<Rightarrow> bool" where
  "plain_byte c \<longleftrightarrow> is_alnum c \<or> c = CHR ''-'' \<or> c = CHR ''.''"

lemma plain_alnum: "is_alnum c \<Longrightarrow> 45 < (of_char c :: nat) \<and> (of_char c :: nat) < 128 \<and> c \<notin> {CHR ''/'', CHR '':'', CHR ''@'', CHR ''['', CHR ''%'', CHR ''?'', CHR ''#''}"
  by (auto simp: is_alnum_def is_alpha_def is_digit_def less_eq_char_def)

lemma plain_byte_fresh: "plain_byte c \<Longrightarrow> c \<notin> {CHR ''/'', CHR '':'', CHR ''@'', CHR ''['', CHR ''%'', CHR ''?'', CHR ''#''}"
  using plain_alnum [of c] by (auto simp: plain_byte_def)

lemma plain_byte_host: "plain_byte c \<Longrightarrow> host_byte c \<and> host_kept c"
  using plain_alnum [of c] by (auto simp: plain_byte_def host_byte_def host_kept_def)

lemma plain_set: "list_all plain_byte h \<Longrightarrow> CHR ''/'' \<notin> set h \<and> CHR '':'' \<notin> set h \<and> CHR ''@'' \<notin> set h \<and> CHR ''['' \<notin> set h \<and> CHR ''?'' \<notin> set h \<and> CHR ''#'' \<notin> set h"
  using plain_byte_fresh by (force simp: list_all_iff)

lemma unescape_plain: "list_all plain_byte h \<Longrightarrow> unescape_host h = Some h"
  by (induction h) (use plain_byte_fresh plain_byte_host in \<open>auto\<close>)

lemma escape_plain: "list_all plain_byte h \<Longrightarrow> escape host_kept h = h"
  by (induction h) (auto simp: escape_def plain_byte_host)

lemma has_prefix_bracket: "list_all plain_byte h \<Longrightarrow> \<not> has_prefix h ''[''"
  using plain_set [of h] by (cases h) auto

lemma parse_plain_authority: "list_all plain_byte h \<Longrightarrow> parse_authority h = Some (None, h)"
  using plain_set [of h] has_prefix_bracket [of h] list.set_sel(2) [of h "CHR ''[''"]
  by (cases "h = []") (auto simp: parse_authority_def last_cut_def parse_url_host_def split_on_fresh unescape_plain)

lemma get_https: "get_scheme (''https'' @ '':'' @ rest) = Some (''https'', rest)"
  by (simp add: get_scheme_def scheme_byte_def is_alnum_def is_alpha_def is_digit_def less_eq_char_def)

lemma set_path_host: "set_path raw u = Some v \<Longrightarrow> uScheme v = uScheme u \<and> uUser v = uUser u \<and> uHost v = uHost u \<and> uOpaque v = uOpaque u"
  by (auto simp: set_path_def split: option.splits)

lemma lower_https: "to_lower ''https'' = ''https''"
  by code_simp

lemma takeWhile_fresh: "c \<notin> set h \<Longrightarrow> takeWhile (\<lambda>x. x \<noteq> c) (h @ c # p) = h"
  by (induction h) auto

lemma url_parse_https:
  assumes "url_parse (''https'' @ '':'' @ ''//'' @ h @ p @ CHR ''?'' # q) = Some u" and "list_all plain_byte h"
    and "has_prefix p ''/''" and "CHR ''?'' \<notin> set p" and "CHR ''#'' \<notin> set p" and "CHR ''#'' \<notin> set q"
  shows "uScheme u = ''https'' \<and> uUser u = None \<and> uHost u = h"
proof -
  let ?rest = "''//'' @ h @ p"
  have h: "CHR ''/'' \<notin> set h" "CHR ''?'' \<notin> set h" "CHR ''#'' \<notin> set h" using plain_set [OF assms(2)] by auto
  obtain p' where p: "p = CHR ''/'' # p'" using assms(3) by (cases p) auto
  have "cut (''https'' @ '':'' @ ''//'' @ h @ p @ CHR ''?'' # q) ''#'' = None" using h(3) assms(5, 6) by (simp add: cut_char_None)
  then have "parse_reference (''https'' @ '':'' @ ?rest @ CHR ''?'' # q) = Some u" using assms(1) by (simp add: url_parse_def)
  moreover have "cut (?rest @ CHR ''?'' # q) ''?'' = Some (?rest, q)" using h(2) assms(4) by (intro cut_char_append) simp
  moreover have "takeWhile (\<lambda>c. c \<noteq> CHR ''/'') (h @ p) = h" unfolding p by (rule takeWhile_fresh [OF h(1)])
  ultimately show ?thesis
    using get_https [of "?rest @ CHR ''?'' # q"] parse_plain_authority [OF assms(2)]
    by (auto simp: parse_reference_def lower_https Let_def split: if_splits option.splits dest!: set_path_host)
qed

definition ascii :: "string \<Rightarrow> bool" where
  "ascii s \<longleftrightarrow> list_all (\<lambda>c. of_char c < (128 :: nat)) s"

text \<open>A URL of a management host, without user information and port.\<close>

definition management_url :: "string \<Rightarrow> bool" where
  "management_url raw \<longleftrightarrow> (\<exists>u. url_parse raw = Some u \<and> uScheme u = ''https'' \<and> uUser u = None \<and> uHost u = Hostname u \<and> isAPIHost (uHost u))"

lemma to_lower_ascii:
  assumes "ascii s"
  shows "to_lower s = map lower_char s"
proof -
  from assms have "CHR 0xE2 \<notin> set s" "CHR 0xC4 \<notin> set s" by (auto simp: ascii_def list_all_iff)
  then show ?thesis by (simp add: to_lower_def replace_all_fresh)
qed

lemma lower_plain: "plain_byte (lower_char c) \<Longrightarrow> plain_byte c"
  by (cases "CHR ''A'' \<le> c \<and> c \<le> CHR ''Z''") (auto simp: lower_char_def plain_byte_def is_alnum_def is_alpha_def)

lemma cluster_plain: "ValidClusterID s \<Longrightarrow> list_all plain_byte s"
  by (auto simp: ValidClusterID_def list_all_iff plain_byte_def lower_alnum_def is_alnum_def is_alpha_def)

lemma trim_suffix_cut: "trim_suffix s p \<noteq> s \<Longrightarrow> s = trim_suffix s p @ p"
  by (auto simp: trim_suffix_def has_suffix_def split: if_splits) (metis append_take_drop_id)

lemma api_suffix_plain: "list_all plain_byte ''.rel.tunnels.api.visualstudio.com''" "list_all plain_byte globalHost"
  by code_simp+

lemma api_host_plain:
  assumes "isAPIHost h" and "ascii h"
  shows "list_all plain_byte h"
proof -
  let ?host = "to_lower h"
  have "list_all plain_byte ?host"
  proof (cases "?host = globalHost")
    case True
    then show ?thesis by (simp add: api_suffix_plain)
  next
    case False
    with assms(1) have "trim_suffix ?host ''.rel.tunnels.api.visualstudio.com'' \<noteq> ?host" "ValidClusterID (trim_suffix ?host ''.rel.tunnels.api.visualstudio.com'')"
      by (auto simp: isAPIHost_def Let_def globalHost_def)
    then obtain c where host: "?host = c @ ''.rel.tunnels.api.visualstudio.com''" and c: "ValidClusterID c" using trim_suffix_cut by blast
    show ?thesis unfolding host list_all_append by (intro conjI cluster_plain [OF c] api_suffix_plain(1))
  qed
  then show ?thesis using to_lower_ascii [OF assms(2)] lower_plain by (simp add: list_all_iff)
qed

lemma cluster_host: "ValidClusterID c \<Longrightarrow> isAPIHost (c @ ''.rel.tunnels.api.visualstudio.com'')"
proof -
  assume c: "ValidClusterID c"
  let ?h = "c @ ''.rel.tunnels.api.visualstudio.com''"
  have low: "lower_char x = x" if "x \<in> set c" for x
    using that c by (auto simp: ValidClusterID_def list_all_iff lower_alnum_def lower_char_def is_digit_def less_eq_char_def dest!: bspec)
  have "ascii c" using c by (auto simp: ascii_def ValidClusterID_def list_all_iff lower_alnum_def is_digit_def less_eq_char_def dest!: bspec)
  then have "ascii ?h" by (simp add: ascii_def)
  moreover have "map lower_char ''.rel.tunnels.api.visualstudio.com'' = ''.rel.tunnels.api.visualstudio.com''" by code_simp
  ultimately have "to_lower ?h = ?h" using low by (simp add: to_lower_ascii map_idI)
  then show ?thesis using c by (simp add: isAPIHost_def Let_def trim_suffix_def has_suffix_def)
qed

lemma Hostname_plain: "list_all plain_byte (uHost u) \<Longrightarrow> Hostname u = uHost u"
  using plain_set [of "uHost u"] has_prefix_bracket [of "uHost u"] by (simp add: Hostname_def last_cut_def Let_def)

definition tunnel_query :: "bool \<Rightarrow> bool \<Rightarrow> string" where
  "tunnel_query includeTokens includePorts =
     values_Encode ([(''api-version'', [apiVersion])] @ (if includeTokens then [(''tokenScopes'', [''host'', ''connect''])] else [])
       @ (if includePorts then [(''includePorts'', [''true''])] else []))"

lemma tunnel_query_bytes: "tunnel_query t p \<noteq> [] \<and> CHR ''#'' \<notin> set (tunnel_query t p)"
proof -
  have "\<forall>t \<in> set [True, False]. \<forall>p \<in> set [True, False]. tunnel_query t p \<noteq> [] \<and> CHR ''#'' \<notin> set (tunnel_query t p)" by code_simp
  then show ?thesis by (cases t; cases p) auto
qed

lemma hex_upper_bytes: "d < 16 \<Longrightarrow> hex_upper d \<notin> {CHR ''?'', CHR ''#''}"
proof -
  have "\<forall>d \<in> set [0..<16]. hex_upper d \<notin> {CHR ''?'', CHR ''#''}" by code_simp
  then show "d < 16 \<Longrightarrow> hex_upper d \<notin> {CHR ''?'', CHR ''#''}" by auto
qed

lemma percent_bytes: "c \<in> set (percent d) \<Longrightarrow> c \<notin> {CHR ''?'', CHR ''#''}"
  using hex_upper_bytes [of "of_char d div 16"] hex_upper_bytes [of "of_char d mod 16"] nat_of_char_less_256 [of d]
  by (auto simp: percent_def div_less_iff_less_mult)

lemma EscapedPath_bytes: "c \<in> set (EscapedPath u) \<Longrightarrow> c \<notin> {CHR ''?'', CHR ''#''}"
  using plain_alnum [of c] percent_bytes
  by (auto simp: EscapedPath_def valid_encoded_def path_byte_def list_all_iff escape_def split: if_splits)

lemma EscapedPath_nonempty: "uPath u \<noteq> [] \<Longrightarrow> EscapedPath u \<noteq> []"
  by (cases "uPath u") (auto simp: EscapedPath_def escape_def percent_def)

lemma url_parse_opaque: "url_parse raw = Some u \<Longrightarrow> uHost u \<noteq> [] \<Longrightarrow> uOpaque u = []"
  by (auto simp: url_parse_def parse_reference_def Let_def split: option.splits if_splits prod.splits dest!: set_path_host)

lemma NewClient_base:
  assumes "NewClient base = Inr b"
  shows "uScheme b = ''https'' \<and> uOpaque b = [] \<and> isAPIHost (uHost b) \<and> uHost b = Hostname b"
  using assms url_parse_opaque [of base b] by (auto simp: NewClient_def split: option.splits if_splits)

lemma tunnelURL_management:
  assumes "NewClient base = Inr b" and "ascii (uHost b)" and "cluster = [] \<or> ValidClusterID cluster"
    and "url_parse (tunnelURL b tunnelID cluster t p) = Some u"
  shows "management_url (tunnelURL b tunnelID cluster t p)"
proof -
  note base = NewClient_base [OF assms(1)]
  define h where "h = (if cluster \<noteq> [] \<and> Hostname b = globalHost then cluster @ ''.rel.tunnels.api.visualstudio.com'' else uHost b)"
  define e where "e = b\<lparr>uHost := h, uPath := trim_right_slashes (uPath b) @ ''/tunnels/'' @ PathEscape tunnelID, uQuery := tunnel_query t p\<rparr>"
  have host: "isAPIHost h" "list_all plain_byte h"
  proof -
    show "isAPIHost h" using base assms(3) cluster_host by (auto simp: h_def)
    have "list_all plain_byte (cluster @ ''.rel.tunnels.api.visualstudio.com'')" if "cluster \<noteq> []"
      unfolding list_all_append using assms(3) that by (intro conjI cluster_plain api_suffix_plain(1)) simp
    moreover have "list_all plain_byte (uHost b)" using api_host_plain [OF _ assms(2)] base by blast
    ultimately show "list_all plain_byte h" by (simp add: h_def del: list_all_append)
  qed
  define path where "path = (if EscapedPath e \<noteq> [] \<and> \<not> has_prefix (EscapedPath e) ''/'' then ''/'' else []) @ EscapedPath e"
  have nonempty: "EscapedPath e \<noteq> []" by (rule EscapedPath_nonempty) (simp add: e_def)
  then have path: "has_prefix path ''/''" "CHR ''?'' \<notin> set path" "CHR ''#'' \<notin> set path"
    using EscapedPath_bytes [of _ e] by (auto simp: path_def)
  have "tunnelURL b tunnelID cluster t p = url_string e"
    by (simp add: tunnelURL_def e_def h_def tunnel_query_def Let_def)
  also have "\<dots> = ''https'' @ '':'' @ ''//'' @ h @ path @ CHR ''?'' # tunnel_query t p"
    using base escape_plain [OF host(2)] tunnel_query_bytes [of t p] by (simp add: url_string_def path_def) (simp add: e_def)
  finally have url: "tunnelURL b tunnelID cluster t p = ''https'' @ '':'' @ ''//'' @ h @ path @ CHR ''?'' # tunnel_query t p" .
  have "uScheme u = ''https'' \<and> uUser u = None \<and> uHost u = h"
    using url_parse_https [OF assms(4) [unfolded url] host(2) path] tunnel_query_bytes by blast
  with assms(4) host Hostname_plain [of u] show ?thesis by (auto simp: management_url_def)
qed

datatype client_request = CreateTunnel tunnel_CreateRequest | GetTunnelRecord tunnel_GetRequest | DeleteTunnelRecord tunnel_DeleteRequest

fun run_client :: "http_env \<Rightarrow> url \<Rightarrow> client_request \<Rightarrow> ('w http_world_scheme, unit) state" where
  "run_client E b (CreateTunnel req) = do { _ \<leftarrow> client_Create E b req; State_Monad.return () }"
| "run_client E b (GetTunnelRecord req) = do { _ \<leftarrow> client_Get E b req; State_Monad.return () }"
| "run_client E b (DeleteTunnelRecord req) = do { _ \<leftarrow> client_Delete E b req; State_Monad.return () }"

fun cluster_of :: "client_request \<Rightarrow> string" where
  "cluster_of (CreateTunnel req) = []"
| "cluster_of (GetTunnelRecord req) = tgClusterID req"
| "cluster_of (DeleteTunnelRecord req) = tdClusterID req"

lemma NewRequest_url: "NewRequest E m url bearer form = Inr call \<Longrightarrow> hcURL call = url \<and> (\<exists>u. url_parse url = Some u)"
  by (auto simp: NewRequest_def Let_def split: option.splits)

lemma Do_log: "iwLog (snd (run_state (Do E call n) w)) = iwLog w @ [(call, snd (last (iwLog (snd (run_state (Do E call n) w)))))]"
  by (simp add: Do_def client_Do_def http_tick_def)

lemma logs_client: "iwLog (snd (run_state (doRecord E call token ident tokens) w)) = iwLog (snd (run_state (Do E call maxDevTunnelBody) w))"
  "iwLog (snd (run_state (client_do E call token action) w)) = iwLog (snd (run_state (Do E call maxDevTunnelBody) w))"
  by (simp_all add: doRecord_def client_do_def split_def)

lemma run_client_log:
  "\<exists>calls. iwLog (snd (run_state (run_client E b req) w)) = iwLog w @ calls
    \<and> (\<forall>(call, answer) \<in> set calls. \<exists>tunnelID t p. hcURL call = tunnelURL b tunnelID (cluster_of req) t p \<and> (\<exists>u. url_parse (hcURL call) = Some u))"
proof (cases req)
  case (CreateTunnel r)
  then show ?thesis
    using Do_log by (fastforce simp: client_Create_def logs_client split_def split: sum.splits dest!: NewRequest_url)
next
  case (GetTunnelRecord r)
  then show ?thesis
    using Do_log by (fastforce simp: client_Get_def logs_client split_def split: sum.splits dest!: NewRequest_url)
next
  case (DeleteTunnelRecord r)
  then show ?thesis
    using Do_log by (fastforce simp: client_Delete_def logs_client split_def split: sum.splits dest!: NewRequest_url)
qed

lemma redirect_management:
  assumes "management_url (hcURL (hd via))" and "client_redirect request via = Some r"
  shows "management_url (hcURL r)"
proof -
  from assms(2) have safe: "safeRedirect (url_parse (hcURL (hd via))) (url_parse (hcURL request))" and r: "hcURL r = hcURL request"
    by (auto simp: client_redirect_def split: if_splits)
  from assms(1) obtain f where f: "url_parse (hcURL (hd via)) = Some f" "uScheme f = ''https''" "uHost f = Hostname f" "isAPIHost (uHost f)"
    by (auto simp: management_url_def)
  from safe f(1) obtain t where t: "url_parse (hcURL request) = Some t"
    by (cases "url_parse (hcURL request)") (auto simp: safeRedirect_def SameOriginRedirect_def)
  have "Hostname t = Hostname f" if "uHost t = uHost f" unfolding Hostname_def that by (rule refl)
  with safe f t have "uScheme t = ''https'' \<and> uUser t = None \<and> uHost t = Hostname t \<and> isAPIHost (uHost t)"
    by (auto simp: safeRedirect_def SameOriginRedirect_def origin_of_def)
  with t r show ?thesis by (auto simp: management_url_def)
qed


section \<open>Records\<close>

definition public_uri :: "string \<Rightarrow> bool" where
  "public_uri raw \<longleftrightarrow> (\<exists>u. url_parse raw = Some u \<and> uScheme u = ''https'' \<and> uUser u = None \<and> uHost u = Hostname u
     \<and> has_suffix (to_lower (uHost u)) ''.devtunnels.ms'' \<and> uQuery u = [] \<and> uFragment u = [] \<and> uPath u \<in> {[], ''/''})"

lemma ValidatePublicURI_public: "ValidatePublicURI raw = None \<Longrightarrow> public_uri raw"
  by (auto simp: ValidatePublicURI_def public_uri_def Let_def split: if_splits option.splits)

lemma uris_ok_distinct: "uris_ok seen us \<Longrightarrow> list_all public_uri us \<and> distinct us \<and> set us \<inter> set seen = {}"
  by (induction us arbitrary: seen) (fastforce dest: ValidatePublicURI_public)+

definition port_record_ok :: "PortRecord \<Rightarrow> bool" where
  "port_record_ok p \<longleftrightarrow> prPortNumber p \<noteq> 0 \<and> length (prPortForwardingURIs p) \<le> 16 \<and> distinct (prPortForwardingURIs p)
     \<and> list_all public_uri (prPortForwardingURIs p)"

lemma collect_ports_ok:
  "collect_ports ports vs = Inr result \<Longrightarrow> list_all port_record_ok ports \<Longrightarrow> distinct (map prPortNumber ports)
    \<Longrightarrow> list_all port_record_ok result \<and> distinct (map prPortNumber result) \<and> length result = length ports + length vs"
proof (induction ports vs rule: collect_ports.induct)
  case (2 ports port rest)
  let ?p = "\<lparr>prPortNumber = tpPortNumber port, prProtocol = tpProtocol port, prPortForwardingURIs = tpPortForwardingURIs port\<rparr>"
  from "2.prems"(1) have ok: "port_ok port" "\<not> list_ex (\<lambda>seen. prPortNumber seen = tpPortNumber port) ports" "uris_ok [] (tpPortForwardingURIs port)"
    and rest: "collect_ports (ports @ [?p]) rest = Inr result" by (auto split: if_splits)
  have "port_record_ok ?p" using ok(1) uris_ok_distinct [OF ok(3)] by (simp add: port_record_ok_def port_ok_def maxPortForwardingURIs_def)
  moreover have "distinct (map prPortNumber (ports @ [?p]))" using "2.prems"(3) ok(2) by (auto simp: list_ex_iff)
  ultimately show ?case using "2.IH" [OF _ _ _ rest] ok "2.prems"(2) by simp
qed simp

lemma check_record_ok:
  assumes "check_record ident tokens x = Inr r"
  shows "trID r = ident \<and> ValidClusterID (trClusterID r) \<and> trExpiresAt r \<noteq> 0 \<and> (tokens \<longrightarrow> ValidCredential (trHostToken r) \<and> ValidCredential (trConnectToken r))
    \<and> length (trPorts r) \<le> 256 \<and> distinct (map prPortNumber (trPorts r)) \<and> list_all port_record_ok (trPorts r)"
proof -
  from assms have "\<exists>vs. validateTunnelPorts vs = Inr (trPorts r)" and valid: "trID r = ident" "ValidClusterID (trClusterID r)" "trExpiresAt r \<noteq> 0"
      "tokens \<longrightarrow> ValidCredential (trHostToken r) \<and> ValidCredential (trConnectToken r)"
    by (auto simp: check_record_def split: prod.splits if_splits option.splits sum.splits)
  then have "\<exists>vs. length vs \<le> 256 \<and> collect_ports [] vs = Inr (trPorts r)"
    by (auto simp: validateTunnelPorts_def maxTunnelPorts_def not_less split: if_splits)
  then obtain vs where "length vs \<le> 256" "collect_ports [] vs = Inr (trPorts r)" by blast
  with collect_ports_ok [of "[]" vs] valid show ?thesis by auto
qed

text \<open>
  C28: a tunnel record the client returns is the one asked for, in a well-formed cluster and with an expiration; it has at most
  256 ports of distinct numbers, each with at most 16 distinct public addresses under \<^verbatim>\<open>devtunnels.ms\<close>, and after a creation
  usable host and connect tokens. The address answered for a port is public, over HTTPS and without query.
\<close>

theorem records_validated:
  assumes "run_state (client_Create E b c) w = (Inr r, w') \<and> ident = tcTunnelID c \<or> run_state (client_Get E b g) w = (Inr r, w') \<and> ident = tgTunnelID g"
  shows "trID r = ident \<and> ValidClusterID (trClusterID r) \<and> trExpiresAt r \<noteq> 0
    \<and> length (trPorts r) \<le> 256 \<and> distinct (map prPortNumber (trPorts r)) \<and> list_all port_record_ok (trPorts r)
    \<and> (run_state (client_Create E b c) w = (Inr r, w') \<longrightarrow> ValidCredential (trHostToken r) \<and> ValidCredential (trConnectToken r)
        \<and> 3600 \<le> tcDurationSeconds c \<and> tcDurationSeconds c \<le> 2592000)
    \<and> (\<forall>n uri. HTTPURI r n = Inr uri \<longrightarrow> public_uri uri)"
proof -
  have created: "\<exists>x. check_record (tcTunnelID c) True x = Inr r \<and> 3600 \<le> tcDurationSeconds c \<and> tcDurationSeconds c \<le> 2592000"
    if "run_state (client_Create E b c) w = (Inr r, w')"
    using that by (auto simp: client_Create_def doRecord_def MinDurationSeconds_def MaxDurationSeconds_def split: if_splits sum.splits prod.splits)
  have got: "\<exists>x. check_record (tgTunnelID g) False x = Inr r" if "run_state (client_Get E b g) w = (Inr r, w')"
    using that by (auto simp: client_Get_def doRecord_def split: sum.splits prod.splits)
  have "public_uri uri" if "HTTPURI r n = Inr uri" for n uri
    using that by (auto simp: HTTPURI_def Let_def split: option.splits if_splits intro: ValidatePublicURI_public)
  with assms show ?thesis using created got check_record_ok by blast
qed

text \<open>
  The recogniser of management hosts maps a host to lower case with the tables of Unicode, where \<open>U+0130\<close> becomes \<open>i\<close>: a
  host of another domain passes, and a redirect to it keeps the credential.
\<close>

definition lookalike :: string where
  "lookalike = ''https://c.rel.tunnels.api.v'' @ [CHR 0xC4, CHR 0xB0] @ ''sualstudio.com/''"

lemma lookalike_redirect:
  "\<not> has_suffix lookalike ''.visualstudio.com/'' \<and> safeRedirect (url_parse ''https://global.rel.tunnels.api.visualstudio.com/'') (url_parse lookalike)"
  by code_simp

end
