(* ===== verification/TunnelSample.thy ===== *)
theory TunnelSample
  imports TunnelClient "HOL-Library.Code_Target_Nat"
begin

text \<open>An answer of the management service and the client's properties applied to it.\<close>

section \<open>A sample client\<close>

definition quoted :: "string \<Rightarrow> string" where
  "quoted s = map (\<lambda>c. if c = CHR ''~'' then CHR 0x22 else c) s"

definition sample_tunnel_body :: string where
  "sample_tunnel_body = quoted (''{~tunnelId~:~abc~,~clusterId~:~use~,~accessTokens~:{~host~:~h~,~connect~:~c~},''
     @ ''~ports~:[{~portNumber~:8000,~protocol~:~http~,~portForwardingUris~:[~https://a.devtunnels.ms/~]}],~expiration~:~2026-01-02T03:04:05Z~}'')"

definition sample_tunnel_http :: http_env where
  "sample_tunnel_http = \<lparr>ieNow = (\<lambda>_. 0), ieDo = (\<lambda>_ _. Inr (200, Inr sample_tunnel_body)), ieContext = (\<lambda>_. None), ieUserAgent = ''cs-plane''\<rparr>"

definition sample_tunnel_create :: tunnel_CreateRequest where
  "sample_tunnel_create = \<lparr>tcScheme = ''github'', tcOAuthToken = ''t'', tcTunnelID = ''abc'', tcDurationSeconds = MinDurationSeconds, tcPorts = []\<rparr>"

definition sample_base :: url where
  "sample_base = \<lparr>uScheme = ''https'', uOpaque = [], uUser = None, uHost = globalHost, uPath = [], uRawPath = [], uForceQuery = False, uQuery = [], uFragment = []\<rparr>"

definition sample_record :: tunnel_Record where
  "sample_record = \<lparr>trID = ''abc'', trClusterID = ''use'', trConnectToken = ''c'', trHostToken = ''h'',
     trPorts = [\<lparr>prPortNumber = 8000, prProtocol = ''http'', prPortForwardingURIs = [''https://a.devtunnels.ms/'']\<rparr>],
     trExpiresAt = (civil_days 2026 1 2 * 86400 + 3 * 3600 + 4 * 60 + 5) * second\<rparr>"

lemma sample_client: "NewClient (''https://'' @ globalHost) = Inr sample_base" "ascii (uHost sample_base)"
  "url_parse (tunnelURL sample_base ''abc'' [] True False) \<noteq> None"
  by code_simp+

lemma sample_checked: "check_record ''abc'' True (sample_tunnel_body, 200) = Inr sample_record"
  by code_simp

lemma sample_uri: "HTTPURI sample_record 8000 = Inr ''https://a.devtunnels.ms''"
  by code_simp

lemma sample_body_length: "length sample_tunnel_body \<le> maxDevTunnelBody"
  by code_simp

lemma sample_create:
  "run_state (client_Create sample_tunnel_http sample_base sample_tunnel_create) \<lparr>iwTick = 0, iwLog = []\<rparr>
     = (Inr sample_record, snd (run_state (client_Create sample_tunnel_http sample_base sample_tunnel_create) \<lparr>iwTick = 0, iwLog = []\<rparr>))
   \<and> length (iwLog (snd (run_state (client_Create sample_tunnel_http sample_base sample_tunnel_create) \<lparr>iwTick = 0, iwLog = []\<rparr>))) = 1"
  using sample_client(3) sample_checked sample_body_length
  by (auto simp: client_Create_def sample_tunnel_create_def MinDurationSeconds_def MaxDurationSeconds_def NewRequest_def Let_def doRecord_def client_do_def
      Do_def client_Do_def http_tick_def sample_tunnel_http_def)


theorem records_validated_witness:
  "\<exists>r w'. run_state (client_Create sample_tunnel_http sample_base sample_tunnel_create) \<lparr>iwTick = 0, iwLog = []\<rparr> = (Inr r, w')
     \<and> HTTPURI r 8000 = Inr ''https://a.devtunnels.ms'' \<and> public_uri ''https://a.devtunnels.ms'' \<and> ValidCredential (trHostToken r)"
proof -
  obtain w' where run: "run_state (client_Create sample_tunnel_http sample_base sample_tunnel_create) \<lparr>iwTick = 0, iwLog = []\<rparr> = (Inr sample_record, w')"
    using sample_create by blast
  from records_validated [OF disjI1, OF conjI, OF run refl] run sample_uri show ?thesis by (intro exI [of _ sample_record] exI [of _ w']) auto
qed

end
