(* ===== verification/Spec2Isabelle.thy ===== *)
theory Spec2Isabelle
  imports SessionSafety SshRecovery SignIn BrokerSample TunnelSample
begin

text \<open>
  A verification library for cs-control, the control plane that runs Cybershuttle sessions on Slurm clusters over ssh.

  \<^bold>\<open>The program and its parts.\<close> A principal signs in, registers ssh hosts and keys, and defines sessions. A session is
  prepared on its host, submitted to Slurm as one numbered run at a time, reconciled against what the scheduler reports,
  reached through a Dev Tunnel or through a Linkspan that links back, and kept as a history of runs. The parts modelled are

  \<^item> \<open>CsPrelude\<close>, \<open>GoStrings\<close>, \<open>GoCrypto\<close>, \<open>GoUrl\<close>, \<open>GoJson\<close>: what the source uses of Go and its standard library:
    association lists for maps, 64-bit durations with wrap-around, saturating differences of times, byte strings with
    \<^verbatim>\<open>strings\<close>, \<^verbatim>\<open>strconv\<close> and \<^verbatim>\<open>path\<close> functions, SHA-256, hexadecimal and base64, URLs and IP addresses, JSON texts and
    their assignment to fields, and the rules for stateful programs. The hash is computed, not assumed. \<open>CsPrelude\<close> holds the locale \<open>keyed_store\<close> and its interpretation on association lists;
  \<^item> \<open>Security\<close>: \<^verbatim>\<open>internal/security\<close>, that is errors and how they answer, names, credentials, origins, principals;
  \<^item> \<open>SshExec\<close>: \<^verbatim>\<open>internal/ssh/exec.go\<close> and \<^verbatim>\<open>framed.go\<close>, one remote command under a principal's configuration;
  \<^item> \<open>Slurm\<close>: \<^verbatim>\<open>internal/slurm\<close>, the programs sent to the cluster and the readers of their output;
  \<^item> \<open>Devtunnel\<close>: the data and identifiers of \<^verbatim>\<open>internal/devtunnel\<close>;
  \<^item> \<open>SessionTypes\<close>, \<open>SessionStore\<close>: \<^verbatim>\<open>subsystems/session\<close> \<^verbatim>\<open>wire.go\<close>, \<^verbatim>\<open>persistence.go\<close>, the service's state and its
    environment; \<open>SessionLogs\<close>, \<open>SessionTelemetry\<close>: \<^verbatim>\<open>telemetry.go\<close>; \<open>SessionPrep\<close>: \<^verbatim>\<open>preparation.go\<close>;
    \<open>SessionTunnel\<close>: \<^verbatim>\<open>tunnel.go\<close> and \<^verbatim>\<open>link.go\<close>; \<open>SessionReconcile\<close>: \<^verbatim>\<open>reconcile.go\<close>; \<open>SessionLifecycle\<close>:
    \<^verbatim>\<open>lifecycle.go\<close>;
  \<^item> \<open>HostConfig\<close>: \<^verbatim>\<open>subsystems/ssh/config.go\<close>, a pasted ssh command and the configuration rendered from it; \<open>SshStore\<close>:
    \<^verbatim>\<open>subsystems/ssh\<close> \<^verbatim>\<open>persistence.go\<close>, \<^verbatim>\<open>keys.go\<close>, \<^verbatim>\<open>ssh.go\<close> and its generated queries;
  \<^item> \<open>Router\<close>: \<^verbatim>\<open>internal/router\<close> and the handler shapes of \<^verbatim>\<open>internal/security/api.go\<close>, over a model of \<^verbatim>\<open>http.ServeMux\<close>
    for the patterns the subsystems register; \<open>Http\<close>: outbound requests, \<^verbatim>\<open>internal/security/client.go\<close>; \<open>Boundary\<close>:
    \<^verbatim>\<open>subsystems/oauth/middleware.go\<close>; \<open>Identity\<close>: \<^verbatim>\<open>internal/identity\<close>, with RSA signatures computed; \<open>SignIn\<close>:
    \<^verbatim>\<open>subsystems/oauth/signin.go\<close> and \<^verbatim>\<open>internal/security/origin.go\<close>. \<open>SampleToken\<close> holds a signed token and the key it
    verifies under, for the examples;
  \<^item> \<open>TunnelClient\<close>: the Dev Tunnels management client, the rest of \<^verbatim>\<open>internal/devtunnel/devtunnel.go\<close>; \<open>Authorizer\<close>:
    \<^verbatim>\<open>internal/devtunnel/authorization.go\<close>, the device grants of both providers behind the locale \<open>device_authorizer\<close>;
    \<open>Broker\<close>: \<^verbatim>\<open>subsystems/tunnel/tunnel.go\<close> with the secret box of \<^verbatim>\<open>internal/security/files.go\<close>, the broker that
    starts, polls, refreshes and seals Dev Tunnel links. \<open>TunnelSample\<close> and \<open>BrokerSample\<close> hold their examples.

  \<^bold>\<open>How the model corresponds to the code.\<close> A struct is a record, an enumeration a datatype, a Go map an association
  list, an integer whose overflow matters is wrapped. An operation of a service is a program of a state monad over the
  state the service keeps (tables, files, in-memory maps) together with a trace of the calls it makes; every error is a
  value of \<open>go_error\<close> and every early return a branch. What is outside the process, such as clocks, random bytes, ssh
  processes, HTTP services, the file system's and the database's failures, is a record of functions (\<open>env\<close>, \<open>ssh_env\<close>, \<open>http_env\<close>, \<open>broker_env\<close>)
  indexed by the number of the call, so a theorem for every environment covers every sequence of answers and failures.
  Other requests that run between two critical sections of one request are such an answer too: the environment may replace
  the tables by any the service could have stored. JSON payloads in the database are values with their decoding errors, JSON
  from the network is text that is parsed; regular expressions are written out as recognisers; loops are structural
  recursion, and the only fuels are the number of proxy jumps \<^verbatim>\<open>FirstHop\<close> follows, which the source bounds too, and twice
  the length of a JSON text, beyond which \<open>json_parse_fuel\<close> shows that more changes nothing.

  \<^bold>\<open>What the lemmas show.\<close> \<open>SessionInvariant\<close>: the sessions and runs stored are well formed in every state the service
  reaches, by rule induction over its requests; \<open>SessionSafety\<close> (with the run lemmas of \<open>SessionEffects\<close>): ownership,
  exclusion, compensation and admission; \<open>SessionScript\<close>: the job script of a validated session is delivered unchanged;
  \<open>SessionReconcile\<close>: reconciliation follows the state machine; \<open>Slurm\<close>: who is believed about a job;
  \<open>SessionLogs\<close>: bounds of what is kept and shown. \<open>SshRuns\<close> specifies runs by every disk they go through, since a crash
  can stop them there, and proves recovery at start; \<open>SshRecovery\<close> states the requests on hosts and keys as functions of
  rows and keys, proves that the programs refine them, and that a crash at any moment and with any failure leaves a disk
  from which the next start reaches the state before or after the request. \<open>Boundary\<close> shows what reaches a handler, against
  the contract \<open>authenticator\<close> of a validator, which \<open>SignIn\<close> interprets on the Custos validation: a handler's principal was
  vouched for by a signed, unexpired token and by Custos. \<open>Identity\<close> proves the invariant of the key and user caches, where
  secrets and bearers are sent, and the refreshes of the key cache for every interleaving of their critical sections. \<open>BrokerMem\<close> proves that
  every locked section of the broker keeps the guarantee each request relies on (the relation \<open>interferes\<close>), so the lemmas
  of \<open>BrokerSafety\<close> hold for a request whatever the others do between its sections: a link is bound to the principal that
  started it, the credential handed out is the current one, starts are rate limited, and processes agree on the key of
  the box, whose package is assumed to open what it sealed (\<open>box_law\<close>). \<open>TunnelClient\<close> shows where credentials are sent and
  which records are accepted.

  \<^bold>\<open>Not modelled.\<close> The relay of bytes between connections, WebSocket framing, reverse proxies and timers are I/O without
  decisions of their own; the process wiring of \<^verbatim>\<open>main.go\<close>; third-party packages (SQLite, OpenSSH, secretbox, WebSocket upgrades
  and ssh key parsing), which are parameters; the interactive ssh control sessions.
\<close>

end
